(* ===== verification/Prelude.thy ===== *)
theory Prelude
  imports Main "HOL-Library.Word" "HOL-Library.List_Lexorder" "HOL-Library.Char_ord"
    "HOL-Library.Product_Lexorder"
begin

text \<open>
  What the components share: the result type of fallible Rust functions, the checked and
  saturating operations of Rust's unsigned integers, windows over slices, binary search, and the
  operations of \<open>str\<close> the sources use (splitting, hexadecimal text, the Unicode scalar values of
  a UTF-8 string, trimming).

  A Rust \<open>String\<close> is modelled as an Isabelle \<open>string\<close>, read as its UTF-8 bytes: \<open>length\<close> is
  \<open>str::len\<close>, the elements are \<open>str::bytes\<close>, equality and the lexicographic order are Rust's.
  \<open>chars\<close> gives the scalar values. \<open>usize\<close> values that only count elements are \<open>nat\<close>; the
  fixed-width integers whose overflow the code handles are words.
\<close>

named_theorems result_simps \<open>how a composed result succeeds or fails\<close>
named_theorems wf_intros \<open>well-formedness of values built by the constructors of the code\<close>

section \<open>Results\<close>

text \<open>\<open>Result<T, E>\<close> is \<open>'e + 'a\<close> with \<open>Inl\<close> for \<open>Err\<close>; \<open>and_then\<close> is the \<open>?\<close> operator.\<close>

type_synonym ('e, 'a) result = "'e + 'a"

fun and_then :: "('e, 'a) result \<Rightarrow> ('a \<Rightarrow> ('e, 'b) result) \<Rightarrow> ('e, 'b) result" where
  "and_then (Inl e) f = Inl e"
| "and_then (Inr x) f = f x"

fun map_err :: "('e \<Rightarrow> 'f) \<Rightarrow> ('e, 'a) result \<Rightarrow> ('f, 'a) result" where
  "map_err g (Inl e) = Inl (g e)"
| "map_err g (Inr x) = Inr x"

fun map_ok :: "('a \<Rightarrow> 'b) \<Rightarrow> ('e, 'a) result \<Rightarrow> ('e, 'b) result" where
  "map_ok g (Inl e) = Inl e"
| "map_ok g (Inr x) = Inr (g x)"

fun ok_or :: "'e \<Rightarrow> 'a option \<Rightarrow> ('e, 'a) result" where
  "ok_or e None = Inl e"
| "ok_or e (Some x) = Inr x"

definition is_ok :: "('e, 'a) result \<Rightarrow> bool" where
  "is_ok r = (case r of Inl _ \<Rightarrow> False | Inr _ \<Rightarrow> True)"

lemma is_ok_simps [simp]: "is_ok (Inr x)" "\<not> is_ok (Inl e)"
  by (simp_all add: is_ok_def)

lemma is_ok_iff [result_simps]: "is_ok r \<longleftrightarrow> (\<exists>x. r = Inr x)"
  by (cases r) auto

lemma and_then_Inr_iff [result_simps]:
  "and_then r f = Inr y \<longleftrightarrow> (\<exists>x. r = Inr x \<and> f x = Inr y)"
  by (cases r) auto

lemma and_then_Inl_iff [result_simps]:
  "and_then r f = Inl e \<longleftrightarrow> r = Inl e \<or> (\<exists>x. r = Inr x \<and> f x = Inl e)"
  by (cases r) auto

lemma and_then_assoc: "and_then (and_then r f) g = and_then r (\<lambda>x. and_then (f x) g)"
  by (cases r) auto

lemma map_err_Inr_iff [result_simps]: "map_err g r = Inr x \<longleftrightarrow> r = Inr x"
  by (cases r) auto

lemma map_err_Inl_iff [result_simps]: "map_err g r = Inl e \<longleftrightarrow> (\<exists>e'. r = Inl e' \<and> e = g e')"
  by (cases r) auto

lemma map_ok_Inr_iff [result_simps]: "map_ok g r = Inr y \<longleftrightarrow> (\<exists>x. r = Inr x \<and> y = g x)"
  by (cases r) auto

lemma map_ok_Inl_iff [result_simps]: "map_ok g r = Inl e \<longleftrightarrow> r = Inl e"
  by (cases r) auto

lemma ok_or_Inr_iff [result_simps]: "ok_or e r = Inr x \<longleftrightarrow> r = Some x"
  by (cases r) auto

lemma ok_or_Inl_iff [result_simps]: "ok_or e r = Inl e' \<longleftrightarrow> r = None \<and> e' = e"
  by (cases r) auto

text \<open>A function over a list that stops at the first error, as a loop with the question mark does.\<close>

fun traverse :: "('a \<Rightarrow> ('e, 'b) result) \<Rightarrow> 'a list \<Rightarrow> ('e, 'b list) result" where
  "traverse f [] = Inr []"
| "traverse f (x # xs) = and_then (f x) (\<lambda>y. map_ok (Cons y) (traverse f xs))"

lemma traverse_Inr: "traverse f xs = Inr ys \<longleftrightarrow> list_all2 (\<lambda>x y. f x = Inr y) xs ys"
  by (induction xs arbitrary: ys) (auto simp: result_simps list_all2_Cons1)

lemma traverse_set: "traverse f xs = Inr ys \<Longrightarrow> y \<in> set ys \<Longrightarrow> \<exists>x \<in> set xs. f x = Inr y"
  unfolding traverse_Inr by (induction rule: list_all2_induct) auto

section \<open>Fixed-width integers\<close>

type_synonym u8 = "8 word"
type_synonym u16 = "16 word"
type_synonym u32 = "32 word"
type_synonym u64 = "64 word"
type_synonym i16 = "16 word"
type_synonym i32 = "32 word"
type_synonym i64 = "64 word"

definition checked_add :: "'a::len word \<Rightarrow> 'a word \<Rightarrow> 'a word option" where
  "checked_add a b = (if unat a + unat b < 2 ^ LENGTH('a) then Some (a + b) else None)"

definition checked_sub :: "'a::len word \<Rightarrow> 'a word \<Rightarrow> 'a word option" where
  "checked_sub a b = (if b \<le> a then Some (a - b) else None)"

definition saturating_sub :: "'a::len word \<Rightarrow> 'a word \<Rightarrow> 'a word" where
  "saturating_sub a b = (if b \<le> a then a - b else 0)"

definition saturating_add :: "'a::len word \<Rightarrow> 'a word \<Rightarrow> 'a word" where
  "saturating_add a b = (if unat a + unat b < 2 ^ LENGTH('a) then a + b else - 1)"

definition saturating_mul :: "'a::len word \<Rightarrow> 'a word \<Rightarrow> 'a word" where
  "saturating_mul a b = (if unat a * unat b < 2 ^ LENGTH('a) then a * b else - 1)"

lemma checked_add_Some:
  "checked_add a b = Some c \<longleftrightarrow> unat a + unat b < 2 ^ LENGTH('a) \<and> c = a + b"
  for a b c :: "'a::len word"
  by (auto simp: checked_add_def)

lemma unat_checked_add: "checked_add a b = Some c \<Longrightarrow> unat c = unat a + unat b"
  for a b c :: "'a::len word"
  by (auto simp: checked_add_Some unat_add_lem)

lemma unat_max_word [simp]: "unat (- 1 :: 'a::len word) = 2 ^ LENGTH('a) - 1"
  by (simp add: unsigned_minus_1_eq_mask mask_eq_exp_minus_1)

lemma checked_succ_Some: "checked_add a 1 = Some c \<longleftrightarrow> a \<noteq> - 1 \<and> c = a + 1" for a c :: u64
proof -
  have "unat a + 1 < 2 ^ 64 \<longleftrightarrow> a \<noteq> - 1"
    using unsigned_less [of a, where ?'a = nat] by (auto simp: word_unat_eq_iff unat_max_word)
  then show ?thesis by (auto simp: checked_add_Some)
qed

lemma checked_succ: "checked_add a 1 = (if a = - 1 then None else Some (a + 1))" for a :: u64
proof (cases "a = - 1")
  case True
  then show ?thesis by (simp add: checked_add_def)
next
  case False
  then show ?thesis by (simp add: checked_succ_Some)
qed

lemma unat_succ: "a \<noteq> - 1 \<Longrightarrow> unat (a + 1) = Suc (unat a)" for a :: u64
  using unat_checked_add [of a 1 "a + 1"] by (simp add: checked_succ_Some)

lemma unat_saturating_sub: "unat (saturating_sub a b) = unat a - unat b"
  by (auto simp: saturating_sub_def word_le_nat_alt unat_sub)

lemma unat_saturating_add:
  "unat (saturating_add a b) = min (unat a + unat b) (2 ^ LENGTH('a) - 1)"
  for a b :: "'a::len word"
  by (auto simp: saturating_add_def unat_add_lem [THEN iffD1] unat_max_word)

text \<open>\<open>usize\<close> counters that saturate.\<close>

definition usize_max :: nat where
  "usize_max = 2 ^ 64 - 1"

definition usize_add :: "nat \<Rightarrow> nat \<Rightarrow> nat" where
  "usize_add a b = min (a + b) usize_max"

definition usize_checked_add :: "nat \<Rightarrow> nat \<Rightarrow> nat option" where
  "usize_checked_add a b = (if a + b \<le> usize_max then Some (a + b) else None)"

section \<open>Slices\<close>

text \<open>\<open>slice.windows(2).any(|[a, b]| p a b)\<close>.\<close>

fun any_pair :: "('a \<Rightarrow> 'a \<Rightarrow> bool) \<Rightarrow> 'a list \<Rightarrow> bool" where
  "any_pair p (x # y # zs) = (p x y \<or> any_pair p (y # zs))"
| "any_pair p _ = False"

lemma any_pair_successively: "any_pair p xs \<longleftrightarrow> \<not> successively (\<lambda>x y. \<not> p x y) xs"
  by (induction p xs rule: any_pair.induct) auto

lemma any_pair_iff:
  "any_pair p xs \<longleftrightarrow> (\<exists>i. Suc i < length xs \<and> p (xs ! i) (xs ! Suc i))"
  by (auto simp: any_pair_successively successively_conv_nth)

lemma strictly_sorted_iff: "\<not> any_pair (\<ge>) xs \<longleftrightarrow> sorted_wrt (<) xs" for xs :: "'a::linorder list"
proof -
  have "sorted_wrt (<) xs \<longleftrightarrow> successively (<) xs"
    by (rule successively_conv_sorted_wrt [symmetric]) (auto intro: transpI)
  then show ?thesis
    by (simp add: any_pair_successively not_le)
qed

lemma sorted_wrt_less_distinct: "sorted_wrt (<) xs \<Longrightarrow> distinct xs" for xs :: "'a::linorder list"
  by (simp add: strict_sorted_iff)

lemma sorted_no_dup_pair: "sorted xs \<Longrightarrow> \<not> any_pair (=) xs \<longleftrightarrow> distinct xs"
  for xs :: "'a::linorder list"
  by (induction xs rule: induct_list012) auto

text \<open>
  \<open>slice.binary_search(x).is_ok()\<close>: the window of \<open>len\<close> elements from \<open>base\<close> is halved until
  at most one element is left.
\<close>

function bsearch :: "'a::linorder list \<Rightarrow> 'a \<Rightarrow> nat \<Rightarrow> nat \<Rightarrow> bool" where
  "bsearch xs x base len =
     (if len = 0 then False
      else if len = 1 then xs ! base = x
      else let half = len div 2; mid = base + half
           in bsearch xs x (if x < xs ! mid then base else mid) (len - half))"
  by pat_completeness auto
termination
  by (relation "measure (\<lambda>(xs, x, base, len). len)") auto

declare bsearch.simps [simp del]

definition binary_search :: "'a::linorder list \<Rightarrow> 'a \<Rightarrow> bool" where
  "binary_search xs x = bsearch xs x 0 (length xs)"

lemma bsearch_iff:
  assumes "sorted xs" and "base + len \<le> length xs"
    and "\<forall>i < length xs. xs ! i = x \<longrightarrow> (\<exists>j. base \<le> j \<and> j < base + len \<and> xs ! j = x)"
  shows "bsearch xs x base len \<longleftrightarrow> x \<in> set xs"
  using assms
proof (induction xs x base len rule: bsearch.induct)
  case (1 xs x base len)
  show ?case
  proof (cases "len \<le> 1")
    case True
    then consider "len = 0" | "len = 1" by linarith
    then show ?thesis
    proof cases
      case 1
      then show ?thesis using "1.prems" by (auto simp: bsearch.simps in_set_conv_nth)
    next
      case 2
      then have "\<forall>i < length xs. xs ! i = x \<longrightarrow> xs ! base = x"
        using "1.prems"(3) by (metis One_nat_def add.commute le_antisym less_Suc_eq_le plus_1_eq_Suc)
      with 2 "1.prems"(2) show ?thesis
        by (subst bsearch.simps) (auto simp: in_set_conv_nth intro!: exI [of _ base])
    qed
  next
    case False
    define half where "half = len div 2"
    define mid where "mid = base + half"
    define base' where "base' = (if x < xs ! mid then base else mid)"
    have len: "0 < half" "half < len" "mid < length xs"
      using False "1.prems"(2) by (auto simp: half_def mid_def)
    have mono: "xs ! i \<le> xs ! j" if "i \<le> j" "j < length xs" for i j
      using "1.prems"(1) that by (simp add: sorted_iff_nth_mono)
    have win: "\<exists>j. base' \<le> j \<and> j < base' + (len - half) \<and> xs ! j = x"
      if i: "i < length xs" "xs ! i = x" for i
    proof -
      obtain j where j: "base \<le> j" "j < base + len" "xs ! j = x"
        using "1.prems"(3) i by blast
      have jl: "j < length xs" using j "1.prems"(2) by linarith
      show ?thesis
      proof (cases "x < xs ! mid")
        case True
        then have "\<not> mid \<le> j" using mono [of mid j] jl j(3) by auto
        then have "j < base + (len - half)" by (simp add: mid_def half_def)
        with j True show ?thesis by (auto simp: base'_def)
      next
        case False
        show ?thesis
        proof (cases "mid \<le> j")
          case True
          with j False len show ?thesis
            by (intro exI [of _ j]) (auto simp: base'_def mid_def)
        next
          case F: False
          then have "xs ! mid = x" using mono [of j mid] len(3) j(3) False by auto
          with False len show ?thesis
            by (intro exI [of _ mid]) (auto simp: base'_def)
        qed
      qed
    qed
    have "bsearch xs x base len = bsearch xs x base' (len - half)"
      using False by (subst bsearch.simps) (simp add: Let_def half_def mid_def base'_def)
    also have "\<dots> \<longleftrightarrow> x \<in> set xs"
    proof -
      have "base' + (len - half) \<le> length xs"
        using "1.prems"(2) len by (auto simp: base'_def mid_def)
      then show ?thesis
        using "1.IH" [of half mid] "1.prems"(1) False win
        by (simp add: half_def mid_def base'_def)
    qed
    finally show ?thesis .
  qed
qed

lemma binary_search_iff: "sorted xs \<Longrightarrow> binary_search xs x \<longleftrightarrow> x \<in> set xs"
  unfolding binary_search_def by (rule bsearch_iff) auto

section \<open>Ordered maps\<close>

text \<open>A \<open>BTreeMap\<close> is the list of its entries in the order of their keys.\<close>

fun btree_insert :: "'k::linorder \<Rightarrow> 'v \<Rightarrow> ('k \<times> 'v) list \<Rightarrow> ('k \<times> 'v) list" where
  "btree_insert k v [] = [(k, v)]"
| "btree_insert k v ((k', v') # entries) =
     (if k < k' then (k, v) # (k', v') # entries
      else if k = k' then (k, v) # entries
      else (k', v') # btree_insert k v entries)"

definition btree_collect :: "('k::linorder \<times> 'v) list \<Rightarrow> ('k \<times> 'v) list" where
  "btree_collect entries = foldl (\<lambda>m (k, v). btree_insert k v m) [] entries"

lemma map_of_btree_insert [simp]: "map_of (btree_insert k v m) = (map_of m)(k \<mapsto> v)"
  by (induction m) auto

lemma btree_insert_keys [simp]: "fst ` set (btree_insert k v m) = insert k (fst ` set m)"
proof (induction m)
  case (Cons x m)
  then show ?case by (cases x) (simp add: insert_commute)
qed simp

lemma btree_insert_sorted: "sorted_wrt (<) (map fst m) \<Longrightarrow> sorted_wrt (<) (map fst (btree_insert k v m))"
proof (induction m)
  case (Cons x m)
  obtain k' v' where x: "x = (k', v')" by fastforce
  have "y \<in> fst ` set (btree_insert k v m) \<Longrightarrow> k' < k \<Longrightarrow> k' < y" for y
    using Cons.prems by (auto simp: x)
  then show ?case using Cons by (auto simp: x)
qed simp

lemma btree_collect_sorted: "sorted_wrt (<) (map fst (btree_collect entries))"
proof -
  have "sorted_wrt (<) (map fst m) \<Longrightarrow>
      sorted_wrt (<) (map fst (foldl (\<lambda>m (k, v). btree_insert k v m) m entries))" for m
    by (induction entries arbitrary: m) (auto simp: btree_insert_sorted split: prod.splits)
  then show ?thesis by (simp add: btree_collect_def)
qed

lemma map_of_btree_collect: "map_of (btree_collect entries) = map_of (rev entries)"
proof -
  have "map_of (foldl (\<lambda>m (k, v). btree_insert k v m) m entries) = map_of (rev entries @ m)" for m
    by (induction entries arbitrary: m) (auto simp: fun_eq_iff map_add_def split: option.splits prod.splits)
  then show ?thesis by (simp add: btree_collect_def)
qed

lemma btree_collect_keys: "fst ` set (btree_collect entries) = fst ` set entries"
proof -
  have "fst ` set (foldl (\<lambda>m (k, v). btree_insert k v m) m entries) = fst ` set entries \<union> fst ` set m" for m
  proof (induction entries arbitrary: m)
    case (Cons x entries)
    then show ?case by (cases x) simp
  qed simp
  then show ?thesis by (simp add: btree_collect_def)
qed

end
