(* ===== verification/Rust_Str.thy ===== *)
theory Rust_Str
  imports Prelude
begin

text \<open>
  The operations of Rust's \<open>str\<close> that the sources use, on strings of UTF-8 bytes: ASCII classes,
  splitting, hexadecimal formatting and parsing, the Unicode scalar values of a string and
  trimming of Unicode white space.
\<close>

section \<open>ASCII classes\<close>

abbreviation byte :: "char \<Rightarrow> nat" where
  "byte c \<equiv> of_char c"

definition in_range :: "char \<Rightarrow> nat \<Rightarrow> nat \<Rightarrow> bool" where
  "in_range c lo hi = (lo \<le> byte c \<and> byte c \<le> hi)"

definition is_ascii_digit :: "char \<Rightarrow> bool" where
  "is_ascii_digit c = in_range c 48 57"

definition is_ascii_lowercase :: "char \<Rightarrow> bool" where
  "is_ascii_lowercase c = in_range c 97 122"

definition is_ascii_uppercase :: "char \<Rightarrow> bool" where
  "is_ascii_uppercase c = in_range c 65 90"

definition is_ascii_alphanumeric :: "char \<Rightarrow> bool" where
  "is_ascii_alphanumeric c = (is_ascii_digit c \<or> is_ascii_lowercase c \<or> is_ascii_uppercase c)"

definition hex_lower :: "char \<Rightarrow> bool" where
  "hex_lower c = (is_ascii_digit c \<or> in_range c 97 102)"

lemmas ascii_defs = in_range_def is_ascii_digit_def is_ascii_lowercase_def
  is_ascii_uppercase_def is_ascii_alphanumeric_def hex_lower_def

section \<open>Splitting\<close>

text \<open>\<open>str::split_once\<close> and \<open>str::rsplit_once\<close> for an ASCII separator; \<open>str::strip_prefix\<close>.\<close>

fun split_once :: "char \<Rightarrow> string \<Rightarrow> (string \<times> string) option" where
  "split_once c [] = None"
| "split_once c (x # xs) =
     (if x = c then Some ([], xs) else map_option (apfst (Cons x)) (split_once c xs))"

definition rsplit_once :: "char \<Rightarrow> string \<Rightarrow> (string \<times> string) option" where
  "rsplit_once c s = map_option (\<lambda>(a, b). (rev b, rev a)) (split_once c (rev s))"

definition join :: "string \<Rightarrow> string list \<Rightarrow> string" where
  "join sep ws = (case ws of [] \<Rightarrow> [] | w # ws \<Rightarrow> w @ concat (map (\<lambda>w. sep @ w) ws))"

fun strip_prefix :: "string \<Rightarrow> string \<Rightarrow> string option" where
  "strip_prefix [] s = Some s"
| "strip_prefix (p # ps) [] = None"
| "strip_prefix (p # ps) (x # xs) = (if p = x then strip_prefix ps xs else None)"

definition strip_suffix :: "string \<Rightarrow> string \<Rightarrow> string option" where
  "strip_suffix s suffix =
     (if suffix = drop (length s - length suffix) s then Some (take (length s - length suffix) s) else None)"

lemma split_once_Some: "split_once c s = Some (a, b) \<longleftrightarrow> s = a @ c # b \<and> c \<notin> set a"
proof (induction s arbitrary: a)
  case Nil
  then show ?case by simp
next
  case (Cons x s)
  show ?case
  proof (cases a)
    case Nil
    then show ?thesis using Cons by auto
  next
    case (Cons y a')
    with Cons.IH [of a'] show ?thesis by auto
  qed
qed

lemma split_once_None: "split_once c s = None \<longleftrightarrow> c \<notin> set s"
  by (induction s) auto

lemma rsplit_once_Some: "rsplit_once c s = Some (a, b) \<longleftrightarrow> s = a @ c # b \<and> c \<notin> set b"
proof -
  have "rsplit_once c s = Some (a, b) \<longleftrightarrow> split_once c (rev s) = Some (rev b, rev a)"
    by (auto simp: rsplit_once_def)
  also have "\<dots> \<longleftrightarrow> rev s = rev b @ c # rev a \<and> c \<notin> set b"
    by (simp add: split_once_Some)
  also have "\<dots> \<longleftrightarrow> s = a @ c # b \<and> c \<notin> set b"
    by (metis append.assoc append_Cons append_Nil rev_append rev_rev_ident rev_singleton_conv)
  finally show ?thesis .
qed

lemma rsplit_once_append [simp]: "c \<notin> set b \<Longrightarrow> rsplit_once c (a @ c # b) = Some (a, b)"
  by (simp add: rsplit_once_Some)

lemma rsplit_once_None: "rsplit_once c s = None \<longleftrightarrow> c \<notin> set s"
  by (auto simp: rsplit_once_def split_once_None)

lemma strip_prefix_Some: "strip_prefix p s = Some r \<longleftrightarrow> s = p @ r"
  by (induction p s rule: strip_prefix.induct) auto

lemma strip_prefix_append [simp]: "strip_prefix p (p @ s) = Some s"
  by (simp add: strip_prefix_Some)

section \<open>Hexadecimal text\<close>

definition hex_digit :: "nat \<Rightarrow> char" where
  "hex_digit n = (if n < 10 then char_of (48 + n) else char_of (87 + n))"

fun hex_text :: "nat \<Rightarrow> string" where
  "hex_text n = (if n < 16 then [hex_digit n] else hex_text (n div 16) @ [hex_digit (n mod 16)])"

declare hex_text.simps [simp del]

text \<open>\<open>format!("{:0w$x}", n)\<close>.\<close>

definition format_hex :: "nat \<Rightarrow> nat \<Rightarrow> string" where
  "format_hex w n = (let h = hex_text n in replicate (w - length h) (CHR ''0'') @ h)"

text \<open>\<open>u64::from_str_radix(text, 16)\<close>: an optional sign, digits of either case, no overflow.\<close>

definition hex_digit_value :: "char \<Rightarrow> nat option" where
  "hex_digit_value c =
     (if is_ascii_digit c then Some (byte c - 48)
      else if in_range c 97 102 then Some (byte c - 87)
      else if in_range c 65 70 then Some (byte c - 55)
      else None)"

fun hex_value :: "nat \<Rightarrow> string \<Rightarrow> nat option" where
  "hex_value acc [] = Some acc"
| "hex_value acc (c # cs) =
     (case hex_digit_value c of
        None \<Rightarrow> None
      | Some d \<Rightarrow> if 16 * acc + d < 2 ^ 64 then hex_value (16 * acc + d) cs else None)"

definition from_str_radix16 :: "string \<Rightarrow> u64 option" where
  "from_str_radix16 text =
     (let digits = (case text of [] \<Rightarrow> [] | c # cs \<Rightarrow> if c = CHR ''+'' then cs else text)
      in if digits = [] then None else map_option word_of_nat (hex_value 0 digits))"

lemma hex_lower_hex_digit: "n < 16 \<Longrightarrow> hex_lower (hex_digit n)"
  by (auto simp: hex_digit_def ascii_defs)

lemma hex_digit_value_hex_digit [simp]: "n < 16 \<Longrightarrow> hex_digit_value (hex_digit n) = Some n"
  by (auto simp: hex_digit_value_def hex_digit_def ascii_defs)

lemma hex_digit_value_lower:
  "hex_lower c \<Longrightarrow> \<exists>d. hex_digit_value c = Some d \<and> d < 16 \<and> hex_digit d = c"
  by (auto simp: hex_digit_value_def hex_digit_def ascii_defs)

lemma hex_text_lower: "list_all hex_lower (hex_text n)"
  by (induction n rule: hex_text.induct)
    (subst hex_text.simps, auto simp: hex_lower_hex_digit)

lemma hex_text_nonempty [simp]: "hex_text n \<noteq> []"
  by (subst hex_text.simps) simp

lemma length_hex_text: "n < 16 ^ Suc k \<Longrightarrow> length (hex_text n) \<le> Suc k"
proof (induction n arbitrary: k rule: hex_text.induct)
  case (1 n)
  show ?case
  proof (cases "n < 16")
    case True
    then show ?thesis by (subst hex_text.simps) simp
  next
    case False
    then obtain j where k: "k = Suc j" using "1.prems" by (cases k) auto
    have "n div 16 < 16 ^ Suc j" using "1.prems" k by (simp add: less_mult_imp_div_less)
    then have "length (hex_text (n div 16)) \<le> Suc j" using "1.IH" False by simp
    then show ?thesis using False k by (subst hex_text.simps) simp
  qed
qed

lemma length_format_hex: "n < 16 ^ Suc k \<Longrightarrow> length (format_hex (Suc k) n) = Suc k"
  using length_hex_text [of n k] by (simp add: format_hex_def Let_def)

lemma format_hex_lower: "list_all hex_lower (format_hex w n)"
  using hex_text_lower [of n]
  by (auto simp: format_hex_def Let_def list_all_iff ascii_defs)

lemma hex_value_append:
  "hex_value acc (xs @ ys) = Option.bind (hex_value acc xs) (\<lambda>a. hex_value a ys)"
  by (induction acc xs rule: hex_value.induct) (auto split: option.split)

lemma hex_value_hex_text: "n < 2 ^ 64 \<Longrightarrow> hex_value 0 (hex_text n) = Some n"
proof (induction n rule: hex_text.induct)
  case (1 n)
  show ?case
  proof (cases "n < 16")
    case True
    then show ?thesis by (subst hex_text.simps) simp
  next
    case False
    then have "hex_value 0 (hex_text (n div 16)) = Some (n div 16)"
      using 1 by simp
    then show ?thesis
      using False "1.prems" by (subst hex_text.simps) (simp add: hex_value_append)
  qed
qed

lemma hex_value_zeros: "hex_value 0 (replicate k (CHR ''0'') @ s) = hex_value 0 s"
  by (induction k) (auto simp: hex_digit_value_def ascii_defs)

lemma from_str_radix16_format:
  "from_str_radix16 (format_hex w (unat n)) = Some n" for n :: u64
proof -
  have v: "hex_value 0 (format_hex w (unat n)) = Some (unat n)"
    using hex_value_hex_text [of "unat n"] unsigned_less [of n, where ?'a = nat]
    by (simp add: format_hex_def Let_def hex_value_zeros)
  have ne: "format_hex w (unat n) \<noteq> []"
    by (simp add: format_hex_def Let_def)
  then have "hex_lower (hd (format_hex w (unat n)))"
    using format_hex_lower [of w "unat n"] by (simp add: list_all_iff)
  then have "hd (format_hex w (unat n)) \<noteq> CHR ''+''"
    by (auto simp: ascii_defs)
  with v ne show ?thesis
    by (cases "format_hex w (unat n)") (auto simp: from_str_radix16_def)
qed

lemma hex_value_inverse:
  "list_all hex_lower s \<Longrightarrow> hex_value a s = Some n \<Longrightarrow>
     n div 16 ^ length s = a \<and>
     (\<forall>k < length s. s ! k = hex_digit (n div 16 ^ (length s - Suc k) mod 16))"
proof (induction s arbitrary: a)
  case Nil
  then show ?case by simp
next
  case (Cons c s)
  then obtain d where d: "hex_digit_value c = Some d" "d < 16" "hex_digit d = c"
    using hex_digit_value_lower [of c] by auto
  let ?a = "16 * a + d"
  have rec: "hex_value ?a s = Some n" using Cons.prems d by (auto split: if_splits)
  then have IH: "n div 16 ^ length s = ?a"
    "\<forall>k < length s. s ! k = hex_digit (n div 16 ^ (length s - Suc k) mod 16)"
    using Cons by auto
  have "n div 16 ^ length (c # s) = n div 16 ^ length s div 16"
    by (simp add: div_mult2_eq [symmetric] mult.commute)
  also have "\<dots> = ?a div 16" using IH(1) by simp
  finally have "n div 16 ^ length (c # s) = ?a div 16" .
  then have dv: "n div 16 ^ length (c # s) = a" using d by simp

  have "(c # s) ! k = hex_digit (n div 16 ^ (length (c # s) - Suc k) mod 16)"
    if "k < length (c # s)" for k
    using that IH d by (cases k) auto
  with dv show ?case by blast
qed

lemma hex_value_bound: "hex_value a s = Some n \<Longrightarrow> a < 2 ^ 64 \<Longrightarrow> n < 2 ^ 64"
  by (induction a s rule: hex_value.induct) (auto split: option.splits if_splits)

lemma hex_value_inj:
  assumes "list_all hex_lower s" "list_all hex_lower t" "length s = length t"
    and "hex_value 0 s = Some n" "hex_value 0 t = Some n"
  shows "s = t"
  using hex_value_inverse [of s 0 n] hex_value_inverse [of t 0 n] assms
  by (intro nth_equalityI) auto

section \<open>Unicode\<close>

text \<open>
  \<open>str::chars\<close>: the scalar values of a UTF-8 string. Rust keeps every \<open>str\<close> valid UTF-8; the
  replacement character stands for a truncated sequence, which no \<open>str\<close> has.
\<close>

fun scalars :: "nat list \<Rightarrow> nat list" where
  "scalars [] = []"
| "scalars (b # r) =
     (if b < 128 then b # scalars r
      else if b < 224 then
        (case r of b1 # r1 \<Rightarrow> ((b mod 32) * 64 + b1 mod 64) # scalars r1 | [] \<Rightarrow> [65533])
      else if b < 240 then
        (case r of
           b1 # b2 # r2 \<Rightarrow> ((b mod 16) * 4096 + (b1 mod 64) * 64 + b2 mod 64) # scalars r2
         | _ \<Rightarrow> [65533])
      else
        (case r of
           b1 # b2 # b3 # r3 \<Rightarrow>
             ((b mod 8) * 262144 + (b1 mod 64) * 4096 + (b2 mod 64) * 64 + b3 mod 64) # scalars r3
         | _ \<Rightarrow> [65533]))"

definition chars :: "string \<Rightarrow> nat list" where
  "chars s = scalars (map of_char s)"

text \<open>\<open>char::encode_utf8\<close> and \<open>char::len_utf8\<close>.\<close>

definition utf8_bytes :: "nat \<Rightarrow> nat list" where
  "utf8_bytes c =
     (if c < 128 then [c]
      else if c < 2048 then [192 + c div 64, 128 + c mod 64]
      else if c < 65536 then [224 + c div 4096, 128 + c div 64 mod 64, 128 + c mod 64]
      else [240 + c div 262144, 128 + c div 4096 mod 64, 128 + c div 64 mod 64, 128 + c mod 64])"

definition utf8 :: "nat list \<Rightarrow> string" where
  "utf8 cs = map char_of (concat (map utf8_bytes cs))"

definition len_utf8 :: "nat \<Rightarrow> nat" where
  "len_utf8 c = length (utf8_bytes c)"

text \<open>\<open>char::is_control\<close> (category Cc), \<open>char::is_whitespace\<close> (White_Space) and \<open>str::trim\<close>.\<close>

definition is_control :: "nat \<Rightarrow> bool" where
  "is_control c = (c < 32 \<or> 127 \<le> c \<and> c < 160)"

definition is_whitespace :: "nat \<Rightarrow> bool" where
  "is_whitespace c =
     (9 \<le> c \<and> c \<le> 13 \<or> c = 32 \<or> c = 133 \<or> c = 160 \<or> c = 5760 \<or> 8192 \<le> c \<and> c \<le> 8202 \<or>
      c = 8232 \<or> c = 8233 \<or> c = 8239 \<or> c = 8287 \<or> c = 12288)"

definition trim_chars :: "nat list \<Rightarrow> nat list" where
  "trim_chars cs = rev (dropWhile is_whitespace (rev (dropWhile is_whitespace cs)))"

definition trim :: "string \<Rightarrow> string" where
  "trim s = utf8 (trim_chars (chars s))"

lemma utf8_parts:
  fixes c :: nat
  shows "c div 64 * 64 + c mod 64 = c"
    and "c div 4096 * 4096 + c div 64 mod 64 * 64 + c mod 64 = c"
    and "c div 262144 * 262144 + c div 4096 mod 64 * 4096 + c div 64 mod 64 * 64 + c mod 64 = c"
proof -
  show 1: "c div 64 * 64 + c mod 64 = c" by simp
  have d: "c div 4096 = c div 64 div 64" "c div 262144 = c div 4096 div 64"
    by (simp_all add: div_mult2_eq [symmetric])
  have "c div 64 div 64 * 64 + c div 64 mod 64 = c div 64" by simp
  then show 2: "c div 4096 * 4096 + c div 64 mod 64 * 64 + c mod 64 = c"
    using 1 d by linarith
  have "c div 4096 div 64 * 64 + c div 4096 mod 64 = c div 4096" by simp
  then show "c div 262144 * 262144 + c div 4096 mod 64 * 4096 + c div 64 mod 64 * 64 + c mod 64 = c"
    using 2 d by linarith
qed

lemma add_mod_small: "m < k \<Longrightarrow> (j * k + m) mod k = m" for m :: nat
  by simp

lemma lead_byte_mod:
  "m < 32 \<Longrightarrow> (192 + m) mod 32 = m" "m < 16 \<Longrightarrow> (224 + m) mod 16 = m"
  "m < 8 \<Longrightarrow> (240 + m) mod 8 = m" "m < 64 \<Longrightarrow> (128 + m) mod 64 = m" for m :: nat
  using add_mod_small [of m 32 6] add_mod_small [of m 16 14] add_mod_small [of m 8 30]
    add_mod_small [of m 64 2] by simp_all

lemma scalars_utf8_bytes:
  assumes "c < 1114112"
  shows "scalars (utf8_bytes c @ r) = c # scalars r"
proof -
  consider "c < 128" | "128 \<le> c" "c < 2048" | "2048 \<le> c" "c < 65536" | "65536 \<le> c"
    by linarith
  then show ?thesis
  proof cases
    case 1
    then show ?thesis by (simp add: utf8_bytes_def)
  next
    case 2
    then have q: "c div 64 < 32" by (simp add: less_mult_imp_div_less)
    have "scalars ([192 + q, 128 + m] @ r) = (q * 64 + m) # scalars r" if "q < 32" "m < 64" for q m
      using that by (simp add: lead_byte_mod)
    from this [of "c div 64" "c mod 64"] q 2 show ?thesis
      by (simp add: utf8_bytes_def)
  next
    case 3
    then have "c div 4096 < 16" by (simp add: less_mult_imp_div_less)
    with 3 show ?thesis
      using utf8_parts(2) [of c] by (simp add: utf8_bytes_def lead_byte_mod)
  next
    case 4
    have "c div 262144 < 8" using assms by (simp add: less_mult_imp_div_less)
    with 4 show ?thesis
      using utf8_parts(3) [of c] by (simp add: utf8_bytes_def lead_byte_mod)
  qed
qed

lemma scalars_concat_utf8:
  "list_all (\<lambda>c. c < 1114112) cs \<Longrightarrow> scalars (concat (map utf8_bytes cs)) = cs"
  by (induction cs) (auto simp: scalars_utf8_bytes)

lemma utf8_append: "utf8 (xs @ ys) = utf8 xs @ utf8 ys"
  by (simp add: utf8_def)

lemma utf8_bytes_byte: "c < 1114112 \<Longrightarrow> b \<in> set (utf8_bytes c) \<Longrightarrow> b < 256"
  by (auto simp: utf8_bytes_def split: if_splits)

lemma chars_utf8 [simp]: "list_all (\<lambda>c. c < 1114112) cs \<Longrightarrow> chars (utf8 cs) = cs"
proof -
  assume cs: "list_all (\<lambda>c. c < 1114112) cs"
  have "map (of_char \<circ> (char_of :: nat \<Rightarrow> char)) (concat (map utf8_bytes cs)) =
      concat (map utf8_bytes cs)"
    using cs utf8_bytes_byte by (intro map_idI) (fastforce simp: list_all_iff)
  then show ?thesis
    using cs by (simp add: chars_def utf8_def scalars_concat_utf8)
qed

text \<open>\<open>str::is_char_boundary\<close> and \<open>str::floor_char_boundary\<close>.\<close>

definition char_boundary :: "string \<Rightarrow> nat \<Rightarrow> bool" where
  "char_boundary s i =
     (i = 0 \<or> i = length s \<or> i < length s \<and> \<not> (128 \<le> byte (s ! i) \<and> byte (s ! i) < 192))"

definition floor_char_boundary :: "string \<Rightarrow> nat \<Rightarrow> nat" where
  "floor_char_boundary s i =
     (if i \<ge> length s then length s else last (filter (char_boundary s) [0..<Suc i]))"

text \<open>
  A Unicode scalar value (\<open>char\<close>), \<open>char::from_u32\<close>, and the check of \<open>String::from_utf8\<close>: the bytes
  are the encoding of the scalar values they read as.
\<close>

definition is_scalar :: "nat \<Rightarrow> bool" where
  "is_scalar c = (c < 0x110000 \<and> \<not> (0xD800 \<le> c \<and> c < 0xE000))"

definition from_u32 :: "nat \<Rightarrow> nat option" where
  "from_u32 c = (if is_scalar c then Some c else None)"

definition valid_utf8 :: "string \<Rightarrow> bool" where
  "valid_utf8 s = (list_all is_scalar (chars s) \<and> utf8 (chars s) = s)"

lemma is_scalar_less: "is_scalar c \<Longrightarrow> c < 1114112"
  by (simp add: is_scalar_def)

lemma scalars_less: "list_all is_scalar cs \<Longrightarrow> list_all (\<lambda>c. c < 1114112) cs"
  by (auto simp: list_all_iff is_scalar_def)

lemma valid_utf8_iff: "valid_utf8 s \<longleftrightarrow> (\<exists>cs. list_all is_scalar cs \<and> s = utf8 cs)"
proof
  assume "\<exists>cs. list_all is_scalar cs \<and> s = utf8 cs"
  then obtain cs where cs: "list_all is_scalar cs" "s = utf8 cs" by blast
  then have "chars s = cs" by (simp add: scalars_less)
  with cs show "valid_utf8 s" by (simp add: valid_utf8_def)
qed (auto simp: valid_utf8_def intro!: exI [of _ "chars s"])

lemma chars_ascii: "list_all (\<lambda>c. byte c < 128) s \<Longrightarrow> chars s = map of_char s"
  by (induction s) (auto simp: chars_def)

lemma valid_utf8_ascii: "list_all (\<lambda>c. byte c < 128) s \<Longrightarrow> valid_utf8 s"
proof -
  assume s: "list_all (\<lambda>c. byte c < 128) s"
  then have "utf8 (map of_char s) = s"
    by (induction s) (auto simp: utf8_def utf8_bytes_def)
  with s show ?thesis by (auto simp: valid_utf8_def chars_ascii list_all_iff is_scalar_def)
qed

section \<open>Decimal text and substrings\<close>

fun decimal :: "nat \<Rightarrow> string" where
  "decimal n =
     (if n < 10 then [char_of (48 + n)] else decimal (n div 10) @ [char_of (48 + n mod 10)])"

declare decimal.simps [simp del]

text \<open>\<open>str::contains\<close> with a string pattern.\<close>

fun str_contains :: "string \<Rightarrow> string \<Rightarrow> bool" where
  "str_contains needle [] = (needle = [])"
| "str_contains needle (x # xs) =
     (take (length needle) (x # xs) = needle \<or> str_contains needle xs)"

lemma str_contains_iff: "str_contains needle s \<longleftrightarrow> (\<exists>a b. s = a @ needle @ b)"
proof (induction s)
  case Nil
  then show ?case by auto
next
  case (Cons x s)
  have "take (length needle) (x # s) = needle \<longleftrightarrow> (\<exists>b. x # s = needle @ b)"
    by (metis append_eq_conv_conj append_take_drop_id)
  moreover have "(\<exists>a b. x # s = a @ needle @ b) \<longleftrightarrow>
      (\<exists>b. x # s = needle @ b) \<or> (\<exists>a b. s = a @ needle @ b)"
    by (metis append_Cons append_Nil append_eq_Cons_conv)
  ultimately show ?case using Cons.IH by simp
qed

text \<open>\<open>str::parse::<i32>\<close>: an optional sign, at least one digit, and a value in range.\<close>

definition dec_value :: "string \<Rightarrow> nat" where
  "dec_value ds = foldl (\<lambda>n d. 10 * n + (byte d - 48)) 0 ds"

definition parse_i32 :: "string \<Rightarrow> 32 word option" where
  "parse_i32 s =
     (let (neg, ds) =
        (case s of
           [] \<Rightarrow> (False, [])
         | c # r \<Rightarrow>
             if c = CHR ''-'' then (True, r) else if c = CHR ''+'' then (False, r) else (False, s))
      in if ds = [] \<or> \<not> list_all is_ascii_digit ds then None
         else let v = (if neg then - int (dec_value ds) else int (dec_value ds))
              in if - (2 ^ 31) \<le> v \<and> v < 2 ^ 31 then Some (word_of_int v) else None)"

lemma digit_char: "d < 10 \<Longrightarrow> byte (char_of (48 + d)) = 48 + d" for d :: nat
  by (simp add: of_char_of)

lemma decimal_digits: "list_all is_ascii_digit (decimal n)"
proof (induction n rule: decimal.induct)
  case (1 n)
  then show ?case
    by (subst decimal.simps) (auto simp: is_ascii_digit_def [abs_def] in_range_def of_char_of)
qed

lemma dec_value_snoc: "dec_value (ds @ [d]) = 10 * dec_value ds + (byte d - 48)"
  by (simp add: dec_value_def)

lemma dec_value_decimal [simp]: "dec_value (decimal n) = n"
proof (induction n rule: decimal.induct)
  case (1 n)
  show ?case
  proof (cases "n < 10")
    case True
    then show ?thesis by (subst decimal.simps) (simp add: dec_value_def of_char_of)
  next
    case False
    then show ?thesis
      using 1 by (subst decimal.simps) (simp add: dec_value_snoc of_char_of)
  qed
qed

lemma decimal_nonempty: "decimal n \<noteq> []"
  by (subst decimal.simps) simp

lemma parse_i32_decimal:
  assumes "n < 2 ^ 31"
  shows "parse_i32 (decimal n) = Some (of_nat n)"
proof -
  obtain c r where c: "decimal n = c # r" using decimal_nonempty by (cases "decimal n") auto
  then have "is_ascii_digit c" using decimal_digits [of n] by simp
  then have "c \<noteq> CHR ''-''" "c \<noteq> CHR ''+''" by (auto simp: is_ascii_digit_def in_range_def)
  then have "parse_i32 (decimal n) =
      (if decimal n = [] \<or> \<not> list_all is_ascii_digit (decimal n) then None
       else let v = int (dec_value (decimal n))
            in if - (2 ^ 31) \<le> v \<and> v < 2 ^ 31 then Some (word_of_int v) else None)"
    by (simp only: parse_i32_def c list.case Let_def prod.case if_False)
  with decimal_digits [of n] decimal_nonempty [of n] assms show ?thesis by simp
qed

end
