(* ===== verification/Chat_Id.thy ===== *)
theory Chat_Id
  imports Rust_Str
begin

text \<open>
  The identities of the chat (\<open>chat/id.rs\<close>): machines (\<open>Origin\<close>), agents, events, rooms,
  conversations, bounded texts and audiences, each with the constructor that validates it, its
  text form and its well-formedness. The text forms parse back to what was printed
  (\<open>agent_id_roundtrip\<close> and its siblings), and an audience answers membership exactly.
\<close>

datatype invalid = Invalid string

definition lower_hex :: "string \<Rightarrow> nat \<Rightarrow> bool" where
  "lower_hex text len = (length text = len \<and> list_all hex_lower text)"

definition check :: "bool \<Rightarrow> string \<Rightarrow> (invalid, unit) result" where
  "check valid what = (if valid then Inr () else Inl (Invalid what))"

lemma check_Inr [result_simps]: "check v w = Inr u \<longleftrightarrow> v"
  by (auto simp: check_def)

lemma check_Inl [result_simps]: "check v w = Inl e \<longleftrightarrow> \<not> v \<and> e = Invalid w"
  by (auto simp: check_def)

section \<open>Machines, agents, rooms\<close>

text \<open>
  \<open>validated_string!(Origin, \<dots>)\<close>, \<open>AgentName\<close>, \<open>RoomName\<close>: a private string and \<open>TryFrom<String>\<close>.
\<close>

datatype origin = Origin (origin_str: string)

definition origin_try_from :: "string \<Rightarrow> (invalid, origin) result" where
  "origin_try_from text =
     and_then (check (lower_hex text 32) ''machine identity'') (\<lambda>_. Inr (Origin text))"

text \<open>\<open>Origin::from_entropy\<close>: the 16 bytes as one big-endian \<open>u128\<close>, in 32 hexadecimal digits.\<close>

definition from_entropy :: "u8 list \<Rightarrow> origin" where
  "from_entropy bytes = Origin (format_hex 32 (foldl (\<lambda>n b. 256 * n + unat b) 0 bytes))"

definition handle_lower :: "char \<Rightarrow> bool" where
  "handle_lower b = (is_ascii_lowercase b \<or> is_ascii_digit b)"

definition valid_handle :: "string \<Rightarrow> bool" where
  "valid_handle text =
     (1 \<le> length text \<and> length text \<le> 64 \<and>
      (case text of [] \<Rightarrow> False | b # _ \<Rightarrow> handle_lower b) \<and>
      list_all (\<lambda>b. handle_lower b \<or> b = CHR ''.'' \<or> b = CHR ''-'' \<or> b = CHR ''_'') text)"

datatype agent_name = AgentName (agent_name_str: string)
datatype room_name = RoomName (room_name_str: string)

definition agent_name_try_from :: "string \<Rightarrow> (invalid, agent_name) result" where
  "agent_name_try_from text =
     and_then (check (valid_handle text) ''agent name'') (\<lambda>_. Inr (AgentName text))"

definition room_name_try_from :: "string \<Rightarrow> (invalid, room_name) result" where
  "room_name_try_from text =
     and_then (check (valid_handle text) ''room name'') (\<lambda>_. Inr (RoomName text))"

text \<open>\<open>split_pair\<close>: both halves are validated, the first one first.\<close>

definition split_pair ::
  "(string \<Rightarrow> (invalid, 'a) result) \<Rightarrow> (string \<Rightarrow> (invalid, 'b) result) \<Rightarrow> string \<Rightarrow> char \<Rightarrow> string
     \<Rightarrow> (invalid, 'a \<times> 'b) result" where
  "split_pair first_from second_from text separator what =
     and_then (ok_or (Invalid what) (rsplit_once separator text)) (\<lambda>(first, second).
     and_then (first_from first) (\<lambda>a.
     and_then (second_from second) (\<lambda>b. Inr (a, b))))"

text \<open>\<open>struct AgentId\<close> with \<open>new\<close>, \<open>name\<close>, \<open>origin\<close>; its text is \<open>name@origin\<close>.\<close>

datatype agent_id = AgentId (agent_name: agent_name) (agent_origin: origin)

definition agent_id_try_from :: "string \<Rightarrow> (invalid, agent_id) result" where
  "agent_id_try_from text =
     and_then (split_pair agent_name_try_from origin_try_from text (CHR ''@'') ''agent address'')
       (\<lambda>(name, origin). Inr (AgentId name origin))"

definition agent_id_to_string :: "agent_id \<Rightarrow> string" where
  "agent_id_to_string a =
     agent_name_str (agent_name a) @ CHR ''@'' # origin_str (agent_origin a)"

text \<open>\<open>struct EventId\<close>: \<open>seq\<close> is a \<open>NonZeroU64\<close>; the text is the origin and 16 digits.\<close>

datatype event_id = EventId (event_origin: origin) (event_seq: u64)

definition event_id_try_from :: "string \<Rightarrow> (invalid, event_id) result" where
  "event_id_try_from text =
     and_then (ok_or (Invalid ''event ID'') (rsplit_once (CHR '':'') text)) (\<lambda>(origin, sequence).
       if \<not> lower_hex sequence 16 then Inl (Invalid ''event ID'')
       else
         and_then
           (ok_or (Invalid ''event ID'')
              (case from_str_radix16 sequence of
                 Some value \<Rightarrow> if value = 0 then None else Some value
               | None \<Rightarrow> None))
           (\<lambda>seq. and_then (origin_try_from origin) (\<lambda>origin. Inr (EventId origin seq))))"

definition event_id_to_string :: "event_id \<Rightarrow> string" where
  "event_id_to_string e =
     origin_str (event_origin e) @ CHR '':'' # format_hex 16 (unat (event_seq e))"

datatype room_id = RoomId (room_origin: origin) (room_name: room_name)

definition room_id_to_string :: "room_id \<Rightarrow> string" where
  "room_id_to_string r =
     ''room:'' @ origin_str (room_origin r) @ CHR '':'' # room_name_str (room_name r)"

section \<open>Orders\<close>

text \<open>The derived \<open>Ord\<close> of the identities: field by field, strings by their bytes.\<close>

instantiation origin :: linorder
begin
definition less_eq_origin :: "origin \<Rightarrow> origin \<Rightarrow> bool" where
  "less_eq_origin a b = (origin_str a \<le> origin_str b)"
definition less_origin :: "origin \<Rightarrow> origin \<Rightarrow> bool" where
  "less_origin a b = (origin_str a < origin_str b)"
instance
  by standard (auto simp: less_eq_origin_def less_origin_def intro: origin.expand)
end

instantiation agent_name :: linorder
begin
definition less_eq_agent_name :: "agent_name \<Rightarrow> agent_name \<Rightarrow> bool" where
  "less_eq_agent_name a b = (agent_name_str a \<le> agent_name_str b)"
definition less_agent_name :: "agent_name \<Rightarrow> agent_name \<Rightarrow> bool" where
  "less_agent_name a b = (agent_name_str a < agent_name_str b)"
instance
  by standard (auto simp: less_eq_agent_name_def less_agent_name_def intro: agent_name.expand)
end

instantiation agent_id :: linorder
begin
definition less_eq_agent_id :: "agent_id \<Rightarrow> agent_id \<Rightarrow> bool" where
  "less_eq_agent_id a b = ((agent_name a, agent_origin a) \<le> (agent_name b, agent_origin b))"
definition less_agent_id :: "agent_id \<Rightarrow> agent_id \<Rightarrow> bool" where
  "less_agent_id a b = ((agent_name a, agent_origin a) < (agent_name b, agent_origin b))"
instance
  by standard (auto simp: less_eq_agent_id_def less_agent_id_def intro: agent_id.expand)
end

instantiation event_id :: linorder
begin
definition less_eq_event_id :: "event_id \<Rightarrow> event_id \<Rightarrow> bool" where
  "less_eq_event_id a b = ((event_origin a, event_seq a) \<le> (event_origin b, event_seq b))"
definition less_event_id :: "event_id \<Rightarrow> event_id \<Rightarrow> bool" where
  "less_event_id a b = ((event_origin a, event_seq a) < (event_origin b, event_seq b))"
instance
  by standard (auto simp: less_eq_event_id_def less_event_id_def intro: event_id.expand)
end

section \<open>Conversations\<close>

datatype direct_pair = DirectPair (pair_first: agent_id) (pair_second: agent_id)

definition pair_between :: "agent_id \<Rightarrow> agent_id \<Rightarrow> (invalid, direct_pair) result" where
  "pair_between one other =
     (if one < other then Inr (DirectPair one other)
      else if other < one then Inr (DirectPair other one)
      else Inl (Invalid ''direct conversation''))"

definition pair_includes :: "direct_pair \<Rightarrow> agent_id \<Rightarrow> bool" where
  "pair_includes p agent = (pair_first p = agent \<or> pair_second p = agent)"

definition pair_other :: "direct_pair \<Rightarrow> agent_id \<Rightarrow> agent_id option" where
  "pair_other p agent =
     (if pair_first p = agent then Some (pair_second p)
      else if pair_second p = agent then Some (pair_first p)
      else None)"

datatype conversation = Direct direct_pair | InRoom room_id

definition conversation_direct :: "agent_id \<Rightarrow> agent_id \<Rightarrow> (invalid, conversation) result" where
  "conversation_direct one other = map_ok Direct (pair_between one other)"

definition admits_author :: "conversation \<Rightarrow> agent_id \<Rightarrow> bool" where
  "admits_author c agent =
     (case c of Direct pair \<Rightarrow> pair_includes pair agent | InRoom _ \<Rightarrow> True)"

definition conversation_try_from :: "string \<Rightarrow> (invalid, conversation) result" where
  "conversation_try_from text =
     (case strip_prefix ''dm:'' text of
        Some pair \<Rightarrow>
          and_then (split_pair agent_id_try_from agent_id_try_from pair (CHR '','') ''conversation'')
            (\<lambda>(first, second).
               and_then (pair_between first second) (\<lambda>direct.
                 if pair_first direct = first then Inr (Direct direct)
                 else Inl (Invalid ''conversation'')))
      | None \<Rightarrow>
          and_then (ok_or (Invalid ''conversation'') (strip_prefix ''room:'' text)) (\<lambda>room.
          and_then (split_pair origin_try_from room_name_try_from room (CHR '':'') ''conversation'')
            (\<lambda>(origin, name). Inr (InRoom (RoomId origin name)))))"

definition conversation_to_string :: "conversation \<Rightarrow> string" where
  "conversation_to_string c =
     (case c of
        Direct pair \<Rightarrow>
          ''dm:'' @ agent_id_to_string (pair_first pair) @
          CHR '','' # agent_id_to_string (pair_second pair)
      | InRoom room \<Rightarrow> room_id_to_string room)"

section \<open>Bounded texts\<close>

definition valid_text :: "string \<Rightarrow> nat \<Rightarrow> bool \<Rightarrow> bool" where
  "valid_text text limit multiline =
     (text \<noteq> [] \<and> length text \<le> limit \<and> trim text = text \<and>
      \<not> list_ex (\<lambda>c. is_control c \<and> \<not> (multiline \<and> c = 10)) (chars text))"

text \<open>\<open>bounded_text!\<close>: \<open>Line<MAX>\<close> and \<open>Paragraph<MAX>\<close> carry their bound in the type; here the
  bound is an argument of the constructor and of the well-formedness.\<close>

datatype line = Line (line_str: string)
datatype paragraph_text = Paragraph (paragraph_str: string)

definition line_try_from :: "nat \<Rightarrow> string \<Rightarrow> (invalid, line) result" where
  "line_try_from limit text =
     (if valid_text text limit False then Inr (Line text) else Inl (Invalid ''single-line text''))"

definition paragraph_try_from :: "nat \<Rightarrow> string \<Rightarrow> (invalid, paragraph_text) result" where
  "paragraph_try_from limit text =
     (if valid_text text limit True then Inr (Paragraph text) else Inl (Invalid ''paragraph''))"

definition MAX_TEXT :: nat where
  "MAX_TEXT = 64 * 1024"

datatype msg_text = Text (text_str: string)

definition text_try_from :: "string \<Rightarrow> (invalid, msg_text) result" where
  "text_try_from s =
     and_then
       (check (length s \<le> MAX_TEXT \<and> trim s \<noteq> [] \<and> CHR 0x00 \<notin> set s) ''message text'')
       (\<lambda>_. Inr (Text s))"

section \<open>Audiences\<close>

definition MAX_AUDIENCE :: nat where
  "MAX_AUDIENCE = 64"

datatype audience = Audience (audience_members: "origin list")

definition audience_try_from :: "origin list \<Rightarrow> (invalid, audience) result" where
  "audience_try_from members =
     (if members = [] \<or> length members > MAX_AUDIENCE \<or> any_pair (\<ge>) members
      then Inl (Invalid ''audience'') else Inr (Audience members))"

text \<open>\<open>TryFrom<BTreeSet<Origin>>\<close>: the members of the set in ascending order.\<close>

definition audience_of_set :: "origin set \<Rightarrow> (invalid, audience) result" where
  "audience_of_set members = audience_try_from (sorted_list_of_set members)"

definition audience_includes :: "audience \<Rightarrow> origin \<Rightarrow> bool" where
  "audience_includes a origin = binary_search (audience_members a) origin"

section \<open>Well-formed identities\<close>

text \<open>What the private fields of the source's types guarantee.\<close>

definition wf_origin :: "origin \<Rightarrow> bool" where
  "wf_origin o' = lower_hex (origin_str o') 32"

definition wf_agent_name :: "agent_name \<Rightarrow> bool" where
  "wf_agent_name n = valid_handle (agent_name_str n)"

definition wf_room_name :: "room_name \<Rightarrow> bool" where
  "wf_room_name n = valid_handle (room_name_str n)"

definition wf_agent_id :: "agent_id \<Rightarrow> bool" where
  "wf_agent_id a = (wf_agent_name (agent_name a) \<and> wf_origin (agent_origin a))"

definition wf_event_id :: "event_id \<Rightarrow> bool" where
  "wf_event_id e = (wf_origin (event_origin e) \<and> event_seq e \<noteq> 0)"

definition wf_room_id :: "room_id \<Rightarrow> bool" where
  "wf_room_id r = (wf_origin (room_origin r) \<and> wf_room_name (room_name r))"

definition wf_conversation :: "conversation \<Rightarrow> bool" where
  "wf_conversation c =
     (case c of
        Direct p \<Rightarrow> wf_agent_id (pair_first p) \<and> wf_agent_id (pair_second p) \<and>
          pair_first p < pair_second p
      | InRoom r \<Rightarrow> wf_room_id r)"

definition wf_audience :: "audience \<Rightarrow> bool" where
  "wf_audience a =
     (audience_members a \<noteq> [] \<and> length (audience_members a) \<le> MAX_AUDIENCE \<and>
      sorted_wrt (<) (audience_members a))"

lemmas wf_id_defs = wf_origin_def wf_agent_name_def wf_room_name_def wf_agent_id_def
  wf_event_id_def wf_room_id_def wf_conversation_def wf_audience_def

section \<open>Validation\<close>

lemma origin_try_from_iff: "origin_try_from s = Inr a \<longleftrightarrow> a = Origin s \<and> wf_origin a"
  by (auto simp: origin_try_from_def result_simps wf_origin_def)

lemma agent_name_try_from_iff: "agent_name_try_from s = Inr a \<longleftrightarrow> a = AgentName s \<and> wf_agent_name a"
  by (auto simp: agent_name_try_from_def result_simps wf_agent_name_def)

lemma room_name_try_from_iff: "room_name_try_from s = Inr a \<longleftrightarrow> a = RoomName s \<and> wf_room_name a"
  by (auto simp: room_name_try_from_def result_simps wf_room_name_def)

lemma split_pair_Inr:
  "split_pair f g text c what = Inr (a, b) \<longleftrightarrow>
     (\<exists>x y. text = x @ c # y \<and> c \<notin> set y \<and> f x = Inr a \<and> g y = Inr b)"
  by (auto simp: split_pair_def result_simps rsplit_once_Some)

lemma split_pair_append [simp]:
  "c \<notin> set y \<Longrightarrow>
     split_pair f g (x @ c # y) c what = and_then (f x) (\<lambda>a. and_then (g y) (\<lambda>b. Inr (a, b)))"
  by (simp add: split_pair_def)

lemma try_from_own_text [simp]:
  "wf_origin a \<Longrightarrow> origin_try_from (origin_str a) = Inr a"
  "wf_agent_name n \<Longrightarrow> agent_name_try_from (agent_name_str n) = Inr n"
  "wf_room_name r \<Longrightarrow> room_name_try_from (room_name_str r) = Inr r"
  by (simp_all add: origin_try_from_iff agent_name_try_from_iff room_name_try_from_iff)

text \<open>No separator occurs in an identity, so the rightmost split is the only one.\<close>

lemma hex_text_separators:
  "list_all hex_lower s \<Longrightarrow> CHR '':'' \<notin> set s \<and> CHR ''@'' \<notin> set s \<and> CHR '','' \<notin> set s"
  by (auto simp: list_all_iff ascii_defs)

lemma wf_origin_separators:
  "wf_origin a \<Longrightarrow>
     CHR '':'' \<notin> set (origin_str a) \<and> CHR ''@'' \<notin> set (origin_str a) \<and> CHR '','' \<notin> set (origin_str a)"
  by (simp add: wf_origin_def lower_hex_def hex_text_separators)

lemma valid_handle_separators:
  "valid_handle s \<Longrightarrow> CHR '':'' \<notin> set s \<and> CHR ''@'' \<notin> set s \<and> CHR '','' \<notin> set s"
  by (auto simp: valid_handle_def handle_lower_def list_all_iff ascii_defs)

lemma wf_agent_id_no_comma: "wf_agent_id a \<Longrightarrow> CHR '','' \<notin> set (agent_id_to_string a)"
  using wf_origin_separators [of "agent_origin a"]
    valid_handle_separators [of "agent_name_str (agent_name a)"]
  by (simp add: wf_agent_id_def wf_agent_name_def agent_id_to_string_def)

section \<open>Text forms\<close>

lemma agent_id_try_from_iff:
  "agent_id_try_from s = Inr a \<longleftrightarrow> wf_agent_id a \<and> s = agent_id_to_string a"
proof
  assume "agent_id_try_from s = Inr a"
  then show "wf_agent_id a \<and> s = agent_id_to_string a"
    by (auto simp: agent_id_try_from_def and_then_Inr_iff split_pair_Inr wf_agent_id_def
        agent_name_try_from_iff origin_try_from_iff agent_id_to_string_def)
next
  assume "wf_agent_id a \<and> s = agent_id_to_string a"
  then show "agent_id_try_from s = Inr a"
    using wf_origin_separators [of "agent_origin a"]
    by (cases a) (auto simp: agent_id_try_from_def wf_agent_id_def agent_id_to_string_def)
qed

lemma agent_id_own_text [simp]:
  "wf_agent_id a \<Longrightarrow> agent_id_try_from (agent_id_to_string a) = Inr a"
  by (simp add: agent_id_try_from_iff)

lemma agent_id_to_string_inj:
  "wf_agent_id a \<Longrightarrow> wf_agent_id b \<Longrightarrow> agent_id_to_string a = agent_id_to_string b \<Longrightarrow> a = b"
  by (metis Inr_inject agent_id_try_from_iff)

lemma from_str_radix16_lower:
  assumes "lower_hex s 16" and "from_str_radix16 s = Some n"
  shows "s = format_hex 16 (unat n)"
proof -
  have s: "list_all hex_lower s" "length s = 16" "s \<noteq> []"
    using assms(1) by (auto simp: lower_hex_def)
  then have "hd s \<noteq> CHR ''+''"
    by (cases s) (auto simp: ascii_defs)
  then obtain v where v: "hex_value 0 s = Some v" "n = word_of_nat v"
    using assms(2) s by (cases s) (auto simp: from_str_radix16_def)
  then have "v < 2 ^ 64" using hex_value_bound [OF v(1)] by simp
  then have "unat n = v" using v(2) by (simp add: unsigned_of_nat take_bit_nat_eq_self_iff)
  moreover have "length (format_hex 16 v) = 16"
    using length_format_hex [of v 15] \<open>v < 2 ^ 64\<close> by simp
  moreover have "hex_value 0 (format_hex 16 v) = Some v"
    using hex_value_hex_text [OF \<open>v < 2 ^ 64\<close>] by (simp add: format_hex_def Let_def hex_value_zeros)
  ultimately show ?thesis
    using hex_value_inj [of s "format_hex 16 v" v] s v(1) format_hex_lower by simp
qed

lemma lower_hex_format_hex: "lower_hex (format_hex 16 (unat n)) 16" for n :: u64
  using length_format_hex [of "unat n" 15] unsigned_less [of n, where ?'a = nat] format_hex_lower
  by (simp add: lower_hex_def)

lemma event_id_try_from_iff:
  "event_id_try_from s = Inr e \<longleftrightarrow> wf_event_id e \<and> s = event_id_to_string e"
proof
  assume "event_id_try_from s = Inr e"
  then show "wf_event_id e \<and> s = event_id_to_string e"
    by (auto simp: event_id_try_from_def result_simps rsplit_once_Some origin_try_from_iff
        wf_event_id_def event_id_to_string_def from_str_radix16_lower
        split: if_splits option.splits)
next
  assume "wf_event_id e \<and> s = event_id_to_string e"
  then show "event_id_try_from s = Inr e"
    using hex_text_separators [OF format_hex_lower, of 16 "unat (event_seq e)"]
    by (cases e) (auto simp: event_id_try_from_def event_id_to_string_def wf_event_id_def
        lower_hex_format_hex from_str_radix16_format)
qed

lemma pair_between_iff:
  "pair_between a b = Inr p \<longleftrightarrow>
     (a < b \<and> p = DirectPair a b) \<or> (b < a \<and> p = DirectPair b a)"
  by (auto simp: pair_between_def)

lemma wf_conversation_own_text:
  "wf_conversation c \<Longrightarrow> conversation_try_from (conversation_to_string c) = Inr c"
proof (cases c)
  case (Direct p)
  assume "wf_conversation c"
  with Direct show ?thesis
    using wf_agent_id_no_comma [of "pair_second p"]
    by (cases p) (simp add: conversation_try_from_def conversation_to_string_def
        wf_conversation_def pair_between_def)
next
  case (InRoom r)
  assume "wf_conversation c"
  with InRoom show ?thesis
    using valid_handle_separators [of "room_name_str (room_name r)"]
    by (cases r) (simp add: conversation_try_from_def conversation_to_string_def
        room_id_to_string_def wf_conversation_def wf_room_id_def wf_room_name_def)
qed

lemma conversation_parsed_direct:
  assumes "strip_prefix ''dm:'' s = Some r" and "conversation_try_from s = Inr c"
  shows "wf_conversation c \<and> s = conversation_to_string c"
proof -
  from assms(1) have s: "s = ''dm:'' @ r" by (simp only: strip_prefix_Some)
  from assms obtain a b d where
    "split_pair agent_id_try_from agent_id_try_from r (CHR '','') ''conversation'' = Inr (a, b)"
    "pair_between a b = Inr d" "pair_first d = a" "c = Direct d"
    by (auto simp: conversation_try_from_def and_then_Inr_iff split: if_splits)
  then show ?thesis
    using s by (cases d) (auto simp: split_pair_Inr agent_id_try_from_iff pair_between_iff
        wf_conversation_def conversation_to_string_def)
qed

lemma conversation_parsed_room:
  assumes "strip_prefix ''dm:'' s = None" and "conversation_try_from s = Inr c"
  shows "wf_conversation c \<and> s = conversation_to_string c"
proof -
  from assms obtain r a n where "strip_prefix ''room:'' s = Some r"
    "split_pair origin_try_from room_name_try_from r (CHR '':'') ''conversation'' = Inr (a, n)"
    "c = InRoom (RoomId a n)"
    by (auto simp: conversation_try_from_def and_then_Inr_iff ok_or_Inr_iff)
  then show ?thesis
    unfolding strip_prefix_Some
    by (auto simp: split_pair_Inr origin_try_from_iff room_name_try_from_iff
        wf_conversation_def wf_room_id_def conversation_to_string_def room_id_to_string_def)
qed

lemma conversation_try_from_iff:
  "conversation_try_from s = Inr c \<longleftrightarrow> wf_conversation c \<and> s = conversation_to_string c"
  using wf_conversation_own_text conversation_parsed_direct conversation_parsed_room
  by (cases "strip_prefix ''dm:'' s") blast+

section \<open>Direct conversations and audiences\<close>

lemma pair_between_commute: "pair_between a b = pair_between b a"
  by (auto simp: pair_between_def)

lemma pair_other_between:
  "pair_between a b = Inr p \<Longrightarrow> pair_other p a = Some b \<and> pair_other p b = Some a"
  by (auto simp: pair_between_iff pair_other_def)

lemma pair_other_includes: "pair_other p a = Some b \<Longrightarrow> pair_includes p a \<and> pair_includes p b"
  by (auto simp: pair_other_def pair_includes_def split: if_splits)

lemma audience_try_from_iff: "audience_try_from ms = Inr a \<longleftrightarrow> a = Audience ms \<and> wf_audience a"
  using strictly_sorted_iff [of ms] by (auto simp: audience_try_from_def wf_audience_def)

lemma audience_includes_iff:
  "wf_audience a \<Longrightarrow> audience_includes a p \<longleftrightarrow> p \<in> set (audience_members a)"
  by (simp add: audience_includes_def wf_audience_def binary_search_iff strict_sorted_iff)

lemma audience_of_set_iff:
  assumes "finite S"
  shows "audience_of_set S = Inr a \<longleftrightarrow>
     S \<noteq> {} \<and> card S \<le> MAX_AUDIENCE \<and> a = Audience (sorted_list_of_set S)"
  using assms
  by (auto simp: audience_of_set_def audience_try_from_iff wf_audience_def
      strict_sorted_iff sorted_list_of_set_eq_Nil_iff)

end
