(* ===== verification/Chat_Card.thy ===== *)
theory Chat_Card
  imports Chat_Id
begin

text \<open>
  The cards agents and machines publish (\<open>chat/card.rs\<close>): skill tags, their normalised sets, and
  how relevant an agent's card is to a directory query.
\<close>

datatype tool = Claude | Codex | Opencode

definition tool_as_str :: "tool \<Rightarrow> string" where
  "tool_as_str t =
     (case t of Claude \<Rightarrow> ''claude'' | Codex \<Rightarrow> ''codex'' | Opencode \<Rightarrow> ''opencode'')"

datatype mode = Managed | Interactive
datatype access = AccessRead | AccessWrite
datatype os = Macos | Linux | Windows | OtherOs

definition tag_plain :: "char \<Rightarrow> bool" where
  "tag_plain b = (is_ascii_lowercase b \<or> is_ascii_digit b)"

definition valid_tag :: "string \<Rightarrow> bool" where
  "valid_tag text =
     (1 \<le> length text \<and> length text \<le> 32 \<and>
      (case text of [] \<Rightarrow> False | b # _ \<Rightarrow> tag_plain b) \<and>
      list_all (\<lambda>b. tag_plain b \<or> b = CHR ''+'' \<or> b = CHR ''#'' \<or> b = CHR ''.'' \<or> b = CHR ''-'')
        text)"

datatype tag = Tag (tag_str: string)

definition tag_try_from :: "string \<Rightarrow> (invalid, tag) result" where
  "tag_try_from text = (if valid_tag text then Inr (Tag text) else Inl (Invalid ''skill tag''))"

instantiation tag :: linorder
begin
definition less_eq_tag :: "tag \<Rightarrow> tag \<Rightarrow> bool" where
  "less_eq_tag a b = (tag_str a \<le> tag_str b)"
definition less_tag :: "tag \<Rightarrow> tag \<Rightarrow> bool" where
  "less_tag a b = (tag_str a < tag_str b)"
instance
  by standard (auto simp: less_eq_tag_def less_tag_def intro: tag.expand)
end

datatype skills = Skills (skill_tags: "tag list")

definition skills_try_from :: "tag list \<Rightarrow> (invalid, skills) result" where
  "skills_try_from tags =
     (if length tags > 16 \<or> any_pair (\<ge>) tags then Inl (Invalid ''skills'') else Inr (Skills tags))"

text \<open>\<open>Skills::collect\<close>: \<open>sort\<close>, \<open>dedup\<close>, then the same validation.\<close>

definition skills_collect :: "tag list \<Rightarrow> (invalid, skills) result" where
  "skills_collect tags = skills_try_from (remdups_adj (sort tags))"

record card =
  card_display_name :: line
  card_role :: "line option"
  card_description :: "paragraph_text option"
  card_skills :: skills
  card_project :: "line option"
  card_status :: "line option"
  card_tool :: tool
  card_mode :: mode
  card_access :: access

record machine_card =
  machine_label :: line
  machine_os :: os

datatype relevance = RelSkill | RelName | RelRole | RelText

text \<open>
  \<open>Card::relevance\<close>. \<open>lower\<close> stands for \<open>str::to_lowercase\<close>, Rust's Unicode case mapping.
\<close>

definition card_relevance ::
  "(string \<Rightarrow> string) \<Rightarrow> card \<Rightarrow> agent_name \<Rightarrow> string \<Rightarrow> relevance option" where
  "card_relevance lower c name query =
     (let query = lower (trim query);
          contains = (\<lambda>text. str_contains query (lower text));
          tags = map tag_str (skill_tags (card_skills c));
          lines = (\<lambda>l. case l of None \<Rightarrow> [] | Some t \<Rightarrow> [line_str t])
      in if query = [] then Some RelText
         else if query \<in> set tags then Some RelSkill
         else if contains (agent_name_str name) \<or> contains (line_str (card_display_name c))
         then Some RelName
         else if list_ex contains (lines (card_role c)) then Some RelRole
         else if list_ex contains
             ((case card_description c of None \<Rightarrow> [] | Some p \<Rightarrow> [paragraph_str p]) @
              lines (card_project c) @ lines (card_status c) @ tags)
         then Some RelText
         else None)"

section \<open>Skills are canonical\<close>

definition wf_skills :: "skills \<Rightarrow> bool" where
  "wf_skills s = (length (skill_tags s) \<le> 16 \<and> sorted_wrt (<) (skill_tags s))"

lemma skills_try_from_iff: "skills_try_from ts = Inr s \<longleftrightarrow> s = Skills ts \<and> wf_skills s"
  using strictly_sorted_iff [of ts] by (auto simp: skills_try_from_def wf_skills_def)

lemma distinct_remdups_adj_sorted: "sorted xs \<Longrightarrow> distinct (remdups_adj xs)"
  for xs :: "'a::linorder list"
  by (induction xs rule: remdups_adj.induct) (auto simp: antisym)

lemma remdups_adj_sort: "remdups_adj (sort ts) = sorted_list_of_set (set ts)"
  for ts :: "'a::linorder list"
proof -
  have "sorted (remdups_adj (sort ts))" by (simp add: sorted_remdups_adj)
  moreover have "distinct (remdups_adj (sort ts))"
    by (simp add: distinct_remdups_adj_sorted)
  ultimately show ?thesis
    by (metis set_sort remdups_adj_set sorted_list_of_set.idem_if_sorted_distinct)
qed

lemma skills_collect_iff:
  "skills_collect ts = Inr s \<longleftrightarrow> card (set ts) \<le> 16 \<and> s = Skills (sorted_list_of_set (set ts))"
  by (auto simp: skills_collect_def skills_try_from_iff remdups_adj_sort wf_skills_def
      strict_sorted_iff)

lemma skills_collect_order_irrelevant: "set ts = set us \<Longrightarrow> skills_collect ts = skills_collect us"
  by (simp add: skills_collect_def remdups_adj_sort)

end
