(* ===== verification/Chat_Agents.thy ===== *)
theory Chat_Agents
  imports Chat_Id
begin

text \<open>
  The agent lists of \<open>chat/event.rs\<close> (delegation chains and room members, both made by the
  \<open>agent_list!\<close> macro), message stamps and their ages, and \<open>policy::audience\<close>.
\<close>

definition MAX_CHAIN :: nat where
  "MAX_CHAIN = 8"

definition MAX_MEMBERS :: nat where
  "MAX_MEMBERS = 64"

text \<open>
  The \<open>TryFrom<Vec<AgentId>>\<close> of \<open>agent_list!\<close>: the length is in the bounds and the sorted copy has
  no two equal neighbours; the list itself keeps its order.
\<close>

definition agent_list_try_from ::
  "nat \<Rightarrow> nat \<Rightarrow> string \<Rightarrow> agent_id list \<Rightarrow> (invalid, agent_id list) result" where
  "agent_list_try_from least most what agents =
     (if \<not> (least \<le> length agents \<and> length agents \<le> most) then Inl (Invalid what)
      else if any_pair (=) (sort agents) then Inl (Invalid what)
      else Inr agents)"

datatype chain = Chain (chain_agents: "agent_id list")
datatype members = Members (members_agents: "agent_id list")

definition chain_try_from :: "agent_id list \<Rightarrow> (invalid, chain) result" where
  "chain_try_from agents =
     map_ok Chain (agent_list_try_from 0 MAX_CHAIN ''delegation chain'' agents)"

definition members_try_from :: "agent_id list \<Rightarrow> (invalid, members) result" where
  "members_try_from agents =
     map_ok Members (agent_list_try_from 1 MAX_MEMBERS ''room members'' agents)"

definition chain_contains :: "chain \<Rightarrow> agent_id \<Rightarrow> bool" where
  "chain_contains c a = (a \<in> set (chain_agents c))"

definition members_contains :: "members \<Rightarrow> agent_id \<Rightarrow> bool" where
  "members_contains m a = (a \<in> set (members_agents m))"

definition chain_extended :: "chain \<Rightarrow> agent_id \<Rightarrow> (invalid, chain) result" where
  "chain_extended c waiting = chain_try_from (chain_agents c @ [waiting])"

definition wf_chain :: "chain \<Rightarrow> bool" where
  "wf_chain c = (length (chain_agents c) \<le> MAX_CHAIN \<and> distinct (chain_agents c))"

definition wf_members :: "members \<Rightarrow> bool" where
  "wf_members m =
     (1 \<le> length (members_agents m) \<and> length (members_agents m) \<le> MAX_MEMBERS \<and>
      distinct (members_agents m))"

lemma agent_list_try_from_iff:
  "agent_list_try_from lo hi w xs = Inr ys \<longleftrightarrow>
     ys = xs \<and> lo \<le> length xs \<and> length xs \<le> hi \<and> distinct xs"
  using sorted_no_dup_pair [of "sort xs"] by (auto simp: agent_list_try_from_def)

lemma chain_try_from_iff: "chain_try_from xs = Inr c \<longleftrightarrow> c = Chain xs \<and> wf_chain c"
  by (auto simp: chain_try_from_def result_simps agent_list_try_from_iff wf_chain_def)

lemma members_try_from_iff: "members_try_from xs = Inr m \<longleftrightarrow> m = Members xs \<and> wf_members m"
  by (auto simp: members_try_from_def result_simps agent_list_try_from_iff wf_members_def)

lemma chain_extended_iff:
  "chain_extended c a = Inr d \<longleftrightarrow> d = Chain (chain_agents c @ [a]) \<and> wf_chain d"
  by (simp add: chain_extended_def chain_try_from_iff)

section \<open>Stamps and ages\<close>

definition MILLIS_PER_SECOND :: u64 where
  "MILLIS_PER_SECOND = 1000"

definition SECONDS_PER_MINUTE :: u64 where
  "SECONDS_PER_MINUTE = 60"

definition SECONDS_PER_HOUR :: u64 where
  "SECONDS_PER_HOUR = 3600"

definition SECONDS_PER_DAY :: u64 where
  "SECONDS_PER_DAY = 86400"

datatype stamp = Stamp (stamp_millis: u64)

datatype age = Age (age_seconds: u64)

definition stamp_age :: "stamp \<Rightarrow> stamp \<Rightarrow> age" where
  "stamp_age sent now =
     Age (saturating_sub (stamp_millis now) (stamp_millis sent) div MILLIS_PER_SECOND)"

definition age_display :: "age \<Rightarrow> string" where
  "age_display a =
     (let seconds = age_seconds a
      in if seconds < SECONDS_PER_MINUTE then decimal (unat seconds) @ ''s ago''
         else if seconds < SECONDS_PER_HOUR
         then decimal (unat (seconds div SECONDS_PER_MINUTE)) @ ''m ago''
         else if seconds < SECONDS_PER_DAY
         then decimal (unat (seconds div SECONDS_PER_HOUR)) @ ''h ago''
         else decimal (unat (seconds div SECONDS_PER_DAY)) @ ''d ago'')"

lemma stamp_age_seconds:
  "unat (age_seconds (stamp_age sent now)) =
     (unat (stamp_millis now) - unat (stamp_millis sent)) div 1000"
  by (simp add: stamp_age_def unat_div unat_saturating_sub MILLIS_PER_SECOND_def)

section \<open>The audience of a set of agents\<close>

definition audience_of :: "agent_id list \<Rightarrow> (invalid, audience) result" where
  "audience_of agents = audience_of_set (set (map agent_origin agents))"

lemma audience_of_iff:
  "audience_of agents = Inr a \<longleftrightarrow>
     agents \<noteq> [] \<and> card (agent_origin ` set agents) \<le> MAX_AUDIENCE \<and>
     a = Audience (sorted_list_of_set (agent_origin ` set agents))"
  by (simp add: audience_of_def audience_of_set_iff)

lemma audience_of_wf: "audience_of agents = Inr a \<Longrightarrow> wf_audience a"
  unfolding audience_of_def audience_of_set_def by (auto simp: audience_try_from_iff)

lemma audience_of_includes:
  "audience_of agents = Inr a \<Longrightarrow>
     audience_includes a p \<longleftrightarrow> p \<in> agent_origin ` set agents"
  using audience_of_wf by (auto simp: audience_includes_iff audience_of_iff)

end
