(* ===== verification/Chat_Notification.thy ===== *)
theory Chat_Notification
  imports Chat_Agents
begin

text \<open>
  Notifications (\<open>chat/notification.rs\<close>, \<open>chat/notification/stop.rs\<close>): how far a message has been
  delivered, when a session may stop, when a question escalates to its fallback, when an agent
  counts as stalled, and the notice a message carries. \<open>Delivery::observe\<close> is the join of a linear
  order, so receipts may arrive in any order and any number of times (\<open>observe_commute\<close>,
  \<open>observe_assoc\<close>, \<open>observe_idem\<close>).
\<close>

definition MAX_FALLBACK_SECONDS :: u64 where
  "MAX_FALLBACK_SECONDS = 600"

definition STALLED_MILLIS :: u64 where
  "STALLED_MILLIS = 120 * MILLIS_PER_SECOND"

section \<open>Delivery\<close>

datatype delivery = Pending | Delivered | Read | Acknowledged

datatype response_delivery = Original | Replaced

definition reading_after_delivery :: "response_delivery \<Rightarrow> bool \<Rightarrow> bool" where
  "reading_after_delivery d cancelled = (d = Original \<and> \<not> cancelled)"

definition delivery_rank :: "delivery \<Rightarrow> u8" where
  "delivery_rank d = (case d of Pending \<Rightarrow> 0 | Delivered \<Rightarrow> 1 | Read \<Rightarrow> 2 | Acknowledged \<Rightarrow> 3)"

definition observe :: "delivery \<Rightarrow> delivery \<Rightarrow> delivery" where
  "observe current receipt =
     (if delivery_rank current \<ge> delivery_rank receipt then current else receipt)"

instantiation delivery :: linorder
begin
definition less_eq_delivery :: "delivery \<Rightarrow> delivery \<Rightarrow> bool" where
  "less_eq_delivery a b = (delivery_rank a \<le> delivery_rank b)"
definition less_delivery :: "delivery \<Rightarrow> delivery \<Rightarrow> bool" where
  "less_delivery a b = (delivery_rank a < delivery_rank b)"
instance
proof
  fix a b c :: delivery
  show "a < b \<longleftrightarrow> a \<le> b \<and> \<not> b \<le> a"
    by (auto simp: less_eq_delivery_def less_delivery_def)
  show "a \<le> a" "a \<le> b \<Longrightarrow> b \<le> c \<Longrightarrow> a \<le> c" "a \<le> b \<or> b \<le> a"
    by (auto simp: less_eq_delivery_def)
  show "a \<le> b \<Longrightarrow> b \<le> a \<Longrightarrow> a = b"
    by (cases a; cases b) (auto simp: less_eq_delivery_def delivery_rank_def word_le_nat_alt)
qed
end

lemma observe_max: "observe a b = max a b"
proof (cases "delivery_rank b \<le> delivery_rank a")
  case True
  then have "b \<le> a" by (simp add: less_eq_delivery_def)
  with True show ?thesis by (simp add: observe_def max_def antisym)
next
  case False
  then show ?thesis by (auto simp: observe_def max_def less_eq_delivery_def)
qed

lemma observe_commute: "observe a b = observe b a"
  by (simp add: observe_max max.commute)

lemma observe_assoc: "observe (observe a b) c = observe a (observe b c)"
  by (simp add: observe_max max.assoc)

lemma observe_idem [simp]: "observe a a = a"
  by (simp add: observe_max)

lemma Pending_least [simp]: "Pending \<le> d"
  by (cases d) (simp_all add: less_eq_delivery_def delivery_rank_def word_le_nat_alt)

lemma observe_Pending [simp]: "observe Pending d = d"
  by (simp add: observe_max max_def)

section \<open>Stopping a session\<close>

datatype stop_verdict = StopAllow | StopBlock

datatype acknowledgment = AckPending | AckConfirmed

definition stop_decide :: "bool \<Rightarrow> acknowledgment \<Rightarrow> stop_verdict" where
  "stop_decide urgent ack = (if urgent \<and> ack = AckPending then StopBlock else StopAllow)"

definition stop_decision :: "bool \<Rightarrow> delivery \<Rightarrow> stop_verdict" where
  "stop_decision urgent d =
     (let ack = (if d = Acknowledged then AckConfirmed else AckPending)
      in stop_decide urgent ack)"

lemma stop_decision_Block:
  "stop_decision urgent d = StopBlock \<longleftrightarrow> urgent \<and> d \<noteq> Acknowledged"
  by (auto simp: stop_decision_def stop_decide_def)

section \<open>Questions and activity\<close>

datatype question_state = Waiting | QAnswered | Escalated

definition escalation_due :: "u64 \<Rightarrow> u64 \<Rightarrow> u64 \<Rightarrow> question_state \<Rightarrow> bool" where
  "escalation_due created wait_millis now state =
     (state = Waiting \<and>
      (case checked_sub now created of Some elapsed \<Rightarrow> elapsed \<ge> wait_millis | None \<Rightarrow> False))"

datatype activity_kind = ActWorking | ActWaiting | ActStalled

definition activity_state :: "activity_kind \<Rightarrow> u64 \<Rightarrow> u64 \<Rightarrow> u64 \<Rightarrow> activity_kind" where
  "activity_state state latest now stale_after =
     (if saturating_sub now latest \<ge> stale_after then ActStalled else state)"

record activity =
  act_state :: activity_kind
  act_at :: stamp
  act_status :: "line option"

record question =
  q_expected :: line
  q_after_seconds :: u64
  q_fallback :: agent_id

definition question_new :: "line \<Rightarrow> u64 \<Rightarrow> agent_id \<Rightarrow> (invalid, question) result" where
  "question_new expected after fallback =
     (if \<not> (1 \<le> after \<and> after \<le> MAX_FALLBACK_SECONDS)
      then Inl (Invalid ''question fallback delay'')
      else Inr \<lparr>q_expected = expected, q_after_seconds = after, q_fallback = fallback\<rparr>)"

definition question_wait_millis :: "question \<Rightarrow> u64" where
  "question_wait_millis q = saturating_mul (q_after_seconds q) MILLIS_PER_SECOND"

record notice =
  n_recipients :: members
  n_urgent :: bool
  n_subject :: "line option"
  n_question :: "question option"

definition summary_fits :: "nat \<Rightarrow> nat \<Rightarrow> nat \<Rightarrow> bool" where
  "summary_fits used next' limit = (used + next' \<le> usize_max \<and> used + next' \<le> limit)"

definition wf_question :: "question \<Rightarrow> bool" where
  "wf_question q = (1 \<le> q_after_seconds q \<and> q_after_seconds q \<le> MAX_FALLBACK_SECONDS)"

lemma question_new_wf: "question_new e a f = Inr q \<Longrightarrow> wf_question q"
  by (auto simp: question_new_def wf_question_def split: if_splits)

text \<open>A valid question waits between one second and ten minutes, and the product never saturates.\<close>

lemma question_wait_exact:
  assumes "wf_question q"
  shows "unat (question_wait_millis q) = unat (q_after_seconds q) * 1000"
    and "1000 \<le> unat (question_wait_millis q) \<and> unat (question_wait_millis q) \<le> 600000"
proof -
  have b: "1 \<le> unat (q_after_seconds q)" "unat (q_after_seconds q) \<le> 600"
    using assms by (simp_all add: wf_question_def MAX_FALLBACK_SECONDS_def word_le_nat_alt)
  then have small: "unat (q_after_seconds q) * 1000 < 2 ^ 64" by simp
  then show eq: "unat (question_wait_millis q) = unat (q_after_seconds q) * 1000"
    by (simp add: question_wait_millis_def saturating_mul_def MILLIS_PER_SECOND_def unat_word_ariths)
  from b eq show "1000 \<le> unat (question_wait_millis q) \<and> unat (question_wait_millis q) \<le> 600000"
    by simp
qed

lemma escalation_due_iff:
  "escalation_due created w now st \<longleftrightarrow> st = Waiting \<and> created \<le> now \<and> unat created + unat w \<le> unat now"
proof (cases "created \<le> now")
  case True
  then have "unat (now - created) = unat now - unat created"
    by (simp add: unat_sub)
  with True show ?thesis
    by (auto simp: escalation_due_def checked_sub_def word_le_nat_alt)
next
  case False
  then show ?thesis by (simp add: escalation_due_def checked_sub_def)
qed

text \<open>Once due, a waiting question stays due as the clock advances.\<close>

lemma escalation_due_mono:
  "escalation_due created w now st \<Longrightarrow> now \<le> later \<Longrightarrow> escalation_due created w later st"
  by (auto simp: escalation_due_iff word_le_nat_alt)

end
