(* ===== verification/Chat_Handoff.thy ===== *)
theory Chat_Handoff
  imports Chat_Agents
begin

text \<open>
  Handoffs (\<open>chat/handoff.rs\<close>, \<open>handoff/decision.rs\<close>, \<open>handoff/metadata.rs\<close>): a body one agent
  leaves for named readers. \<open>read_decision\<close> and \<open>observation_decision\<close> are the two gates; the
  operations that collect their facts are \<open>descriptor_authorize\<close> and \<open>admit_observation\<close>.
\<close>

definition MAX_CONTEXT_BYTES :: nat where
  "MAX_CONTEXT_BYTES = 256"

definition MAX_BODY_BYTES :: nat where
  "MAX_BODY_BYTES = MAX_TEXT"

section \<open>Projects, scopes, teams, targets\<close>

datatype project = Project (project_line: line)
datatype scope = Scope (scope_line: line)

definition project_try_from :: "string \<Rightarrow> (invalid, project) result" where
  "project_try_from value = map_ok Project (line_try_from MAX_CONTEXT_BYTES value)"

definition scope_try_from :: "string \<Rightarrow> (invalid, scope) result" where
  "scope_try_from value = map_ok Scope (line_try_from MAX_CONTEXT_BYTES value)"

datatype team_id = TeamId (team_room: room_id)

definition team_id_try_from :: "string \<Rightarrow> (invalid, team_id) result" where
  "team_id_try_from value =
     and_then (conversation_try_from value) (\<lambda>c.
       case c of InRoom room \<Rightarrow> Inr (TeamId room) | Direct _ \<Rightarrow> Inl (Invalid ''handoff team''))"

definition team_id_to_string :: "team_id \<Rightarrow> string" where
  "team_id_to_string t = room_id_to_string (team_room t)"

datatype target = AgentTarget agent_id | TeamTarget team_id

section \<open>Read limits\<close>

datatype read_limit = ReadLimit (read_limit_bytes: nat)

definition read_limit_try_from :: "nat \<Rightarrow> (invalid, read_limit) result" where
  "read_limit_try_from value =
     (if value = 0 \<or> value > MAX_BODY_BYTES then Inl (Invalid ''handoff read limit'')
      else Inr (ReadLimit value))"

section \<open>Decisions\<close>

datatype read_refusal =
    RefuseProject | RefuseScope | RefuseDescriptor | RefuseReader | RefuseLimit | RefuseBody
  | RefuseAudience | RefuseOrder

datatype descriptor_match = Exact | Foreign
datatype grant = Named | Absent
datatype delivery_outcome = OriginalBody | ReplacedBody

definition observation_after_delivery :: "delivery_outcome \<Rightarrow> bool \<Rightarrow> bool" where
  "observation_after_delivery d cancelled = (d = OriginalBody \<and> \<not> cancelled)"

record read_facts =
  rf_project_matches :: bool
  rf_scope_matches :: bool
  rf_descriptor :: descriptor_match
  rf_reader :: grant

definition read_decision :: "read_facts \<Rightarrow> nat \<Rightarrow> nat \<Rightarrow> (read_refusal, unit) result" where
  "read_decision facts body_bytes limit =
     (if \<not> rf_project_matches facts then Inl RefuseProject
      else if \<not> rf_scope_matches facts then Inl RefuseScope
      else if rf_descriptor facts \<noteq> Exact then Inl RefuseDescriptor
      else if rf_reader facts \<noteq> Named then Inl RefuseReader
      else if limit = 0 \<or> limit > MAX_BODY_BYTES then Inl RefuseLimit
      else if body_bytes = 0 \<or> body_bytes > limit then Inl RefuseBody
      else Inr ())"

record observation_facts =
  of_parent_matches :: bool
  of_issuer_matches :: bool
  of_audience_matches :: bool
  of_reader :: grant
  of_parent_clock :: u64
  of_observation_clock :: u64

definition observation_decision :: "observation_facts \<Rightarrow> (read_refusal, unit) result" where
  "observation_decision facts =
     (if \<not> of_parent_matches facts then Inl RefuseDescriptor
      else if \<not> of_issuer_matches facts \<or> of_reader facts \<noteq> Named then Inl RefuseReader
      else if \<not> of_audience_matches facts then Inl RefuseAudience
      else if of_observation_clock facts \<le> of_parent_clock facts then Inl RefuseOrder
      else Inr ())"

section \<open>Metadata\<close>

record metadata =
  md_sender :: agent_id
  md_intended_recipient :: target
  md_project :: project
  md_scope :: scope
  md_permitted_readers :: members
  md_audience :: audience

definition metadata_new ::
  "agent_id \<Rightarrow> target \<Rightarrow> project \<times> scope \<Rightarrow> members \<Rightarrow> (invalid, metadata) result" where
  "metadata_new sender intended context permitted =
     (if (case intended of AgentTarget agent \<Rightarrow> \<not> members_contains permitted agent | TeamTarget _ \<Rightarrow> False)
      then Inl (Invalid ''handoff intended recipient must be a named reader'')
      else
        and_then (audience_of (sender # members_agents permitted)) (\<lambda>audience.
          Inr \<lparr>md_sender = sender, md_intended_recipient = intended, md_project = fst context,
               md_scope = snd context, md_permitted_readers = permitted, md_audience = audience\<rparr>))"

section \<open>Descriptors, permits, observations\<close>

record descriptor =
  desc_id :: event_id
  desc_metadata :: metadata
  desc_body_bytes :: read_limit

definition descriptor_try_from ::
  "event_id \<Rightarrow> metadata \<Rightarrow> read_limit \<Rightarrow> (invalid, descriptor) result" where
  "descriptor_try_from id' metadata body_bytes =
     (if event_origin id' \<noteq> agent_origin (md_sender metadata)
      then Inl (Invalid ''handoff sender origin'')
      else Inr \<lparr>desc_id = id', desc_metadata = metadata, desc_body_bytes = body_bytes\<rparr>)"

definition descriptor_new :: "event_id \<Rightarrow> metadata \<Rightarrow> msg_text \<Rightarrow> (invalid, descriptor) result" where
  "descriptor_new id' metadata t =
     and_then (read_limit_try_from (length (text_str t))) (\<lambda>bytes.
       descriptor_try_from id' metadata bytes)"

record observation =
  obs_handoff :: event_id
  obs_reader :: agent_id

definition reader_grant :: "descriptor \<Rightarrow> agent_id \<Rightarrow> grant" where
  "reader_grant d reader =
     (if members_contains (md_permitted_readers (desc_metadata d)) reader then Named else Absent)"

record permit =
  permit_descriptor :: descriptor
  permit_reader :: agent_id

definition descriptor_authorize ::
  "descriptor \<Rightarrow> agent_id \<Rightarrow> descriptor \<Rightarrow> read_limit \<Rightarrow> (read_refusal, permit) result" where
  "descriptor_authorize d reader selected limit =
     (let facts =
        \<lparr>rf_project_matches =
            md_project (desc_metadata d) = md_project (desc_metadata selected),
         rf_scope_matches = md_scope (desc_metadata d) = md_scope (desc_metadata selected),
         rf_descriptor = (if d = selected then Exact else Foreign),
         rf_reader = reader_grant d reader\<rparr>
      in and_then (read_decision facts (read_limit_bytes (desc_body_bytes d)) (read_limit_bytes limit))
           (\<lambda>_. Inr \<lparr>permit_descriptor = d, permit_reader = reader\<rparr>))"

definition admit_observation ::
  "descriptor \<Rightarrow> observation \<Rightarrow> agent_id \<times> audience \<Rightarrow> u64 \<times> u64 \<Rightarrow> (read_refusal, unit) result" where
  "admit_observation d observation issuer clocks =
     observation_decision
       \<lparr>of_parent_matches = (desc_id d = obs_handoff observation),
        of_issuer_matches = (fst issuer = obs_reader observation),
        of_audience_matches = (snd issuer = md_audience (desc_metadata d)),
        of_reader = reader_grant d (obs_reader observation),
        of_parent_clock = fst clocks,
        of_observation_clock = snd clocks\<rparr>"

definition check_body ::
  "permit \<Rightarrow> event_id \<Rightarrow> metadata \<Rightarrow> msg_text \<Rightarrow> (read_refusal, unit) result" where
  "check_body p id' metadata t =
     (if desc_id (permit_descriptor p) \<noteq> id' \<or> desc_metadata (permit_descriptor p) \<noteq> metadata \<or>
         read_limit_bytes (desc_body_bytes (permit_descriptor p)) \<noteq> length (text_str t)
      then Inl RefuseDescriptor else Inr ())"

definition permit_observation :: "permit \<Rightarrow> observation" where
  "permit_observation p =
     \<lparr>obs_handoff = desc_id (permit_descriptor p), obs_reader = permit_reader p\<rparr>"

section \<open>What the gates guarantee\<close>

lemma read_decision_Inr:
  "read_decision facts bytes limit = Inr u \<longleftrightarrow>
     rf_project_matches facts \<and> rf_scope_matches facts \<and> rf_descriptor facts = Exact \<and>
     rf_reader facts = Named \<and> 0 < bytes \<and> bytes \<le> limit \<and> limit \<le> MAX_BODY_BYTES"
  by (auto simp: read_decision_def)

lemma observation_decision_Inr:
  "observation_decision facts = Inr u \<longleftrightarrow>
     of_parent_matches facts \<and> of_issuer_matches facts \<and> of_reader facts = Named \<and>
     of_audience_matches facts \<and> of_parent_clock facts < of_observation_clock facts"
  by (auto simp: observation_decision_def not_le)

lemma reader_grant_Named:
  "reader_grant d r = Named \<longleftrightarrow> r \<in> set (members_agents (md_permitted_readers (desc_metadata d)))"
  by (simp add: reader_grant_def members_contains_def)

lemma descriptor_new_iff:
  "descriptor_new i m t = Inr d \<longleftrightarrow>
     0 < length (text_str t) \<and> length (text_str t) \<le> MAX_BODY_BYTES \<and>
     event_origin i = agent_origin (md_sender m) \<and>
     d = \<lparr>desc_id = i, desc_metadata = m, desc_body_bytes = ReadLimit (length (text_str t))\<rparr>"
  by (auto simp: descriptor_new_def read_limit_try_from_def descriptor_try_from_def)

lemma metadata_new_iff:
  "metadata_new s t c rs = Inr m \<longleftrightarrow>
     (\<forall>a. t = AgentTarget a \<longrightarrow> a \<in> set (members_agents rs)) \<and>
     audience_of (s # members_agents rs) = Inr (md_audience m) \<and>
     md_sender m = s \<and> md_intended_recipient m = t \<and> md_project m = fst c \<and> md_scope m = snd c \<and>
     md_permitted_readers m = rs"
  by (cases m; cases t) (auto simp: metadata_new_def members_contains_def result_simps)

end
