(* ===== verification/Chat_Event.thy ===== *)
theory Chat_Event
  imports Chat_Card Chat_Notification Chat_Handoff
begin

text \<open>
  Events (\<open>chat/event.rs\<close>): what an agent or a machine writes, who may see it, the checks every
  event passes before it exists (\<open>event_new\<close>), what a machine outside the audience receives
  instead (\<open>event_export\<close>), and the sealed form with its encoding and digest.

  \<open>serde_json\<close> and \<open>blake3\<close> are other crates: the encoder and the hash are the two fields of a
  \<open>codec\<close>, an argument of every operation that seals an event.
\<close>

definition MAX_EVENT_BYTES :: nat where
  "MAX_EVENT_BYTES = 400 * 1024"

datatype intent = Send | Ask agent_id chain | Reply event_id

datatype outcome = Failed | Interrupted | Unavailable | Withdrawn

definition outcome_as_str :: "outcome \<Rightarrow> string" where
  "outcome_as_str o' =
     (case o' of Failed \<Rightarrow> ''failed'' | Interrupted \<Rightarrow> ''interrupted''
      | Unavailable \<Rightarrow> ''unavailable'' | Withdrawn \<Rightarrow> ''withdrawn'')"

section \<open>Bodies\<close>

datatype body =
    Profile agent_name card
  | Left agent_name
  | Machine machine_card
  | Room room_name "line option" members
  | RoomClosed room_name
  | Message conversation agent_name msg_text audience intent stamp "notice option"
  | Handoff metadata msg_text stamp
  | HandoffRead observation audience
  | Receipt event_id conversation audience agent_name delivery
  | Activity agent_name activity
  | TurnStarted event_id conversation audience agent_name
  | Resolved event_id conversation audience agent_name outcome
  | Omitted

fun body_thread :: "body \<Rightarrow> (conversation \<times> audience) option" where
  "body_thread (Message conversation _ _ audience _ _ _) = Some (conversation, audience)"
| "body_thread (TurnStarted _ conversation audience _) = Some (conversation, audience)"
| "body_thread (Resolved _ conversation audience _ _) = Some (conversation, audience)"
| "body_thread (Receipt _ conversation audience _ _) = Some (conversation, audience)"
| "body_thread (Profile _ _) = None"
| "body_thread (Left _) = None"
| "body_thread (Machine _) = None"
| "body_thread (Room _ _ _) = None"
| "body_thread (RoomClosed _) = None"
| "body_thread (Activity _ _) = None"
| "body_thread (Handoff _ _ _) = None"
| "body_thread (HandoffRead _ _) = None"
| "body_thread Omitted = None"

definition body_audience :: "body \<Rightarrow> audience option" where
  "body_audience b =
     (case b of
        Handoff metadata _ _ \<Rightarrow> Some (md_audience metadata)
      | HandoffRead _ audience \<Rightarrow> Some audience
      | _ \<Rightarrow> map_option snd (body_thread b))"

definition body_conversation :: "body \<Rightarrow> conversation option" where
  "body_conversation b = map_option fst (body_thread b)"

fun body_request :: "body \<Rightarrow> event_id option" where
  "body_request (HandoffRead observation _) = Some (obs_handoff observation)"
| "body_request (Message _ _ _ _ (Reply request) _ _) = Some request"
| "body_request (TurnStarted request _ _ _) = Some request"
| "body_request (Resolved request _ _ _ _) = Some request"
| "body_request (Receipt request _ _ _ _) = Some request"
| "body_request _ = None"

fun body_author :: "body \<Rightarrow> agent_name option" where
  "body_author (Message _ from _ _ _ _ _) = Some from"
| "body_author (Profile agent _) = Some agent"
| "body_author (Left agent) = Some agent"
| "body_author (TurnStarted _ _ _ agent) = Some agent"
| "body_author (Resolved _ _ _ agent _) = Some agent"
| "body_author (Receipt _ _ _ agent _) = Some agent"
| "body_author (Activity agent _) = Some agent"
| "body_author (Handoff metadata _ _) = Some (agent_name (md_sender metadata))"
| "body_author (HandoffRead observation _) = Some (agent_name (obs_reader observation))"
| "body_author (Machine _) = None"
| "body_author (Room _ _ _) = None"
| "body_author (RoomClosed _) = None"
| "body_author Omitted = None"

section \<open>Checks of a new event\<close>

definition valid_ask :: "agent_id \<Rightarrow> conversation \<Rightarrow> audience \<Rightarrow> agent_id \<times> chain \<Rightarrow> bool" where
  "valid_ask sender conversation audience ask =
     (let (responder, chain) = ask
      in responder \<noteq> sender \<and> \<not> chain_contains chain responder \<and> \<not> chain_contains chain sender \<and>
         audience_includes audience (agent_origin responder) \<and>
         (case conversation of
            Direct pair \<Rightarrow> pair_other pair sender = Some responder
          | InRoom _ \<Rightarrow> True))"

definition valid_thread :: "conversation \<Rightarrow> audience \<Rightarrow> agent_id \<Rightarrow> bool" where
  "valid_thread conversation audience author =
     (case conversation of
        Direct pair \<Rightarrow>
          (let first = agent_origin (pair_first pair); second = agent_origin (pair_second pair)
           in pair_includes pair author \<and>
              (if first = second then audience_members audience = [first]
               else if first < second then audience_members audience = [first, second]
               else audience_members audience = [second, first]))
      | InRoom _ \<Rightarrow> True)"

definition valid_notice ::
  "agent_id \<Rightarrow> conversation \<times> audience \<Rightarrow> intent \<Rightarrow> notice \<Rightarrow> bool" where
  "valid_notice sender thread intent notice =
     (let (conversation, audience) = thread
      in \<not> (members_contains (n_recipients notice) sender \<or>
            list_ex
              (\<lambda>agent. \<not> audience_includes audience (agent_origin agent) \<or>
                 (case conversation of Direct pair \<Rightarrow> \<not> pair_includes pair agent | InRoom _ \<Rightarrow> False))
              (members_agents (n_recipients notice)) \<or>
            (case n_question notice of
               None \<Rightarrow> False
             | Some question \<Rightarrow>
                 q_fallback question = sender \<or>
                 \<not> (case intent of
                      Ask _ chain \<Rightarrow> \<not> chain_contains chain (q_fallback question)
                    | Send \<Rightarrow> False
                    | Reply _ \<Rightarrow> False)) \<or>
            (case intent of
               Ask responder _ \<Rightarrow> \<not> members_contains (n_recipients notice) responder
             | Send \<Rightarrow> False
             | Reply _ \<Rightarrow> False)))"

record event =
  ev_id :: event_id
  ev_clock :: u64
  ev_body :: body

definition ev_origin :: "event \<Rightarrow> origin" where
  "ev_origin e = event_origin (ev_id e)"

text \<open>The checks of \<open>Event::new\<close>, one definition per \<open>if\<close>, in their order.\<close>

definition handoff_sender_ok :: "event_id \<Rightarrow> body \<Rightarrow> bool" where
  "handoff_sender_ok id' body =
     (case body of
        Handoff metadata _ _ \<Rightarrow> agent_origin (md_sender metadata) = event_origin id'
      | _ \<Rightarrow> True)"

definition handoff_read_ok :: "event_id \<Rightarrow> body \<Rightarrow> bool" where
  "handoff_read_ok id' body =
     (case body of
        HandoffRead observation audience \<Rightarrow>
          agent_origin (obs_reader observation) = event_origin id' \<and>
          audience_includes audience (event_origin id')
      | _ \<Rightarrow> True)"

definition thread_ok :: "event_id \<Rightarrow> body \<Rightarrow> bool" where
  "thread_ok id' body =
     (case body_thread body of
        Some (conversation, audience) \<Rightarrow>
          audience_includes audience (event_origin id') \<and>
          (case map_option (\<lambda>name. AgentId name (event_origin id')) (body_author body) of
             None \<Rightarrow> False
           | Some author \<Rightarrow> valid_thread conversation audience author)
      | None \<Rightarrow> True)"

definition ask_ok :: "event_id \<Rightarrow> body \<Rightarrow> bool" where
  "ask_ok id' body =
     (case body of
        Message conversation from _ audience (Ask responder chain) _ _ \<Rightarrow>
          valid_ask (AgentId from (event_origin id')) conversation audience (responder, chain)
      | _ \<Rightarrow> True)"

definition notice_ok :: "event_id \<Rightarrow> body \<Rightarrow> bool" where
  "notice_ok id' body =
     (case body of
        Message conversation from _ audience intent _ (Some notice) \<Rightarrow>
          valid_notice (AgentId from (event_origin id')) (conversation, audience) intent notice
      | _ \<Rightarrow> True)"

definition receipt_ok :: "body \<Rightarrow> bool" where
  "receipt_ok body =
     (case body of Receipt _ _ _ _ d \<Rightarrow> d \<noteq> Pending | _ \<Rightarrow> True)"

definition event_new :: "event_id \<Rightarrow> u64 \<Rightarrow> body \<Rightarrow> (invalid, event) result" where
  "event_new id' clock body =
     (if clock = 0 \<or> clock = - 1 then Inl (Invalid ''event clock'')
      else if \<not> handoff_sender_ok id' body then Inl (Invalid ''handoff sender origin'')
      else if \<not> handoff_read_ok id' body
      then Inl (Invalid ''handoff observation author or audience'')
      else if \<not> thread_ok id' body then Inl (Invalid ''conversation author or audience'')
      else if \<not> ask_ok id' body
      then Inl (Invalid ''ask responder, conversation, or delegation chain'')
      else if \<not> notice_ok id' body then Inl (Invalid ''message notification recipients'')
      else if \<not> receipt_ok body
      then Inl (Invalid ''a receipt must record delivery, reading, or acknowledgment'')
      else Inr \<lparr>ev_id = id', ev_clock = clock, ev_body = body\<rparr>)"

definition ev_author :: "event \<Rightarrow> agent_id option" where
  "ev_author e = map_option (\<lambda>name. AgentId name (ev_origin e)) (body_author (ev_body e))"

definition ev_order :: "event \<Rightarrow> u64 \<times> origin \<times> u64" where
  "ev_order e = (ev_clock e, ev_origin e, event_seq (ev_id e))"

definition event_omitted :: "event \<Rightarrow> event" where
  "event_omitted e = \<lparr>ev_id = ev_id e, ev_clock = ev_clock e, ev_body = Omitted\<rparr>"

definition event_export :: "event \<Rightarrow> origin \<Rightarrow> event" where
  "event_export e peer =
     (case body_audience (ev_body e) of
        Some audience \<Rightarrow> if \<not> audience_includes audience peer then event_omitted e else e
      | None \<Rightarrow> e)"

section \<open>Sealing\<close>

datatype digest = Digest (digest_bytes: "u8 list")

record codec =
  codec_encode :: "event \<Rightarrow> string option"
  codec_hash :: "string \<Rightarrow> digest"

record sealed =
  sealed_event :: event
  sealed_encoded :: string
  sealed_digest :: digest

definition sealed_new :: "codec \<Rightarrow> event \<Rightarrow> (invalid, sealed) result" where
  "sealed_new C event =
     and_then (ok_or (Invalid ''event encoding'') (codec_encode C event)) (\<lambda>encoded.
       if length encoded > MAX_EVENT_BYTES then Inl (Invalid ''event exceeds its size limit'')
       else Inr \<lparr>sealed_event = event, sealed_encoded = encoded,
                 sealed_digest = codec_hash C encoded\<rparr>)"

section \<open>Facts\<close>

definition wf_event :: "event \<Rightarrow> bool" where
  "wf_event e = (event_new (ev_id e) (ev_clock e) (ev_body e) = Inr e)"

lemma event_new_Inr:
  "event_new i c b = Inr e \<longleftrightarrow>
     c \<noteq> 0 \<and> c \<noteq> - 1 \<and> handoff_sender_ok i b \<and> handoff_read_ok i b \<and> thread_ok i b \<and>
     ask_ok i b \<and> notice_ok i b \<and> receipt_ok b \<and> e = \<lparr>ev_id = i, ev_clock = c, ev_body = b\<rparr>"
  by (auto simp: event_new_def)

lemma event_new_wf: "event_new i c b = Inr e \<Longrightarrow> wf_event e"
  by (auto simp: wf_event_def event_new_Inr)

lemma event_new_fields:
  "event_new i c b = Inr e \<Longrightarrow> ev_id e = i \<and> ev_clock e = c \<and> ev_body e = b \<and> 0 < c \<and> c < - 1"
  by (auto simp: event_new_Inr word_neq_0_conv order_neq_le_trans word_order.not_eq_extremum)

lemma body_audience_thread: "body_thread b = Some (c, a) \<Longrightarrow> body_audience b = Some a"
  by (cases b) (auto simp: body_audience_def)

lemma event_export_fields [simp]:
  "ev_id (event_export e p) = ev_id e" "ev_clock (event_export e p) = ev_clock e"
  "ev_origin (event_export e p) = ev_origin e"
  by (auto simp: event_export_def event_omitted_def ev_origin_def split: option.split)

lemma event_omitted_fields [simp]:
  "ev_id (event_omitted e) = ev_id e" "ev_clock (event_omitted e) = ev_clock e"
  "ev_origin (event_omitted e) = ev_origin e" "ev_body (event_omitted e) = Omitted"
  by (auto simp: event_omitted_def ev_origin_def)

lemma body_audience_Omitted [simp]: "body_audience Omitted = None"
  by (simp add: body_audience_def)

lemma event_export_cases:
  obtains "event_export e p = e" "\<And>a. body_audience (ev_body e) = Some a \<Longrightarrow> audience_includes a p"
  | a where "event_export e p = event_omitted e" "body_audience (ev_body e) = Some a"
      "\<not> audience_includes a p"
  by (auto simp: event_export_def split: option.splits if_splits)

lemma event_export_idem [simp]: "event_export (event_export e p) p = event_export e p"
  by (rule event_export_cases [of e p]) (auto simp: event_export_def)

lemma wf_event_omitted: "wf_event e \<Longrightarrow> wf_event (event_omitted e)"
  by (auto simp: wf_event_def event_new_Inr event_omitted_def handoff_sender_ok_def
      handoff_read_ok_def thread_ok_def ask_ok_def notice_ok_def receipt_ok_def)

lemma wf_event_export: "wf_event e \<Longrightarrow> wf_event (event_export e p)"
  by (rule event_export_cases [of e p]) (auto simp: wf_event_omitted)

lemma wf_event_author_in_audience:
  assumes "wf_event e" and "body_thread (ev_body e) = Some (c, a)"
  shows "audience_includes a (ev_origin e)" and "\<exists>author. ev_author e = Some author \<and> valid_thread c a author"
  using assms by (auto simp: wf_event_def event_new_Inr thread_ok_def ev_author_def ev_origin_def
      split: option.splits)

lemma sealed_new_Inr:
  "sealed_new C e = Inr s \<longleftrightarrow>
     (\<exists>enc. codec_encode C e = Some enc \<and> length enc \<le> MAX_EVENT_BYTES \<and>
        s = \<lparr>sealed_event = e, sealed_encoded = enc, sealed_digest = codec_hash C enc\<rparr>)"
  by (cases "codec_encode C e") (auto simp: sealed_new_def)

lemma sealed_new_event: "sealed_new C e = Inr s \<Longrightarrow> sealed_event s = e"
  by (auto simp: sealed_new_Inr)

end
