(* ===== verification/Chat_Ledger.thy ===== *)
theory Chat_Ledger
  imports Chat_Event
begin

text \<open>
  The ledger (\<open>chat/ledger.rs\<close>, \<open>chat/ledger/parent_identity.rs\<close>): the decision whether an event
  may be appended (\<open>admit\<close>), what it changes (\<open>change\<close>), appending a local body (\<open>append_event\<close>)
  and receiving a peer's batch (\<open>receive\<close>).

  The trait \<open>Ledger\<close> is the record \<open>ledger_ops\<close> of its methods over a store type \<open>'l\<close> and its error
  type \<open>'e\<close>; a method that takes \<open>&mut self\<close> returns the new store with its result. The functions
  generic over \<open>L: Ledger\<close> take that record as their first argument. What they rely on in an
  implementation is the locale \<open>ledger\<close>, whose lemmas hold for every store that keeps its laws.
\<close>

record cursor =
  cur_seen :: u64
  cur_clock :: u64

definition cursor_default :: cursor where
  "cursor_default = \<lparr>cur_seen = 0, cur_clock = 0\<rparr>"

datatype parent = Present event | Opaque | Missing

text \<open>\<open>parent_identity::matches\<close> and \<open>Parent::matches\<close>.\<close>

definition identity_matches :: "event_id option \<Rightarrow> event_id \<Rightarrow> bool" where
  "identity_matches parent request =
     (case parent of Some id' \<Rightarrow> id' = request | None \<Rightarrow> True)"

definition parent_matches :: "parent \<Rightarrow> event_id \<Rightarrow> bool" where
  "parent_matches p request =
     (let identity = (case p of Present parent \<Rightarrow> Some (ev_id parent) | Opaque \<Rightarrow> None | Missing \<Rightarrow> None)
      in identity_matches identity request)"

datatype ending = Answered | Ended outcome

record resolution =
  res_event :: event_id
  res_clock :: u64
  res_ending :: ending
  res_asker :: agent_id
  res_responder :: agent_id

definition res_key :: "resolution \<Rightarrow> u64 \<times> origin \<times> u64" where
  "res_key r = (res_clock r, event_origin (res_event r), event_seq (res_event r))"

definition precedes :: "resolution \<Rightarrow> resolution \<Rightarrow> bool" where
  "precedes r other = (res_key r < res_key other)"

record room =
  room_topic :: "line option"
  room_members :: members

datatype rejection =
    MissingDependency event_id event_id
  | Gap origin u64
  | Conflict event_id
  | ClockRegression event_id
  | Mismatch event_id
  | Unauthorized event_id
  | ResourceLimit
  | WrongPeer
  | AheadOfHistory
  | Inconsistent

datatype view_change =
    ChNothing
  | ChProfile agent_id "card option"
  | ChMachine machine_card
  | ChRoom room_id "room option"
  | ChAsk agent_id
  | ChStarted event_id agent_id
  | ChResolution event_id resolution bool
  | ChReceipt event_id agent_id delivery
  | ChActivity agent_id activity
  | ChHandoffRead event_id agent_id

record admitted =
  adm_cursor :: cursor
  adm_change :: view_change

datatype decision = Duplicate | Append admitted

record ('l, 'e) ledger_ops =
  l_local :: "'l \<Rightarrow> origin"
  l_cursor :: "'l \<Rightarrow> origin \<Rightarrow> ('e, cursor) result"
  l_digest :: "'l \<Rightarrow> event_id \<Rightarrow> ('e, digest option) result"
  l_parent :: "'l \<Rightarrow> event_id \<Rightarrow> ('e, parent) result"
  l_resolution :: "'l \<Rightarrow> event_id \<Rightarrow> ('e, resolution option) result"
  l_clock :: "'l \<Rightarrow> ('e, u64) result"
  l_has_room :: "'l \<Rightarrow> ('e, bool) result"
  l_commit :: "'l \<Rightarrow> sealed \<Rightarrow> admitted \<Rightarrow> 'l \<times> ('e, unit) result"

datatype 'e failure = Store 'e | Rejected rejection | FInvalid invalid

section \<open>What an event changes\<close>

definition checked_parent ::
  "('l, 'e, 'm) ledger_ops_scheme \<Rightarrow> 'l \<Rightarrow> event \<Rightarrow> event_id \<Rightarrow> ('e failure, parent) result" where
  "checked_parent L l event request =
     and_then (map_err Store (l_parent L l request)) (\<lambda>parent.
       if \<not> parent_matches parent request then Inl (Rejected (Mismatch (ev_id event)))
       else Inr parent)"

definition same_thread :: "event \<Rightarrow> conversation \<Rightarrow> audience \<Rightarrow> event \<Rightarrow> bool" where
  "same_thread event conversation audience parent =
     (body_conversation (ev_body parent) = Some conversation \<and>
      body_audience (ev_body parent) = Some audience \<and>
      ev_clock event > ev_clock parent)"

definition ask_of :: "event \<Rightarrow> (agent_id \<times> agent_id) option" where
  "ask_of parent =
     (case ev_body parent of
        Message _ from _ _ (Ask responder _) _ _ \<Rightarrow>
          Some (AgentId from (ev_origin parent), responder)
      | _ \<Rightarrow> None)"

record candidate =
  cand_ending :: ending
  cand_author :: agent_id

definition authorized :: "candidate \<Rightarrow> agent_id \<Rightarrow> agent_id \<Rightarrow> bool" where
  "authorized c asker responder =
     (case cand_ending c of
        Ended Withdrawn \<Rightarrow> cand_author c = asker
      | _ \<Rightarrow> cand_author c = responder)"

definition plain_reply :: "event \<Rightarrow> ending \<Rightarrow> ('e failure, view_change) result" where
  "plain_reply event ending =
     (case ending of
        Answered \<Rightarrow> Inr ChNothing
      | Ended _ \<Rightarrow> Inl (Rejected (Mismatch (ev_id event))))"

text \<open>The end of \<open>resolve\<close>, once the asker and the responder of the request are known.\<close>

definition resolve_candidate ::
  "event \<Rightarrow> event_id \<Rightarrow> candidate \<Rightarrow> resolution option \<Rightarrow> agent_id \<times> agent_id
     \<Rightarrow> ('e failure, view_change) result" where
  "resolve_candidate event request candidate current ask =
     (let (asker, responder) = ask
      in if \<not> authorized candidate asker responder then
           (case cand_ending candidate of
              Answered \<Rightarrow> Inr ChNothing
            | Ended _ \<Rightarrow> Inl (Rejected (Mismatch (ev_id event))))
         else
           (let resolution =
              \<lparr>res_event = ev_id event, res_clock = ev_clock event,
               res_ending = cand_ending candidate, res_asker = asker, res_responder = responder\<rparr>;
              wins = (case current of None \<Rightarrow> True | Some known \<Rightarrow> precedes resolution known)
            in Inr (ChResolution request resolution wins)))"

definition resolve ::
  "('l, 'e, 'm) ledger_ops_scheme \<Rightarrow> 'l \<Rightarrow> event \<Rightarrow> event_id \<Rightarrow> candidate
     \<Rightarrow> ('e failure, view_change) result" where
  "resolve L l event request candidate =
     (case (body_conversation (ev_body event), body_audience (ev_body event)) of
        (Some conversation, Some audience) \<Rightarrow>
          and_then (map_err Store (l_resolution L l request)) (\<lambda>current.
          and_then (checked_parent L l event request) (\<lambda>parent.
            case parent of
              Missing \<Rightarrow> Inl (Rejected (MissingDependency (ev_id event) request))
            | Present parent \<Rightarrow>
                if \<not> same_thread event conversation audience parent
                then Inl (Rejected (Mismatch (ev_id event)))
                else (case ask_of parent of
                        Some ask \<Rightarrow> resolve_candidate event request candidate current ask
                      | None \<Rightarrow> plain_reply event (cand_ending candidate))
            | Opaque \<Rightarrow>
                (case current of
                   Some known \<Rightarrow>
                     resolve_candidate event request candidate current
                       (res_asker known, res_responder known)
                 | None \<Rightarrow> plain_reply event (cand_ending candidate))))
      | _ \<Rightarrow> Inr ChNothing)"

record thread_context =
  tp_conversation :: conversation
  tp_audience :: audience
  tp_agent :: agent_id
  tp_parent :: event

definition thread_parent ::
  "('l, 'e, 'm) ledger_ops_scheme \<Rightarrow> 'l \<Rightarrow> event \<Rightarrow> event_id
     \<Rightarrow> ('e failure, thread_context option) result" where
  "thread_parent L l event request =
     (case (body_conversation (ev_body event), body_audience (ev_body event), ev_author event) of
        (Some conversation, Some audience, Some agent) \<Rightarrow>
          and_then (checked_parent L l event request) (\<lambda>parent.
            case parent of
              Missing \<Rightarrow> Inl (Rejected (MissingDependency (ev_id event) request))
            | Opaque \<Rightarrow> Inr None
            | Present parent \<Rightarrow>
                Inr (Some \<lparr>tp_conversation = conversation, tp_audience = audience,
                           tp_agent = agent, tp_parent = parent\<rparr>))
      | _ \<Rightarrow> Inr None)"

definition started ::
  "('l, 'e, 'm) ledger_ops_scheme \<Rightarrow> 'l \<Rightarrow> event \<Rightarrow> event_id \<Rightarrow> ('e failure, view_change) result" where
  "started L l event request =
     and_then (thread_parent L l event request) (\<lambda>context.
       case context of
         None \<Rightarrow> Inr ChNothing
       | Some context \<Rightarrow>
           (case ask_of (tp_parent context) of
              Some (_, responder) \<Rightarrow>
                if responder = tp_agent context \<and>
                   same_thread event (tp_conversation context) (tp_audience context)
                     (tp_parent context)
                then Inr (ChStarted request (tp_agent context))
                else Inl (Rejected (Mismatch (ev_id event)))
            | None \<Rightarrow> Inl (Rejected (Mismatch (ev_id event)))))"

definition receipt_addressed :: "event \<Rightarrow> agent_id \<Rightarrow> bool" where
  "receipt_addressed parent agent =
     (case ev_body parent of
        Message _ _ _ _ _ _ (Some notice) \<Rightarrow> members_contains (n_recipients notice) agent
      | Message _ _ _ _ _ _ None \<Rightarrow> ev_author parent \<noteq> Some agent
      | _ \<Rightarrow> False)"

definition receipt_change ::
  "event \<Rightarrow> event_id \<Rightarrow> delivery \<Rightarrow> thread_context \<Rightarrow> (rejection, view_change) result" where
  "receipt_change event request delivery context =
     (if \<not> receipt_addressed (tp_parent context) (tp_agent context) \<or>
         \<not> same_thread event (tp_conversation context) (tp_audience context) (tp_parent context)
      then Inl (Mismatch (ev_id event))
      else Inr (ChReceipt request (tp_agent context) delivery))"

definition receipt ::
  "('l, 'e, 'm) ledger_ops_scheme \<Rightarrow> 'l \<Rightarrow> event \<Rightarrow> event_id \<Rightarrow> delivery
     \<Rightarrow> ('e failure, view_change) result" where
  "receipt L l event request delivery =
     and_then (thread_parent L l event request) (\<lambda>context.
       case context of
         None \<Rightarrow> Inr ChNothing
       | Some context \<Rightarrow> map_err Rejected (receipt_change event request delivery context))"

definition handoff_read ::
  "('l, 'e, 'm) ledger_ops_scheme \<Rightarrow> 'l \<Rightarrow> event \<Rightarrow> observation \<Rightarrow> audience
     \<Rightarrow> ('e failure, view_change) result" where
  "handoff_read L l event observation audience =
     (let mismatch = Rejected (Mismatch (ev_id event))
      in and_then (ok_or mismatch (ev_author event)) (\<lambda>author.
         and_then (checked_parent L l event (obs_handoff observation)) (\<lambda>parent.
           case parent of
             Missing \<Rightarrow> Inl (Rejected (MissingDependency (ev_id event) (obs_handoff observation)))
           | Opaque \<Rightarrow> Inl mismatch
           | Present parent \<Rightarrow>
               (case ev_body parent of
                  Handoff metadata body_text _ \<Rightarrow>
                    and_then
                      (map_err (\<lambda>_. mismatch) (descriptor_new (ev_id parent) metadata body_text))
                      (\<lambda>descriptor.
                    and_then
                      (map_err (\<lambda>_. mismatch)
                        (admit_observation descriptor observation (author, audience)
                           (ev_clock parent, ev_clock event)))
                      (\<lambda>_. Inr (ChHandoffRead (obs_handoff observation) (obs_reader observation))))
                | _ \<Rightarrow> Inl mismatch))))"

definition change ::
  "('l, 'e, 'm) ledger_ops_scheme \<Rightarrow> 'l \<Rightarrow> event \<Rightarrow> ('e failure, view_change) result" where
  "change L l event =
     (case ev_body event of
        Omitted \<Rightarrow> Inr ChNothing
      | Handoff _ _ _ \<Rightarrow> Inr ChNothing
      | Profile agent c \<Rightarrow> Inr (ChProfile (AgentId agent (ev_origin event)) (Some c))
      | Left agent \<Rightarrow> Inr (ChProfile (AgentId agent (ev_origin event)) None)
      | Activity agent activity \<Rightarrow> Inr (ChActivity (AgentId agent (ev_origin event)) activity)
      | Receipt request _ _ _ delivery \<Rightarrow> receipt L l event request delivery
      | HandoffRead observation audience \<Rightarrow> handoff_read L l event observation audience
      | Machine c \<Rightarrow> Inr (ChMachine c)
      | Room name topic members \<Rightarrow>
          Inr (ChRoom (RoomId (ev_origin event) name)
                 (Some \<lparr>room_topic = topic, room_members = members\<rparr>))
      | RoomClosed name \<Rightarrow> Inr (ChRoom (RoomId (ev_origin event) name) None)
      | Message _ from _ _ intent _ _ \<Rightarrow>
          (case intent of
             Send \<Rightarrow> Inr ChNothing
           | Ask responder _ \<Rightarrow> Inr (ChAsk responder)
           | Reply request \<Rightarrow>
               resolve L l event request
                 \<lparr>cand_ending = Answered, cand_author = AgentId from (ev_origin event)\<rparr>)
      | TurnStarted request _ _ _ \<Rightarrow> started L l event request
      | Resolved request _ _ agent outcome \<Rightarrow>
          resolve L l event request
            \<lparr>cand_ending = Ended outcome, cand_author = AgentId agent (ev_origin event)\<rparr>)"

section \<open>Admission, appending, receiving\<close>

definition admit ::
  "('l, 'e, 'm) ledger_ops_scheme \<Rightarrow> 'l \<Rightarrow> sealed \<Rightarrow> ('e failure, decision) result" where
  "admit L l sealed =
     (let event = sealed_event sealed; seq = event_seq (ev_id event)
      in and_then (map_err Store (l_cursor L l (ev_origin event))) (\<lambda>cursor.
           if seq \<le> cur_seen cursor then
             and_then (map_err Store (l_digest L l (ev_id event))) (\<lambda>stored.
               if stored = Some (sealed_digest sealed) then Inr Duplicate
               else Inl (Rejected (Conflict (ev_id event))))
           else
             and_then (ok_or (FInvalid (Invalid ''sequence exhausted'')) (checked_add (cur_seen cursor) 1))
             (\<lambda>expected.
               if seq \<noteq> expected then Inl (Rejected (Gap (ev_origin event) expected))
               else if ev_clock event \<le> cur_clock cursor
               then Inl (Rejected (ClockRegression (ev_id event)))
               else and_then (change L l event) (\<lambda>change.
                 Inr (Append \<lparr>adm_cursor = \<lparr>cur_seen = seq, cur_clock = ev_clock event\<rparr>,
                              adm_change = change\<rparr>)))))"

definition commit ::
  "('l, 'e, 'm) ledger_ops_scheme \<Rightarrow> 'l \<Rightarrow> sealed \<Rightarrow> 'l \<times> ('e failure, bool) result" where
  "commit L l sealed =
     (case admit L l sealed of
        Inl f \<Rightarrow> (l, Inl f)
      | Inr Duplicate \<Rightarrow> (l, Inr False)
      | Inr (Append admitted) \<Rightarrow>
          (case l_commit L l sealed admitted of
             (l', Inl e) \<Rightarrow> (l', Inl (Store e))
           | (l', Inr _) \<Rightarrow> (l', Inr True)))"

text \<open>The identity and the clock \<open>append\<close> gives to the next local event.\<close>

definition next_local ::
  "('l, 'e, 'm) ledger_ops_scheme \<Rightarrow> 'l \<Rightarrow> ('e failure, event_id \<times> u64) result" where
  "next_local L l =
     (let origin = l_local L l; exhausted = FInvalid (Invalid ''local sequence or clock exhausted'')
      in and_then (map_err Store (l_cursor L l origin)) (\<lambda>cursor.
         and_then (ok_or exhausted (checked_add (cur_seen cursor) 1)) (\<lambda>seq.
         and_then (map_err Store (l_clock L l)) (\<lambda>clock.
         and_then
           (ok_or exhausted
             (case checked_add (max clock (cur_clock cursor)) 1 of
                Some clock \<Rightarrow> if clock < - 1 then Some clock else None
              | None \<Rightarrow> None))
           (\<lambda>clock. Inr (EventId origin seq, clock))))))"

definition append_event ::
  "codec \<Rightarrow> ('l, 'e, 'm) ledger_ops_scheme \<Rightarrow> 'l \<Rightarrow> body \<Rightarrow> 'l \<times> ('e failure, event) result" where
  "append_event C L l body =
     (case and_then (next_local L l) (\<lambda>(id', clock).
             and_then (map_err FInvalid (event_new id' clock body)) (\<lambda>event.
               map_err FInvalid (sealed_new C event))) of
        Inl f \<Rightarrow> (l, Inl f)
      | Inr sealed \<Rightarrow>
          (case commit L l sealed of
             (l', Inl f) \<Rightarrow> (l', Inl f)
           | (l', Inr False) \<Rightarrow> (l', Inl (Rejected (Conflict (ev_id (sealed_event sealed)))))
           | (l', Inr True) \<Rightarrow> (l', Inr (sealed_event sealed))))"

record received =
  rcv_seen :: u64
  rcv_appended :: nat
  rcv_rejected :: "rejection option"

text \<open>One iteration of the loop of \<open>receive\<close>: the \<open>outcome\<close> for one event.\<close>

definition receive_one ::
  "codec \<Rightarrow> ('l, 'e, 'm) ledger_ops_scheme \<Rightarrow> 'l \<Rightarrow> origin \<Rightarrow> event \<Rightarrow> 'l \<times> ('e failure, bool) result"
  where
  "receive_one C L l origin event =
     (if ev_origin event \<noteq> origin \<or> origin = l_local L l
      then (l, Inl (Rejected (Unauthorized (ev_id event))))
      else case sealed_new C event of
        Inl i \<Rightarrow> (l, Inl (FInvalid i))
      | Inr sealed \<Rightarrow>
          (case admit L l sealed of
             Inl f \<Rightarrow> (l, Inl f)
           | Inr Duplicate \<Rightarrow> (l, Inr False)
           | Inr (Append admitted) \<Rightarrow>
               (case l_has_room L l of
                  Inl e \<Rightarrow> (l, Inl (Store e))
                | Inr False \<Rightarrow> (l, Inl (Rejected ResourceLimit))
                | Inr True \<Rightarrow>
                    (case l_commit L l sealed admitted of
                       (l', Inl e) \<Rightarrow> (l', Inl (Store e))
                     | (l', Inr _) \<Rightarrow> (l', Inr True)))))"

fun receive_loop ::
  "codec \<Rightarrow> ('l, 'e, 'm) ledger_ops_scheme \<Rightarrow> 'l \<Rightarrow> origin \<Rightarrow> event list \<Rightarrow> nat
     \<Rightarrow> 'l \<times> ('e, nat \<times> rejection option) result" where
  "receive_loop C L l origin [] appended = (l, Inr (appended, None))"
| "receive_loop C L l origin (event # events) appended =
     (case receive_one C L l origin event of
        (l', Inr True) \<Rightarrow> receive_loop C L l' origin events (usize_add appended 1)
      | (l', Inr False) \<Rightarrow> receive_loop C L l' origin events appended
      | (l', Inl (Store error)) \<Rightarrow> (l', Inl error)
      | (l', Inl (Rejected rejection)) \<Rightarrow> (l', Inr (appended, Some rejection))
      | (l', Inl (FInvalid _)) \<Rightarrow> (l', Inr (appended, Some (Mismatch (ev_id event)))))"

definition receive ::
  "codec \<Rightarrow> ('l, 'e, 'm) ledger_ops_scheme \<Rightarrow> 'l \<Rightarrow> origin \<Rightarrow> event list \<Rightarrow> 'l \<times> ('e, received) result"
  where
  "receive C L l origin events =
     (case receive_loop C L l origin events 0 of
        (l', Inl error) \<Rightarrow> (l', Inl error)
      | (l', Inr (appended, rejected)) \<Rightarrow>
          (l', and_then (l_cursor L l' origin) (\<lambda>cursor.
                 Inr \<lparr>rcv_seen = cur_seen cursor, rcv_appended = appended,
                      rcv_rejected = rejected\<rparr>)))"

section \<open>Facts about admission\<close>

lemma word_succ_not_le: "a \<noteq> - 1 \<Longrightarrow> \<not> a + 1 \<le> a" for a :: u64
  by (simp add: word_le_nat_alt unat_succ)

lemma admit_Append:
  "admit L l s = Inr (Append a) \<longleftrightarrow>
     (\<exists>c ch. l_cursor L l (ev_origin (sealed_event s)) = Inr c \<and> cur_seen c \<noteq> - 1 \<and>
        event_seq (ev_id (sealed_event s)) = cur_seen c + 1 \<and>
        cur_clock c < ev_clock (sealed_event s) \<and>
        change L l (sealed_event s) = Inr ch \<and>
        a = \<lparr>adm_cursor = \<lparr>cur_seen = event_seq (ev_id (sealed_event s)),
                           cur_clock = ev_clock (sealed_event s)\<rparr>,
             adm_change = ch\<rparr>)"
  by (cases "l_cursor L l (ev_origin (sealed_event s))"; cases "change L l (sealed_event s)";
      cases "l_digest L l (ev_id (sealed_event s))")
    (auto simp: admit_def Let_def checked_succ word_succ_not_le not_le[symmetric])

lemma admit_Duplicate:
  "admit L l s = Inr Duplicate \<longleftrightarrow>
     (\<exists>c. l_cursor L l (ev_origin (sealed_event s)) = Inr c \<and>
        event_seq (ev_id (sealed_event s)) \<le> cur_seen c \<and>
        l_digest L l (ev_id (sealed_event s)) = Inr (Some (sealed_digest s)))"
  by (cases "l_cursor L l (ev_origin (sealed_event s))"; cases "change L l (sealed_event s)";
      cases "l_digest L l (ev_id (sealed_event s))")
    (auto simp: admit_def Let_def checked_succ)

lemma commit_Inr_True:
  "commit L l s = (l', Inr True) \<longleftrightarrow>
     (\<exists>a. admit L l s = Inr (Append a) \<and> l_commit L l s a = (l', Inr ()))"
  by (auto simp: commit_def split: sum.splits decision.splits prod.splits)

lemma receive_one_True:
  "receive_one C L l p e = (l', Inr True) \<longleftrightarrow>
     ev_origin e = p \<and> p \<noteq> l_local L l \<and>
     (\<exists>s a. sealed_new C e = Inr s \<and> admit L l s = Inr (Append a) \<and> l_has_room L l = Inr True \<and>
        l_commit L l s a = (l', Inr ()))"
  by (auto simp: receive_one_def split: sum.splits decision.splits prod.splits bool.splits)

lemma receive_one_False:
  "receive_one C L l p e = (l', Inr False) \<longleftrightarrow>
     ev_origin e = p \<and> p \<noteq> l_local L l \<and> l' = l \<and>
     (\<exists>s. sealed_new C e = Inr s \<and> admit L l s = Inr Duplicate)"
  by (auto simp: receive_one_def split: sum.splits decision.splits prod.splits bool.splits)

text \<open>A refused event leaves the store as it was, unless the store itself failed.\<close>

lemma receive_one_rejected:
  "receive_one C L l p e = (l', Inl (Rejected r)) \<Longrightarrow> l' = l"
  "receive_one C L l p e = (l', Inl (FInvalid i)) \<Longrightarrow> l' = l"
  by (auto simp: receive_one_def split: sum.splits decision.splits prod.splits bool.splits if_splits)

lemma append_event_Inr:
  "append_event C L l b = (l', Inr e) \<longleftrightarrow>
     (\<exists>i c s. next_local L l = Inr (i, c) \<and> event_new i c b = Inr e \<and> sealed_new C e = Inr s \<and>
        commit L l s = (l', Inr True))"
  by (auto simp: append_event_def result_simps sealed_new_event
      split: sum.splits prod.splits bool.splits)

lemma next_local_Inr:
  "next_local L l = Inr (i, k) \<longleftrightarrow>
     (\<exists>c m. l_cursor L l (l_local L l) = Inr c \<and> l_clock L l = Inr m \<and> cur_seen c \<noteq> - 1 \<and>
        i = EventId (l_local L l) (cur_seen c + 1) \<and> max m (cur_clock c) \<noteq> - 1 \<and>
        k = max m (cur_clock c) + 1 \<and> k < - 1)"
  by (auto simp: next_local_def Let_def result_simps checked_succ_Some split: option.splits if_splits)

section \<open>The interface of a ledger\<close>

text \<open>
  What the core relies on in an implementation of \<open>Ledger\<close>: a successful commit of an admitted
  event advances exactly the cursor of the event's origin, stores exactly its digest, and keeps
  the machine's own identity and the implementation's invariant.
\<close>

locale ledger =
  fixes L :: "('l, 'e, 'm) ledger_ops_scheme"
    and inv :: "'l \<Rightarrow> bool"
  assumes commit_inv:
      "inv l \<Longrightarrow> admit L l s = Inr (Append a) \<Longrightarrow> l_commit L l s a = (l', Inr ()) \<Longrightarrow> inv l'"
    and commit_local:
      "inv l \<Longrightarrow> admit L l s = Inr (Append a) \<Longrightarrow> l_commit L l s a = (l', Inr ()) \<Longrightarrow>
         l_local L l' = l_local L l"
    and commit_cursor:
      "inv l \<Longrightarrow> admit L l s = Inr (Append a) \<Longrightarrow> l_commit L l s a = (l', Inr ()) \<Longrightarrow>
         l_cursor L l' p =
           (if p = ev_origin (sealed_event s) then Inr (adm_cursor a) else l_cursor L l p)"
    and commit_digest:
      "inv l \<Longrightarrow> admit L l s = Inr (Append a) \<Longrightarrow> l_commit L l s a = (l', Inr ()) \<Longrightarrow>
         l_digest L l' i =
           (if i = ev_id (sealed_event s) then Inr (Some (sealed_digest s)) else l_digest L l i)"
begin

text \<open>An event is known: it is within the cursor and its digest is the stored one.\<close>

definition known :: "'l \<Rightarrow> sealed \<Rightarrow> bool" where
  "known l s \<longleftrightarrow> admit L l s = Inr Duplicate"

lemma commit_known:
  assumes "inv l" "admit L l s = Inr (Append a)" "l_commit L l s a = (l', Inr ())"
  shows "known l' s"
  using commit_cursor [OF assms, of "ev_origin (sealed_event s)"]
    commit_digest [OF assms, of "ev_id (sealed_event s)"] assms(2)
  by (auto simp: known_def admit_Duplicate admit_Append)

lemma commit_keeps_known:
  assumes c: "inv l" "admit L l s = Inr (Append a)" "l_commit L l s a = (l', Inr ())"
    and k: "known l t"
  shows "known l' t"
proof -
  obtain c0 where c0: "l_cursor L l (ev_origin (sealed_event t)) = Inr c0"
    "event_seq (ev_id (sealed_event t)) \<le> cur_seen c0"
    "l_digest L l (ev_id (sealed_event t)) = Inr (Some (sealed_digest t))"
    using k by (auto simp: known_def admit_Duplicate)
  show ?thesis
  proof (cases "ev_origin (sealed_event t) = ev_origin (sealed_event s)")
    case True
    then have s: "event_seq (ev_id (sealed_event s)) = cur_seen c0 + 1" "cur_seen c0 \<noteq> - 1"
      "cur_seen (adm_cursor a) = cur_seen c0 + 1"
      using c(2) c0(1) by (auto simp: admit_Append)
    then have le: "event_seq (ev_id (sealed_event t)) \<le> cur_seen (adm_cursor a)"
      using c0(2) by (simp add: word_le_nat_alt unat_succ)
    have "event_seq (ev_id (sealed_event t)) \<noteq> event_seq (ev_id (sealed_event s))"
      using s c0(2) word_succ_not_le by auto
    then have "ev_id (sealed_event t) \<noteq> ev_id (sealed_event s)" by auto
    then show ?thesis
      using commit_cursor [OF c, of "ev_origin (sealed_event t)"]
        commit_digest [OF c, of "ev_id (sealed_event t)"] True le c0(3)
      by (simp add: known_def admit_Duplicate)
  next
    case False
    then have "ev_id (sealed_event t) \<noteq> ev_id (sealed_event s)"
      by (auto simp: ev_origin_def)
    then show ?thesis
      using commit_cursor [OF c, of "ev_origin (sealed_event t)"]
        commit_digest [OF c, of "ev_id (sealed_event t)"] False c0
      by (auto simp: known_def admit_Duplicate)
  qed
qed

lemma receive_one_step:
  assumes "inv l" "receive_one C L l p e = (l', Inr b)"
  shows "inv l' \<and> l_local L l' = l_local L l \<and> ev_origin e = p \<and> p \<noteq> l_local L l \<and>
    (\<exists>s. sealed_new C e = Inr s \<and> known l' s) \<and> (\<forall>t. known l t \<longrightarrow> known l' t)"
proof (cases b)
  case True
  with assms(2) obtain s a where *: "sealed_new C e = Inr s" "admit L l s = Inr (Append a)"
    "l_commit L l s a = (l', Inr ())" and p: "ev_origin e = p" "p \<noteq> l_local L l"
    by (auto simp: receive_one_True)
  note c = assms(1) *(2,3)
  show ?thesis
    using commit_inv [OF c] commit_local [OF c] commit_known [OF c] commit_keeps_known [OF c] p *(1)
    by auto
next
  case False
  with assms show ?thesis by (auto simp: receive_one_False known_def)
qed

lemma receive_loop_None:
  assumes "inv l" "receive_loop C L l p es n = (l', Inr (m, None))"
  shows "inv l' \<and> l_local L l' = l_local L l \<and> (\<forall>t. known l t \<longrightarrow> known l' t) \<and>
    (\<forall>e \<in> set es. ev_origin e = p \<and> p \<noteq> l_local L l \<and>
       (\<exists>s. sealed_new C e = Inr s \<and> known l' s))"
  using assms
proof (induction es arbitrary: l n)
  case Nil
  then show ?case by auto
next
  case (Cons e es)
  from Cons.prems(2) obtain k b j where one: "receive_one C L l p e = (k, Inr b)"
    and rest: "receive_loop C L k p es j = (l', Inr (m, None))"
    by (auto split: prod.splits sum.splits bool.splits failure.splits)
  note st = receive_one_step [OF Cons.prems(1) one]
  then have "inv k" by blast
  from Cons.IH [OF this rest] st show ?case by auto
qed

lemma receive_loop_known:
  assumes "\<forall>e \<in> set es. ev_origin e = p \<and> p \<noteq> l_local L l \<and> (\<exists>s. sealed_new C e = Inr s \<and> known l s)"
  shows "receive_loop C L l p es n = (l, Inr (n, None))"
  using assms
proof (induction es)
  case Nil
  then show ?case by simp
next
  case (Cons e es)
  then have "receive_one C L l p e = (l, Inr False)"
    by (auto simp: receive_one_False known_def)
  with Cons show ?case by simp
qed

text \<open>Receiving a batch twice is receiving it once: the second time changes nothing.\<close>

lemma receive_idempotent:
  assumes "inv l" "receive C L l p es = (l', Inr r)" "rcv_rejected r = None"
  shows "receive C L l' p es = (l', Inr (r\<lparr>rcv_appended := 0\<rparr>))"
proof -
  from assms(2,3) obtain n c where loop: "receive_loop C L l p es 0 = (l', Inr (n, None))"
    and c: "l_cursor L l' p = Inr c" "r = \<lparr>rcv_seen = cur_seen c, rcv_appended = n, rcv_rejected = None\<rparr>"
    by (auto simp: receive_def and_then_Inr_iff split: prod.splits sum.splits)
  from receive_loop_None [OF assms(1) loop]
  have "receive_loop C L l' p es 0 = (l', Inr (0, None))"
    by (intro receive_loop_known) auto
  with c show ?thesis by (simp add: receive_def)
qed

end

end
