(* ===== verification/Chat_Wire.thy ===== *)
theory Chat_Wire
  imports Chat_Ledger
begin

text \<open>
  What two machines exchange (\<open>chat_wire.rs\<close>): batches of consecutive events of one origin, offers
  and answers, and the chat requests and replies of the node protocol.
\<close>

definition MAX_BATCH :: nat where
  "MAX_BATCH = 256"

record batch =
  batch_events :: "event list"
  batch_more :: bool

definition batch_broken :: "event \<Rightarrow> event \<Rightarrow> bool" where
  "batch_broken first second =
     (ev_origin first \<noteq> ev_origin second \<or>
      checked_add (event_seq (ev_id first)) 1 \<noteq> Some (event_seq (ev_id second)) \<or>
      ev_clock first \<ge> ev_clock second)"

definition batch_new :: "event list \<Rightarrow> bool \<Rightarrow> (invalid, batch) result" where
  "batch_new events has_more =
     (if length events > MAX_BATCH \<or> any_pair batch_broken events
      then Inl (Invalid ''chat batch must hold consecutive events of one origin'')
      else Inr \<lparr>batch_events = events, batch_more = has_more\<rparr>)"

record offer =
  off_from :: origin
  off_to :: origin
  off_after :: u64
  off_seen :: u64
  off_batch :: batch

record answer =
  ans_from :: origin
  ans_seen :: u64
  ans_batch :: batch
  ans_rejected :: "rejection option"

datatype chat_request =
    ReqIdentity
  | ReqExchange offer
  | ReqWait origin origin u64

datatype chat_reply =
    RepIdentity origin
  | RepExchanged answer
  | RepChanged
  | RepHeartbeat
  | RepRejected rejection

text \<open>In a batch, the sequence numbers count up by one and the clocks increase.\<close>

lemma batch_new_iff:
  "batch_new es k = Inr b \<longleftrightarrow>
     length es \<le> MAX_BATCH \<and> successively (\<lambda>x y. \<not> batch_broken x y) es \<and>
     b = \<lparr>batch_events = es, batch_more = k\<rparr>"
  by (auto simp: batch_new_def any_pair_successively)

lemma batch_step:
  "\<not> batch_broken x y \<Longrightarrow>
     ev_origin x = ev_origin y \<and> event_seq (ev_id y) = event_seq (ev_id x) + 1 \<and>
     unat (event_seq (ev_id y)) = Suc (unat (event_seq (ev_id x))) \<and> ev_clock x < ev_clock y"
  by (auto simp: batch_broken_def checked_succ_Some unat_succ not_le)

lemma batch_nth:
  assumes "successively (\<lambda>x y. \<not> batch_broken x y) es" and "i < length es"
  shows "ev_origin (es ! i) = ev_origin (es ! 0)"
    and "unat (event_seq (ev_id (es ! i))) = unat (event_seq (ev_id (es ! 0))) + i"
proof -
  have "ev_origin (es ! i) = ev_origin (es ! 0) \<and>
      unat (event_seq (ev_id (es ! i))) = unat (event_seq (ev_id (es ! 0))) + i"
    using assms(2)
  proof (induction i)
    case 0
    then show ?case by simp
  next
    case (Suc i)
    then have "\<not> batch_broken (es ! i) (es ! Suc i)"
      using assms(1) by (auto simp: successively_conv_nth)
    then have "ev_origin (es ! Suc i) = ev_origin (es ! i)"
      "unat (event_seq (ev_id (es ! Suc i))) = Suc (unat (event_seq (ev_id (es ! i))))"
      using batch_step by metis+
    with Suc show ?case by (metis Suc_lessD add_Suc_right)
  qed
  then show "ev_origin (es ! i) = ev_origin (es ! 0)"
    and "unat (event_seq (ev_id (es ! i))) = unat (event_seq (ev_id (es ! 0))) + i" by blast+
qed

lemma batch_clocks_increase:
  assumes "successively (\<lambda>x y. \<not> batch_broken x y) es"
  shows "sorted_wrt (\<lambda>x y. ev_clock x < ev_clock y) es"
proof -
  have "successively (\<lambda>x y. ev_clock x < ev_clock y) es"
    using assms by (rule successively_mono) (auto dest: batch_step)
  then show ?thesis
    by (subst (asm) successively_conv_sorted_wrt) (auto intro: transpI)
qed

end
