(* ===== verification/Chat_Exchange.thy ===== *)
theory Chat_Exchange
  imports Chat_Wire
begin

text \<open>
  The exchange between two machines (\<open>chat/exchange.rs\<close>): one side offers what the other has not
  acknowledged, the other receives it and answers with its own news, and the first accepts the
  answer. \<open>outbox_ops\<close> is the trait \<open>Outbox\<close>, which extends \<open>Ledger\<close>.
\<close>

definition BATCH_BYTES :: nat where
  "BATCH_BYTES = 896 * 1024"

record outgoing_batch =
  out_events :: "event list"
  out_bytes :: nat
  out_more :: bool

definition outgoing_default :: outgoing_batch where
  "outgoing_default = \<lparr>out_events = [], out_bytes = 0, out_more = False\<rparr>"

record ('l, 'e) outbox_ops = "('l, 'e) ledger_ops" +
  o_outgoing :: "'l \<Rightarrow> origin \<Rightarrow> u64 \<Rightarrow> outgoing_batch \<Rightarrow> outgoing_batch \<times> ('e, unit) result"
  o_ack :: "'l \<Rightarrow> origin \<Rightarrow> ('e, u64) result"
  o_record_ack :: "'l \<Rightarrow> origin \<Rightarrow> u64 \<Rightarrow> 'l \<times> ('e, unit) result"

definition outgoing_offer :: "outgoing_batch \<Rightarrow> sealed \<Rightarrow> outgoing_batch \<times> bool" where
  "outgoing_offer batch sealed =
     (let bytes = usize_add (usize_add (out_bytes batch) (length (sealed_encoded sealed))) 1
      in if length (out_events batch) \<ge> MAX_BATCH \<or> (out_events batch \<noteq> [] \<and> bytes > BATCH_BYTES)
         then (batch\<lparr>out_more := True\<rparr>, False)
         else (batch\<lparr>out_bytes := bytes, out_events := out_events batch @ [sealed_event sealed]\<rparr>,
               True))"

definition outgoing_into_batch :: "outgoing_batch \<Rightarrow> (invalid, batch) result" where
  "outgoing_into_batch batch = batch_new (out_events batch) (out_more batch)"

definition offer_event ::
  "codec \<Rightarrow> outgoing_batch \<Rightarrow> event \<Rightarrow> origin \<Rightarrow> outgoing_batch \<times> (invalid, bool) result" where
  "offer_event C batch event peer =
     (case sealed_new C (event_export event peer) of
        Inl i \<Rightarrow> (batch, Inl i)
      | Inr sealed \<Rightarrow> (let (batch', taken) = outgoing_offer batch sealed in (batch', Inr taken)))"

definition outgoing ::
  "('l, 'e, 'm) outbox_ops_scheme \<Rightarrow> 'l \<Rightarrow> origin \<Rightarrow> u64 \<Rightarrow> ('e, (rejection, batch) result) result"
  where
  "outgoing L l peer after =
     (case o_outgoing L l peer after outgoing_default of
        (_, Inl e) \<Rightarrow> Inl e
      | (batch, Inr _) \<Rightarrow> Inr (map_err (\<lambda>_. Inconsistent) (outgoing_into_batch batch)))"

definition offer ::
  "('l, 'e, 'm) outbox_ops_scheme \<Rightarrow> 'l \<Rightarrow> origin \<Rightarrow> ('e, (rejection, offer) result) result" where
  "offer L l peer =
     and_then (o_ack L l peer) (\<lambda>after.
     and_then (l_cursor L l peer) (\<lambda>cursor.
     and_then (outgoing L l peer after) (\<lambda>batch.
       Inr (map_ok (\<lambda>batch. \<lparr>off_from = l_local L l, off_to = peer, off_after = after,
                             off_seen = cur_seen cursor, off_batch = batch\<rparr>) batch))))"

definition respond ::
  "codec \<Rightarrow> ('l, 'e, 'm) outbox_ops_scheme \<Rightarrow> 'l \<Rightarrow> offer
     \<Rightarrow> 'l \<times> ('e, (rejection, answer) result) result" where
  "respond C L l off =
     (if off_to off \<noteq> l_local L l \<or> off_from off = l_local L l then (l, Inr (Inl WrongPeer))
      else case l_cursor L l (l_local L l) of
        Inl e \<Rightarrow> (l, Inl e)
      | Inr own \<Rightarrow>
          if off_seen off > cur_seen own then (l, Inr (Inl AheadOfHistory))
          else (case receive C L l (off_from off) (batch_events (off_batch off)) of
              (l1, Inl e) \<Rightarrow> (l1, Inl e)
            | (l1, Inr received) \<Rightarrow>
                (case o_record_ack L l1 (off_from off) (off_seen off) of
                   (l2, Inl e) \<Rightarrow> (l2, Inl e)
                 | (l2, Inr _) \<Rightarrow>
                     (l2, and_then (outgoing L l2 (off_from off) (off_seen off)) (\<lambda>batch.
                        Inr (map_ok (\<lambda>batch. \<lparr>ans_from = l_local L l2,
                               ans_seen = rcv_seen received, ans_batch = batch,
                               ans_rejected = rcv_rejected received\<rparr>) batch))))))"

record progress =
  prog_received :: received
  prog_refused :: "rejection option"
  prog_more :: bool

definition accept ::
  "codec \<Rightarrow> ('l, 'e, 'm) outbox_ops_scheme \<Rightarrow> 'l \<Rightarrow> offer \<Rightarrow> answer
     \<Rightarrow> 'l \<times> ('e, (rejection, progress) result) result" where
  "accept C L l off answer =
     (if ans_from answer \<noteq> off_to off then (l, Inr (Inl WrongPeer))
      else case l_cursor L l (l_local L l) of
        Inl e \<Rightarrow> (l, Inl e)
      | Inr own \<Rightarrow>
          if ans_seen answer > cur_seen own then (l, Inr (Inl AheadOfHistory))
          else (case receive C L l (ans_from answer) (batch_events (ans_batch answer)) of
              (l1, Inl e) \<Rightarrow> (l1, Inl e)
            | (l1, Inr received) \<Rightarrow>
                (case o_record_ack L l1 (ans_from answer) (ans_seen answer) of
                   (l2, Inl e) \<Rightarrow> (l2, Inl e)
                 | (l2, Inr _) \<Rightarrow>
                     (let sent_all = (ans_rejected answer = None);
                          got_all = (rcv_rejected received = None)
                      in (l2, Inr (Inr \<lparr>prog_received = received,
                            prog_refused = ans_rejected answer,
                            prog_more = ((batch_more (off_batch off) \<and> sent_all) \<or>
                                         (batch_more (ans_batch answer) \<and> got_all))\<rparr>))))))"

section \<open>What a batch being filled keeps\<close>

definition outgoing_ok :: "outgoing_batch \<Rightarrow> bool" where
  "outgoing_ok b \<longleftrightarrow>
     length (out_events b) \<le> MAX_BATCH \<and> (length (out_events b) \<ge> 2 \<longrightarrow> out_bytes b \<le> BATCH_BYTES)"

lemma outgoing_default_ok: "outgoing_ok outgoing_default"
  by (simp add: outgoing_ok_def outgoing_default_def)

lemma outgoing_offer_ok: "outgoing_ok b \<Longrightarrow> outgoing_ok (fst (outgoing_offer b s))"
  by (auto simp: outgoing_ok_def outgoing_offer_def Let_def not_le not_less
      split: if_splits)

lemma outgoing_offer_taken:
  "outgoing_offer b s = (b', True) \<Longrightarrow>
     out_events b' = out_events b @ [sealed_event s] \<and> out_more b' = out_more b"
  by (auto simp: outgoing_offer_def Let_def split: if_splits)

lemma outgoing_offer_refused:
  "outgoing_offer b s = (b', False) \<Longrightarrow> out_events b' = out_events b \<and> out_more b'"
  by (auto simp: outgoing_offer_def Let_def split: if_splits)

text \<open>The first event of a batch is always taken, whatever its size: an exchange can progress.\<close>

lemma outgoing_offer_first: "out_events b = [] \<Longrightarrow> snd (outgoing_offer b s)"
  by (simp add: outgoing_offer_def Let_def MAX_BATCH_def)

end
