(* ===== verification/Chat_Model.thy ===== *)
theory Chat_Model
  imports Chat_Exchange
begin

text \<open>
  The reference store (\<open>chat/model.rs\<close>): a machine's ledger in memory, with the events it holds,
  the cursors of every origin, and the views the events build up. Its operations are the record
  \<open>model_ops\<close>, the model's implementation of the traits \<open>Ledger\<close> and \<open>Outbox\<close>.
\<close>

text \<open>\<open>core::convert::Infallible\<close>: no operation of the model produces it.\<close>

datatype infallible = Infallible

record model =
  m_origin :: origin
  m_events :: "event_id \<rightharpoonup> sealed"
  m_cursors :: "origin \<rightharpoonup> cursor"
  m_clock :: u64
  m_acks :: "origin \<rightharpoonup> u64"
  m_resolutions :: "event_id \<rightharpoonup> resolution"
  m_profiles :: "agent_id \<rightharpoonup> card"
  m_machines :: "origin \<rightharpoonup> machine_card"
  m_rooms :: "room_id \<rightharpoonup> room"
  m_open :: "(agent_id \<times> event_id) set"
  m_started :: "event_id \<rightharpoonup> agent_id"
  m_deliveries :: "event_id \<times> agent_id \<rightharpoonup> delivery"
  m_activities :: "agent_id \<rightharpoonup> activity"
  m_handoff_reads :: "(event_id \<times> agent_id) set"

definition model_new :: "origin \<Rightarrow> model" where
  "model_new origin =
     \<lparr>m_origin = origin, m_events = Map.empty, m_cursors = Map.empty, m_clock = 0,
      m_acks = Map.empty, m_resolutions = Map.empty, m_profiles = Map.empty,
      m_machines = Map.empty, m_rooms = Map.empty, m_open = {}, m_started = Map.empty,
      m_deliveries = Map.empty, m_activities = Map.empty, m_handoff_reads = {}\<rparr>"

definition model_cursor :: "model \<Rightarrow> origin \<Rightarrow> cursor" where
  "model_cursor m origin =
     (case m_cursors m origin of Some c \<Rightarrow> c | None \<Rightarrow> cursor_default)"

definition model_digest :: "model \<Rightarrow> event_id \<Rightarrow> digest option" where
  "model_digest m id' = map_option sealed_digest (m_events m id')"

definition model_parent :: "model \<Rightarrow> event_id \<Rightarrow> parent" where
  "model_parent m id' =
     (case map_option sealed_event (m_events m id') of
        Some event \<Rightarrow> if ev_body event = Omitted then Opaque else Present event
      | None \<Rightarrow> Missing)"

text \<open>The views a change touches: the second half of \<open>commit\<close>.\<close>

definition apply_change :: "event \<Rightarrow> view_change \<Rightarrow> model \<Rightarrow> model" where
  "apply_change event ch m =
     (case ch of
        ChNothing \<Rightarrow> m
      | ChHandoffRead request agent \<Rightarrow>
          m\<lparr>m_handoff_reads := insert (request, agent) (m_handoff_reads m)\<rparr>
      | ChReceipt request agent delivery \<Rightarrow>
          (let current = (case m_deliveries m (request, agent) of Some d \<Rightarrow> d | None \<Rightarrow> Pending)
           in m\<lparr>m_deliveries := (m_deliveries m)((request, agent) \<mapsto> observe current delivery)\<rparr>)
      | ChActivity agent activity \<Rightarrow> m\<lparr>m_activities := (m_activities m)(agent \<mapsto> activity)\<rparr>
      | ChProfile agent c \<Rightarrow> m\<lparr>m_profiles := (m_profiles m)(agent := c)\<rparr>
      | ChMachine c \<Rightarrow> m\<lparr>m_machines := (m_machines m)(ev_origin event \<mapsto> c)\<rparr>
      | ChRoom id' room \<Rightarrow> m\<lparr>m_rooms := (m_rooms m)(id' := room)\<rparr>
      | ChAsk responder \<Rightarrow> m\<lparr>m_open := insert (responder, ev_id event) (m_open m)\<rparr>
      | ChStarted request agent \<Rightarrow> m\<lparr>m_started := (m_started m)(request \<mapsto> agent)\<rparr>
      | ChResolution request resolution wins \<Rightarrow>
          if wins
          then m\<lparr>m_open := m_open m - {(res_responder resolution, request)},
                 m_resolutions := (m_resolutions m)(request \<mapsto> resolution)\<rparr>
          else m)"

definition model_commit :: "model \<Rightarrow> sealed \<Rightarrow> admitted \<Rightarrow> model" where
  "model_commit m sealed admitted =
     (let event = sealed_event sealed
      in apply_change event (adm_change admitted)
           (m\<lparr>m_cursors := (m_cursors m)(ev_origin event \<mapsto> adm_cursor admitted),
              m_clock := max (m_clock m) (ev_clock event),
              m_events := (m_events m)(ev_id event \<mapsto> sealed)\<rparr>))"

text \<open>\<open>Outbox for Model\<close>: the own events after a sequence number, in the order of the map's keys.\<close>

definition own_events :: "model \<Rightarrow> u64 \<Rightarrow> event list" where
  "own_events m after =
     map (\<lambda>i. sealed_event (the (m_events m i)))
       (filter (\<lambda>i. event_origin i = m_origin m \<and> after < event_seq i)
          (sorted_list_of_set (dom (m_events m))))"

fun offer_all :: "codec \<Rightarrow> origin \<Rightarrow> event list \<Rightarrow> outgoing_batch \<Rightarrow> outgoing_batch" where
  "offer_all C peer [] batch = batch"
| "offer_all C peer (event # events) batch =
     (case offer_event C batch event peer of
        (batch', Inr True) \<Rightarrow> offer_all C peer events batch'
      | (batch', _) \<Rightarrow> batch')"

definition model_ack :: "model \<Rightarrow> origin \<Rightarrow> u64" where
  "model_ack m peer = (case m_acks m peer of Some a \<Rightarrow> a | None \<Rightarrow> 0)"

definition model_record_ack :: "model \<Rightarrow> origin \<Rightarrow> u64 \<Rightarrow> model" where
  "model_record_ack m peer seen =
     (let own = (case m_cursors m (m_origin m) of Some c \<Rightarrow> cur_seen c | None \<Rightarrow> 0)
      in m\<lparr>m_acks := (m_acks m)(peer \<mapsto> max (model_ack m peer) (min seen own))\<rparr>)"

definition model_ops :: "codec \<Rightarrow> (model, infallible) outbox_ops" where
  "model_ops C =
     \<lparr>l_local = m_origin,
      l_cursor = (\<lambda>m origin. Inr (model_cursor m origin)),
      l_digest = (\<lambda>m id'. Inr (model_digest m id')),
      l_parent = (\<lambda>m id'. Inr (model_parent m id')),
      l_resolution = (\<lambda>m request. Inr (m_resolutions m request)),
      l_clock = (\<lambda>m. Inr (m_clock m)),
      l_has_room = (\<lambda>m. Inr True),
      l_commit = (\<lambda>m sealed admitted. (model_commit m sealed admitted, Inr ())),
      o_outgoing = (\<lambda>m peer after batch. (offer_all C peer (own_events m after) batch, Inr ())),
      o_ack = (\<lambda>m peer. Inr (model_ack m peer)),
      o_record_ack = (\<lambda>m peer seen. (model_record_ack m peer seen, Inr ()))\<rparr>"

definition model_write :: "codec \<Rightarrow> model \<Rightarrow> body \<Rightarrow> model \<times> (infallible failure, event) result" where
  "model_write C m body = append_event C (model_ops C) m body"

text \<open>\<open>Model::ordered\<close>: all events by clock, origin and sequence number.\<close>

definition model_ordered :: "model \<Rightarrow> event list" where
  "model_ordered m =
     sort_key ev_order
       (map (\<lambda>i. sealed_event (the (m_events m i))) (sorted_list_of_set (dom (m_events m))))"

text \<open>
  \<open>Model::sync_with\<close>: at most \<open>rounds\<close> exchanges, until nothing more is to be sent. The branches
  for a store error stand for the source's irrefutable \<open>let Ok(\<dots>)\<close>: they are never taken.
\<close>

fun sync_loop ::
  "codec \<Rightarrow> nat \<Rightarrow> model \<Rightarrow> model \<Rightarrow> progress option
     \<Rightarrow> model \<times> model \<times> (rejection, progress) result" where
  "sync_loop C 0 m peer latest = (m, peer, ok_or Inconsistent latest)"
| "sync_loop C (Suc rounds) m peer latest =
     (case offer (model_ops C) m (m_origin peer) of
        Inl _ \<Rightarrow> (m, peer, Inl Inconsistent)
      | Inr (Inl r) \<Rightarrow> (m, peer, Inl r)
      | Inr (Inr request) \<Rightarrow>
          (case respond C (model_ops C) peer request of
             (peer', Inl _) \<Rightarrow> (m, peer', Inl Inconsistent)
           | (peer', Inr (Inl r)) \<Rightarrow> (m, peer', Inl r)
           | (peer', Inr (Inr answer)) \<Rightarrow>
               (case accept C (model_ops C) m request answer of
                  (m', Inl _) \<Rightarrow> (m', peer', Inl Inconsistent)
                | (m', Inr (Inl r)) \<Rightarrow> (m', peer', Inl r)
                | (m', Inr (Inr progress)) \<Rightarrow>
                    if prog_more progress then sync_loop C rounds m' peer' (Some progress)
                    else (m', peer', Inr progress))))"

definition sync_with ::
  "codec \<Rightarrow> model \<Rightarrow> model \<Rightarrow> nat \<Rightarrow> model \<times> model \<times> (rejection, progress) result" where
  "sync_with C m peer rounds = sync_loop C rounds m peer None"

lemma model_ops_simps [simp]:
  "l_local (model_ops C) m = m_origin m"
  "l_cursor (model_ops C) m p = Inr (model_cursor m p)"
  "l_digest (model_ops C) m i = Inr (model_digest m i)"
  "l_parent (model_ops C) m i = Inr (model_parent m i)"
  "l_resolution (model_ops C) m i = Inr (m_resolutions m i)"
  "l_clock (model_ops C) m = Inr (m_clock m)"
  "l_has_room (model_ops C) m = Inr True"
  "l_commit (model_ops C) m s a = (model_commit m s a, Inr ())"
  "o_outgoing (model_ops C) m p k b = (offer_all C p (own_events m k) b, Inr ())"
  "o_ack (model_ops C) m p = Inr (model_ack m p)"
  "o_record_ack (model_ops C) m p k = (model_record_ack m p k, Inr ())"
  by (simp_all add: model_ops_def)

lemma apply_change_frame [simp]:
  "m_origin (apply_change e ch m) = m_origin m" "m_events (apply_change e ch m) = m_events m"
  "m_cursors (apply_change e ch m) = m_cursors m" "m_clock (apply_change e ch m) = m_clock m"
  "m_acks (apply_change e ch m) = m_acks m"
  by (cases ch; simp add: apply_change_def Let_def)+

lemma model_commit_frame [simp]:
  "m_origin (model_commit m s a) = m_origin m"
  "m_events (model_commit m s a) = (m_events m)(ev_id (sealed_event s) \<mapsto> s)"
  "m_cursors (model_commit m s a) = (m_cursors m)(ev_origin (sealed_event s) \<mapsto> adm_cursor a)"
  "m_clock (model_commit m s a) = max (m_clock m) (ev_clock (sealed_event s))"
  "m_acks (model_commit m s a) = m_acks m"
  by (simp_all add: model_commit_def Let_def)

lemma model_cursor_commit:
  "model_cursor (model_commit m s a) p =
     (if p = ev_origin (sealed_event s) then adm_cursor a else model_cursor m p)"
  by (simp add: model_cursor_def)

lemma model_digest_commit:
  "model_digest (model_commit m s a) i =
     (if i = ev_id (sealed_event s) then Some (sealed_digest s) else model_digest m i)"
  by (simp add: model_digest_def)

text \<open>The model is a ledger: it keeps the laws of the interface in every state.\<close>

interpretation model_ledger: ledger "model_ops C" "\<lambda>_. True"
  by unfold_locales (auto simp: model_cursor_commit model_digest_commit)

end
