(* ===== verification/Chat_History.thy ===== *)
theory Chat_History
  imports Chat_Model
begin

text \<open>
  The history a model keeps. \<open>model_step\<close> is one effect of any operation on a model: committing an
  admitted event or recording an acknowledgment; every operation of \<open>Ledger\<close> and \<open>Outbox\<close> is a
  sequence of such steps (\<open>append_steps\<close>, \<open>receive_steps\<close>, \<open>respond_steps\<close>, \<open>accept_steps\<close>,
  \<open>sync_steps\<close>). \<open>history_ok\<close> is the invariant of the event log: keys are the events' own
  identities, each origin's events are exactly the sequence numbers up to its cursor, and clocks
  increase along each origin.
\<close>

inductive model_step :: "codec \<Rightarrow> model \<Rightarrow> model \<Rightarrow> bool" for C where
  commit_step:
    "admit (model_ops C) m s = Inr (Append a) \<Longrightarrow> sealed_new C (sealed_event s) = Inr s \<Longrightarrow>
       model_step C m (model_commit m s a)"
| ack_step: "model_step C m (model_record_ack m p k)"

inductive_cases model_stepE: "model_step C m m'"

abbreviation model_steps :: "codec \<Rightarrow> model \<Rightarrow> model \<Rightarrow> bool" where
  "model_steps C \<equiv> (model_step C)\<^sup>*\<^sup>*"

definition reachable :: "codec \<Rightarrow> origin \<Rightarrow> model \<Rightarrow> bool" where
  "reachable C p m = model_steps C (model_new p) m"

section \<open>Every operation is a sequence of steps\<close>

lemma append_steps: "append_event C (model_ops C) m b = (m', r) \<Longrightarrow> model_steps C m m'"
  by (auto simp: append_event_def commit_def sealed_new_event result_simps
      split: sum.splits prod.splits bool.splits decision.splits
      intro!: r_into_rtranclp commit_step)

lemma receive_one_steps: "receive_one C (model_ops C) m p e = (m', r) \<Longrightarrow> model_steps C m m'"
  by (auto simp: receive_one_def sealed_new_event
      split: sum.splits prod.splits bool.splits decision.splits if_splits
      intro!: r_into_rtranclp commit_step)

lemma receive_loop_steps:
  "receive_loop C (model_ops C) m p es n = (m', r) \<Longrightarrow> model_steps C m m'"
proof (induction es arbitrary: m n)
  case Nil
  then show ?case by simp
next
  case (Cons e es)
  obtain k o1 where one: "receive_one C (model_ops C) m p e = (k, o1)" by fastforce
  then have "model_steps C m k" by (rule receive_one_steps)
  moreover have "m' = k \<or> (\<exists>j. receive_loop C (model_ops C) k p es j = (m', r))"
    using Cons.prems one by (auto split: sum.splits bool.splits failure.splits)
  ultimately show ?case using Cons.IH by (meson rtranclp_trans)
qed

lemma receive_steps: "receive C (model_ops C) m p es = (m', r) \<Longrightarrow> model_steps C m m'"
  by (auto simp: receive_def split: prod.splits sum.splits dest!: receive_loop_steps)

lemma respond_steps: "respond C (model_ops C) m off = (m', r) \<Longrightarrow> model_steps C m m'"
  by (auto simp: respond_def split: prod.splits sum.splits if_splits dest!: receive_steps
      intro: rtranclp.rtrancl_into_rtrancl ack_step)

lemma accept_steps: "accept C (model_ops C) m off ans = (m', r) \<Longrightarrow> model_steps C m m'"
  by (auto simp: accept_def Let_def split: prod.splits sum.splits if_splits dest!: receive_steps
      intro: rtranclp.rtrancl_into_rtrancl ack_step)

lemma sync_steps:
  "sync_loop C n m peer latest = (m', peer', r) \<Longrightarrow> model_steps C m m' \<and> model_steps C peer peer'"
proof (induction n arbitrary: m peer latest)
  case 0
  then show ?case by simp
next
  case (Suc n)
  then show ?case
    by (fastforce split: sum.splits prod.splits if_splits
        dest: respond_steps accept_steps intro: rtranclp_trans)
qed

section \<open>The invariant of the log\<close>

definition history_ok :: "model \<Rightarrow> bool" where
  "history_ok m \<longleftrightarrow>
     (\<forall>i s. m_events m i = Some s \<longrightarrow> ev_id (sealed_event s) = i) \<and>
     (\<forall>i. m_events m i \<noteq> None \<longleftrightarrow>
        0 < event_seq i \<and> event_seq i \<le> cur_seen (model_cursor m (event_origin i))) \<and>
     (\<forall>i s. m_events m i = Some s \<longrightarrow>
        ev_clock (sealed_event s) \<le> cur_clock (model_cursor m (event_origin i)) \<and>
        (event_seq i = cur_seen (model_cursor m (event_origin i)) \<longrightarrow>
           ev_clock (sealed_event s) = cur_clock (model_cursor m (event_origin i)))) \<and>
     (\<forall>i j s t. m_events m i = Some s \<longrightarrow> m_events m j = Some t \<longrightarrow>
        event_origin i = event_origin j \<longrightarrow> event_seq i < event_seq j \<longrightarrow>
        ev_clock (sealed_event s) < ev_clock (sealed_event t)) \<and>
     (\<forall>p. cur_clock (model_cursor m p) \<le> m_clock m) \<and>
     (\<forall>p. cur_seen (model_cursor m p) = 0 \<longrightarrow> model_cursor m p = cursor_default)"

lemma history_okD:
  assumes "history_ok m"
  shows "m_events m i = Some s \<Longrightarrow> ev_id (sealed_event s) = i"
    and "m_events m i \<noteq> None \<longleftrightarrow>
      0 < event_seq i \<and> event_seq i \<le> cur_seen (model_cursor m (event_origin i))"
    and "m_events m i = Some s \<Longrightarrow>
      ev_clock (sealed_event s) \<le> cur_clock (model_cursor m (event_origin i))"
    and "m_events m i = Some s \<Longrightarrow> event_seq i = cur_seen (model_cursor m (event_origin i)) \<Longrightarrow>
      ev_clock (sealed_event s) = cur_clock (model_cursor m (event_origin i))"
    and "m_events m i = Some s \<Longrightarrow> m_events m j = Some t \<Longrightarrow> event_origin i = event_origin j \<Longrightarrow>
      event_seq i < event_seq j \<Longrightarrow> ev_clock (sealed_event s) < ev_clock (sealed_event t)"
    and "cur_clock (model_cursor m p) \<le> m_clock m"
    and "cur_seen (model_cursor m p) = 0 \<Longrightarrow> model_cursor m p = cursor_default"
  using assms unfolding history_ok_def by blast+

lemma admit_model:
  assumes "admit (model_ops C) m s = Inr (Append a)"
  defines "e \<equiv> sealed_event s"
  shows "cur_seen (model_cursor m (ev_origin e)) \<noteq> - 1"
    and "event_seq (ev_id e) = cur_seen (model_cursor m (ev_origin e)) + 1"
    and "cur_clock (model_cursor m (ev_origin e)) < ev_clock e"
    and "change (model_ops C) m e = Inr (adm_change a)"
    and "adm_cursor a = \<lparr>cur_seen = event_seq (ev_id e), cur_clock = ev_clock e\<rparr>"
  using assms by (auto simp: admit_Append)

lemma admit_model_fresh:
  assumes "history_ok m" "admit (model_ops C) m s = Inr (Append a)"
  shows "m_events m (ev_id (sealed_event s)) = None"
    and "0 < event_seq (ev_id (sealed_event s))"
proof -
  let ?e = "sealed_event s"
  let ?c = "cur_seen (model_cursor m (ev_origin ?e))"
  have "event_seq (ev_id ?e) = ?c + 1" "?c \<noteq> - 1"
    using admit_model [OF assms(2)] by auto
  then have u: "unat (event_seq (ev_id ?e)) = Suc (unat ?c)" by (simp add: unat_succ)
  then have "\<not> event_seq (ev_id ?e) \<le> ?c" by (simp add: word_le_nat_alt)
  then show "m_events m (ev_id ?e) = None"
    using history_okD(2) [OF assms(1), of "ev_id ?e"] by (auto simp: ev_origin_def)
  show "0 < event_seq (ev_id ?e)" using u by (simp add: word_less_nat_alt)
qed

lemma history_new: "history_ok (model_new p)"
  by (auto simp: history_ok_def model_new_def model_cursor_def cursor_default_def)

lemma history_ack: "history_ok m \<Longrightarrow> history_ok (model_record_ack m p k)"
  by (simp add: history_ok_def model_record_ack_def model_cursor_def Let_def)

lemma history_commit:
  assumes ok: "history_ok m" and adm: "admit (model_ops C) m s = Inr (Append a)"
  shows "history_ok (model_commit m s a)"
proof -
  let ?e = "sealed_event s"
  let ?i = "ev_id ?e"
  let ?m = "model_commit m s a"
  note A = admit_model [OF adm]
  have oi: "event_origin ?i = ev_origin ?e" by (simp add: ev_origin_def)
  have u: "unat (event_seq ?i) = Suc (unat (cur_seen (model_cursor m (ev_origin ?e))))"
    using A(1,2) by (simp add: unat_succ)
  have cur: "model_cursor ?m p =
      (if p = ev_origin ?e then \<lparr>cur_seen = event_seq ?i, cur_clock = ev_clock ?e\<rparr>
       else model_cursor m p)" for p
    using A(5) by (simp add: model_cursor_commit)
  have old: "event_seq j < event_seq ?i \<and> ev_clock (sealed_event t) < ev_clock ?e"
    if "m_events m j = Some t" "event_origin j = ev_origin ?e" for j t
    using that history_okD(2) [OF ok, of j] history_okD(3) [OF ok, of j t] A(3) u
    by (auto simp: word_less_nat_alt word_le_nat_alt)
  have dom: "m_events ?m j \<noteq> None \<longleftrightarrow>
      0 < event_seq j \<and> event_seq j \<le> cur_seen (model_cursor ?m (event_origin j))" for j
  proof (cases "event_origin j = ev_origin ?e")
    case True
    have "event_seq j \<le> event_seq ?i \<longleftrightarrow>
        event_seq j \<le> cur_seen (model_cursor m (ev_origin ?e)) \<or> event_seq j = event_seq ?i"
      using u by (auto simp: word_le_nat_alt word_unat_eq_iff)
    moreover have "event_seq j = event_seq ?i \<longleftrightarrow> j = ?i"
      using True oi by (auto intro: event_id.expand)
    ultimately show ?thesis
      using True history_okD(2) [OF ok, of j] admit_model_fresh(2) [OF ok adm] cur by auto
  next
    case False
    then show ?thesis using history_okD(2) [OF ok, of j] cur oi by auto
  qed
  have clk: "cur_clock (model_cursor ?m p) \<le> m_clock ?m" for p
    using history_okD(6) [OF ok, of p] cur by (auto simp: max_def)
  have seq0: "0 < event_seq ?i" by (rule admit_model_fresh(2) [OF ok adm])
  show ?thesis
    unfolding history_ok_def
  proof (intro conjI allI impI)
    fix i t assume "m_events ?m i = Some t"
    then show "ev_id (sealed_event t) = i"
      using history_okD(1) [OF ok] by (auto split: if_splits)
  next
    fix i t assume t: "m_events ?m i = Some t"
    show "ev_clock (sealed_event t) \<le> cur_clock (model_cursor ?m (event_origin i))"
      using t old [of i t] history_okD(3) [OF ok, of i t] cur oi by (auto split: if_splits)
    assume "event_seq i = cur_seen (model_cursor ?m (event_origin i))"
    then show "ev_clock (sealed_event t) = cur_clock (model_cursor ?m (event_origin i))"
      using t old [of i t] history_okD(4) [OF ok, of i t] cur oi by (auto split: if_splits)
  next
    fix i j t v assume ev: "m_events ?m i = Some t" "m_events ?m j = Some v"
      and ij: "event_origin i = event_origin j" "event_seq i < event_seq j"
    consider "j = ?i" "i \<noteq> ?i" | "i = ?i" "j \<noteq> ?i" | "i \<noteq> ?i" "j \<noteq> ?i" using ij by auto
    then show "ev_clock (sealed_event t) < ev_clock (sealed_event v)"
    proof cases
      case 1
      then show ?thesis using ev ij old [of i t] oi by simp
    next
      case 2
      then have "event_seq j < event_seq i" using ev ij old [of j v] oi by simp
      with ij show ?thesis by (meson less_asym)
    next
      case 3
      then show ?thesis using ev ij history_okD(5) [OF ok, of i t j v] by simp
    qed
  next
    fix p assume "cur_seen (model_cursor ?m p) = 0"
    then show "model_cursor ?m p = cursor_default"
      using cur seq0 history_okD(7) [OF ok, of p] by (auto split: if_splits)
  qed (use dom clk in blast)+
qed

lemma history_step: "model_step C m m' \<Longrightarrow> history_ok m \<Longrightarrow> history_ok m'"
  by (auto elim!: model_stepE intro: history_commit history_ack)

lemma history_steps: "model_steps C m m' \<Longrightarrow> history_ok m \<Longrightarrow> history_ok m'"
  by (induction rule: rtranclp_induct) (auto intro: history_step)

lemma reachable_history: "reachable C p m \<Longrightarrow> history_ok m"
  unfolding reachable_def by (rule history_steps [OF _ history_new])

text \<open>Steps only add events and only advance cursors.\<close>

lemma model_step_mono:
  assumes "model_step C m m'" "history_ok m"
  shows "m_events m \<subseteq>\<^sub>m m_events m'" and "m_origin m' = m_origin m"
    and "cur_seen (model_cursor m p) \<le> cur_seen (model_cursor m' p)"
proof -
  show "m_events m \<subseteq>\<^sub>m m_events m'"
    using assms admit_model_fresh(1)
    by (auto elim!: model_stepE simp: map_le_def model_record_ack_def Let_def)
  show "m_origin m' = m_origin m"
    using assms(1) by (auto elim!: model_stepE simp: model_record_ack_def Let_def)
  show "cur_seen (model_cursor m p) \<le> cur_seen (model_cursor m' p)"
    using assms(1)
  proof (cases rule: model_step.cases)
    case (commit_step s a)
    note A = admit_model [OF commit_step(2)]
    have "unat (event_seq (ev_id (sealed_event s))) =
        Suc (unat (cur_seen (model_cursor m (ev_origin (sealed_event s)))))"
      using A(1,2) by (simp add: unat_succ)
    then show ?thesis
      using commit_step A(5) by (auto simp: model_cursor_commit word_le_nat_alt)
  next
    case ack_step
    then show ?thesis by (simp add: model_record_ack_def model_cursor_def Let_def)
  qed
qed

lemma model_steps_mono:
  assumes "model_steps C m m'" "history_ok m"
  shows "m_events m \<subseteq>\<^sub>m m_events m'" and "m_origin m' = m_origin m"
    and "cur_seen (model_cursor m p) \<le> cur_seen (model_cursor m' p)"
proof -
  have "m_events m \<subseteq>\<^sub>m m_events m' \<and> m_origin m' = m_origin m \<and>
      (\<forall>p. cur_seen (model_cursor m p) \<le> cur_seen (model_cursor m' p))"
    using assms
  proof (induction rule: rtranclp_induct)
    case base
    then show ?case by simp
  next
    case (step y z)
    then have "history_ok y" using history_steps by blast
    note mono = model_step_mono [OF step(2) this]
    show ?case
      using step.IH [OF step.prems] mono(1,2) mono(3) order_trans
      by (auto intro: map_le_trans) blast
  qed
  then show "m_events m \<subseteq>\<^sub>m m_events m'" "m_origin m' = m_origin m"
    "cur_seen (model_cursor m p) \<le> cur_seen (model_cursor m' p)" by blast+
qed

lemma finite_history:
  assumes "history_ok m" "finite (dom (m_cursors m))"
  shows "finite (dom (m_events m))"
proof -
  have "dom (m_events m) \<subseteq> (\<lambda>(p, k). EventId p k) ` (dom (m_cursors m) \<times> UNIV)"
  proof
    fix i assume "i \<in> dom (m_events m)"
    then have "0 < cur_seen (model_cursor m (event_origin i))"
      using history_okD(2) [OF assms(1), of i] by auto
    then have "event_origin i \<in> dom (m_cursors m)"
      by (auto simp: model_cursor_def cursor_default_def split: option.splits)
    then show "i \<in> (\<lambda>(p, k). EventId p k) ` (dom (m_cursors m) \<times> UNIV)"
      by (intro image_eqI [of _ _ "(event_origin i, event_seq i)"]) auto
  qed
  then show ?thesis using assms(2) by (meson finite_SigmaI finite_code finite_imageI finite_subset)
qed

end
