(* ===== verification/Chat_Views.thy ===== *)
theory Chat_Views
  imports Chat_History
begin

text \<open>
  The views of a model, specified from the event log alone: a resolution is the least authorised
  ending of its ask, the open asks are those without an ending, deliveries are the greatest receipt,
  profiles, machines, rooms and activities are the last write of their owner. A log has at most one
  value of each view (\<open>resolutions_unique\<close>, \<open>register_unique\<close>).
\<close>

type_synonym log = "event_id \<rightharpoonup> sealed"

definition held_at :: "log \<Rightarrow> event_id \<Rightarrow> event option" where
  "held_at E i = map_option sealed_event (E i)"

definition held :: "log \<Rightarrow> event set" where
  "held E = sealed_event ` ran E"

definition log_keys :: "log \<Rightarrow> bool" where
  "log_keys E \<longleftrightarrow> (\<forall>i s. E i = Some s \<longrightarrow> ev_id (sealed_event s) = i)"

definition requests_held :: "log \<Rightarrow> bool" where
  "requests_held E \<longleftrightarrow> (\<forall>e \<in> held E. \<forall>r. body_request (ev_body e) = Some r \<longrightarrow> E r \<noteq> None)"

lemma held_at_id: "log_keys E \<Longrightarrow> held_at E i = Some e \<Longrightarrow> ev_id e = i"
  by (auto simp: held_at_def log_keys_def)

lemma held_iff: "log_keys E \<Longrightarrow> e \<in> held E \<longleftrightarrow> held_at E (ev_id e) = Some e"
  unfolding held_def held_at_def log_keys_def ran_def image_def by auto

lemma held_at_update: "held_at (E(i \<mapsto> s)) j = (if j = i then Some (sealed_event s) else held_at E j)"
  by (simp add: held_at_def)

lemma held_update: "E i = None \<Longrightarrow> held (E(i \<mapsto> s)) = insert (sealed_event s) (held E)"
  by (simp add: held_def ran_map_upd)

section \<open>Views of events that refer to another event\<close>

text \<open>
  \<open>linked f E r\<close> collects what the events of the log say about the event \<open>r\<close>, through a function of
  the two events.
\<close>

definition linked :: "(event \<Rightarrow> event \<Rightarrow> 'x option) \<Rightarrow> log \<Rightarrow> event_id \<Rightarrow> 'x set" where
  "linked f E r = {x. \<exists>p e. held_at E r = Some p \<and> e \<in> held E \<and> f p e = Some x}"

definition about_request :: "(event \<Rightarrow> event \<Rightarrow> 'x option) \<Rightarrow> bool" where
  "about_request f \<longleftrightarrow> (\<forall>p e x. f p e = Some x \<longrightarrow> body_request (ev_body e) = Some (ev_id p))"

lemma linked_update:
  assumes f: "about_request f" and E: "log_keys E" "requests_held E"
    and fresh: "E (ev_id (sealed_event s)) = None"
    and req: "\<forall>r. body_request (ev_body (sealed_event s)) = Some r \<longrightarrow> E r \<noteq> None"
  shows "linked f (E(ev_id (sealed_event s) \<mapsto> s)) r =
    linked f E r \<union> {x. \<exists>p. held_at E r = Some p \<and> f p (sealed_event s) = Some x}"
proof (cases "r = ev_id (sealed_event s)")
  case True
  have no: "f (sealed_event s) e \<noteq> Some x"
    if e: "e \<in> insert (sealed_event s) (held E)" for e x
  proof
    assume "f (sealed_event s) e = Some x"
    then have "body_request (ev_body e) = Some (ev_id (sealed_event s))"
      using f by (auto simp: about_request_def)
    with e E(2) fresh req show False by (auto simp: requests_held_def)
  qed
  have "linked f (E(ev_id (sealed_event s) \<mapsto> s)) r = {}"
    using no True fresh by (auto simp: linked_def held_at_update held_update)
  moreover have "held_at E r = None" using fresh True by (simp add: held_at_def)
  ultimately show ?thesis by (simp add: linked_def)
next
  case False
  then show ?thesis
    using fresh by (auto simp: linked_def held_at_update held_update)
qed

section \<open>Endings of asks\<close>

definition ending_of :: "event \<Rightarrow> (event_id \<times> candidate) option" where
  "ending_of e =
     (case ev_body e of
        Message _ from _ _ (Reply r) _ _ \<Rightarrow>
          Some (r, \<lparr>cand_ending = Answered, cand_author = AgentId from (ev_origin e)\<rparr>)
      | Resolved r _ _ agent outcome \<Rightarrow>
          Some (r, \<lparr>cand_ending = Ended outcome, cand_author = AgentId agent (ev_origin e)\<rparr>)
      | _ \<Rightarrow> None)"

definition in_thread_of :: "event \<Rightarrow> event \<Rightarrow> bool" where
  "in_thread_of p e =
     (case body_thread (ev_body e) of
        Some (conversation, audience) \<Rightarrow> same_thread e conversation audience p
      | None \<Rightarrow> False)"

definition resolution_by :: "event \<Rightarrow> event \<Rightarrow> resolution option" where
  "resolution_by p e =
     (case (ending_of e, ask_of p) of
        (Some (r, cand), Some (asker, responder)) \<Rightarrow>
          if r = ev_id p \<and> in_thread_of p e \<and> authorized cand asker responder
          then Some \<lparr>res_event = ev_id e, res_clock = ev_clock e, res_ending = cand_ending cand,
                     res_asker = asker, res_responder = responder\<rparr>
          else None
      | _ \<Rightarrow> None)"

definition endings :: "log \<Rightarrow> event_id \<Rightarrow> resolution set" where
  "endings E r = linked resolution_by E r"

definition resolutions_ok :: "log \<Rightarrow> (event_id \<rightharpoonup> resolution) \<Rightarrow> bool" where
  "resolutions_ok E R \<longleftrightarrow>
     (\<forall>r. case R r of
            None \<Rightarrow> endings E r = {}
          | Some x \<Rightarrow> x \<in> endings E r \<and> (\<forall>y \<in> endings E r. res_key x \<le> res_key y))"

lemma ending_of_request: "ending_of e = Some (r, c) \<Longrightarrow> body_request (ev_body e) = Some r"
  by (auto simp: ending_of_def split: body.splits intent.splits)

lemma resolution_by_about: "about_request resolution_by"
  by (auto simp: about_request_def resolution_by_def split: option.splits prod.splits if_splits
      dest: ending_of_request)

lemma resolution_by_key:
  "resolution_by p e = Some x \<Longrightarrow> res_key x = (ev_clock e, ev_origin e, event_seq (ev_id e))"
  by (auto simp: resolution_by_def res_key_def ev_origin_def
      split: option.splits prod.splits if_splits)

lemma endings_inj:
  assumes "log_keys E" "x \<in> endings E r" "y \<in> endings E r" "res_key x = res_key y"
  shows "x = y"
proof -
  obtain p e where x: "held_at E r = Some p" "e \<in> held E" "resolution_by p e = Some x"
    using assms(2) by (auto simp: endings_def linked_def)
  obtain p' e' where y: "held_at E r = Some p'" "e' \<in> held E" "resolution_by p' e' = Some y"
    using assms(3) by (auto simp: endings_def linked_def)
  have "ev_id e = ev_id e'"
    using assms(4) resolution_by_key [OF x(3)] resolution_by_key [OF y(3)]
    by (auto simp: ev_origin_def intro: event_id.expand)
  then have "e = e'" using x(2) y(2) assms(1) by (simp add: held_iff)
  then show ?thesis using x y by simp
qed

lemma resolutions_okD:
  assumes "resolutions_ok E R"
  shows "R r = None \<Longrightarrow> endings E r = {}"
    and "R r = Some x \<Longrightarrow> x \<in> endings E r"
    and "R r = Some x \<Longrightarrow> y \<in> endings E r \<Longrightarrow> res_key x \<le> res_key y"
  using assms [unfolded resolutions_ok_def, rule_format, of r] by auto

lemma resolution_agrees:
  assumes "log_keys E" "resolutions_ok E R" "resolutions_ok E' S" "endings E r = endings E' r"
  shows "R r = S r"
proof (cases "R r")
  case None
  then have "endings E' r = {}" using resolutions_okD(1) [OF assms(2)] assms(4) by simp
  then have "S r = None" using resolutions_okD(2) [OF assms(3)] by (cases "S r") auto
  with None show ?thesis by simp
next
  case (Some x)
  then have x: "x \<in> endings E r" by (rule resolutions_okD(2) [OF assms(2)])
  then obtain y where y: "S r = Some y"
    using resolutions_okD(1) [OF assms(3), of r] assms(4) by (cases "S r") auto
  then have y': "y \<in> endings E r" using resolutions_okD(2) [OF assms(3)] assms(4) by simp
  have "res_key x = res_key y"
    using resolutions_okD(3) [OF assms(2) Some y'] resolutions_okD(3) [OF assms(3) y, of x] x assms(4)
    by (auto intro: antisym)
  with x y' have "x = y" by (rule endings_inj [OF assms(1)])
  with Some y show ?thesis by simp
qed

lemma resolutions_unique: "log_keys E \<Longrightarrow> resolutions_ok E R \<Longrightarrow> resolutions_ok E S \<Longrightarrow> R = S"
  using resolution_agrees by blast

section \<open>Started turns, receipts, handoff reads\<close>

definition started_by :: "event \<Rightarrow> event \<Rightarrow> agent_id option" where
  "started_by p e =
     (case (ev_body e, ask_of p, ev_author e) of
        (TurnStarted r _ _ _, Some (_, responder), Some agent) \<Rightarrow>
          if r = ev_id p \<and> in_thread_of p e \<and> responder = agent then Some agent else None
      | _ \<Rightarrow> None)"

definition receipt_by :: "event \<Rightarrow> event \<Rightarrow> (agent_id \<times> delivery) option" where
  "receipt_by p e =
     (case (ev_body e, ev_author e) of
        (Receipt r _ _ _ d, Some agent) \<Rightarrow>
          if r = ev_id p \<and> in_thread_of p e \<and> receipt_addressed p agent then Some (agent, d) else None
      | _ \<Rightarrow> None)"

definition read_by :: "event \<Rightarrow> event \<Rightarrow> agent_id option" where
  "read_by p e =
     (case ev_body e of
        HandoffRead obs _ \<Rightarrow> if obs_handoff obs = ev_id p then Some (obs_reader obs) else None
      | _ \<Rightarrow> None)"

definition started_ok :: "log \<Rightarrow> (event_id \<rightharpoonup> agent_id) \<Rightarrow> bool" where
  "started_ok E S \<longleftrightarrow> (\<forall>r. set_option (S r) = linked started_by E r)"

definition deliveries_ok :: "log \<Rightarrow> (event_id \<times> agent_id \<rightharpoonup> delivery) \<Rightarrow> bool" where
  "deliveries_ok E D \<longleftrightarrow>
     (\<forall>r agent. case D (r, agent) of
        None \<Rightarrow> \<forall>d. (agent, d) \<notin> linked receipt_by E r
      | Some d \<Rightarrow> (agent, d) \<in> linked receipt_by E r \<and>
          (\<forall>d'. (agent, d') \<in> linked receipt_by E r \<longrightarrow> d' \<le> d))"

definition reads_ok :: "log \<Rightarrow> (event_id \<times> agent_id) set \<Rightarrow> bool" where
  "reads_ok E H \<longleftrightarrow> (\<forall>r agent. (r, agent) \<in> H \<longleftrightarrow> agent \<in> linked read_by E r)"

definition open_ok :: "log \<Rightarrow> (event_id \<rightharpoonup> resolution) \<Rightarrow> (agent_id \<times> event_id) set \<Rightarrow> bool" where
  "open_ok E R Q \<longleftrightarrow>
     (\<forall>b i. (b, i) \<in> Q \<longleftrightarrow> (\<exists>p a. held_at E i = Some p \<and> ask_of p = Some (a, b)) \<and> R i = None)"

lemma started_by_about: "about_request started_by"
  by (auto simp: about_request_def started_by_def
      split: option.splits prod.splits if_splits body.splits)

lemma receipt_by_about: "about_request receipt_by"
  by (auto simp: about_request_def receipt_by_def
      split: option.splits prod.splits if_splits body.splits)

lemma read_by_about: "about_request read_by"
  by (auto simp: about_request_def read_by_def split: if_splits body.splits)

section \<open>Registers: the last write of their owner\<close>

definition profile_write :: "event \<Rightarrow> (agent_id \<times> card option) option" where
  "profile_write e =
     (case ev_body e of
        Profile n c \<Rightarrow> Some (AgentId n (ev_origin e), Some c)
      | Left n \<Rightarrow> Some (AgentId n (ev_origin e), None)
      | _ \<Rightarrow> None)"

definition machine_write :: "event \<Rightarrow> (origin \<times> machine_card option) option" where
  "machine_write e =
     (case ev_body e of Machine c \<Rightarrow> Some (ev_origin e, Some c) | _ \<Rightarrow> None)"

definition room_write :: "event \<Rightarrow> (room_id \<times> room option) option" where
  "room_write e =
     (case ev_body e of
        Room n t ms \<Rightarrow>
          Some (RoomId (ev_origin e) n, Some \<lparr>room_topic = t, room_members = ms\<rparr>)
      | RoomClosed n \<Rightarrow> Some (RoomId (ev_origin e) n, None)
      | _ \<Rightarrow> None)"

definition activity_write :: "event \<Rightarrow> (agent_id \<times> activity option) option" where
  "activity_write e =
     (case ev_body e of
        Activity n a \<Rightarrow> Some (AgentId n (ev_origin e), Some a)
      | _ \<Rightarrow> None)"

definition register_ok :: "(event \<Rightarrow> ('k \<times> 'v option) option) \<Rightarrow> log \<Rightarrow> ('k \<rightharpoonup> 'v) \<Rightarrow> bool" where
  "register_ok w E V \<longleftrightarrow>
     (\<forall>k. (V k = None \<and> (\<forall>e \<in> held E. \<forall>v. w e \<noteq> Some (k, v))) \<or>
          (\<exists>e \<in> held E. w e = Some (k, V k) \<and>
             (\<forall>e' \<in> held E. \<forall>v. w e' = Some (k, v) \<longrightarrow> event_seq (ev_id e') \<le> event_seq (ev_id e))))"

text \<open>A register belongs to one origin: every write of a key comes from it.\<close>

definition owned :: "(event \<Rightarrow> ('k \<times> 'v option) option) \<Rightarrow> bool" where
  "owned w \<longleftrightarrow>
     (\<forall>e e' k v v'. w e = Some (k, v) \<longrightarrow> w e' = Some (k, v') \<longrightarrow> ev_origin e = ev_origin e')"

lemma writes_owned:
  "owned profile_write" "owned machine_write" "owned room_write" "owned activity_write"
  by (auto simp: owned_def profile_write_def machine_write_def room_write_def activity_write_def
      split: body.splits)

lemma register_unique:
  assumes "log_keys E" "owned w" "register_ok w E V" "register_ok w E W"
  shows "V = W"
proof
  fix k
  have V: "(V k = None \<and> (\<forall>e \<in> held E. \<forall>v. w e \<noteq> Some (k, v))) \<or>
      (\<exists>e \<in> held E. w e = Some (k, V k) \<and>
         (\<forall>e' \<in> held E. \<forall>v. w e' = Some (k, v) \<longrightarrow> event_seq (ev_id e') \<le> event_seq (ev_id e)))"
    using assms(3) unfolding register_ok_def by blast
  have W: "(W k = None \<and> (\<forall>e \<in> held E. \<forall>v. w e \<noteq> Some (k, v))) \<or>
      (\<exists>e \<in> held E. w e = Some (k, W k) \<and>
         (\<forall>e' \<in> held E. \<forall>v. w e' = Some (k, v) \<longrightarrow> event_seq (ev_id e') \<le> event_seq (ev_id e)))"
    using assms(4) unfolding register_ok_def by blast
  show "V k = W k"
  proof (cases "\<forall>e \<in> held E. \<forall>v. w e \<noteq> Some (k, v)")
    case True
    with V W show ?thesis by auto
  next
    case False
    with V obtain e where e: "e \<in> held E" "w e = Some (k, V k)"
      "\<forall>e' \<in> held E. \<forall>v. w e' = Some (k, v) \<longrightarrow> event_seq (ev_id e') \<le> event_seq (ev_id e)" by blast
    from False W obtain f where f: "f \<in> held E" "w f = Some (k, W k)"
      "\<forall>e' \<in> held E. \<forall>v. w e' = Some (k, v) \<longrightarrow> event_seq (ev_id e') \<le> event_seq (ev_id f)" by blast
    have "event_seq (ev_id e) = event_seq (ev_id f)" using e f by (meson antisym)
    moreover have "ev_origin e = ev_origin f" using assms(2) e(2) f(2) by (auto simp: owned_def)
    ultimately have "ev_id e = ev_id f" by (auto simp: ev_origin_def intro: event_id.expand)
    then have "e = f" using e(1) f(1) assms(1) by (simp add: held_iff)
    with e(2) f(2) show ?thesis by simp
  qed
qed

lemma register_update:
  assumes "register_ok w E V" "owned w" "E (ev_id (sealed_event s)) = None"
    and newest: "\<forall>e \<in> held E. ev_origin e = ev_origin (sealed_event s) \<longrightarrow>
      event_seq (ev_id e) < event_seq (ev_id (sealed_event s))"
  shows "register_ok w (E(ev_id (sealed_event s) \<mapsto> s))
    (case w (sealed_event s) of None \<Rightarrow> V | Some (k, v) \<Rightarrow> V(k := v))"
proof (cases "w (sealed_event s)")
  case None
  then show ?thesis using assms(1,3) by (auto simp: register_ok_def held_update)
next
  case (Some kv)
  obtain k v where kv: "kv = (k, v)" by fastforce
  show ?thesis
    unfolding register_ok_def held_update [where i = "ev_id (sealed_event s)" and E = E, OF assms(3)]
  proof
    fix j
    show "((case w (sealed_event s) of None \<Rightarrow> V | Some (k, v) \<Rightarrow> V(k := v)) j = None \<and>
        (\<forall>e \<in> insert (sealed_event s) (held E). \<forall>v. w e \<noteq> Some (j, v))) \<or>
      (\<exists>e \<in> insert (sealed_event s) (held E).
         w e = Some (j, (case w (sealed_event s) of None \<Rightarrow> V | Some (k, v) \<Rightarrow> V(k := v)) j) \<and>
         (\<forall>e' \<in> insert (sealed_event s) (held E). \<forall>v. w e' = Some (j, v) \<longrightarrow>
            event_seq (ev_id e') \<le> event_seq (ev_id e)))"
    proof (cases "j = k")
      case True
      have "event_seq (ev_id e) \<le> event_seq (ev_id (sealed_event s))"
        if "e \<in> held E" "w e = Some (k, u)" for e u
        using that newest assms(2) Some kv by (auto simp: owned_def order.strict_iff_order)
      then show ?thesis using Some kv True by auto
    next
      case False
      have "(V j = None \<and> (\<forall>e \<in> held E. \<forall>v. w e \<noteq> Some (j, v))) \<or>
        (\<exists>e \<in> held E. w e = Some (j, V j) \<and>
           (\<forall>e' \<in> held E. \<forall>v. w e' = Some (j, v) \<longrightarrow> event_seq (ev_id e') \<le> event_seq (ev_id e)))"
        using assms(1) unfolding register_ok_def by blast
      then show ?thesis using False Some kv by auto
    qed
  qed
qed

end
