(* ===== verification/Chat_Change.thy ===== *)
theory Chat_Change
  imports Chat_Views
begin

text \<open>
  What the decision \<open>change\<close> of the ledger says of an event, over the model: the change it returns is
  exactly the contribution of the event to each view (\<open>change_resolution\<close>, \<open>change_started\<close>,
  \<open>change_receipt\<close>, \<open>change_read\<close>, \<open>change_register\<close>), and the event it refers to is held
  (\<open>change_request\<close>).
\<close>

section \<open>What a change says of the event\<close>

lemma model_parent_iff:
  "model_parent m r = Present p \<longleftrightarrow> held_at (m_events m) r = Some p \<and> ev_body p \<noteq> Omitted"
  "model_parent m r = Opaque \<longleftrightarrow> (\<exists>p. held_at (m_events m) r = Some p \<and> ev_body p = Omitted)"
  "model_parent m r = Missing \<longleftrightarrow> m_events m r = None"
  by (auto simp: model_parent_def held_at_def split: option.splits)

lemma omitted_views:
  "ev_body p = Omitted \<Longrightarrow> ask_of p = None"
  "ev_body p = Omitted \<Longrightarrow> \<not> receipt_addressed p agent"
  "ev_body p = Omitted \<Longrightarrow> \<not> same_thread e c a p"
  by (simp_all add: ask_of_def receipt_addressed_def same_thread_def body_conversation_def)

lemma checked_parent_model:
  "log_keys (m_events m) \<Longrightarrow> checked_parent (model_ops C) m e r = Inr (model_parent m r)"
  by (auto simp: checked_parent_def parent_matches_def identity_matches_def model_parent_def
      log_keys_def split: option.splits)

lemma in_thread_of_alt:
  "in_thread_of p e \<longleftrightarrow>
     (\<exists>c a. body_conversation (ev_body e) = Some c \<and> body_thread (ev_body e) = Some (c, a) \<and>
        same_thread e c a p)"
  by (auto simp: in_thread_of_def body_conversation_def split: option.splits)

lemma no_ending_opaque:
  assumes "resolutions_ok E R" "held_at E r = Some p" "ask_of p = None"
  shows "R r = None"
proof (rule ccontr)
  assume "R r \<noteq> None"
  then obtain x where "R r = Some x" by blast
  from resolutions_okD(2) [OF assms(1) this] assms(2,3) show False
    by (auto simp: endings_def linked_def resolution_by_def split: option.splits prod.splits)
qed

lemma resolve_model:
  assumes "log_keys (m_events m)" "resolutions_ok (m_events m) (m_resolutions m)"
    and "body_thread (ev_body e) = Some (c, a)" "body_audience (ev_body e) = Some a"
    and "resolve (model_ops C) m e r cand = Inr ch"
  shows "\<exists>p. held_at (m_events m) r = Some p \<and>
    (case ask_of p of
       Some (asker, responder) \<Rightarrow> same_thread e c a p \<and>
         (if authorized cand asker responder
          then ch = ChResolution r
             \<lparr>res_event = ev_id e, res_clock = ev_clock e, res_ending = cand_ending cand,
              res_asker = asker, res_responder = responder\<rparr>
             (case m_resolutions m r of None \<Rightarrow> True
              | Some known \<Rightarrow> precedes
                  \<lparr>res_event = ev_id e, res_clock = ev_clock e, res_ending = cand_ending cand,
                   res_asker = asker, res_responder = responder\<rparr> known)
          else ch = ChNothing)
     | None \<Rightarrow> ch = ChNothing)"
proof (cases "model_parent m r")
  case (Present p)
  then have p: "held_at (m_events m) r = Some p" by (simp add: model_parent_iff)
  have st: "same_thread e c a p" and
    ch: "(case ask_of p of Some ask \<Rightarrow> resolve_candidate e r cand (m_resolutions m r) ask
          | None \<Rightarrow> plain_reply e (cand_ending cand)) = (Inr ch :: (infallible failure, view_change) result)"
    using assms Present
    by (auto simp: resolve_def checked_parent_model body_conversation_def split: if_splits)
  show ?thesis
    using p st ch
    by (auto simp: resolve_candidate_def plain_reply_def Let_def
        split: option.splits if_splits ending.splits)
next
  case Opaque
  then obtain p where p: "held_at (m_events m) r = Some p" "ev_body p = Omitted"
    by (auto simp: model_parent_iff)
  with assms(2) have "m_resolutions m r = None" using no_ending_opaque omitted_views(1) by blast
  with Opaque p show ?thesis
    using assms by (auto simp: resolve_def checked_parent_model body_conversation_def
        plain_reply_def omitted_views split: ending.splits)
next
  case Missing
  then show ?thesis using assms by (auto simp: resolve_def checked_parent_model body_conversation_def)
qed

lemma model_parent_cases:
  obtains (Present) p where "model_parent m r = Present p" "held_at (m_events m) r = Some p"
      "ev_body p \<noteq> Omitted"
  | (Opaque) p where "model_parent m r = Opaque" "held_at (m_events m) r = Some p"
      "ev_body p = Omitted"
  | (Missing) "model_parent m r = Missing" "m_events m r = None"
  by (cases "model_parent m r") (auto simp: model_parent_iff)

lemma started_model:
  assumes "log_keys (m_events m)" "ev_body e = TurnStarted r c a n"
    and "started (model_ops C) m e r = Inr ch"
  shows "\<exists>p. held_at (m_events m) r = Some p \<and>
    (if ev_body p = Omitted then ch = ChNothing
     else ch = ChStarted r (AgentId n (ev_origin e)) \<and> same_thread e c a p \<and>
       (\<exists>asker. ask_of p = Some (asker, AgentId n (ev_origin e))))"
  using assms
  by (cases rule: model_parent_cases [of m r])
    (auto simp: started_def thread_parent_def checked_parent_model body_conversation_def
      body_audience_def ev_author_def split: option.splits if_splits)

lemma receipt_model:
  assumes "log_keys (m_events m)" "ev_body e = Receipt r c a n d"
    and "receipt (model_ops C) m e r d = Inr ch"
  shows "\<exists>p. held_at (m_events m) r = Some p \<and>
    (if ev_body p = Omitted then ch = ChNothing
     else ch = ChReceipt r (AgentId n (ev_origin e)) d \<and> same_thread e c a p \<and>
       receipt_addressed p (AgentId n (ev_origin e)))"
  using assms
  by (cases rule: model_parent_cases [of m r])
    (auto simp: receipt_def receipt_change_def thread_parent_def checked_parent_model
      body_conversation_def body_audience_def ev_author_def split: option.splits if_splits)

lemma handoff_read_model:
  assumes "log_keys (m_events m)" "handoff_read (model_ops C) m e obs a = Inr ch"
  shows "ch = ChHandoffRead (obs_handoff obs) (obs_reader obs) \<and>
    (\<exists>p. held_at (m_events m) (obs_handoff obs) = Some p)"
proof (cases rule: model_parent_cases [of m "obs_handoff obs"])
  case (Present p)
  then show ?thesis
    using assms by (cases "ev_body p")
      (auto simp: handoff_read_def checked_parent_model Let_def result_simps)
qed (use assms in \<open>auto simp: handoff_read_def checked_parent_model Let_def result_simps\<close>)


text \<open>What one event says about the event \<open>r\<close>, through \<open>f\<close>; a change is what the event says.\<close>

definition said :: "(event \<Rightarrow> event \<Rightarrow> 'x option) \<Rightarrow> log \<Rightarrow> event \<Rightarrow> event_id \<Rightarrow> 'x set" where
  "said f E e r = {x. \<exists>p. held_at E r = Some p \<and> f p e = Some x}"

lemma change_cases:
  assumes "log_keys (m_events m)" "change (model_ops C) m e = Inr ch"
  obtains (ending) k cand c a where "ending_of e = Some (k, cand)"
      "body_thread (ev_body e) = Some (c, a)" "body_audience (ev_body e) = Some a"
      "resolve (model_ops C) m e k cand = Inr ch"
  | (started) k c a n p where "ev_body e = TurnStarted k c a n" "held_at (m_events m) k = Some p"
      "if ev_body p = Omitted then ch = ChNothing
       else ch = ChStarted k (AgentId n (ev_origin e)) \<and> same_thread e c a p \<and>
         (\<exists>asker. ask_of p = Some (asker, AgentId n (ev_origin e)))"
  | (receipt) k c a n d p where "ev_body e = Receipt k c a n d" "held_at (m_events m) k = Some p"
      "if ev_body p = Omitted then ch = ChNothing
       else ch = ChReceipt k (AgentId n (ev_origin e)) d \<and> same_thread e c a p \<and>
         receipt_addressed p (AgentId n (ev_origin e))"
  | (read) obs a p where "ev_body e = HandoffRead obs a"
      "held_at (m_events m) (obs_handoff obs) = Some p"
      "ch = ChHandoffRead (obs_handoff obs) (obs_reader obs)"
  | (register) "body_request (ev_body e) = None"
      "change (model_ops C) m e = Inr ch"
proof (cases "ev_body e")
  case (Message c n t a i st nt)
  then show ?thesis
    using assms(2) ending register
    by (cases i) (auto simp: change_def ending_of_def body_audience_def)
next
  case (TurnStarted k c a n)
  with started_model [OF assms(1) TurnStarted, of C ch] assms(2) started show ?thesis
    by (auto simp: change_def)
next
  case (Resolved k c a n oc)
  then show ?thesis
    using assms(2) ending by (auto simp: change_def ending_of_def body_audience_def)
next
  case (Receipt k c a n d)
  with receipt_model [OF assms(1) Receipt, of C ch] assms(2) receipt show ?thesis
    by (auto simp: change_def)
next
  case (HandoffRead obs a)
  with handoff_read_model [OF assms(1), of C e obs a ch] assms(2) read show ?thesis
    by (auto simp: change_def)
qed (use assms register in auto)

lemma resolve_shape:
  assumes "log_keys (m_events m)" "resolutions_ok (m_events m) (m_resolutions m)"
    and "ending_of e = Some (k, cand)" "body_thread (ev_body e) = Some (c, a)"
      "body_audience (ev_body e) = Some a" "resolve (model_ops C) m e k cand = Inr ch"
  shows "\<exists>p. held_at (m_events m) k = Some p \<and>
    ch = (case resolution_by p e of
            Some x \<Rightarrow> ChResolution k x
              (case m_resolutions m k of None \<Rightarrow> True | Some known \<Rightarrow> precedes x known)
          | None \<Rightarrow> ChNothing)"
proof -
  from resolve_model [OF assms(1,2,4-6)] obtain p where
    p: "held_at (m_events m) k = Some p" and
    ch: "case ask_of p of
       Some (asker, responder) \<Rightarrow> same_thread e c a p \<and>
         (if authorized cand asker responder
          then ch = ChResolution k
             \<lparr>res_event = ev_id e, res_clock = ev_clock e, res_ending = cand_ending cand,
              res_asker = asker, res_responder = responder\<rparr>
             (case m_resolutions m k of None \<Rightarrow> True
              | Some known \<Rightarrow> precedes
                  \<lparr>res_event = ev_id e, res_clock = ev_clock e, res_ending = cand_ending cand,
                   res_asker = asker, res_responder = responder\<rparr> known)
          else ch = ChNothing)
     | None \<Rightarrow> ch = ChNothing" by blast
  have "ev_id p = k" using assms(1) p by (rule held_at_id)
  with p ch assms(3,4) show ?thesis
    by (cases "ask_of p") (auto simp: resolution_by_def in_thread_of_def split: if_splits)
qed

lemma register_shape:
  assumes "body_request (ev_body e) = None" "change (model_ops C) m e = Inr ch"
  shows "ch \<noteq> ChResolution k x w" "ch \<noteq> ChStarted k n" "ch \<noteq> ChReceipt k n d" "ch \<noteq> ChHandoffRead k n"
  using assms by (cases "ev_body e"; auto simp: change_def split: intent.splits)+

lemma change_request:
  assumes "log_keys (m_events m)" "resolutions_ok (m_events m) (m_resolutions m)"
    and "change (model_ops C) m e = Inr ch" "body_request (ev_body e) = Some r"
  shows "m_events m r \<noteq> None"
proof -
  have "\<exists>p. held_at (m_events m) r = Some p"
    using assms(1,3)
  proof (cases rule: change_cases)
    case (ending k cand c a)
    then show ?thesis
      using resolve_shape [OF assms(1,2) ending] ending_of_request assms(4) by fastforce
  qed (use assms(4) in auto)
  then show ?thesis by (auto simp: held_at_def)
qed

lemma said_other:
  assumes "about_request f" "log_keys E" "body_request (ev_body e) \<noteq> Some r"
  shows "said f E e r = {}"
  using assms held_at_id [OF assms(2)] by (fastforce simp: said_def about_request_def)

lemma change_resolution:
  assumes "log_keys (m_events m)" "resolutions_ok (m_events m) (m_resolutions m)"
    and "change (model_ops C) m e = Inr ch"
  shows "said resolution_by (m_events m) e r = {x. \<exists>w. ch = ChResolution r x w}"
    and "ch = ChResolution r x w \<Longrightarrow>
      w = (case m_resolutions m r of None \<Rightarrow> True | Some known \<Rightarrow> precedes x known)"
proof -
  have "said resolution_by (m_events m) e r = {x. \<exists>w. ch = ChResolution r x w} \<and>
    (ch = ChResolution r x w \<longrightarrow>
      w = (case m_resolutions m r of None \<Rightarrow> True | Some known \<Rightarrow> precedes x known))"
    using assms(1,3)
  proof (cases rule: change_cases)
    case (ending k cand c a)
    from resolve_shape [OF assms(1,2) ending] obtain p where p: "held_at (m_events m) k = Some p"
      "ch = (case resolution_by p e of
            Some x \<Rightarrow> ChResolution k x
              (case m_resolutions m k of None \<Rightarrow> True | Some known \<Rightarrow> precedes x known)
          | None \<Rightarrow> ChNothing)" by blast
    show ?thesis
    proof (cases "r = k")
      case True
      with p show ?thesis by (auto simp: said_def split: option.splits)
    next
      case False
      then have "said resolution_by (m_events m) e r = {}"
        using said_other [OF resolution_by_about assms(1)] ending_of_request [OF ending(1)] by auto
      with False p show ?thesis by (auto split: option.splits)
    qed
  next
    case register
    then show ?thesis
      using said_other [OF resolution_by_about assms(1)] register_shape [OF register] by auto
  qed (auto simp: said_def resolution_by_def ending_of_def split: if_splits option.splits)
  then show "said resolution_by (m_events m) e r = {x. \<exists>w. ch = ChResolution r x w}"
    "ch = ChResolution r x w \<Longrightarrow>
      w = (case m_resolutions m r of None \<Rightarrow> True | Some known \<Rightarrow> precedes x known)" by blast+
qed

lemma change_started:
  assumes "log_keys (m_events m)" "resolutions_ok (m_events m) (m_resolutions m)"
    and "change (model_ops C) m e = Inr ch"
  shows "said started_by (m_events m) e r = {a. ch = ChStarted r a}"
  using assms(1,3)
proof (cases rule: change_cases)
  case (ending k cand c a)
  with resolve_shape [OF assms(1,2) ending] show ?thesis
    by (auto simp: said_def started_by_def ending_of_def split: body.splits intent.splits option.splits)
next
  case (started k c a n p)
  then show ?thesis
    using held_at_id [OF assms(1)]
    by (cases "ev_body p = Omitted"; cases "r = k")
      (auto simp: said_def started_by_def in_thread_of_def ev_author_def omitted_views
        split: option.splits if_splits)
next
  case register
  then show ?thesis
    using said_other [OF started_by_about assms(1)] register_shape [OF register] by auto
qed (auto simp: said_def started_by_def split: if_splits option.splits)

lemma change_receipt:
  assumes "log_keys (m_events m)" "resolutions_ok (m_events m) (m_resolutions m)"
    and "change (model_ops C) m e = Inr ch"
  shows "said receipt_by (m_events m) e r = {(a, d). ch = ChReceipt r a d}"
  using assms(1,3)
proof (cases rule: change_cases)
  case (ending k cand c a)
  with resolve_shape [OF assms(1,2) ending] show ?thesis
    by (auto simp: said_def receipt_by_def ending_of_def split: body.splits intent.splits option.splits)
next
  case (receipt k c a n d p)
  then show ?thesis
    using held_at_id [OF assms(1)]
    by (cases "ev_body p = Omitted"; cases "r = k")
      (auto simp: said_def receipt_by_def in_thread_of_def ev_author_def omitted_views
        split: option.splits if_splits)
next
  case register
  then show ?thesis
    using said_other [OF receipt_by_about assms(1)] register_shape [OF register] by auto
qed (auto simp: said_def receipt_by_def split: if_splits option.splits)

lemma change_read:
  assumes "log_keys (m_events m)" "resolutions_ok (m_events m) (m_resolutions m)"
    and "change (model_ops C) m e = Inr ch"
  shows "said read_by (m_events m) e r = {a. ch = ChHandoffRead r a}"
  using assms(1,3)
proof (cases rule: change_cases)
  case (ending k cand c a)
  with resolve_shape [OF assms(1,2) ending] show ?thesis
    by (auto simp: said_def read_by_def ending_of_def split: body.splits intent.splits option.splits)
next
  case (read obs a p)
  then show ?thesis
    using held_at_id [OF assms(1)] by (auto simp: said_def read_by_def split: if_splits)
next
  case register
  then show ?thesis
    using said_other [OF read_by_about assms(1)] register_shape [OF register] by auto
qed (auto simp: said_def read_by_def split: if_splits)

lemma change_register:
  assumes "log_keys (m_events m)" "resolutions_ok (m_events m) (m_resolutions m)"
    and "change (model_ops C) m e = Inr ch"
  shows "profile_write e = (case ch of ChProfile k v \<Rightarrow> Some (k, v) | _ \<Rightarrow> None)"
    and "machine_write e = (case ch of ChMachine v \<Rightarrow> Some (ev_origin e, Some v) | _ \<Rightarrow> None)"
    and "room_write e = (case ch of ChRoom k v \<Rightarrow> Some (k, v) | _ \<Rightarrow> None)"
    and "activity_write e = (case ch of ChActivity k v \<Rightarrow> Some (k, Some v) | _ \<Rightarrow> None)"
    and "map_option snd (ask_of e) = (case ch of ChAsk b \<Rightarrow> Some b | _ \<Rightarrow> None)"
proof -
  note writes = profile_write_def machine_write_def room_write_def activity_write_def ask_of_def
  have "profile_write e = (case ch of ChProfile k v \<Rightarrow> Some (k, v) | _ \<Rightarrow> None) \<and>
    machine_write e = (case ch of ChMachine v \<Rightarrow> Some (ev_origin e, Some v) | _ \<Rightarrow> None) \<and>
    room_write e = (case ch of ChRoom k v \<Rightarrow> Some (k, v) | _ \<Rightarrow> None) \<and>
    activity_write e = (case ch of ChActivity k v \<Rightarrow> Some (k, Some v) | _ \<Rightarrow> None) \<and>
    map_option snd (ask_of e) = (case ch of ChAsk b \<Rightarrow> Some b | _ \<Rightarrow> None)"
    using assms(1,3)
  proof (cases rule: change_cases)
    case (ending k cand c a)
    with resolve_shape [OF assms(1,2) ending] show ?thesis
      by (auto simp: writes ending_of_def split: body.splits intent.splits option.splits)
  next
    case register
    then show ?thesis
      by (cases "ev_body e") (auto simp: change_def writes split: intent.splits)
  qed (auto simp: writes split: if_splits)
  then show "profile_write e = (case ch of ChProfile k v \<Rightarrow> Some (k, v) | _ \<Rightarrow> None)"
    "machine_write e = (case ch of ChMachine v \<Rightarrow> Some (ev_origin e, Some v) | _ \<Rightarrow> None)"
    "room_write e = (case ch of ChRoom k v \<Rightarrow> Some (k, v) | _ \<Rightarrow> None)"
    "activity_write e = (case ch of ChActivity k v \<Rightarrow> Some (k, Some v) | _ \<Rightarrow> None)"
    "map_option snd (ask_of e) = (case ch of ChAsk b \<Rightarrow> Some b | _ \<Rightarrow> None)" by simp_all
qed

end
