(* ===== verification/Chat_Convergence.thy ===== *)
theory Chat_Convergence
  imports Chat_Change
begin

text \<open>
  Convergence: everything a model shows is determined by the set of events it holds. The invariant
  \<open>views_ok\<close> says that the fields of a model are the views of its log; every step keeps it, so the
  order in which events arrived never shows.
\<close>

section \<open>One commit keeps the views\<close>

definition resolutions_after :: "view_change \<Rightarrow> (event_id \<rightharpoonup> resolution) \<Rightarrow> (event_id \<rightharpoonup> resolution)" where
  "resolutions_after ch R = (case ch of ChResolution r x True \<Rightarrow> R(r \<mapsto> x) | _ \<Rightarrow> R)"

definition deliveries_after ::
  "view_change \<Rightarrow> (event_id \<times> agent_id \<rightharpoonup> delivery) \<Rightarrow> (event_id \<times> agent_id \<rightharpoonup> delivery)" where
  "deliveries_after ch D =
     (case ch of
        ChReceipt r a d \<Rightarrow>
          D((r, a) \<mapsto> observe (case D (r, a) of Some c \<Rightarrow> c | None \<Rightarrow> Pending) d)
      | _ \<Rightarrow> D)"

lemma model_commit_views:
  "m_resolutions (model_commit m s a) = resolutions_after (adm_change a) (m_resolutions m)"
  "m_deliveries (model_commit m s a) = deliveries_after (adm_change a) (m_deliveries m)"
  "m_started (model_commit m s a) =
     (case adm_change a of ChStarted r n \<Rightarrow> (m_started m)(r \<mapsto> n) | _ \<Rightarrow> m_started m)"
  "m_handoff_reads (model_commit m s a) =
     m_handoff_reads m \<union> {(r, n). adm_change a = ChHandoffRead r n}"
  "m_open (model_commit m s a) =
     (case adm_change a of
        ChAsk b \<Rightarrow> insert (b, ev_id (sealed_event s)) (m_open m)
      | ChResolution r x True \<Rightarrow> m_open m - {(res_responder x, r)}
      | _ \<Rightarrow> m_open m)"
  "m_profiles (model_commit m s a) =
     (case adm_change a of ChProfile k v \<Rightarrow> (m_profiles m)(k := v) | _ \<Rightarrow> m_profiles m)"
  "m_machines (model_commit m s a) =
     (case adm_change a of
        ChMachine c \<Rightarrow> (m_machines m)(ev_origin (sealed_event s) \<mapsto> c) | _ \<Rightarrow> m_machines m)"
  "m_rooms (model_commit m s a) =
     (case adm_change a of ChRoom k v \<Rightarrow> (m_rooms m)(k := v) | _ \<Rightarrow> m_rooms m)"
  "m_activities (model_commit m s a) =
     (case adm_change a of ChActivity k v \<Rightarrow> (m_activities m)(k \<mapsto> v) | _ \<Rightarrow> m_activities m)"
  by (cases "adm_change a"; auto simp: model_commit_def apply_change_def Let_def
      resolutions_after_def deliveries_after_def split: bool.splits)+

lemma resolutions_update:
  assumes "log_keys E" "resolutions_ok E R"
    and grow: "\<And>r. endings E' r = endings E r \<union> {x. \<exists>w. ch = ChResolution r x w}"
    and wins: "\<And>r x w. ch = ChResolution r x w \<Longrightarrow>
      w = (case R r of None \<Rightarrow> True | Some known \<Rightarrow> precedes x known)"
  shows "resolutions_ok E' (resolutions_after ch R)"
  unfolding resolutions_ok_def
proof
  fix r
  show "case resolutions_after ch R r of
      None \<Rightarrow> endings E' r = {}
    | Some x \<Rightarrow> x \<in> endings E' r \<and> (\<forall>y \<in> endings E' r. res_key x \<le> res_key y)"
  proof (cases "\<exists>x w. ch = ChResolution r x w")
    case True
    then obtain x w where ch: "ch = ChResolution r x w" by blast
    have w: "w = (case R r of None \<Rightarrow> True | Some known \<Rightarrow> precedes x known)"
      by (rule wins [OF ch])
    have e: "endings E' r = insert x (endings E r)" using grow [of r] ch by auto
    show ?thesis
    proof (cases "R r")
      case None
      then show ?thesis
        using w e ch resolutions_okD(1) [OF assms(2) None] by (simp add: resolutions_after_def)
    next
      case (Some k)
      note k = resolutions_okD(2,3) [OF assms(2) Some]
      show ?thesis
      proof (cases w)
        case True
        with w Some have "res_key x < res_key k" by (simp add: precedes_def)
        with k(2) True e ch show ?thesis
          by (auto simp: resolutions_after_def dest: order.strict_trans2 intro: order.strict_implies_order)
      next
        case False
        with w Some have "res_key k \<le> res_key x" by (simp add: precedes_def)
        with k False e ch Some show ?thesis by (auto simp: resolutions_after_def)
      qed
    qed
  next
    case False
    then have "resolutions_after ch R r = R r"
      by (auto simp: resolutions_after_def split: view_change.splits bool.splits)
    moreover have "endings E' r = endings E r" using grow [of r] False by auto
    ultimately show ?thesis
      using assms(2) [unfolded resolutions_ok_def, rule_format, of r] by (simp split: option.splits)
  qed
qed

lemma started_by_responder:
  "started_by p e = Some a \<Longrightarrow> \<exists>asker. ask_of p = Some (asker, a)"
  by (cases "ev_body e") (auto simp: started_by_def split: option.splits if_splits)

lemma started_update:
  assumes "log_keys E" "started_ok E S"
    and grow: "\<And>r. linked started_by E' r = linked started_by E r \<union> {a. ch = ChStarted r a}"
  shows "started_ok E' (case ch of ChStarted r n \<Rightarrow> S(r \<mapsto> n) | _ \<Rightarrow> S)"
proof -
  have one: "a = b" if "a \<in> linked started_by E' r" "b \<in> linked started_by E' r" for a b r
    using that by (auto simp: linked_def dest!: started_by_responder)
  show ?thesis
    unfolding started_ok_def
  proof
    fix r
    show "set_option ((case ch of ChStarted r n \<Rightarrow> S(r \<mapsto> n) | _ \<Rightarrow> S) r) = linked started_by E' r"
    proof (cases "\<exists>a. ch = ChStarted r a")
      case True
      then obtain a where a: "ch = ChStarted r a" by blast
      then have "a \<in> linked started_by E' r" using grow by simp
      then have "linked started_by E' r = {a}" using one by blast
      with a show ?thesis by simp
    next
      case False
      with grow [of r] assms(2) show ?thesis
        by (auto simp: started_ok_def split: view_change.splits)
    qed
  qed
qed

lemma deliveries_update:
  assumes "deliveries_ok E D"
    and grow: "\<And>r. linked receipt_by E' r = linked receipt_by E r \<union> {(a, d). ch = ChReceipt r a d}"
  shows "deliveries_ok E' (deliveries_after ch D)"
  unfolding deliveries_ok_def
proof (intro allI)
  fix r a
  have old: "case D (r, a) of
        None \<Rightarrow> \<forall>d. (a, d) \<notin> linked receipt_by E r
      | Some d \<Rightarrow> (a, d) \<in> linked receipt_by E r \<and>
          (\<forall>d'. (a, d') \<in> linked receipt_by E r \<longrightarrow> d' \<le> d)"
    using assms(1) by (simp add: deliveries_ok_def)
  show "case deliveries_after ch D (r, a) of
        None \<Rightarrow> \<forall>d. (a, d) \<notin> linked receipt_by E' r
      | Some d \<Rightarrow> (a, d) \<in> linked receipt_by E' r \<and>
          (\<forall>d'. (a, d') \<in> linked receipt_by E' r \<longrightarrow> d' \<le> d)"
  proof (cases "\<exists>d. ch = ChReceipt r a d")
    case True
    then obtain d where ch: "ch = ChReceipt r a d" by blast
    show ?thesis
      using old ch grow [of r]
      by (cases "D (r, a)") (auto simp: deliveries_after_def observe_max max_def)
  next
    case False
    then have "deliveries_after ch D (r, a) = D (r, a)"
      by (auto simp: deliveries_after_def split: view_change.splits)
    with old grow [of r] False show ?thesis by (auto split: option.splits)
  qed
qed

lemma open_update:
  fixes s :: sealed
  defines "e \<equiv> sealed_event s"
  assumes "log_keys E" "open_ok E R Q" "resolutions_ok E R" "E (ev_id e) = None"
    and ask: "map_option snd (ask_of e) = (case ch of ChAsk b \<Rightarrow> Some b | _ \<Rightarrow> None)"
    and res: "\<And>r x w. ch = ChResolution r x w \<Longrightarrow> x \<in> said resolution_by E e r"
    and wins: "\<And>r x w. ch = ChResolution r x w \<Longrightarrow>
      w = (case R r of None \<Rightarrow> True | Some known \<Rightarrow> precedes x known)"
  shows "open_ok (E(ev_id e \<mapsto> s)) (resolutions_after ch R)
    (case ch of
        ChAsk b \<Rightarrow> insert (b, ev_id e) Q
      | ChResolution r x True \<Rightarrow> Q - {(res_responder x, r)}
      | _ \<Rightarrow> Q)"
proof -
  have fresh: "R (ev_id e) = None"
    using resolutions_okD(2) [OF assms(4), of "ev_id e"] assms(5)
    by (cases "R (ev_id e)") (auto simp: endings_def linked_def held_at_def)
  have none: "held_at E (ev_id e) = None" using assms(5) by (simp add: held_at_def)
  have resp: "b = res_responder x"
    if "ch = ChResolution r x w" "held_at E r = Some p" "ask_of p = Some (a, b)" for r x w p a b
    using res [OF that(1)] that(2,3)
    by (auto simp: said_def resolution_by_def split: option.splits if_splits)
  have here: "r \<noteq> ev_id e" if "ch = ChResolution r x w" for r x w
    using res [OF that] assms(5) by (auto simp: said_def held_at_def)
  show ?thesis
  proof (cases ch)
    case (ChAsk b)
    then show ?thesis
      using assms(3) none ask fresh
      by (auto simp: open_ok_def held_at_update resolutions_after_def e_def)
  next
    case (ChResolution r x w)
    then show ?thesis
      using assms(3) none ask fresh resp [OF ChResolution] here [OF ChResolution] wins [OF ChResolution]
      by (cases w; cases "R r")
        (auto simp: open_ok_def held_at_update resolutions_after_def e_def)
  qed (use assms(3) none ask fresh in
      \<open>auto simp: open_ok_def held_at_update resolutions_after_def e_def\<close>)
qed

definition clock_ok :: "log \<Rightarrow> u64 \<Rightarrow> bool" where
  "clock_ok E c \<longleftrightarrow>
     (\<forall>e \<in> held E. ev_clock e \<le> c) \<and> (if held E = {} then c = 0 else \<exists>e \<in> held E. ev_clock e = c)"

lemma clock_unique: "clock_ok E c \<Longrightarrow> clock_ok E d \<Longrightarrow> c = d"
  by (auto simp: clock_ok_def split: if_splits) (meson antisym)

lemma clock_update:
  assumes "clock_ok E c" "E (ev_id (sealed_event s)) = None"
  shows "clock_ok (E(ev_id (sealed_event s) \<mapsto> s)) (max c (ev_clock (sealed_event s)))"
  using assms by (auto simp: clock_ok_def held_update max_def split: if_splits intro: order.trans)

section \<open>The invariant\<close>

definition views_ok :: "model \<Rightarrow> bool" where
  "views_ok m \<longleftrightarrow>
     requests_held (m_events m) \<and>
     resolutions_ok (m_events m) (m_resolutions m) \<and>
     open_ok (m_events m) (m_resolutions m) (m_open m) \<and>
     started_ok (m_events m) (m_started m) \<and>
     deliveries_ok (m_events m) (m_deliveries m) \<and>
     reads_ok (m_events m) (m_handoff_reads m) \<and>
     register_ok profile_write (m_events m) (m_profiles m) \<and>
     register_ok machine_write (m_events m) (m_machines m) \<and>
     register_ok room_write (m_events m) (m_rooms m) \<and>
     register_ok activity_write (m_events m) (m_activities m) \<and>
     clock_ok (m_events m) (m_clock m)"

lemma history_log_keys: "history_ok m \<Longrightarrow> log_keys (m_events m)"
  by (auto simp: log_keys_def dest: history_okD(1))

lemma views_new: "views_ok (model_new p)"
  by (simp add: views_ok_def model_new_def requests_held_def resolutions_ok_def open_ok_def
      started_ok_def deliveries_ok_def reads_ok_def register_ok_def clock_ok_def held_def
      held_at_def endings_def linked_def)

lemma views_ack: "views_ok m \<Longrightarrow> views_ok (model_record_ack m p k)"
  by (simp add: views_ok_def model_record_ack_def Let_def)

lemma views_okD:
  assumes "views_ok m"
  shows "requests_held (m_events m)"
    and "resolutions_ok (m_events m) (m_resolutions m)"
    and "open_ok (m_events m) (m_resolutions m) (m_open m)"
    and "started_ok (m_events m) (m_started m)"
    and "deliveries_ok (m_events m) (m_deliveries m)"
    and "reads_ok (m_events m) (m_handoff_reads m)"
    and "register_ok profile_write (m_events m) (m_profiles m)"
    and "register_ok machine_write (m_events m) (m_machines m)"
    and "register_ok room_write (m_events m) (m_rooms m)"
    and "register_ok activity_write (m_events m) (m_activities m)"
    and "clock_ok (m_events m) (m_clock m)"
  using assms by (simp_all add: views_ok_def)

lemma admit_newest:
  assumes hist: "history_ok m" and adm: "admit (model_ops C) m s = Inr (Append a)"
  shows "\<forall>e \<in> held (m_events m). ev_origin e = ev_origin (sealed_event s) \<longrightarrow>
    event_seq (ev_id e) < event_seq (ev_id (sealed_event s))"
proof (intro ballI impI)
  fix e assume e: "e \<in> held (m_events m)" "ev_origin e = ev_origin (sealed_event s)"
  then obtain t where "m_events m (ev_id e) = Some t"
    using history_log_keys [OF hist] by (auto simp: held_iff held_at_def)
  then have "event_seq (ev_id e) \<le> cur_seen (model_cursor m (ev_origin (sealed_event s)))"
    using history_okD(2) [OF hist, of "ev_id e"] e(2) by (simp add: ev_origin_def)
  then show "event_seq (ev_id e) < event_seq (ev_id (sealed_event s))"
    using admit_model(1,2) [OF adm] by (simp add: word_le_nat_alt word_less_nat_alt unat_succ)
qed

lemma commit_registers:
  assumes hist: "history_ok m" and views: "views_ok m"
    and adm: "admit (model_ops C) m s = Inr (Append a)"
  defines "E' \<equiv> (m_events m)(ev_id (sealed_event s) \<mapsto> s)"
  shows "register_ok profile_write E' (m_profiles (model_commit m s a))"
    and "register_ok machine_write E' (m_machines (model_commit m s a))"
    and "register_ok room_write E' (m_rooms (model_commit m s a))"
    and "register_ok activity_write E' (m_activities (model_commit m s a))"
proof -
  note V = views_okD [OF views]
  note K = history_log_keys [OF hist] V(2) admit_model(4) [OF adm]
  note reg = register_update [OF _ _ admit_model_fresh(1) [OF hist adm] admit_newest [OF hist adm]]
  show "register_ok profile_write E' (m_profiles (model_commit m s a))"
    using reg [OF V(7) writes_owned(1)] change_register(1) [OF K]
    unfolding model_commit_views E'_def by (cases "adm_change a") auto
  show "register_ok machine_write E' (m_machines (model_commit m s a))"
    using reg [OF V(8) writes_owned(2)] change_register(2) [OF K]
    unfolding model_commit_views E'_def by (cases "adm_change a") auto
  show "register_ok room_write E' (m_rooms (model_commit m s a))"
    using reg [OF V(9) writes_owned(3)] change_register(3) [OF K]
    unfolding model_commit_views E'_def by (cases "adm_change a") auto
  show "register_ok activity_write E' (m_activities (model_commit m s a))"
    using reg [OF V(10) writes_owned(4)] change_register(4) [OF K]
    unfolding model_commit_views E'_def by (cases "adm_change a") auto
qed

lemma views_commit:
  assumes hist: "history_ok m" and views: "views_ok m"
    and adm: "admit (model_ops C) m s = Inr (Append a)"
  shows "views_ok (model_commit m s a)"
proof -
  let ?E = "m_events m" and ?e = "sealed_event s"
  let ?E' = "?E(ev_id ?e \<mapsto> s)"
  note keys = history_log_keys [OF hist] and V = views_okD [OF views]
  note fresh = admit_model_fresh(1) [OF hist adm]
  note K = keys V(2) admit_model(4) [OF adm]
  have req: "\<forall>r. body_request (ev_body ?e) = Some r \<longrightarrow> ?E r \<noteq> None"
    using change_request [OF K] by blast
  have grow: "linked f ?E' r = linked f ?E r \<union> said f ?E ?e r" if "about_request f"
    for f :: "event \<Rightarrow> event \<Rightarrow> 'x option" and r
    using linked_update [OF that keys V(1) fresh req] by (simp add: said_def)
  have reqs: "requests_held ?E'"
    using V(1) req fresh by (auto simp: requests_held_def held_update)
  have res: "resolutions_ok ?E' (m_resolutions (model_commit m s a))"
    unfolding model_commit_views
    using resolutions_update [OF keys V(2)] grow [OF resolution_by_about] change_resolution [OF K]
    by (simp add: endings_def)
  have op: "open_ok ?E' (m_resolutions (model_commit m s a)) (m_open (model_commit m s a))"
    unfolding model_commit_views
    by (rule open_update [OF keys V(3,2) fresh change_register(5) [OF K]])
      (use change_resolution [OF K] in auto)
  have st: "started_ok ?E' (m_started (model_commit m s a))"
    unfolding model_commit_views
    using started_update [OF keys V(4)] grow [OF started_by_about] change_started [OF K] by simp
  have dl: "deliveries_ok ?E' (m_deliveries (model_commit m s a))"
    unfolding model_commit_views
    using deliveries_update [OF V(5)] grow [OF receipt_by_about] change_receipt [OF K] by simp
  have rd: "reads_ok ?E' (m_handoff_reads (model_commit m s a))"
    unfolding model_commit_views
    using V(6) grow [OF read_by_about] change_read [OF K] by (auto simp: reads_ok_def)
  show ?thesis
    unfolding views_ok_def model_commit_frame
    using reqs res op st dl rd commit_registers [OF hist views adm] clock_update [OF V(11) fresh]
    by blast
qed

lemma views_steps: "model_steps C m m' \<Longrightarrow> history_ok m \<Longrightarrow> views_ok m \<Longrightarrow> views_ok m'"
proof (induction rule: rtranclp_induct)
  case (step y z)
  then have "history_ok y" using history_steps by blast
  with step show ?case by (auto elim!: model_stepE intro: views_commit views_ack)
qed

lemma reachable_views: "reachable C p m \<Longrightarrow> views_ok m"
  unfolding reachable_def using views_steps history_new views_new by blast

section \<open>Equal logs, equal views\<close>

lemma started_unique: "started_ok E S \<Longrightarrow> started_ok E T \<Longrightarrow> S = T"
proof
  fix r assume "started_ok E S" "started_ok E T"
  then have "set_option (S r) = set_option (T r)" by (simp add: started_ok_def)
  then show "S r = T r" by (cases "S r"; cases "T r") auto
qed

lemma deliveries_unique: "deliveries_ok E S \<Longrightarrow> deliveries_ok E T \<Longrightarrow> S = T"
proof
  fix k :: "event_id \<times> agent_id"
  assume ok: "deliveries_ok E S" "deliveries_ok E T"
  obtain r a where k: "k = (r, a)" by fastforce
  show "S k = T k"
    using ok(1) [unfolded deliveries_ok_def, THEN spec, of r, THEN spec, of a]
      ok(2) [unfolded deliveries_ok_def, THEN spec, of r, THEN spec, of a] k
    by (cases "S k"; cases "T k") (auto intro: antisym)
qed

lemma cursor_unique:
  assumes "history_ok m" "history_ok k" "m_events m = m_events k"
  shows "model_cursor m p = model_cursor k p"
proof -
  have le: "cur_seen (model_cursor a p) \<le> cur_seen (model_cursor b p)"
    if "history_ok a" "history_ok b" "m_events a = m_events b" for a b
    using history_okD(2) [OF that(1), of "EventId p (cur_seen (model_cursor a p))"]
      history_okD(2) [OF that(2), of "EventId p (cur_seen (model_cursor a p))"] that(3)
    by (cases "cur_seen (model_cursor a p) = 0") (auto simp: word_neq_0_conv)
  have eq: "cur_seen (model_cursor m p) = cur_seen (model_cursor k p)"
    using le [of m k] le [of k m] assms by (metis antisym)
  show ?thesis
  proof (cases "cur_seen (model_cursor m p) = 0")
    case True
    then show ?thesis
      using history_okD(7) [OF assms(1), of p] history_okD(7) [OF assms(2), of p] eq by simp
  next
    case False
    then obtain s where s: "m_events m (EventId p (cur_seen (model_cursor m p))) = Some s"
      using history_okD(2) [OF assms(1), of "EventId p (cur_seen (model_cursor m p))"]
      by (auto simp: word_neq_0_conv)
    then have "cur_clock (model_cursor m p) = cur_clock (model_cursor k p)"
      using history_okD(4) [OF assms(1) s] history_okD(4) [OF assms(2), of _ s] assms(3) eq by simp
    with eq show ?thesis by (simp add: cursor.equality)
  qed
qed

definition same_views :: "model \<Rightarrow> model \<Rightarrow> bool" where
  "same_views m k \<longleftrightarrow>
     m_resolutions m = m_resolutions k \<and> m_open m = m_open k \<and> m_started m = m_started k \<and>
     m_deliveries m = m_deliveries k \<and> m_handoff_reads m = m_handoff_reads k \<and>
     m_profiles m = m_profiles k \<and> m_machines m = m_machines k \<and> m_rooms m = m_rooms k \<and>
     m_activities m = m_activities k \<and> m_clock m = m_clock k \<and> model_cursor m = model_cursor k"

lemma views_determined:
  assumes "history_ok m" "views_ok m" "history_ok k" "views_ok k" "m_events m = m_events k"
  shows "same_views m k"
proof -
  note keys = history_log_keys [OF assms(1)]
  note V = views_okD [OF assms(2)] and W = views_okD [OF assms(4), folded assms(5)]
  have R: "m_resolutions m = m_resolutions k" by (rule resolutions_unique [OF keys V(2) W(2)])
  have O: "m_open m = m_open k"
    using V(3) W(3) R by (auto simp: open_ok_def)
  have H: "m_handoff_reads m = m_handoff_reads k" using V(6) W(6) by (auto simp: reads_ok_def)
  show ?thesis
    unfolding same_views_def
    using R O H started_unique [OF V(4) W(4)] deliveries_unique [OF V(5) W(5)]
      register_unique [OF keys writes_owned(1) V(7) W(7)]
      register_unique [OF keys writes_owned(2) V(8) W(8)]
      register_unique [OF keys writes_owned(3) V(9) W(9)]
      register_unique [OF keys writes_owned(4) V(10) W(10)]
      clock_unique [OF V(11) W(11)] cursor_unique [OF assms(1,3,5)] by blast
qed

end
