(* ===== verification/Chat_Network.thy ===== *)
theory Chat_Network
  imports Chat_Convergence
begin

text \<open>
  A network of machines that write and exchange events. A state holds one model per origin and the
  offers and answers sent so far; a packet stays, so it may be delivered late, twice or never.
  \<open>net_step\<close> interleaves the operations of the machines: \<open>append_event\<close> of a local body, \<open>offer\<close>,
  \<open>respond\<close> and \<open>accept\<close>. The invariant \<open>net_ok\<close> says what every machine may trust: a foreign event is
  what its author exported for it, and an acknowledgment never runs ahead of the peer's cursor.
\<close>

datatype packet = POffer offer | PAnswer offer answer

record net =
  nodes :: "origin \<Rightarrow> model"
  wire :: "packet set"

definition net_new :: net where
  "net_new = \<lparr>nodes = model_new, wire = {}\<rparr>"

inductive net_step :: "codec \<Rightarrow> net \<Rightarrow> net \<Rightarrow> bool" for C where
  write_step:
    "model_write C (nodes N p) b = (m', r) \<Longrightarrow> net_step C N (N\<lparr>nodes := (nodes N)(p := m')\<rparr>)"
| offer_step:
    "offer (model_ops C) (nodes N p) q = Inr (Inr off) \<Longrightarrow>
       net_step C N (N\<lparr>wire := insert (POffer off) (wire N)\<rparr>)"
| respond_step:
    "POffer off \<in> wire N \<Longrightarrow> respond C (model_ops C) (nodes N (off_to off)) off = (m', Inr (Inr ans)) \<Longrightarrow>
       net_step C N (N\<lparr>nodes := (nodes N)(off_to off := m'), wire := insert (PAnswer off ans) (wire N)\<rparr>)"
| respond_refused_step:
    "POffer off \<in> wire N \<Longrightarrow> respond C (model_ops C) (nodes N (off_to off)) off = (m', Inr (Inl rej)) \<Longrightarrow>
       net_step C N (N\<lparr>nodes := (nodes N)(off_to off := m')\<rparr>)"
| accept_step:
    "PAnswer off ans \<in> wire N \<Longrightarrow> accept C (model_ops C) (nodes N (off_from off)) off ans = (m', Inr r) \<Longrightarrow>
       net_step C N (N\<lparr>nodes := (nodes N)(off_from off := m')\<rparr>)"

inductive_cases net_stepE: "net_step C N N'"

definition net_reachable :: "codec \<Rightarrow> net \<Rightarrow> bool" where
  "net_reachable C N = (net_step C)\<^sup>*\<^sup>* net_new N"

section \<open>The events an operation adds\<close>

lemma receive_one_events:
  assumes "receive_one C (model_ops C) m p e = (m', r)" "m_events m' i = Some s"
  shows "m_events m i = Some s \<or> sealed_new C e = Inr s \<and> ev_id e = i \<and> ev_origin e = p \<and> p \<noteq> m_origin m"
  using assms
  by (auto simp: receive_one_def sealed_new_event
      split: sum.splits decision.splits prod.splits bool.splits if_splits)

lemma model_steps_origin: "model_steps C m m' \<Longrightarrow> m_origin m' = m_origin m"
  by (induction rule: rtranclp_induct) (auto elim!: model_stepE simp: model_record_ack_def Let_def)

lemma receive_loop_events:
  assumes "receive_loop C (model_ops C) m p es n = (m', r)" "m_events m' i = Some s"
  shows "m_events m i = Some s \<or>
    (\<exists>e \<in> set es. sealed_new C e = Inr s \<and> ev_id e = i \<and> ev_origin e = p \<and> p \<noteq> m_origin m)"
  using assms(1)
proof (induction es arbitrary: m n)
  case Nil
  then show ?case using assms(2) by simp
next
  case (Cons e es)
  obtain k o1 where one: "receive_one C (model_ops C) m p e = (k, o1)" by fastforce
  have ok: "m_origin k = m_origin m"
    using receive_one_steps [OF one] by (rule model_steps_origin)
  have "m' = k \<or> (\<exists>j. receive_loop C (model_ops C) k p es j = (m', r))"
    using Cons.prems one by (auto split: sum.splits bool.splits failure.splits)
  then have "m_events k i = Some s \<or>
      (\<exists>e \<in> set es. sealed_new C e = Inr s \<and> ev_id e = i \<and> ev_origin e = p \<and> p \<noteq> m_origin k)"
    using Cons.IH assms(2) by blast
  with receive_one_events [OF one] ok show ?case by auto
qed

lemma receive_events:
  assumes "receive C (model_ops C) m p es = (m', r)" "m_events m' i = Some s"
  shows "m_events m i = Some s \<or>
    (\<exists>e \<in> set es. sealed_new C e = Inr s \<and> ev_id e = i \<and> ev_origin e = p \<and> p \<noteq> m_origin m)"
proof -
  obtain o1 where "receive_loop C (model_ops C) m p es 0 = (m', o1)"
    using assms(1) by (auto simp: receive_def split: prod.splits sum.splits)
  from receive_loop_events [OF this assms(2)] show ?thesis .
qed

lemma record_ack_frame [simp]:
  "m_events (model_record_ack m p k) = m_events m" "m_origin (model_record_ack m p k) = m_origin m"
  "model_cursor (model_record_ack m p k) = model_cursor m"
  "model_ack (model_record_ack m p k) q =
     (if q = p then max (model_ack m p) (min k (cur_seen (model_cursor m (m_origin m)))) else model_ack m q)"
  by (auto simp: model_record_ack_def Let_def model_cursor_def model_ack_def cursor_default_def fun_eq_iff
      split: option.splits)


lemma receive_acks: "receive C (model_ops C) m p es = (m', r) \<Longrightarrow> m_acks m' = m_acks m"
proof -
  have one: "m_acks k = m_acks j" if "receive_one C (model_ops C) j p e = (k, o1)" for j k e o1
    using that by (auto simp: receive_one_def
        split: sum.splits decision.splits prod.splits bool.splits if_splits)
  have "m_acks k = m_acks j" if "receive_loop C (model_ops C) j p es n = (k, o1)" for j k n o1
    using that
  proof (induction es arbitrary: j n)
    case (Cons e es)
    obtain j' o2 where j': "receive_one C (model_ops C) j p e = (j', o2)" by fastforce
    then have "k = j' \<or> (\<exists>n. receive_loop C (model_ops C) j' p es n = (k, o1))"
      using Cons.prems by (auto split: sum.splits bool.splits failure.splits)
    with Cons.IH one [OF j'] show ?case by auto
  qed simp
  then show "receive C (model_ops C) m p es = (m', r) \<Longrightarrow> m_acks m' = m_acks m"
    by (auto simp: receive_def split: prod.splits sum.splits)
qed

lemma receive_seen:
  "receive C (model_ops C) m p es = (m', Inr rc) \<Longrightarrow> rcv_seen rc = cur_seen (model_cursor m' p)"
  by (auto simp: receive_def split: prod.splits sum.splits)

lemma offer_all_prefix:
  "\<exists>k. out_events (offer_all C peer es b) =
     out_events b @ map (\<lambda>e. event_export e peer) (take k es)"
proof (induction es arbitrary: b)
  case Nil
  then show ?case by simp
next
  case (Cons e es)
  obtain b' r where b': "offer_event C b e peer = (b', r)" by fastforce
  show ?case
  proof (cases "r = Inr True")
    case True
    then have "out_events b' = out_events b @ [event_export e peer]"
      using b' by (auto simp: offer_event_def sealed_new_event Let_def
          split: sum.splits prod.splits dest!: outgoing_offer_taken)
    moreover obtain k where "out_events (offer_all C peer es b') =
        out_events b' @ map (\<lambda>e. event_export e peer) (take k es)" using Cons.IH by blast
    ultimately show ?thesis using True b' by (intro exI [of _ "Suc k"]) simp
  next
    case False
    then have "out_events b' = out_events b"
      using b' by (auto simp: offer_event_def Let_def
          split: sum.splits prod.splits) (metis outgoing_offer_refused)
    moreover have "offer_all C peer (e # es) b = b'"
      using b' False by (auto split: sum.splits bool.splits)
    ultimately show ?thesis by (intro exI [of _ 0]) simp
  qed
qed

lemma own_events_set:
  "e \<in> set (own_events m k) \<Longrightarrow>
     \<exists>i t. m_events m i = Some t \<and> e = sealed_event t \<and> event_origin i = m_origin m \<and> k < event_seq i"
  by (cases "finite (dom (m_events m))") (auto simp: own_events_def, blast)

text \<open>A batch for a peer that has seen \<open>k\<close> starts right after it, or is empty.\<close>

definition starts_at :: "u64 \<Rightarrow> event list \<Rightarrow> bool" where
  "starts_at k es \<longleftrightarrow> successively (\<lambda>x y. \<not> batch_broken x y) es \<and>
     (es \<noteq> [] \<longrightarrow> unat (event_seq (ev_id (es ! 0))) = Suc (unat k))"

lemma own_events_first:
  assumes hist: "history_ok m" and ne: "own_events m k \<noteq> []"
  shows "unat (event_seq (ev_id (own_events m k ! 0))) = Suc (unat k)"
proof -
  let ?P = "\<lambda>i. event_origin i = m_origin m \<and> k < event_seq i"
  let ?is = "filter ?P (sorted_list_of_set (dom (m_events m)))"
  have fin: "finite (dom (m_events m))"
    using ne by (cases "finite (dom (m_events m))") (auto simp: own_events_def)
  obtain i js where ijs: "?is = i # js" using ne by (cases ?is) (auto simp: own_events_def)
  have "sorted ?is" by (intro sorted_wrt_filter sorted_sorted_list_of_set)
  with ijs have i: "i \<in> set ?is" and least: "\<forall>j \<in> set ?is. i \<le> j" by auto
  have "k < event_seq i" using i by simp
  then have k: "k \<noteq> - 1" "unat k < unat (event_seq i)"
    by (auto simp: word_less_nat_alt [symmetric])
  then have u: "unat (k + 1) = Suc (unat k)" by (simp add: unat_succ)
  obtain s where s: "m_events m i = Some s" using i fin by auto
  let ?j = "EventId (m_origin m) (k + 1)"
  have "m_events m ?j \<noteq> None"
    using history_okD(2) [OF hist, of i] history_okD(2) [OF hist, of ?j] s i u k
    by (auto simp: word_less_nat_alt word_le_nat_alt)
  then have "?j \<in> set ?is" using fin u by (auto simp: word_less_nat_alt)
  with least i have "event_seq i \<le> k + 1" by (auto simp: less_eq_event_id_def)
  then have "unat (event_seq i) = Suc (unat k)" using u k by (simp add: word_le_nat_alt)
  moreover have "own_events m k ! 0 = sealed_event s" using ijs s by (simp add: own_events_def)
  ultimately show ?thesis using history_okD(1) [OF hist s] by simp
qed

lemma outgoing_batch:
  assumes "outgoing (model_ops C) m peer k = Inr (Inr b)"
  shows "\<exists>j. batch_events b = map (\<lambda>e. event_export e peer) (take j (own_events m k))"
    and "successively (\<lambda>x y. \<not> batch_broken x y) (batch_events b)"
  using assms offer_all_prefix [of C peer "own_events m k" outgoing_default]
  by (auto simp: outgoing_def outgoing_into_batch_def batch_new_iff result_simps
      outgoing_default_def split: sum.splits)

lemma outgoing_starts:
  assumes "history_ok m" "outgoing (model_ops C) m peer k = Inr (Inr b)"
  shows "starts_at k (batch_events b)"
proof -
  obtain j where j: "batch_events b = map (\<lambda>e. event_export e peer) (take j (own_events m k))"
    using outgoing_batch [OF assms(2)] by blast
  have "unat (event_seq (ev_id (batch_events b ! 0))) = Suc (unat k)" if "batch_events b \<noteq> []"
    using that own_events_first [OF assms(1), of k] unfolding j
    by (cases "own_events m k"; cases j) auto
  with outgoing_batch(2) [OF assms(2)] show ?thesis by (simp add: starts_at_def)
qed

lemma outgoing_model:
  assumes "outgoing (model_ops C) m peer k = Inr (Inr b)" "e \<in> set (batch_events b)"
  shows "\<exists>i t. m_events m i = Some t \<and> e = event_export (sealed_event t) peer \<and>
    event_origin i = m_origin m \<and> k < event_seq i"
proof -
  obtain j where "batch_events b = map (\<lambda>e. event_export e peer) (take j (own_events m k))"
    using outgoing_batch [OF assms(1)] by blast
  with assms(2) obtain d where "d \<in> set (own_events m k)" "e = event_export d peer"
    by (auto dest: in_set_takeD)
  then show ?thesis using own_events_set by fastforce
qed

lemma respond_model:
  assumes "respond C (model_ops C) m off = (m', Inr r)"
  shows "m' = m \<and> (\<exists>rej. r = Inl rej) \<or>
    off_to off = m_origin m \<and> off_from off \<noteq> m_origin m \<and>
    off_seen off \<le> cur_seen (model_cursor m (m_origin m)) \<and>
    (\<exists>m1 rc. receive C (model_ops C) m (off_from off) (batch_events (off_batch off)) = (m1, Inr rc) \<and>
       m' = model_record_ack m1 (off_from off) (off_seen off) \<and>
       (\<forall>ans. r = Inr ans \<longrightarrow> ans_from ans = m_origin m \<and>
          ans_seen ans = cur_seen (model_cursor m' (off_from off)) \<and> ans_rejected ans = rcv_rejected rc \<and>
          outgoing (model_ops C) m' (off_from off) (off_seen off) = Inr (Inr (ans_batch ans))))"
proof -
  consider (no) "m' = m" "\<exists>rej. r = Inl rej" |
    (yes) m1 rc where "off_to off = m_origin m" "off_from off \<noteq> m_origin m"
      "off_seen off \<le> cur_seen (model_cursor m (m_origin m))"
      "receive C (model_ops C) m (off_from off) (batch_events (off_batch off)) = (m1, Inr rc)"
      "m' = model_record_ack m1 (off_from off) (off_seen off)"
      "and_then (outgoing (model_ops C) m' (off_from off) (off_seen off)) (\<lambda>batch.
          Inr (map_ok (\<lambda>batch. \<lparr>ans_from = m_origin m', ans_seen = rcv_seen rc, ans_batch = batch,
             ans_rejected = rcv_rejected rc\<rparr>) batch)) = Inr r"
    using assms by (auto simp: respond_def not_less split: if_splits prod.splits sum.splits)
  then show ?thesis
  proof cases
    case no
    then show ?thesis by blast
  next
    case yes
    have "m_origin m' = m_origin m"
      using model_steps_origin [OF receive_steps [OF yes(4)]] yes(5) by simp
    moreover have "rcv_seen rc = cur_seen (model_cursor m' (off_from off))"
      using receive_seen [OF yes(4)] yes(5) by simp
    moreover have "\<forall>ans. r = Inr ans \<longrightarrow> (\<exists>b. outgoing (model_ops C) m' (off_from off) (off_seen off) =
        Inr (Inr b) \<and> ans = \<lparr>ans_from = m_origin m', ans_seen = rcv_seen rc, ans_batch = b,
          ans_rejected = rcv_rejected rc\<rparr>)"
      using yes(6) by (auto simp: result_simps split: sum.splits)
    ultimately show ?thesis using yes(1-5) by fastforce
  qed
qed

lemma accept_model:
  assumes "accept C (model_ops C) m off ans = (m', Inr r)"
  shows "m' = m \<or>
    ans_from ans = off_to off \<and> ans_seen ans \<le> cur_seen (model_cursor m (m_origin m)) \<and>
    (\<exists>m1 rc. receive C (model_ops C) m (ans_from ans) (batch_events (ans_batch ans)) = (m1, Inr rc) \<and>
       m' = model_record_ack m1 (ans_from ans) (ans_seen ans))"
  using assms by (auto simp: accept_def not_less Let_def split: if_splits prod.splits sum.splits)

lemma offer_model:
  assumes "offer (model_ops C) m q = Inr (Inr off)"
  shows "off_from off = m_origin m \<and> off_to off = q \<and> off_after off = model_ack m q \<and>
    off_seen off = cur_seen (model_cursor m q) \<and>
    outgoing (model_ops C) m q (off_after off) = Inr (Inr (off_batch off))"
  using assms by (auto simp: offer_def result_simps split: sum.splits)

lemma write_model:
  assumes "model_write C m b = (m', r)" "m_events m' i = Some s"
  shows "m_events m i = Some s \<or>
    event_origin i = m_origin m \<and> wf_event (sealed_event s) \<and> sealed_new C (sealed_event s) = Inr s"
proof -
  have "m_events m' = m_events m \<or> (\<exists>j c e t. next_local (model_ops C) m = Inr (j, c) \<and>
      event_new j c b = Inr e \<and> sealed_new C e = Inr t \<and> m_events m' = (m_events m)(ev_id e \<mapsto> t))"
    using assms(1)
    by (auto simp: model_write_def append_event_def commit_def sealed_new_event result_simps
        split: sum.splits prod.splits bool.splits decision.splits)
  then show ?thesis
    using assms(2)
    by (auto simp: next_local_Inr sealed_new_event dest: event_new_fields event_new_wf
        split: if_splits)
qed

lemma write_acks: "model_write C m b = (m', r) \<Longrightarrow> m_acks m' = m_acks m"
  by (auto simp: model_write_def append_event_def commit_def
        split: sum.splits prod.splits bool.splits decision.splits)

section \<open>The invariant of the network\<close>

definition genuine :: "net \<Rightarrow> origin \<Rightarrow> origin \<Rightarrow> event \<Rightarrow> bool" where
  "genuine N p q e \<longleftrightarrow> ev_origin e = p \<and>
     (\<exists>t. m_events (nodes N p) (ev_id e) = Some t \<and> e = event_export (sealed_event t) q)"

definition offer_ok :: "net \<Rightarrow> offer \<Rightarrow> bool" where
  "offer_ok N off \<longleftrightarrow>
     (\<forall>e \<in> set (batch_events (off_batch off)). genuine N (off_from off) (off_to off) e) \<and>
     off_seen off \<le> cur_seen (model_cursor (nodes N (off_from off)) (off_to off)) \<and>
     off_after off \<le> cur_seen (model_cursor (nodes N (off_to off)) (off_from off)) \<and>
     starts_at (off_after off) (batch_events (off_batch off))"

definition answer_ok :: "net \<Rightarrow> offer \<Rightarrow> answer \<Rightarrow> bool" where
  "answer_ok N off ans \<longleftrightarrow> ans_from ans = off_to off \<and>
     (\<forall>e \<in> set (batch_events (ans_batch ans)). genuine N (off_to off) (off_from off) e) \<and>
     ans_seen ans \<le> cur_seen (model_cursor (nodes N (off_to off)) (off_from off)) \<and>
     off_seen off \<le> cur_seen (model_cursor (nodes N (off_from off)) (off_to off)) \<and>
     starts_at (off_seen off) (batch_events (ans_batch ans))"

definition nodes_ok :: "codec \<Rightarrow> net \<Rightarrow> bool" where
  "nodes_ok C N \<longleftrightarrow>
     (\<forall>p. m_origin (nodes N p) = p \<and> history_ok (nodes N p) \<and> views_ok (nodes N p)) \<and>
     (\<forall>q i s. m_events (nodes N q) i = Some s \<longrightarrow>
        wf_event (sealed_event s) \<and> sealed_new C (sealed_event s) = Inr s \<and>
        (event_origin i \<noteq> q \<longrightarrow> genuine N (event_origin i) q (sealed_event s))) \<and>
     (\<forall>p q. model_ack (nodes N p) q \<le> cur_seen (model_cursor (nodes N q) p))"

definition net_ok :: "codec \<Rightarrow> net \<Rightarrow> bool" where
  "net_ok C N \<longleftrightarrow> nodes_ok C N \<and>
     (\<forall>off. POffer off \<in> wire N \<longrightarrow> offer_ok N off) \<and>
     (\<forall>off ans. PAnswer off ans \<in> wire N \<longrightarrow> answer_ok N off ans)"

definition grows :: "net \<Rightarrow> net \<Rightarrow> bool" where
  "grows N N' \<longleftrightarrow> (\<forall>p. m_events (nodes N p) \<subseteq>\<^sub>m m_events (nodes N' p) \<and>
     (\<forall>q. cur_seen (model_cursor (nodes N p) q) \<le> cur_seen (model_cursor (nodes N' p) q)))"

lemma nodes_okD:
  assumes "nodes_ok C N"
  shows "m_origin (nodes N p) = p" "history_ok (nodes N p)" "views_ok (nodes N p)"
    and "m_events (nodes N q) i = Some s \<Longrightarrow> wf_event (sealed_event s)"
    and "m_events (nodes N q) i = Some s \<Longrightarrow> sealed_new C (sealed_event s) = Inr s"
    and "m_events (nodes N q) i = Some s \<Longrightarrow> event_origin i \<noteq> q \<Longrightarrow>
      genuine N (event_origin i) q (sealed_event s)"
    and "model_ack (nodes N p) q \<le> cur_seen (model_cursor (nodes N q) p)"
  using assms unfolding nodes_ok_def by blast+

lemma genuine_grows: "grows N N' \<Longrightarrow> genuine N p q e \<Longrightarrow> genuine N' p q e"
  by (fastforce simp: grows_def genuine_def map_le_def dom_def)

lemma growsD:
  "grows N N' \<Longrightarrow> cur_seen (model_cursor (nodes N p) q) \<le> cur_seen (model_cursor (nodes N' p) q)"
  by (simp add: grows_def)

lemma offer_grows: "grows N N' \<Longrightarrow> offer_ok N off \<Longrightarrow> offer_ok N' off"
  by (auto simp: offer_ok_def intro: genuine_grows order_trans [OF _ growsD])

lemma answer_grows: "grows N N' \<Longrightarrow> answer_ok N off ans \<Longrightarrow> answer_ok N' off ans"
  by (auto simp: answer_ok_def intro: genuine_grows order_trans [OF _ growsD])

lemma genuine_wf: "nodes_ok C N \<Longrightarrow> genuine N p q e \<Longrightarrow> wf_event e"
  by (auto simp: genuine_def intro!: wf_event_export dest: nodes_okD(4))

lemma grows_update:
  assumes "nodes_ok C N" "model_steps C (nodes N p) m'"
  shows "grows N (N\<lparr>nodes := (nodes N)(p := m')\<rparr>)"
  using model_steps_mono [OF assms(2) nodes_okD(2) [OF assms(1)]] by (auto simp: grows_def)

lemma nodes_update:
  assumes ok: "nodes_ok C N" and steps: "model_steps C (nodes N p) m'"
    and new: "\<And>i s. m_events m' i = Some s \<Longrightarrow> m_events (nodes N p) i = Some s \<or>
      sealed_new C (sealed_event s) = Inr s \<and>
      (event_origin i = p \<and> wf_event (sealed_event s) \<or>
       event_origin i \<noteq> p \<and> genuine N (event_origin i) p (sealed_event s))"
    and ack: "\<And>q. model_ack m' q \<le> cur_seen (model_cursor (nodes N q) p)"
  shows "nodes_ok C (N\<lparr>nodes := (nodes N)(p := m')\<rparr>)" (is "nodes_ok C ?N")
proof -
  note grow = grows_update [OF ok steps]
  have m': "m_origin m' = p" "history_ok m'" "views_ok m'"
    using model_steps_origin [OF steps] history_steps [OF steps] views_steps [OF steps]
      nodes_okD(1-3) [OF ok] by auto
  have ev: "wf_event (sealed_event s) \<and> sealed_new C (sealed_event s) = Inr s \<and>
      (event_origin i \<noteq> q \<longrightarrow> genuine ?N (event_origin i) q (sealed_event s))"
    if s: "m_events (nodes ?N q) i = Some s" for q i s
  proof (cases "m_events (nodes N q) i = Some s")
    case True
    then show ?thesis using nodes_okD(4-6) [OF ok True] genuine_grows [OF grow] by blast
  next
    case False
    with s have "q = p" "m_events m' i = Some s" by (auto split: if_splits)
    with new [of i s] False show ?thesis
      using genuine_grows [OF grow] genuine_wf [OF ok] by blast
  qed
  have "model_ack (nodes ?N r) q \<le> cur_seen (model_cursor (nodes ?N q) r)" for r q
  proof -
    have "model_ack (nodes ?N r) q \<le> cur_seen (model_cursor (nodes N q) r)"
      using ack nodes_okD(7) [OF ok] by simp
    also have "\<dots> \<le> cur_seen (model_cursor (nodes ?N q) r)" using grow by (simp add: grows_def)
    finally show ?thesis .
  qed
  with ev show ?thesis using m' nodes_okD(1-3) [OF ok] unfolding nodes_ok_def by simp
qed

lemma receive_new:
  assumes "nodes_ok C N" "\<forall>e \<in> set es. genuine N p q e"
    and "receive C (model_ops C) (nodes N q) p es = (m', r)" "m_events m' i = Some s"
  shows "m_events (nodes N q) i = Some s \<or>
    sealed_new C (sealed_event s) = Inr s \<and> event_origin i \<noteq> q \<and>
    genuine N (event_origin i) q (sealed_event s)"
  using receive_events [OF assms(3,4)] assms(2) nodes_okD(1) [OF assms(1)]
  by (auto simp: sealed_new_event ev_origin_def)

lemma receive_update:
  assumes ok: "nodes_ok C N" and es: "\<forall>e \<in> set es. genuine N p q e"
    and rcv: "receive C (model_ops C) (nodes N q) p es = (m1, r)"
    and k: "k \<le> cur_seen (model_cursor (nodes N p) q)"
  defines "m' \<equiv> model_record_ack m1 p k"
  shows "nodes_ok C (N\<lparr>nodes := (nodes N)(q := m')\<rparr>)" and "grows N (N\<lparr>nodes := (nodes N)(q := m')\<rparr>)"
proof -
  have steps: "model_steps C (nodes N q) m'"
    unfolding m'_def using receive_steps [OF rcv] ack_step by (rule rtranclp.rtrancl_into_rtrancl)
  have new: "m_events (nodes N q) i = Some s \<or> sealed_new C (sealed_event s) = Inr s \<and>
      (event_origin i = q \<and> wf_event (sealed_event s) \<or>
       event_origin i \<noteq> q \<and> genuine N (event_origin i) q (sealed_event s))"
    if "m_events m' i = Some s" for i s
    using receive_new [OF ok es rcv] that by (auto simp: m'_def)
  have old: "model_ack m1 r = model_ack (nodes N q) r" for r
    using receive_acks [OF rcv] by (simp add: model_ack_def)
  have "model_ack m' r \<le> cur_seen (model_cursor (nodes N r) q)" for r
    using nodes_okD(7) [OF ok, of q r] k by (auto simp: m'_def old intro: order_trans [OF min.cobounded1])
  with ok steps new show "nodes_ok C (N\<lparr>nodes := (nodes N)(q := m')\<rparr>)" by (rule nodes_update)
  show "grows N (N\<lparr>nodes := (nodes N)(q := m')\<rparr>)" by (rule grows_update [OF ok steps])
qed

lemma outgoing_genuine:
  assumes "nodes_ok C N" "outgoing (model_ops C) (nodes N p) q k = Inr (Inr b)" "e \<in> set (batch_events b)"
  shows "genuine N p q e"
  using outgoing_model [OF assms(2,3)] nodes_okD(1) [OF assms(1)]
    history_okD(1) [OF nodes_okD(2) [OF assms(1)]]
  by (fastforce simp: genuine_def ev_origin_def)

lemma net_ok_grow:
  assumes "net_ok C N" "nodes_ok C N'" "grows N N'" "wire N' = wire N"
  shows "net_ok C N'"
  using assms offer_grows answer_grows unfolding net_ok_def by metis

lemma net_ok_send:
  assumes "net_ok C N"
  shows "offer_ok N off \<Longrightarrow> net_ok C (N\<lparr>wire := insert (POffer off) (wire N)\<rparr>)"
    and "answer_ok N off ans \<Longrightarrow> net_ok C (N\<lparr>wire := insert (PAnswer off ans) (wire N)\<rparr>)"
proof -
  have same: "nodes_ok C (N\<lparr>wire := W\<rparr>) = nodes_ok C N" "offer_ok (N\<lparr>wire := W\<rparr>) = offer_ok N"
    "answer_ok (N\<lparr>wire := W\<rparr>) = answer_ok N" for W
    by (auto simp: nodes_ok_def offer_ok_def answer_ok_def genuine_def fun_eq_iff)
  show "offer_ok N off \<Longrightarrow> net_ok C (N\<lparr>wire := insert (POffer off) (wire N)\<rparr>)"
    and "answer_ok N off ans \<Longrightarrow> net_ok C (N\<lparr>wire := insert (PAnswer off ans) (wire N)\<rparr>)"
    using assms by (auto simp: net_ok_def same)
qed

lemma net_respond:
  assumes ok: "net_ok C N" and off: "POffer off \<in> wire N"
    and rsp: "respond C (model_ops C) (nodes N (off_to off)) off = (m', Inr r)"
  defines "N' \<equiv> N\<lparr>nodes := (nodes N)(off_to off := m')\<rparr>"
  shows "net_ok C N'" and "r = Inr ans \<Longrightarrow> answer_ok N' off ans"
proof -
  let ?q = "off_to off" and ?p = "off_from off"
  have nok: "nodes_ok C N" and o: "offer_ok N off" using ok off by (auto simp: net_ok_def)
  have "net_ok C N' \<and> (\<forall>ans. r = Inr ans \<longrightarrow> answer_ok N' off ans)"
    using respond_model [OF rsp]
  proof
    assume "m' = nodes N ?q \<and> (\<exists>rej. r = Inl rej)"
    then show ?thesis using ok by (auto simp: N'_def)
  next
    assume "?q = m_origin (nodes N ?q) \<and> ?p \<noteq> m_origin (nodes N ?q) \<and>
      off_seen off \<le> cur_seen (model_cursor (nodes N ?q) (m_origin (nodes N ?q))) \<and>
      (\<exists>m1 rc. receive C (model_ops C) (nodes N ?q) ?p (batch_events (off_batch off)) = (m1, Inr rc) \<and>
       m' = model_record_ack m1 ?p (off_seen off) \<and>
       (\<forall>ans. r = Inr ans \<longrightarrow> ans_from ans = m_origin (nodes N ?q) \<and>
          ans_seen ans = cur_seen (model_cursor m' ?p) \<and> ans_rejected ans = rcv_rejected rc \<and>
          outgoing (model_ops C) m' ?p (off_seen off) = Inr (Inr (ans_batch ans))))"
    then obtain m1 rc where
      rcv: "receive C (model_ops C) (nodes N ?q) ?p (batch_events (off_batch off)) = (m1, Inr rc)" and
      m': "m' = model_record_ack m1 ?p (off_seen off)" and
      ans: "\<forall>ans. r = Inr ans \<longrightarrow> ans_from ans = ?q \<and>
          ans_seen ans = cur_seen (model_cursor m' ?p) \<and>
          outgoing (model_ops C) m' ?p (off_seen off) = Inr (Inr (ans_batch ans))"
      by auto
    have upd: "nodes_ok C N'" "grows N N'"
      unfolding N'_def m' using receive_update [OF nok _ rcv] o by (auto simp: offer_ok_def)
    then have "net_ok C N'" by (intro net_ok_grow [OF ok]) (auto simp: N'_def)
    moreover have "answer_ok N' off ans" if "r = Inr ans" for ans
      using ans that outgoing_genuine [OF upd(1), of ?q ?p "off_seen off" "ans_batch ans"]
        outgoing_starts [OF nodes_okD(2) [OF upd(1), of ?q], of C ?p "off_seen off" "ans_batch ans"]
        o growsD [OF upd(2), of ?p ?q]
      by (auto simp: answer_ok_def N'_def offer_ok_def)
    ultimately show ?thesis by blast
  qed
  then show "net_ok C N'" "r = Inr ans \<Longrightarrow> answer_ok N' off ans" by blast+
qed

lemma offer_sent_ok:
  assumes nok: "nodes_ok C N" and off: "offer (model_ops C) (nodes N p) q = Inr (Inr off)"
  shows "offer_ok N off"
  using offer_model [OF off] nodes_okD(1) [OF nok] nodes_okD(7) [OF nok, of p q]
    outgoing_genuine [OF nok, of p q "off_after off" "off_batch off"]
    outgoing_starts [OF nodes_okD(2) [OF nok, of p], of C q "off_after off" "off_batch off"]
  by (auto simp: offer_ok_def)

lemma net_ok_step: "net_step C N N' \<Longrightarrow> net_ok C N \<Longrightarrow> net_ok C N'"
proof (induction rule: net_step.induct)
  case (write_step N p b m' r)
  then have nok: "nodes_ok C N" by (simp add: net_ok_def)
  have steps: "model_steps C (nodes N p) m'"
    using write_step(1) append_steps by (simp add: model_write_def)
  have "nodes_ok C (N\<lparr>nodes := (nodes N)(p := m')\<rparr>)"
  proof (rule nodes_update [OF nok steps])
    show "model_ack m' q \<le> cur_seen (model_cursor (nodes N q) p)" for q
      using write_acks [OF write_step(1)] nodes_okD(7) [OF nok, of p q] by (simp add: model_ack_def)
  qed (use write_model [OF write_step(1)] nodes_okD(1) [OF nok] in auto)
  then show ?case
    by (rule net_ok_grow [OF write_step(2) _ grows_update [OF nok steps]]) simp
next
  case (offer_step N p q off)
  then have "offer_ok N off" by (auto simp: net_ok_def intro: offer_sent_ok)
  then show ?case by (rule net_ok_send [OF offer_step(2)])
next
  case (respond_step off N m' ans)
  from net_respond [OF respond_step(3,1,2)] show ?case
    using net_ok_send(2) by fastforce
next
  case (respond_refused_step off N m' rej)
  from net_respond(1) [OF respond_refused_step(3,1,2)] show ?case .
next
  case (accept_step off ans N m' r)
  then have nok: "nodes_ok C N" and a: "answer_ok N off ans" by (auto simp: net_ok_def)
  from accept_model [OF accept_step(2)] show ?case
  proof
    assume "m' = nodes N (off_from off)"
    then show ?thesis using accept_step(3) by simp
  next
    assume "ans_from ans = off_to off \<and>
      ans_seen ans \<le> cur_seen (model_cursor (nodes N (off_from off)) (m_origin (nodes N (off_from off)))) \<and>
      (\<exists>m1 rc. receive C (model_ops C) (nodes N (off_from off)) (ans_from ans) (batch_events (ans_batch ans)) =
          (m1, Inr rc) \<and> m' = model_record_ack m1 (ans_from ans) (ans_seen ans))"
    then obtain m1 rc where
      rcv: "receive C (model_ops C) (nodes N (off_from off)) (off_to off) (batch_events (ans_batch ans)) =
        (m1, Inr rc)" and m': "m' = model_record_ack m1 (off_to off) (ans_seen ans)" by auto
    have "nodes_ok C (N\<lparr>nodes := (nodes N)(off_from off := m')\<rparr>)"
      "grows N (N\<lparr>nodes := (nodes N)(off_from off := m')\<rparr>)"
      unfolding m' using receive_update [OF nok _ rcv] a by (auto simp: answer_ok_def)
    then show ?thesis by (rule net_ok_grow [OF accept_step(3)]) simp
  qed
qed

lemma net_ok_new: "net_ok C net_new"
  by (simp add: net_ok_def nodes_ok_def net_new_def history_new views_new)
    (simp add: model_new_def model_ack_def)

lemma net_ok_reachable: "net_reachable C N \<Longrightarrow> net_ok C N"
  unfolding net_reachable_def
  by (induction rule: rtranclp_induct) (auto intro: net_ok_new net_ok_step)

end
