(* ===== verification/Chat_Delivery.thy ===== *)
theory Chat_Delivery
  imports Chat_Network
begin

text \<open>
  What an exchange between machines of the network achieves. Between honest machines a batch is never
  refused for its position, its clock or its content's digest: the only refusals left are those of
  \<open>change\<close>. A batch without refusal brings the receiver up to the last event of the batch.
\<close>

section \<open>Refusals\<close>

lemma handoff_read_refusal:
  assumes "log_keys (m_events m)" "handoff_read (model_ops C) m e obs a = Inl f"
  shows "(\<exists>r. f = Rejected (MissingDependency (ev_id e) r)) \<or> f = Rejected (Mismatch (ev_id e))"
proof (cases "model_parent m (obs_handoff obs)")
  case (Present p)
  then show ?thesis
    using assms by (cases "ev_body p")
      (auto simp: handoff_read_def checked_parent_model Let_def result_simps)
qed (use assms in \<open>auto simp: handoff_read_def checked_parent_model Let_def result_simps\<close>)

lemma change_refusal:
  assumes "log_keys (m_events m)" "change (model_ops C) m e = Inl f"
  shows "(\<exists>r. f = Rejected (MissingDependency (ev_id e) r)) \<or> f = Rejected (Mismatch (ev_id e))"
proof -
  note defs = change_def resolve_def started_def receipt_def thread_parent_def
    checked_parent_model [OF assms(1)] resolve_candidate_def plain_reply_def receipt_change_def Let_def
  show ?thesis
    using assms(2)
    by (cases "ev_body e")
      (auto simp: defs result_simps dest: handoff_read_refusal [OF assms(1)]
        split: option.splits parent.splits if_splits intent.splits ending.splits)
qed

section \<open>Receiving from an honest author\<close>

text \<open>The author's log is \<open>A\<close>; a machine \<open>q\<close> holds of it only what was exported for \<open>q\<close>.\<close>

definition copies :: "codec \<Rightarrow> log \<Rightarrow> origin \<Rightarrow> origin \<Rightarrow> model \<Rightarrow> bool" where
  "copies C A p q m \<longleftrightarrow>
     (\<forall>i s. m_events m i = Some s \<longrightarrow> event_origin i = p \<longrightarrow>
        (\<exists>t. A i = Some t \<and> sealed_new C (event_export (sealed_event t) q) = Inr s))"

definition author_log :: "log \<Rightarrow> origin \<Rightarrow> bool" where
  "author_log A p \<longleftrightarrow> log_keys A \<and>
     (\<forall>i t. A i = Some t \<longrightarrow> event_origin i = p \<longrightarrow> 0 < event_seq i \<and> 0 < ev_clock (sealed_event t)) \<and>
     (\<forall>i j s t. A i = Some s \<longrightarrow> A j = Some t \<longrightarrow> event_origin i = p \<longrightarrow> event_origin j = p \<longrightarrow>
        event_seq i < event_seq j \<longrightarrow> ev_clock (sealed_event s) < ev_clock (sealed_event t))"

definition exported :: "log \<Rightarrow> origin \<Rightarrow> origin \<Rightarrow> event \<Rightarrow> bool" where
  "exported A p q e \<longleftrightarrow> ev_origin e = p \<and> (\<exists>t. A (ev_id e) = Some t \<and> e = event_export (sealed_event t) q)"

definition fair :: "rejection option \<Rightarrow> bool" where
  "fair r \<longleftrightarrow>
     (case r of None \<Rightarrow> True | Some (MissingDependency _ _) \<Rightarrow> True | Some (Mismatch _) \<Rightarrow> True
      | Some _ \<Rightarrow> False)"

lemma honest_clock:
  assumes hist: "history_ok m" and cop: "copies C A p q m" and A: "author_log A p"
    and t: "A i = Some t" "event_origin i = p" and pos: "cur_seen (model_cursor m p) < event_seq i"
  shows "cur_clock (model_cursor m p) < ev_clock (sealed_event t)"
proof (cases "cur_seen (model_cursor m p) = 0")
  case True
  then have "cur_clock (model_cursor m p) = 0"
    using history_okD(7) [OF hist, of p] by (simp add: cursor_default_def)
  then show ?thesis using A t by (simp add: author_log_def)
next
  case False
  let ?i = "EventId p (cur_seen (model_cursor m p))"
  obtain s0 where s0: "m_events m ?i = Some s0"
    using history_okD(2) [OF hist, of ?i] False by (auto simp: word_neq_0_conv)
  obtain t0 where t0: "A ?i = Some t0" "sealed_new C (event_export (sealed_event t0) q) = Inr s0"
    using cop s0 by (fastforce simp: copies_def)
  have "ev_clock (sealed_event t0) < ev_clock (sealed_event t)"
    using A t0(1) t pos by (auto simp: author_log_def)
  moreover have "cur_clock (model_cursor m p) = ev_clock (sealed_event t0)"
    using history_okD(4) [OF hist s0] sealed_new_event [OF t0(2)] by simp
  ultimately show ?thesis by simp
qed

lemma admit_honest:
  assumes hist: "history_ok m" and cop: "copies C A p q m" and A: "author_log A p"
    and e: "exported A p q e" and s: "sealed_new C e = Inr s"
    and pos: "unat (event_seq (ev_id e)) \<le> Suc (unat (cur_seen (model_cursor m p)))"
  shows "admit (model_ops C) m s = Inr Duplicate \<and> event_seq (ev_id e) \<le> cur_seen (model_cursor m p) \<or>
    (\<exists>a. admit (model_ops C) m s = Inr (Append a)) \<or>
    (\<exists>r. admit (model_ops C) m s = Inl (Rejected (MissingDependency (ev_id e) r))) \<or>
    admit (model_ops C) m s = Inl (Rejected (Mismatch (ev_id e)))"
proof -
  let ?c = "model_cursor m p"
  obtain t where t: "A (ev_id e) = Some t" "e = event_export (sealed_event t) q"
    and o: "ev_origin e = p" "event_origin (ev_id e) = p"
    using e by (auto simp: exported_def ev_origin_def)
  have se: "sealed_event s = e" by (rule sealed_new_event [OF s])
  have seq: "0 < event_seq (ev_id e)" "0 < ev_clock (sealed_event t)"
    using A t(1) o by (auto simp: author_log_def)
  show ?thesis
  proof (cases "event_seq (ev_id e) \<le> cur_seen ?c")
    case True
    then obtain s' where s': "m_events m (ev_id e) = Some s'"
      using history_okD(2) [OF hist, of "ev_id e"] seq o by auto
    then have "s' = s" using cop o t s by (fastforce simp: copies_def)
    then show ?thesis
      using True s' o se by (simp add: admit_Duplicate model_digest_def)
  next
    case False
    then have u: "unat (event_seq (ev_id e)) = Suc (unat (cur_seen ?c))"
      using pos by (simp add: word_le_nat_alt)
    then have ne: "cur_seen ?c \<noteq> - 1"
      using unsigned_less [of "event_seq (ev_id e)", where ?'a = nat] by (auto simp: unat_max_word)
    then have sq: "event_seq (ev_id e) = cur_seen ?c + 1"
      using u by (simp add: word_unat_eq_iff unat_succ)
    have clk: "cur_clock ?c < ev_clock e"
      using honest_clock [OF hist cop A] t o u by (simp add: word_less_nat_alt)
    have fresh: "\<not> event_seq (ev_id e) \<le> cur_seen ?c" by (rule False)
    show ?thesis
    proof (cases "change (model_ops C) m e")
      case (Inl f)
      with change_refusal [OF history_log_keys [OF hist] Inl] sq ne clk fresh o se show ?thesis
        by (auto simp: admit_def Let_def checked_succ not_le)
    next
      case (Inr ch)
      then show ?thesis using sq ne clk o se by (auto simp: admit_Append)
    qed
  qed
qed

lemma copies_commit:
  assumes "copies C A p q m" "exported A p q e" "sealed_new C e = Inr s"
  shows "copies C A p q (model_commit m s a)"
  using assms sealed_new_event [OF assms(3)] by (auto simp: copies_def exported_def)

lemma receive_one_honest:
  assumes hist: "history_ok m" and cop: "copies C A p q m" and A: "author_log A p"
    and q: "m_origin m = q" "p \<noteq> q" and e: "exported A p q e"
    and pos: "unat (event_seq (ev_id e)) \<le> Suc (unat (cur_seen (model_cursor m p)))"
    and one: "receive_one C (model_ops C) m p e = (m', r)"
  shows "(\<exists>b. r = Inr b \<and> history_ok m' \<and> copies C A p q m' \<and> m_origin m' = q \<and>
      event_seq (ev_id e) \<le> cur_seen (model_cursor m' p)) \<or>
    (\<exists>x. r = Inl (Rejected x) \<and> fair (Some x)) \<or> (\<exists>x. r = Inl (FInvalid x))"
proof (cases "sealed_new C e")
  case (Inl x)
  then show ?thesis using one q e by (auto simp: receive_one_def exported_def)
next
  case (Inr s)
  have o: "ev_origin e = p" using e by (simp add: exported_def)
  have se: "sealed_event s = e" by (rule sealed_new_event [OF Inr])
  from admit_honest [OF hist cop A e Inr pos] show ?thesis
  proof (elim disjE exE conjE)
    assume "admit (model_ops C) m s = Inr Duplicate" "event_seq (ev_id e) \<le> cur_seen (model_cursor m p)"
    then show ?thesis using one q o Inr hist cop by (auto simp: receive_one_def)
  next
    fix a assume adm: "admit (model_ops C) m s = Inr (Append a)"
    then have r: "m' = model_commit m s a" "r = Inr True" using one q o Inr by (auto simp: receive_one_def)
    have "event_seq (ev_id e) \<le> cur_seen (model_cursor m' p)"
      using r admit_model(5) [OF adm] o se by (simp add: model_cursor_commit)
    then show ?thesis
      using r history_commit [OF hist adm] copies_commit [OF cop e Inr] q by auto
  qed (use one q o Inr in \<open>auto simp: receive_one_def fair_def\<close>)
qed

lemma receive_loop_honest:
  assumes "history_ok m" "copies C A p q m" "author_log A p" "m_origin m = q" "p \<noteq> q"
    and "\<forall>e \<in> set es. exported A p q e" "successively (\<lambda>x y. \<not> batch_broken x y) es"
    and "es \<noteq> [] \<longrightarrow> unat (event_seq (ev_id (es ! 0))) \<le> Suc (unat (cur_seen (model_cursor m p)))"
    and "receive_loop C (model_ops C) m p es n = (m', r)"
  shows "\<exists>n' rej. r = Inr (n', rej) \<and> fair rej \<and>
    (rej = None \<longrightarrow> es \<noteq> [] \<longrightarrow> event_seq (ev_id (last es)) \<le> cur_seen (model_cursor m' p))"
  using assms
proof (induction es arbitrary: m n)
  case Nil
  then show ?case by (auto simp: fair_def)
next
  case (Cons e es)
  obtain k o1 where one: "receive_one C (model_ops C) m p e = (k, o1)" by fastforce
  note st = receive_one_honest [OF Cons.prems(1-5), of e k o1]
  have e: "exported A p q e" and
    pos: "unat (event_seq (ev_id e)) \<le> Suc (unat (cur_seen (model_cursor m p)))"
    using Cons.prems(6,8) by auto
  from st [OF e pos one] show ?case
  proof (elim disjE exE conjE)
    fix b assume b: "o1 = Inr b" "history_ok k" "copies C A p q k" "m_origin k = q"
      "event_seq (ev_id e) \<le> cur_seen (model_cursor k p)"
    then obtain j where rest: "receive_loop C (model_ops C) k p es j = (m', r)"
      using Cons.prems(9) one by (cases b) auto
    have pos': "es \<noteq> [] \<longrightarrow> unat (event_seq (ev_id (es ! 0))) \<le> Suc (unat (cur_seen (model_cursor k p)))"
      using Cons.prems(7) b(5) batch_step [of e "es ! 0"]
      by (cases es) (auto simp: word_le_nat_alt)
    have suc: "successively (\<lambda>x y. \<not> batch_broken x y) es"
      using Cons.prems(7) by (cases es) auto
    from Cons.IH [OF b(2,3) Cons.prems(3) b(4) Cons.prems(5) _ suc pos' rest] Cons.prems(6)
    obtain n' rej where ih: "r = Inr (n', rej)" "fair rej"
      "rej = None \<longrightarrow> es \<noteq> [] \<longrightarrow> event_seq (ev_id (last es)) \<le> cur_seen (model_cursor m' p)" by auto
    have "cur_seen (model_cursor k p) \<le> cur_seen (model_cursor m' p)"
      by (rule model_steps_mono(3) [OF receive_loop_steps [OF rest] b(2)])
    with ih b(5) show ?thesis by auto
  next
    fix x assume "o1 = Inl (Rejected x)" "fair (Some x)"
    then show ?thesis using Cons.prems(9) one by auto
  next
    fix x assume "o1 = Inl (FInvalid x)"
    then show ?thesis using Cons.prems(9) one by (auto simp: fair_def)
  qed
qed

section \<open>Batches of own events\<close>

lemma sorted_no_gap:
  fixes xs :: "'a::linorder list"
  assumes "sorted_wrt (<) xs" "Suc n < length xs" "l \<in> set xs"
  shows "\<not> (xs ! n < l \<and> l < xs ! Suc n)"
proof -
  obtain j where j: "j < length xs" "l = xs ! j" using assms(3) by (auto simp: in_set_conv_nth)
  then show ?thesis
    using sorted_wrt_nth_less [OF assms(1), of j n] sorted_wrt_nth_less [OF assms(1), of "Suc n" j] assms(2)
    by (cases "j = n"; cases "j = Suc n"; cases "j < n") auto
qed

text \<open>In a log, the next event of an origin is the one with the next sequence number.\<close>

lemma history_next:
  assumes hist: "history_ok m" and st: "m_events m i = Some s" "m_events m j = Some t"
    and o: "event_origin i = event_origin j" and lt: "event_seq i < event_seq j"
    and gap: "m_events m (EventId (event_origin i) (event_seq i + 1)) \<noteq> None \<Longrightarrow>
      \<not> EventId (event_origin i) (event_seq i + 1) < j"
  shows "\<not> batch_broken (sealed_event s) (sealed_event t)"
proof -
  let ?l = "EventId (event_origin i) (event_seq i + 1)"
  have ne: "event_seq i \<noteq> - 1" using lt by auto
  then have u: "unat (event_seq i + 1) = Suc (unat (event_seq i))" by (simp add: unat_succ)
  have "m_events m ?l \<noteq> None"
    using history_okD(2) [OF hist, of j] history_okD(2) [OF hist, of ?l] st lt o u
    by (auto simp: word_less_nat_alt word_le_nat_alt)
  then have "event_seq j = event_seq i + 1"
    using gap lt o u by (auto simp: less_event_id_def word_less_nat_alt word_unat_eq_iff)
  then show ?thesis
    using ne o history_okD(1) [OF hist st(1)] history_okD(1) [OF hist st(2)]
      history_okD(5) [OF hist st o lt]
    by (auto simp: batch_broken_def checked_succ ev_origin_def not_le)
qed

lemma own_events_consecutive:
  assumes hist: "history_ok m"
  shows "successively (\<lambda>x y. \<not> batch_broken x y) (own_events m k)"
proof (cases "finite (dom (m_events m))")
  case False
  then show ?thesis by (simp add: own_events_def)
next
  case fin: True
  define ids where
    "ids = filter (\<lambda>i. event_origin i = m_origin m \<and> k < event_seq i)
       (sorted_list_of_set (dom (m_events m)))"
  have srt: "sorted_wrt (<) ids"
    unfolding ids_def by (intro sorted_wrt_filter) (simp add: strict_sorted_iff)
  have mem: "i \<in> set ids \<longleftrightarrow> m_events m i \<noteq> None \<and> event_origin i = m_origin m \<and> k < event_seq i" for i
    using fin by (auto simp: ids_def)
  have "\<not> batch_broken (sealed_event (the (m_events m (ids ! n))))
      (sealed_event (the (m_events m (ids ! Suc n))))" if n: "Suc n < length ids" for n
  proof -
    let ?i = "ids ! n" and ?j = "ids ! Suc n"
    have ij: "?i \<in> set ids" "?j \<in> set ids" "?i < ?j"
      using n sorted_wrt_nth_less [OF srt, of n "Suc n"] by auto
    have o: "event_origin ?i = m_origin m" "event_origin ?j = m_origin m" using ij mem by blast+
    have lt: "event_seq ?i < event_seq ?j" using ij(3) o by (auto simp: less_event_id_def)
    then have "event_seq ?i \<noteq> - 1" by auto
    then have u: "unat (event_seq ?i + 1) = Suc (unat (event_seq ?i))" by (simp add: unat_succ)
    let ?l = "EventId (event_origin ?i) (event_seq ?i + 1)"
    have "\<not> ?l < ?j" if "m_events m ?l \<noteq> None"
    proof -
      have "?l \<in> set ids" "?i < ?l"
        using that mem [of ?l] mem [of ?i] ij(1) o u
        by (auto simp: less_event_id_def word_less_nat_alt)
      then show ?thesis using sorted_no_gap [OF srt n] by blast
    qed
    then show ?thesis
      using history_next [OF hist _ _ _ lt] ij mem o by fastforce
  qed
  then show ?thesis by (auto simp: own_events_def ids_def [symmetric] successively_conv_nth)
qed

lemma outgoing_total:
  assumes "history_ok m"
  shows "\<exists>b. outgoing (model_ops C) m peer k = Inr (Inr b)"
proof -
  let ?o = "offer_all C peer (own_events m k) outgoing_default"
  have keep: "outgoing_ok b \<Longrightarrow> outgoing_ok (offer_all C peer es b)" for es b
  proof (induction es arbitrary: b)
    case (Cons e es)
    have "outgoing_ok (fst (offer_event C b e peer))"
    proof (cases "sealed_new C (event_export e peer)")
      case (Inr s)
      then show ?thesis
        using outgoing_offer_ok [OF Cons.prems, of s] by (cases "outgoing_offer b s") (simp add: offer_event_def)
    qed (simp add: offer_event_def Cons.prems)
    then show ?case
    proof (cases "offer_event C b e peer")
      case (Pair b' r)
      then have "outgoing_ok b'" using \<open>outgoing_ok (fst (offer_event C b e peer))\<close> by simp
      then show ?thesis using Pair Cons.IH [of b'] by (auto split: sum.splits bool.splits)
    qed
  qed simp
  then have len: "length (out_events ?o) \<le> MAX_BATCH"
    using outgoing_default_ok by (auto simp: outgoing_ok_def)
  obtain j where j: "out_events ?o = map (\<lambda>e. event_export e peer) (take j (own_events m k))"
    using offer_all_prefix [of C peer "own_events m k" outgoing_default]
    by (auto simp: outgoing_default_def)
  have "successively (\<lambda>x y. \<not> batch_broken x y) (take j (own_events m k))"
    using own_events_consecutive [OF assms, of k]
    by (metis append_take_drop_id successively_append_iff)
  then have "successively (\<lambda>x y. \<not> batch_broken x y) (out_events ?o)"
    unfolding j successively_map by (simp add: batch_broken_def)
  with len show ?thesis
    by (auto simp: outgoing_def outgoing_into_batch_def batch_new_def any_pair_successively)
qed

definition exportable :: "codec \<Rightarrow> bool" where
  "exportable C \<longleftrightarrow>
     (\<forall>e s p. sealed_new C e = Inr s \<longrightarrow> (\<exists>s'. sealed_new C (event_export e p) = Inr s'))"

lemma offer_all_complete:
  assumes "\<forall>e \<in> set es. \<exists>s. sealed_new C (event_export e peer) = Inr s"
    and "\<not> out_more (offer_all C peer es b)"
  shows "out_events (offer_all C peer es b) = out_events b @ map (\<lambda>e. event_export e peer) es"
  using assms
proof (induction es arbitrary: b)
  case (Cons e es)
  obtain s where s: "sealed_new C (event_export e peer) = Inr s" using Cons.prems(1) by auto
  obtain b' taken where b': "outgoing_offer b s = (b', taken)" by fastforce
  show ?case
  proof (cases taken)
    case True
    then show ?thesis
      using Cons s b' outgoing_offer_taken sealed_new_event [OF s] by (simp add: offer_event_def)
  next
    case False
    then have "out_more b'" using b' outgoing_offer_refused [of b s b'] by simp
    then show ?thesis using Cons.prems(2) False s b' by (simp add: offer_event_def)
  qed
qed simp

section \<open>Exchanges of the network\<close>

lemma nodes_copies: "nodes_ok C N \<Longrightarrow> p \<noteq> q \<Longrightarrow> copies C (m_events (nodes N p)) p q (nodes N q)"
  unfolding copies_def
proof (intro allI impI)
  fix i s assume N: "nodes_ok C N" "p \<noteq> q" and s: "m_events (nodes N q) i = Some s" "event_origin i = p"
  have "ev_id (sealed_event s) = i" using history_okD(1) [OF nodes_okD(2) [OF N(1)] s(1)] .
  moreover obtain t where "m_events (nodes N p) (ev_id (sealed_event s)) = Some t"
    "sealed_event s = event_export (sealed_event t) q"
    using nodes_okD(6) [OF N(1) s(1)] N(2) s(2) by (auto simp: genuine_def)
  ultimately show "\<exists>t. m_events (nodes N p) i = Some t \<and> sealed_new C (event_export (sealed_event t) q) = Inr s"
    using nodes_okD(5) [OF N(1) s(1)] by auto
qed

lemma nodes_author_log:
  assumes "nodes_ok C N"
  shows "author_log (m_events (nodes N p)) p"
proof -
  note hist = nodes_okD(2) [OF assms, of p]
  have "0 < ev_clock (sealed_event t)" if "m_events (nodes N p) i = Some t" for i t
    using event_new_fields [OF nodes_okD(4) [OF assms that, unfolded wf_event_def]] by simp
  moreover have "0 < event_seq i" if "m_events (nodes N p) i = Some t" for i t
    using history_okD(2) [OF hist, of i] that by simp
  ultimately show ?thesis
    unfolding author_log_def using history_log_keys [OF hist] history_okD(5) [OF hist]
    by (intro conjI allI impI) simp_all
qed

lemma genuine_exported: "genuine N p q e = exported (m_events (nodes N p)) p q e"
  by (simp add: genuine_def exported_def)

lemma cursor_le_author:
  assumes "nodes_ok C N"
  shows "cur_seen (model_cursor (nodes N q) p) \<le> cur_seen (model_cursor (nodes N p) p)"
proof (cases "q = p \<or> cur_seen (model_cursor (nodes N q) p) = 0")
  case True
  then show ?thesis by auto
next
  case False
  let ?i = "EventId p (cur_seen (model_cursor (nodes N q) p))"
  obtain s where s: "m_events (nodes N q) ?i = Some s"
    using history_okD(2) [OF nodes_okD(2) [OF assms, of q], of ?i] False by (auto simp: word_neq_0_conv)
  then have "genuine N p q (sealed_event s)" "ev_id (sealed_event s) = ?i"
    using nodes_okD(6) [OF assms s] history_okD(1) [OF nodes_okD(2) [OF assms] s] False by auto
  then have "m_events (nodes N p) ?i \<noteq> None" by (auto simp: genuine_def)
  then show ?thesis using history_okD(2) [OF nodes_okD(2) [OF assms, of p], of ?i] by simp
qed

lemma receive_honest:
  assumes nok: "nodes_ok C N" and pq: "p \<noteq> q" and gen: "\<forall>e \<in> set es. genuine N p q e"
    and st: "starts_at k es" and k: "k \<le> cur_seen (model_cursor (nodes N q) p)"
    and rcv: "receive C (model_ops C) (nodes N q) p es = (m', r)"
  shows "\<exists>rc. r = Inr rc \<and> fair (rcv_rejected rc) \<and> rcv_seen rc = cur_seen (model_cursor m' p) \<and>
    (rcv_rejected rc = None \<longrightarrow> es \<noteq> [] \<longrightarrow> event_seq (ev_id (last es)) \<le> cur_seen (model_cursor m' p))"
proof -
  obtain o1 where loop: "receive_loop C (model_ops C) (nodes N q) p es 0 = (m', o1)"
    using rcv by (auto simp: receive_def split: prod.splits sum.splits)
  have "\<exists>n rej. o1 = Inr (n, rej) \<and> fair rej \<and>
      (rej = None \<longrightarrow> es \<noteq> [] \<longrightarrow> event_seq (ev_id (last es)) \<le> cur_seen (model_cursor m' p))"
  proof (rule receive_loop_honest [OF nodes_okD(2) [OF nok] nodes_copies [OF nok pq]
        nodes_author_log [OF nok] nodes_okD(1) [OF nok] pq _ _ _ loop])
    show "es \<noteq> [] \<longrightarrow> unat (event_seq (ev_id (es ! 0))) \<le> Suc (unat (cur_seen (model_cursor (nodes N q) p)))"
      using st k by (simp add: starts_at_def word_le_nat_alt)
  qed (use gen st in \<open>auto simp: genuine_exported starts_at_def\<close>)
  then show ?thesis using loop rcv by (auto simp: receive_def)
qed

end
