(* ===== verification/Chat_Samples.thy ===== *)
theory Chat_Samples
  imports Chat_Delivery
begin

text \<open>
  A small run of the network, for the instances of the theorems about it: Alice on machine \<open>a\<close> asks
  Bob on machine \<open>b\<close>, and one exchange carries the question over. The codec writes an event's identity
  and takes its characters as the digest.
\<close>

definition sample_codec :: codec where
  "sample_codec =
     \<lparr>codec_encode = (\<lambda>e. Some (event_id_to_string (ev_id e))),
      codec_hash = (\<lambda>s. Digest (map of_char s))\<rparr>"

definition machine_a :: origin where "machine_a = Origin (replicate 32 (CHR ''a''))"
definition machine_b :: origin where "machine_b = Origin (replicate 32 (CHR ''b''))"
definition alice :: agent_id where "alice = AgentId (AgentName ''alice'') machine_a"
definition bob :: agent_id where "bob = AgentId (AgentName ''bob'') machine_b"

definition ask_body :: body where
  "ask_body =
     Message (Direct (DirectPair alice bob)) (AgentName ''alice'') (Text ''ready?'')
       (Audience [machine_a, machine_b]) (Ask bob (Chain [])) (Stamp 1) None"

definition ask_event :: event where
  "ask_event = \<lparr>ev_id = EventId machine_a 1, ev_clock = 1, ev_body = ask_body\<rparr>"

definition ask_sealed :: sealed where
  "ask_sealed =
     \<lparr>sealed_event = ask_event, sealed_encoded = event_id_to_string (EventId machine_a 1),
      sealed_digest = Digest (map of_char (event_id_to_string (EventId machine_a 1)))\<rparr>"

definition ask_admitted :: admitted where
  "ask_admitted = \<lparr>adm_cursor = \<lparr>cur_seen = 1, cur_clock = 1\<rparr>, adm_change = ChAsk bob\<rparr>"

definition model_a :: model where
  "model_a = model_commit (model_new machine_a) ask_sealed ask_admitted"

definition ask_offer :: offer where
  "ask_offer =
     \<lparr>off_from = machine_a, off_to = machine_b, off_after = 0, off_seen = 0,
      off_batch = \<lparr>batch_events = [ask_event], batch_more = False\<rparr>\<rparr>"

definition model_b :: model where
  "model_b = model_record_ack (model_commit (model_new machine_b) ask_sealed ask_admitted) machine_a 0"

definition ask_answer :: answer where
  "ask_answer =
     \<lparr>ans_from = machine_b, ans_seen = 1, ans_batch = \<lparr>batch_events = [], batch_more = False\<rparr>,
      ans_rejected = None\<rparr>"

lemma machines_differ [simp]: "machine_a \<noteq> machine_b" "machine_b \<noteq> machine_a"
  by (simp_all add: machine_a_def machine_b_def)

lemma machines_less: "machine_a < machine_b"
  by (simp add: machine_a_def machine_b_def less_origin_def) code_simp

lemma ask_encoded_short: "length (event_id_to_string (EventId machine_a 1)) \<le> MAX_EVENT_BYTES"
proof -
  have "length (event_id_to_string (EventId machine_a 1)) = 49" by code_simp
  then show ?thesis by (simp add: MAX_EVENT_BYTES_def)
qed

lemma sample_exportable: "exportable sample_codec"
  by (auto simp: exportable_def sealed_new_def sample_codec_def split: if_splits)

lemma sealed_ask: "sealed_new sample_codec ask_event = Inr ask_sealed"
  using ask_encoded_short
  by (simp add: sealed_new_def sample_codec_def ask_sealed_def ask_event_def)

lemma sample_event: "event_new (EventId machine_a 1) 1 ask_body = Inr ask_event"
  by code_simp

lemma sample_includes:
  "audience_includes (Audience [machine_a, machine_b]) machine_a"
  "audience_includes (Audience [machine_a, machine_b]) machine_b"
  by code_simp+

lemma ask_fields [simp]:
  "ev_id ask_event = EventId machine_a 1" "ev_clock ask_event = 1" "ev_body ask_event = ask_body"
  "ev_origin ask_event = machine_a" "sealed_event ask_sealed = ask_event"
  "body_audience ask_body = Some (Audience [machine_a, machine_b])"
  by (simp_all add: ask_event_def ask_sealed_def ev_origin_def ask_body_def body_audience_def)

lemma ask_export: "event_export ask_event machine_b = ask_event"
  by (simp add: event_export_def sample_includes)

lemma ask_admit:
  assumes "model_cursor m machine_a = cursor_default"
  shows "admit (model_ops C) m ask_sealed = Inr (Append ask_admitted)"
  using assms
  by (simp add: admit_Append ask_admitted_def cursor_default_def change_def) (simp add: ask_body_def)

lemma sample_write: "model_write sample_codec (model_new machine_a) ask_body = (model_a, Inr ask_event)"
proof -
  have "next_local (model_ops sample_codec) (model_new machine_a) = Inr (EventId machine_a 1, 1)"
    by (simp add: next_local_Inr model_cursor_def model_new_def cursor_default_def
        word_less_nat_alt unat_max_word)
  then show ?thesis
    using sample_event sealed_ask ask_admit [of "model_new machine_a" sample_codec]
    by (simp add: model_write_def append_event_Inr commit_Inr_True model_a_def
        model_cursor_def model_new_def)
qed

lemma own_ask: "own_events model_a 0 = [ask_event]"
  by (simp add: own_events_def model_a_def model_new_def)

lemma sample_offer: "offer (model_ops sample_codec) model_a machine_b = Inr (Inr ask_offer)"
proof -
  have "model_ack model_a machine_b = 0" "model_cursor model_a machine_b = cursor_default"
    "m_origin model_a = machine_a"
    by (simp_all add: model_a_def model_ack_def model_cursor_def model_new_def)
  moreover have "outgoing (model_ops sample_codec) model_a machine_b 0 =
      Inr (Inr (off_batch ask_offer))"
    by (simp add: outgoing_def own_ask offer_event_def ask_export sealed_ask outgoing_offer_def
        outgoing_default_def MAX_BATCH_def outgoing_into_batch_def batch_new_def ask_offer_def Let_def)
  ultimately show ?thesis by (simp add: offer_def ask_offer_def cursor_default_def)
qed

lemma sample_cursor: "model_cursor (model_new p) q = cursor_default"
  by (simp add: model_cursor_def model_new_def)

lemma sample_receive:
  "receive sample_codec (model_ops sample_codec) (model_new machine_b) machine_a [ask_event] =
     (model_commit (model_new machine_b) ask_sealed ask_admitted,
      Inr \<lparr>rcv_seen = 1, rcv_appended = 1, rcv_rejected = None\<rparr>)"
proof -
  have "receive_one sample_codec (model_ops sample_codec) (model_new machine_b) machine_a ask_event =
      (model_commit (model_new machine_b) ask_sealed ask_admitted, Inr True)"
    using sealed_ask ask_admit [OF sample_cursor] by (simp add: receive_one_True model_new_def)
  then show ?thesis
    by (simp add: receive_def model_cursor_commit ask_admitted_def usize_add_def usize_max_def)
qed

lemma sample_respond:
  "respond sample_codec (model_ops sample_codec) (model_new machine_b) ask_offer =
     (model_b, Inr (Inr ask_answer))"
proof -
  have "outgoing (model_ops sample_codec) model_b machine_a 0 =
      Inr (Inr \<lparr>batch_events = [], batch_more = False\<rparr>)"
    by (simp add: outgoing_def own_events_def model_b_def model_new_def outgoing_default_def
        outgoing_into_batch_def batch_new_def)
  then show ?thesis
    using sample_receive sample_cursor
    by (simp add: respond_def ask_offer_def model_b_def ask_answer_def model_new_def
        cursor_default_def)
qed

definition asked :: net where
  "asked = net_new\<lparr>nodes := (nodes net_new)(machine_a := model_a)\<rparr>"

definition offered :: net where
  "offered = asked\<lparr>wire := {POffer ask_offer}\<rparr>"

definition answered :: net where
  "answered = offered\<lparr>nodes := (nodes offered)(machine_b := model_b),
     wire := {PAnswer ask_offer ask_answer, POffer ask_offer}\<rparr>"

lemma sample_steps:
  "net_step sample_codec net_new asked" "net_step sample_codec asked offered"
  "net_step sample_codec offered answered"
proof -
  show "net_step sample_codec net_new asked"
    unfolding asked_def by (rule write_step [of _ _ _ ask_body]) (simp add: net_new_def sample_write)
  show "net_step sample_codec asked offered"
    using offer_step [of sample_codec asked machine_a machine_b ask_offer] sample_offer
    by (simp add: asked_def offered_def net_new_def)
  show "net_step sample_codec offered answered"
    using respond_step [of ask_offer offered sample_codec model_b ask_answer] sample_respond
    by (simp add: offered_def answered_def asked_def net_new_def) (simp add: ask_offer_def)
qed

lemma sample_reachable:
  "net_reachable sample_codec asked" "net_reachable sample_codec offered"
  "net_reachable sample_codec answered"
  unfolding net_reachable_def using sample_steps
  by (meson rtranclp.rtrancl_refl rtranclp.rtrancl_into_rtrancl)+

lemma answered_nodes:
  "nodes answered machine_a = model_a" "nodes answered machine_b = model_b"
  by (simp_all add: answered_def offered_def asked_def)

lemma answered_held:
  "held_at (m_events (nodes answered machine_a)) (EventId machine_a 1) = Some ask_event"
  "held_at (m_events (nodes answered machine_b)) (EventId machine_a 1) = Some ask_event"
  by (simp_all add: answered_nodes held_at_def model_a_def model_b_def)

end
