(* ===== verification/Chat_Guarantees.thy ===== *)
theory Chat_Guarantees
  imports Chat_Samples
begin

text \<open>
  What the network of machines guarantees to its users: events are authentic and reach only their
  audience, machines never contradict each other, exchanges succeed and deliver, and the machines in
  the audience of a question agree on how it ended.
\<close>

section \<open>Exchanges\<close>

lemma wire_offer_ok: "net_reachable C N \<Longrightarrow> POffer off \<in> wire N \<Longrightarrow> offer_ok N off"
  using net_ok_reachable by (auto simp: net_ok_def)

lemma wire_nodes_ok: "net_reachable C N \<Longrightarrow> nodes_ok C N"
  using net_ok_reachable by (auto simp: net_ok_def)

lemma honest_respond:
  assumes "net_reachable C N" "offer_ok N off" "off_from off \<noteq> off_to off"
  shows "\<exists>m1 rc ans. receive C (model_ops C) (nodes N (off_to off)) (off_from off)
      (batch_events (off_batch off)) = (m1, Inr rc) \<and> fair (rcv_rejected rc) \<and>
    respond C (model_ops C) (nodes N (off_to off)) off =
      (model_record_ack m1 (off_from off) (off_seen off), Inr (Inr ans)) \<and>
    ans_rejected ans = rcv_rejected rc \<and> ans_seen ans = cur_seen (model_cursor m1 (off_from off)) \<and>
    (rcv_rejected rc = None \<longrightarrow> batch_events (off_batch off) \<noteq> [] \<longrightarrow>
       event_seq (ev_id (last (batch_events (off_batch off)))) \<le> cur_seen (model_cursor m1 (off_from off)))"
proof -
  let ?q = "off_to off" and ?p = "off_from off" and ?es = "batch_events (off_batch off)"
  note nok = wire_nodes_ok [OF assms(1)]
  obtain m1 r where rcv: "receive C (model_ops C) (nodes N ?q) ?p ?es = (m1, r)" by fastforce
  from receive_honest [OF nok assms(3) _ _ _ rcv, of "off_after off"] assms(2)
  obtain rc where rc: "r = Inr rc" "fair (rcv_rejected rc)" "rcv_seen rc = cur_seen (model_cursor m1 ?p)"
    "rcv_rejected rc = None \<longrightarrow> ?es \<noteq> [] \<longrightarrow> event_seq (ev_id (last ?es)) \<le> cur_seen (model_cursor m1 ?p)"
    by (auto simp: offer_ok_def)
  let ?m2 = "model_record_ack m1 ?p (off_seen off)"
  have steps: "model_steps C (nodes N ?q) m1" by (rule receive_steps [OF rcv])
  have hist: "history_ok ?m2"
    using history_steps [OF steps nodes_okD(2) [OF nok]] by (rule history_ack)
  obtain b where b: "outgoing (model_ops C) ?m2 ?p (off_seen off) = Inr (Inr b)"
    using outgoing_total [OF hist] by blast
  have seen: "off_seen off \<le> cur_seen (model_cursor (nodes N ?q) ?q)"
    using assms(2) cursor_le_author [OF nok, of ?p ?q] by (auto simp: offer_ok_def)
  have "respond C (model_ops C) (nodes N ?q) off = (?m2, Inr (Inr
      \<lparr>ans_from = ?q, ans_seen = rcv_seen rc, ans_batch = b, ans_rejected = rcv_rejected rc\<rparr>))"
    using assms(3) nodes_okD(1) [OF nok] rcv rc(1) b seen model_steps_origin [OF steps]
    by (auto simp: respond_def)
  with rc rcv show ?thesis by auto
qed

text \<open>
  C11: In every reachable network, a machine answers every offer it is sent: it never finds the sender
  ahead of its own history and always builds its own batch; and the only events it refuses are those
  whose request it does not hold or that contradict it, never for a gap, a conflict, a clock or a
  forged author.
\<close>

theorem honest_exchange:
  assumes "net_reachable C N" "POffer off \<in> wire N" "off_from off \<noteq> off_to off"
  shows "\<exists>m' ans. respond C (model_ops C) (nodes N (off_to off)) off = (m', Inr (Inr ans)) \<and>
    fair (ans_rejected ans)"
  using honest_respond [OF assms(1) wire_offer_ok [OF assms(1,2)] assms(3)] by auto

theorem honest_exchange_witness:
  "net_reachable sample_codec offered \<and> POffer ask_offer \<in> wire offered \<and>
   off_from ask_offer \<noteq> off_to ask_offer \<and>
   (\<exists>m' ans. respond sample_codec (model_ops sample_codec) (nodes offered (off_to ask_offer)) ask_offer =
      (m', Inr (Inr ans)) \<and> fair (ans_rejected ans))"
proof -
  have h: "net_reachable sample_codec offered" "POffer ask_offer \<in> wire offered"
    "off_from ask_offer \<noteq> off_to ask_offer"
    by (rule sample_reachable(2)) (simp_all add: offered_def ask_offer_def)
  from h honest_exchange [OF h] show ?thesis by blast
qed

lemma offer_whole_history:
  assumes nok: "nodes_ok C N" and exp: "exportable C"
    and off: "offer (model_ops C) (nodes N p) q = Inr (Inr off)" "\<not> batch_more (off_batch off)"
    and i: "m_events (nodes N p) i = Some t" "event_origin i = p" "off_after off < event_seq i"
    and fin: "finite (dom (m_events (nodes N p)))"
  shows "event_export (sealed_event t) q \<in> set (batch_events (off_batch off))"
proof -
  let ?own = "own_events (nodes N p) (off_after off)"
  let ?o = "offer_all C q ?own outgoing_default"
  have b: "batch_events (off_batch off) = out_events ?o" "batch_more (off_batch off) = out_more ?o"
    using offer_model [OF off(1)]
    by (auto simp: outgoing_def outgoing_into_batch_def batch_new_iff result_simps split: sum.splits)
  have "\<forall>e \<in> set ?own. \<exists>s. sealed_new C (event_export e q) = Inr s"
    using own_events_set nodes_okD(5) [OF nok] exp by (metis exportable_def)
  then have "out_events ?o = map (\<lambda>e. event_export e q) ?own"
    using offer_all_complete [of ?own C q outgoing_default] b off(2) by (simp add: outgoing_default_def)
  moreover have "sealed_event t \<in> set ?own"
    using i fin nodes_okD(1) [OF nok] by (auto simp: own_events_def image_iff intro!: bexI [of _ i])
  ultimately show ?thesis using b by simp
qed

lemma net_step_nodes:
  assumes "net_step C N N'"
  shows "model_steps C (nodes N p) (nodes N' p)"
  using assms
  by (cases rule: net_step.cases)
    (auto simp: model_write_def dest: append_steps respond_steps accept_steps)

lemma net_node_reachable:
  assumes "net_reachable C N"
  shows "reachable C p (nodes N p)"
  using assms unfolding net_reachable_def
proof (induction rule: rtranclp_induct)
  case base
  then show ?case by (simp add: net_new_def reachable_def)
next
  case (step N N')
  then show ?case using net_step_nodes unfolding reachable_def by (meson rtranclp_trans)
qed

lemma reachable_finite: "reachable C p m \<Longrightarrow> finite (dom (m_events m))"
  unfolding reachable_def
proof (induction rule: rtranclp_induct)
  case base
  then show ?case by (simp add: model_new_def)
next
  case (step y z)
  from step(2) obtain j where "dom (m_events z) \<subseteq> insert j (dom (m_events y))"
    by (cases rule: model_step.cases) (auto split: if_splits)
  with step(3) show ?case by (meson finite_insert finite_subset)
qed

lemma last_seq:
  assumes "successively (\<lambda>x y. \<not> batch_broken x y) es" "e \<in> set es"
  shows "event_seq (ev_id e) \<le> event_seq (ev_id (last es))"
proof -
  obtain i where i: "i < length es" "e = es ! i" using assms(2) by (auto simp: in_set_conv_nth)
  then have "es \<noteq> []" by auto
  with i show ?thesis
    using batch_nth(2) [OF assms(1), of i] batch_nth(2) [OF assms(1), of "length es - 1"]
    by (simp add: last_conv_nth word_le_nat_alt)
qed

lemma copied_history:
  assumes nok: "nodes_ok C N" and pq: "p \<noteq> q" and i: "event_origin i = p"
    and eq: "cur_seen (model_cursor (nodes N q) p) = cur_seen (model_cursor (nodes N p) p)"
  shows "held_at (m_events (nodes N q)) i =
    map_option (\<lambda>e. event_export e q) (held_at (m_events (nodes N p)) i)"
proof (cases "m_events (nodes N q) i")
  case None
  then have "m_events (nodes N p) i = None"
    using history_okD(2) [OF nodes_okD(2) [OF nok, of q], of i]
      history_okD(2) [OF nodes_okD(2) [OF nok, of p], of i] i eq by auto
  with None show ?thesis by (simp add: held_at_def)
next
  case (Some s)
  have "genuine N p q (sealed_event s)" "ev_id (sealed_event s) = i"
    using nodes_okD(6) [OF nok Some] i pq history_okD(1) [OF nodes_okD(2) [OF nok] Some] by auto
  with Some show ?thesis by (auto simp: genuine_def held_at_def)
qed

text \<open>
  C10: An exchange delivers: when a machine's offer was not cut short and nothing of it was refused,
  the receiver holds the sender's whole history, each event as exported for it, and its cursor is the
  sender's own.
\<close>

theorem exchange_delivers:
  assumes "net_reachable C N" "exportable C" "p \<noteq> q"
    and "offer (model_ops C) (nodes N p) q = Inr (Inr off)" "\<not> batch_more (off_batch off)"
    and "respond C (model_ops C) (nodes N q) off = (m', Inr (Inr ans))" "ans_rejected ans = None"
  shows "cur_seen (model_cursor m' p) = cur_seen (model_cursor (nodes N p) p) \<and>
    (\<forall>i. event_origin i = p \<longrightarrow> held_at (m_events m') i =
       map_option (\<lambda>e. event_export e q) (held_at (m_events (nodes N p)) i))"
proof -
  let ?es = "batch_events (off_batch off)" and ?N = "N\<lparr>nodes := (nodes N)(q := m')\<rparr>"
  note nok = wire_nodes_ok [OF assms(1)]
  have pq: "off_from off = p" "off_to off = q" using offer_model [OF assms(4)] nodes_okD(1) [OF nok] by auto
  note off = offer_sent_ok [OF nok assms(4)]
  from honest_respond [OF assms(1) off] assms(3,6,7) pq
  obtain m1 rc where rcv: "receive C (model_ops C) (nodes N q) p ?es = (m1, Inr rc)" and
    m': "m' = model_record_ack m1 p (off_seen off)" and
    last: "?es \<noteq> [] \<longrightarrow> event_seq (ev_id (last ?es)) \<le> cur_seen (model_cursor m1 p)" by auto
  have "nodes_ok C ?N"
    unfolding m' by (rule receive_update(1) [OF nok _ rcv]) (use off pq in \<open>auto simp: offer_ok_def\<close>)
  note nok' = this
  let ?c = "cur_seen (model_cursor (nodes N p) p)" and ?d = "cur_seen (model_cursor m' p)"
  have le: "?d \<le> ?c" using cursor_le_author [OF nok', of q p] assms(3) by simp
  have ge: "?c \<le> ?d"
  proof (cases "?c \<le> off_after off")
    case True
    also have "off_after off \<le> cur_seen (model_cursor (nodes N q) p)"
      using off pq by (simp add: offer_ok_def)
    also have "\<dots> \<le> ?d"
      using model_steps_mono(3) [OF receive_steps [OF rcv] nodes_okD(2) [OF nok]] m' by simp
    finally show ?thesis .
  next
    case False
    obtain t where t: "m_events (nodes N p) (EventId p ?c) = Some t"
      using history_okD(2) [OF nodes_okD(2) [OF nok, of p], of "EventId p ?c"] False
      by (cases "?c = 0") (auto simp: word_neq_0_conv)
    have "event_export (sealed_event t) q \<in> set ?es"
      by (rule offer_whole_history [OF nok assms(2,4,5) t])
        (use False reachable_finite [OF net_node_reachable [OF assms(1)]] in auto)
    moreover have "successively (\<lambda>x y. \<not> batch_broken x y) ?es"
      using off by (simp add: offer_ok_def starts_at_def)
    ultimately have "event_seq (ev_id (sealed_event t)) \<le> ?d"
      using last_seq [of ?es "event_export (sealed_event t) q"] last m' by fastforce
    then show ?thesis using history_okD(1) [OF nodes_okD(2) [OF nok] t] by simp
  qed
  have eq: "?d = ?c" using le ge by (rule antisym)
  have "held_at (m_events m') i = map_option (\<lambda>e. event_export e q) (held_at (m_events (nodes N p)) i)"
    if "event_origin i = p" for i
    using copied_history [OF nok' _ that, of q] eq assms(3) by simp
  with eq show ?thesis by blast
qed

theorem exchange_delivers_witness:
  "offer (model_ops sample_codec) (nodes asked machine_a) machine_b = Inr (Inr ask_offer) \<and>
   respond sample_codec (model_ops sample_codec) (nodes asked machine_b) ask_offer =
     (model_b, Inr (Inr ask_answer)) \<and>
   cur_seen (model_cursor model_b machine_a) = cur_seen (model_cursor (nodes asked machine_a) machine_a) \<and>
   (\<forall>n. held_at (m_events model_b) (EventId machine_a n) =
      map_option (\<lambda>e. event_export e machine_b) (held_at (m_events (nodes asked machine_a)) (EventId machine_a n)))"
proof -
  have h: "offer (model_ops sample_codec) (nodes asked machine_a) machine_b = Inr (Inr ask_offer)"
    "\<not> batch_more (off_batch ask_offer)"
    "respond sample_codec (model_ops sample_codec) (nodes asked machine_b) ask_offer =
       (model_b, Inr (Inr ask_answer))" "ans_rejected ask_answer = None"
    by (simp_all add: asked_def net_new_def sample_offer sample_respond)
      (simp_all add: ask_offer_def ask_answer_def)
  from h exchange_delivers [OF sample_reachable(1) sample_exportable machines_differ(1) h]
  show ?thesis by simp
qed

section \<open>Authenticity, confidentiality, agreement\<close>

lemma held_export:
  assumes "nodes_ok C N" "held_at (m_events (nodes N q)) i = Some e"
  shows "\<exists>t. held_at (m_events (nodes N (event_origin i))) i = Some t \<and> ev_id t = i \<and> wf_event t \<and>
    e = (if event_origin i = q then t else event_export t q)"
proof -
  obtain s where s: "m_events (nodes N q) i = Some s" "e = sealed_event s"
    using assms(2) by (auto simp: held_at_def)
  note id = history_okD(1) [OF nodes_okD(2) [OF assms(1)]]
  show ?thesis
  proof (cases "event_origin i = q")
    case True
    then show ?thesis using assms(2) s id nodes_okD(4) [OF assms(1) s(1)] by auto
  next
    case False
    then obtain t where t: "m_events (nodes N (event_origin i)) i = Some t"
      "e = event_export (sealed_event t) q"
      using nodes_okD(6) [OF assms(1) s(1)] id [OF s(1)] s(2) by (auto simp: genuine_def)
    then show ?thesis
      using False id [OF t(1)] nodes_okD(4) [OF assms(1) t(1)] by (auto simp: held_at_def)
  qed
qed

text \<open>
  C8: Authenticity: an event that a machine holds under another origin was written by that origin's
  machine under the same identity, and is what that machine exports for the holder: its full body, or
  the omitted event when the holder is outside its audience.
\<close>

theorem authenticity:
  assumes "net_reachable C N" "held_at (m_events (nodes N q)) i = Some e" "event_origin i \<noteq> q"
  shows "\<exists>t. held_at (m_events (nodes N (event_origin i))) i = Some t \<and> e = event_export t q"
  using held_export [OF wire_nodes_ok [OF assms(1)] assms(2)] assms(3) by auto

theorem authenticity_witness:
  "net_reachable sample_codec answered \<and>
   held_at (m_events (nodes answered machine_b)) (EventId machine_a 1) = Some ask_event \<and>
   (\<exists>t. held_at (m_events (nodes answered machine_a)) (EventId machine_a 1) = Some t \<and>
      ask_event = event_export t machine_b)"
  using authenticity [OF sample_reachable(3) answered_held(2)] sample_reachable(3) answered_held(2)
  by simp

lemma export_audience:
  "body_audience (ev_body (event_export t q)) = Some a \<Longrightarrow> event_export t q = t \<and> audience_includes a q"
  by (rule event_export_cases [of t q]) auto

text \<open>
  C1: Confidentiality: whatever a machine holds or is sent with an audience, that machine is in the
  audience, or wrote it itself. No schedule of writes and exchanges brings the body of a message, a
  receipt or a handoff to a machine outside its audience.
\<close>

theorem confidentiality:
  assumes "net_reachable C N"
  shows "(\<forall>q i e a. held_at (m_events (nodes N q)) i = Some e \<and> body_audience (ev_body e) = Some a \<longrightarrow>
      event_origin i = q \<or> audience_includes a q) \<and>
    (\<forall>off e a. POffer off \<in> wire N \<and> e \<in> set (batch_events (off_batch off)) \<and>
      body_audience (ev_body e) = Some a \<longrightarrow> audience_includes a (off_to off)) \<and>
    (\<forall>off ans e a. PAnswer off ans \<in> wire N \<and> e \<in> set (batch_events (ans_batch ans)) \<and>
      body_audience (ev_body e) = Some a \<longrightarrow> audience_includes a (off_from off))"
proof -
  note nok = wire_nodes_ok [OF assms]
  have sent: "audience_includes a q" if "genuine N p q e" "body_audience (ev_body e) = Some a" for p q e a
    using that export_audience by (auto simp: genuine_def)
  have "event_origin i = q \<or> audience_includes a q"
    if "held_at (m_events (nodes N q)) i = Some e" "body_audience (ev_body e) = Some a" for q i e a
    using held_export [OF nok that(1)] that(2) export_audience by (metis (full_types))
  then show ?thesis
    using net_ok_reachable [OF assms] sent unfolding net_ok_def offer_ok_def answer_ok_def by blast
qed

theorem confidentiality_witness:
  "net_reachable sample_codec answered \<and>
   held_at (m_events (nodes answered machine_b)) (EventId machine_a 1) = Some ask_event \<and>
   audience_includes (Audience [machine_a, machine_b]) machine_b \<and>
   \<not> audience_includes (Audience [machine_a]) machine_b"
proof -
  have "event_origin (EventId machine_a 1) = machine_b \<or>
      audience_includes (Audience [machine_a, machine_b]) machine_b"
    using confidentiality [OF sample_reachable(3)] answered_held(2) ask_fields(3,6) by metis
  moreover have "\<not> audience_includes (Audience [machine_a]) machine_b" by code_simp
  ultimately show ?thesis using sample_reachable(3) answered_held(2) by simp
qed

lemma held_whole:
  assumes "nodes_ok C N" "held_at (m_events (nodes N q)) i = Some e" "ev_body e \<noteq> Omitted"
  shows "held_at (m_events (nodes N (event_origin i))) i = Some e \<and> ev_id e = i \<and> wf_event e"
proof -
  from held_export [OF assms(1,2)] obtain t where
    t: "held_at (m_events (nodes N (event_origin i))) i = Some t" "ev_id t = i" "wf_event t"
    "e = (if event_origin i = q then t else event_export t q)" by blast
  have "event_export t q = t \<or> ev_body (event_export t q) = Omitted"
    by (rule event_export_cases [of t q]) auto
  with t assms(3) show ?thesis by (auto split: if_splits)
qed

text \<open>
  C12: Agreement: two machines that both see the body of an event see the same event. No machine can
  tell two others different things under one identity.
\<close>

theorem no_equivocation:
  assumes "net_reachable C N"
    and "held_at (m_events (nodes N q)) i = Some e" "ev_body e \<noteq> Omitted"
    and "held_at (m_events (nodes N r)) i = Some f" "ev_body f \<noteq> Omitted"
  shows "e = f"
  using held_whole [OF wire_nodes_ok [OF assms(1)] assms(2,3)]
    held_whole [OF wire_nodes_ok [OF assms(1)] assms(4,5)] by simp

theorem no_equivocation_witness:
  "net_reachable sample_codec answered \<and>
   held_at (m_events (nodes answered machine_a)) (EventId machine_a 1) =
     held_at (m_events (nodes answered machine_b)) (EventId machine_a 1)"
proof -
  have "ask_body \<noteq> Omitted" by (simp add: ask_body_def)
  with no_equivocation [OF sample_reachable(3) answered_held(1) _ answered_held(2)]
  show ?thesis using sample_reachable(3) answered_held by simp
qed

text \<open>
  C6: Acknowledgments are safe: what a machine believes a peer has seen, the peer has seen, and no
  machine is ahead of an author's own history.
\<close>

theorem acks_safe:
  assumes "net_reachable C N"
  shows "model_ack (nodes N p) q \<le> cur_seen (model_cursor (nodes N q) p) \<and>
    cur_seen (model_cursor (nodes N q) p) \<le> cur_seen (model_cursor (nodes N p) p)"
  using nodes_okD(7) cursor_le_author wire_nodes_ok [OF assms] by blast

theorem acks_safe_witness:
  "net_reachable sample_codec answered \<and>
   model_ack (nodes answered machine_b) machine_a \<le> cur_seen (model_cursor (nodes answered machine_a) machine_b) \<and>
   cur_seen (model_cursor (nodes answered machine_b) machine_a) = 1 \<and>
   (1::u64) \<le> cur_seen (model_cursor (nodes answered machine_a) machine_a)"
proof -
  have "cur_seen (model_cursor (nodes answered machine_b) machine_a) = 1"
    by (simp add: answered_nodes model_b_def model_cursor_commit ask_admitted_def)
  then show ?thesis
    using acks_safe [OF sample_reachable(3), of machine_b machine_a]
      acks_safe [OF sample_reachable(3), of machine_a machine_b] sample_reachable(3) by simp
qed

lemma held_shared:
  assumes nok: "nodes_ok C N"
    and e: "held_at (m_events (nodes N q)) i = Some e" "body_audience (ev_body e) = Some a"
    and r: "audience_includes a r"
    and cur: "cur_seen (model_cursor (nodes N q) (event_origin i)) =
      cur_seen (model_cursor (nodes N r) (event_origin i))"
  shows "held_at (m_events (nodes N r)) i = Some e"
proof -
  have whole: "held_at (m_events (nodes N (event_origin i))) i = Some e"
    by (rule held_whole [OF nok e(1), THEN conjunct1]) (use e(2) in auto)
  have "m_events (nodes N r) i \<noteq> None"
    using history_okD(2) [OF nodes_okD(2) [OF nok, of q], of i]
      history_okD(2) [OF nodes_okD(2) [OF nok, of r], of i] cur e(1) by (auto simp: held_at_def)
  then obtain f where f: "held_at (m_events (nodes N r)) i = Some f" by (auto simp: held_at_def)
  from held_export [OF nok f] whole have "f = e \<or> f = event_export e r" by auto
  then show ?thesis using f e(2) r by (auto simp: event_export_def)
qed

lemma endings_shared:
  assumes nok: "nodes_ok C N"
    and ask: "held_at (m_events (nodes N q)) i = Some p" "held_at (m_events (nodes N r)) i = Some p"
    and cur: "\<And>u. cur_seen (model_cursor (nodes N q) u) = cur_seen (model_cursor (nodes N r) u)"
  shows "endings (m_events (nodes N q)) i \<subseteq> endings (m_events (nodes N r)) i"
proof
  fix x assume "x \<in> endings (m_events (nodes N q)) i"
  then obtain e where e: "e \<in> held (m_events (nodes N q))" "resolution_by p e = Some x"
    using ask by (auto simp: endings_def linked_def)
  from e(2) obtain c a where th: "body_thread (ev_body e) = Some (c, a)" "same_thread e c a p"
    by (auto simp: resolution_by_def in_thread_of_def split: option.splits prod.splits if_splits)
  then have p: "body_audience (ev_body p) = Some a" "body_thread (ev_body p) = Some (c, a)"
    by (cases "ev_body p"; auto simp: same_thread_def body_conversation_def body_audience_def)+
  then have "ev_body p \<noteq> Omitted" by auto
  have "audience_includes a r"
  proof (cases "event_origin i = r")
    case True
    with held_whole [OF nok ask(2) \<open>ev_body p \<noteq> Omitted\<close>] show ?thesis
      using wf_event_author_in_audience(1) [OF _ p(2)] by (auto simp: ev_origin_def)
  next
    case False
    then show ?thesis
      using held_export [OF nok ask(2)] export_audience p(1) by auto
  qed
  then have "e \<in> held (m_events (nodes N r))"
    using held_shared [OF nok, of q "ev_id e" e a r] e(1) cur body_audience_thread [OF th(1)]
      history_log_keys [OF nodes_okD(2) [OF nok]] by (simp add: held_iff)
  with e(2) ask(2) show "x \<in> endings (m_events (nodes N r)) i"
    by (auto simp: endings_def linked_def)
qed

text \<open>
  C9: Two machines that see a question and have received the same stretch of every history agree on
  whether and how it was resolved, by whom and when, although each may hold other threads the other
  one never sees.
\<close>

theorem resolutions_agree:
  assumes "net_reachable C N"
    and "held_at (m_events (nodes N q)) i = Some e" "ev_body e \<noteq> Omitted"
    and "held_at (m_events (nodes N r)) i = Some f" "ev_body f \<noteq> Omitted"
    and "\<forall>p. cur_seen (model_cursor (nodes N q) p) = cur_seen (model_cursor (nodes N r) p)"
  shows "m_resolutions (nodes N q) i = m_resolutions (nodes N r) i"
proof -
  note nok = wire_nodes_ok [OF assms(1)]
  have ef: "e = f"
    using held_whole [OF nok assms(2,3)] held_whole [OF nok assms(4,5)] by simp
  have "endings (m_events (nodes N q)) i = endings (m_events (nodes N r)) i"
    using endings_shared [OF nok] assms(2,4,6) ef by (metis subset_antisym)
  then show ?thesis
    by (rule resolution_agrees [OF history_log_keys [OF nodes_okD(2) [OF nok]]
          views_okD(2) [OF nodes_okD(3) [OF nok]] views_okD(2) [OF nodes_okD(3) [OF nok]]])
qed

theorem resolutions_agree_witness:
  "m_resolutions (nodes answered machine_a) (EventId machine_a 1) =
     m_resolutions (nodes answered machine_b) (EventId machine_a 1)"
proof -
  have "ask_body \<noteq> Omitted" by (simp add: ask_body_def)
  moreover have "\<forall>p. cur_seen (model_cursor (nodes answered machine_a) p) =
      cur_seen (model_cursor (nodes answered machine_b) p)"
    by (simp add: answered_nodes model_a_def model_b_def model_cursor_commit)
      (simp add: model_cursor_def model_new_def)
  ultimately show ?thesis
    using resolutions_agree [OF sample_reachable(3) answered_held(1) _ answered_held(2)] by simp
qed

text \<open>
  C2: Convergence: two models that hold the same events show the same resolutions, open questions,
  started turns, deliveries, handoff reads, profiles, machines, rooms, activities, cursors and clock,
  whatever the order and the exchanges through which the events arrived.
\<close>

theorem convergence:
  assumes "reachable C p m" "reachable D q k" "m_events m = m_events k"
  shows "same_views m k"
  using views_determined [OF reachable_history [OF assms(1)] reachable_views [OF assms(1)]
      reachable_history [OF assms(2)] reachable_views [OF assms(2)] assms(3)] .

theorem convergence_witness:
  "m_events model_a = m_events model_b \<and> same_views model_a model_b"
proof -
  have "m_events model_a = m_events model_b" by (simp add: model_a_def model_b_def model_new_def)
  moreover have "reachable sample_codec machine_a model_a" "reachable sample_codec machine_b model_b"
    using net_node_reachable [OF sample_reachable(3)] answered_nodes by metis+
  ultimately show ?thesis using convergence by blast
qed

text \<open>
  C17: Every operation of a ledger keeps the log well formed: the events of each origin are exactly the
  sequence numbers one to its cursor, their clocks increase with them, and the clock of the ledger is
  at least every clock it has seen.
\<close>

theorem log_invariant:
  assumes "reachable C p m" "append_event C (model_ops C) m b = (m1, r1)"
    and "respond C (model_ops C) m1 off = (m2, r2)" "accept C (model_ops C) m2 off' ans = (m3, r3)"
  shows "history_ok m1 \<and> history_ok m2 \<and> history_ok m3"
  using history_steps [OF append_steps [OF assms(2)] reachable_history [OF assms(1)]]
    history_steps [OF respond_steps [OF assms(3)]] history_steps [OF accept_steps [OF assms(4)]] by blast

theorem log_invariant_witness:
  "append_event sample_codec (model_ops sample_codec) (model_new machine_a) ask_body =
     (model_a, Inr ask_event) \<and> history_ok model_a"
proof -
  have r: "reachable sample_codec machine_a (model_new machine_a)" by (simp add: reachable_def)
  have w: "append_event sample_codec (model_ops sample_codec) (model_new machine_a) ask_body =
      (model_a, Inr ask_event)" using sample_write by (simp add: model_write_def)
  obtain m2 r2 where m2: "respond sample_codec (model_ops sample_codec) model_a ask_offer = (m2, r2)"
    by fastforce
  obtain m3 r3 where m3: "accept sample_codec (model_ops sample_codec) m2 ask_offer ask_answer = (m3, r3)"
    by fastforce
  from log_invariant [OF r w m2 m3] w show ?thesis by blast
qed

text \<open>
  C18: Receiving a batch twice is receiving it once: after a batch was taken without a refusal, the
  same batch changes nothing, reports no new event and the same position.
\<close>

theorem receive_twice:
  assumes "receive C (model_ops C) m p es = (m', Inr r)" "rcv_rejected r = None"
  shows "receive C (model_ops C) m' p es = (m', Inr (r\<lparr>rcv_appended := 0\<rparr>))"
  by (rule model_ledger.receive_idempotent [OF TrueI assms])

theorem receive_twice_witness:
  "receive sample_codec (model_ops sample_codec) (model_new machine_b) machine_a [ask_event] =
     (model_commit (model_new machine_b) ask_sealed ask_admitted,
      Inr \<lparr>rcv_seen = 1, rcv_appended = 1, rcv_rejected = None\<rparr>) \<and>
   receive sample_codec (model_ops sample_codec)
     (model_commit (model_new machine_b) ask_sealed ask_admitted) machine_a [ask_event] =
     (model_commit (model_new machine_b) ask_sealed ask_admitted,
      Inr \<lparr>rcv_seen = 1, rcv_appended = 0, rcv_rejected = None\<rparr>)"
  using receive_twice [OF sample_receive] sample_receive by simp

end
