(* ===== verification/Chat_Values.thy ===== *)
theory Chat_Values
  imports Chat_Event
begin

text \<open>
  What the values of the chat guarantee: identities and their text, audiences, deliveries, questions
  and the gates of handoffs, stated of the operations of their theories.
\<close>

text \<open>
  C21: The text of an agent, an event or a conversation is read back exactly: a text is accepted if and
  only if it is the text of a well-formed identity, and that identity is the result. No two identities
  share a text, and no other spelling of one is accepted.
\<close>

theorem identities_roundtrip:
  "(agent_id_try_from s = Inr a \<longleftrightarrow> wf_agent_id a \<and> s = agent_id_to_string a) \<and>
   (event_id_try_from s = Inr e \<longleftrightarrow> wf_event_id e \<and> s = event_id_to_string e) \<and>
   (conversation_try_from s = Inr c \<longleftrightarrow> wf_conversation c \<and> s = conversation_to_string c)"
  by (intro conjI agent_id_try_from_iff event_id_try_from_iff conversation_try_from_iff)

text \<open>
  The audience built for a group of agents includes exactly their machines, in one canonical form:
  any listing of the same agents gives the same audience.
\<close>

theorem audience_exact:
  assumes "audience_of agents = Inr a"
  shows "(audience_includes a p \<longleftrightarrow> p \<in> agent_origin ` set agents) \<and> wf_audience a \<and>
    (set agents' = set agents \<longrightarrow> audience_of agents' = Inr a)"
  using audience_of_includes [OF assms] audience_of_wf [OF assms] assms
  by (simp add: audience_of_def)

theorem audience_exact_witness:
  "audience_of [AgentId (AgentName ''b'') (Origin ''2''), AgentId (AgentName ''a'') (Origin ''1'')] =
     Inr (Audience [Origin ''1'', Origin ''2'']) \<and>
   audience_includes (Audience [Origin ''1'', Origin ''2'']) (Origin ''2'') \<and>
   \<not> audience_includes (Audience [Origin ''1'', Origin ''2'']) (Origin ''3'')"
proof -
  have o: "Origin ''1'' < Origin ''2''" by code_simp
  then have s: "sorted_list_of_set {Origin ''1'', Origin ''2''} = [Origin ''1'', Origin ''2'']"
    using sorted_list_of_set.idem_if_sorted_distinct [of "[Origin ''1'', Origin ''2'']"] by auto
  have a: "audience_of [AgentId (AgentName ''b'') (Origin ''2''), AgentId (AgentName ''a'') (Origin ''1'')] =
      Inr (Audience [Origin ''1'', Origin ''2''])"
    unfolding audience_of_iff using s by (simp add: MAX_AUDIENCE_def insert_commute)
  from a audience_exact [OF a] show ?thesis by simp
qed

lemma foldl_observe: "foldl observe d ds = Max (insert d (set ds))"
proof (induction ds arbitrary: d)
  case (Cons a ds)
  have "Max (insert (max d a) (set ds)) = Max (insert d (insert a (set ds)))"
    by (cases "ds = []") (simp_all add: max.assoc)
  with Cons show ?case by (simp add: observe_max)
qed simp

text \<open>
  Receipts may arrive in any order and any number of times: the delivery shown is the furthest one
  received, the same for every sequence with the same receipts, it never goes back, and only an
  acknowledgment lets a session with an urgent notice stop.
\<close>

theorem receipts_any_order:
  assumes "set ds = set es"
  shows "foldl observe d ds = foldl observe d es \<and> d \<le> foldl observe d ds \<and>
    (stop_decision True (foldl observe Pending ds) = StopAllow \<longleftrightarrow> Acknowledged \<in> set ds)"
proof -
  have top: "x \<le> Acknowledged" for x :: delivery
    by (cases x) (simp_all add: less_eq_delivery_def delivery_rank_def word_le_nat_alt)
  have "Max (insert Pending (set ds)) = Acknowledged \<longleftrightarrow> Acknowledged \<in> set ds"
  proof
    assume "Max (insert Pending (set ds)) = Acknowledged"
    then show "Acknowledged \<in> set ds" using Max_in [of "insert Pending (set ds)"] by auto
  next
    assume "Acknowledged \<in> set ds"
    then show "Max (insert Pending (set ds)) = Acknowledged" by (intro Max_eqI) (auto simp: top)
  qed
  then show ?thesis
    using assms by (auto simp: foldl_observe stop_decision_def stop_decide_def)
qed

theorem receipts_any_order_witness:
  "foldl observe Pending [Read, Delivered, Read] = foldl observe Pending [Delivered, Read] \<and>
   stop_decision True (foldl observe Pending [Read, Delivered, Read]) = StopBlock"
proof -
  have s: "set [Read, Delivered, Read] = set [Delivered, Read]" by auto
  have "stop_decision True (foldl observe Pending [Read, Delivered, Read]) \<noteq> StopAllow"
    using receipts_any_order [OF s] by simp
  then have "stop_decision True (foldl observe Pending [Read, Delivered, Read]) = StopBlock"
    by (cases "stop_decision True (foldl observe Pending [Read, Delivered, Read])") auto
  with receipts_any_order [OF s, of Pending] show ?thesis by blast
qed

text \<open>
  A question escalates on time: its wait is the given seconds, between one second and ten minutes,
  without saturating; it is due exactly once that time has passed while it waits, stays due from then
  on, and is never due before it was asked, whatever the clocks.
\<close>

theorem question_escalates:
  assumes "question_new expected after fallback = Inr q"
  shows "unat (question_wait_millis q) = unat after * 1000 \<and>
    1000 \<le> unat (question_wait_millis q) \<and> unat (question_wait_millis q) \<le> 600000 \<and>
    (escalation_due created (question_wait_millis q) now st \<longleftrightarrow>
       st = Waiting \<and> unat created + unat after * 1000 \<le> unat now)"
proof -
  have "q_after_seconds q = after" using assms by (auto simp: question_new_def split: if_splits)
  with question_wait_exact [OF question_new_wf [OF assms]] show ?thesis
    by (auto simp: escalation_due_iff word_le_nat_alt)
qed

theorem question_escalates_witness:
  "\<exists>q. question_new (Line ''yes'') 5 (AgentId (AgentName ''a'') (Origin ''1'')) = Inr q \<and>
     escalation_due 100 (question_wait_millis q) 5100 Waiting \<and>
     \<not> escalation_due 100 (question_wait_millis q) 5099 Waiting"
proof -
  obtain q where q: "question_new (Line ''yes'') 5 (AgentId (AgentName ''a'') (Origin ''1'')) = Inr q"
    by (simp add: question_new_def MAX_FALLBACK_SECONDS_def word_le_nat_alt)
  from question_escalates [OF q, of 100 5100 Waiting] question_escalates [OF q, of 100 5099 Waiting] q
  show ?thesis by (intro exI [of _ q]) simp
qed

text \<open>
  C22: A handoff is read only by those it names: a permit is given exactly for the descriptor that was
  selected, to a named reader, within the reader's limit; the body it opens is the one described; and
  the permit's own observation is admitted for its reader once its clock is later, and for no one else.
\<close>

theorem handoff_gate:
  assumes "descriptor_new i md t = Inr d" "descriptor_authorize d reader selected limit = Inr p"
  shows "selected = d \<and> reader \<in> set (members_agents (md_permitted_readers md)) \<and>
    length (text_str t) \<le> read_limit_bytes limit \<and> read_limit_bytes limit \<le> MAX_BODY_BYTES \<and>
    check_body p i md t = Inr () \<and>
    (admit_observation d (permit_observation p) (issuer, audience) (c1, c2) = Inr () \<longleftrightarrow>
       issuer = reader \<and> audience = md_audience md \<and> c1 < c2)"
proof -
  have d: "desc_id d = i" "desc_metadata d = md" "read_limit_bytes (desc_body_bytes d) = length (text_str t)"
    using assms(1) by (auto simp: descriptor_new_iff)
  have p: "selected = d" "reader_grant d reader = Named" "p = \<lparr>permit_descriptor = d, permit_reader = reader\<rparr>"
    "length (text_str t) \<le> read_limit_bytes limit" "read_limit_bytes limit \<le> MAX_BODY_BYTES"
    using assms(2) d
    by (auto simp: descriptor_authorize_def result_simps read_decision_Inr split: if_splits)
  then show ?thesis
    using d by (auto simp: reader_grant_Named check_body_def admit_observation_def
        observation_decision_Inr permit_observation_def)
qed

theorem handoff_gate_witness:
  "\<exists>md d p. descriptor_new (EventId (Origin ''1'') 1) md (Text ''plan'') = Inr d \<and>
     descriptor_authorize d (AgentId (AgentName ''r'') (Origin ''2'')) d (ReadLimit 10) = Inr p \<and>
     check_body p (EventId (Origin ''1'') 1) md (Text ''plan'') = Inr () \<and>
     admit_observation d (permit_observation p) (AgentId (AgentName ''r'') (Origin ''2''), md_audience md)
       (1, 2) = Inr ()"
proof -
  let ?s = "AgentId (AgentName ''s'') (Origin ''1'')" and ?r = "AgentId (AgentName ''r'') (Origin ''2'')"
  let ?md = "\<lparr>md_sender = ?s, md_intended_recipient = AgentTarget ?r, md_project = Project (Line ''p''),
    md_scope = Scope (Line ''c''), md_permitted_readers = Members [?r],
    md_audience = Audience [Origin ''1'', Origin ''2'']\<rparr>"
  obtain d where d: "descriptor_new (EventId (Origin ''1'') 1) ?md (Text ''plan'') = Inr d"
    by (simp add: descriptor_new_def read_limit_try_from_def descriptor_try_from_def MAX_BODY_BYTES_def MAX_TEXT_def)
  obtain p where p: "descriptor_authorize d ?r d (ReadLimit 10) = Inr p"
    using d by (simp add: descriptor_authorize_def read_decision_def descriptor_new_iff reader_grant_def
        members_contains_def MAX_BODY_BYTES_def MAX_TEXT_def)
  from d p handoff_gate [OF d p, of ?r "md_audience ?md" 1 2] show ?thesis
    by (intro exI [of _ ?md] exI [of _ d] exI [of _ p]) (simp add: word_less_nat_alt)
qed

end
