(* ===== verification/Chat_Policy.thy ===== *)
theory Chat_Policy
  imports Chat_Ledger
begin

text \<open>
  The policy of the chat commands (\<open>chat/policy.rs\<close>): who may ask whom within a chain of waiting
  agents, who may write in a room, when an ask may be ended, and how much history a machine keeps.
  \<open>policy::audience\<close> is \<open>audience_of\<close> of the agents' theory.
\<close>

datatype refusal =
    SelfAsk
  | Cycle agent_id
  | TooDeep
  | NotMember agent_id
  | AlreadyResolved
  | Full
  | RefInvalid invalid

definition delegated :: "chain \<Rightarrow> agent_id \<Rightarrow> (refusal, chain) result" where
  "delegated turn waiting =
     (if length (chain_agents turn) \<ge> MAX_CHAIN then Inl TooDeep
      else map_err RefInvalid (chain_extended turn waiting))"

definition check_ask :: "agent_id \<Rightarrow> agent_id \<Rightarrow> chain \<Rightarrow> (refusal, unit) result" where
  "check_ask sender responder chain =
     (if sender = responder then Inl SelfAsk
      else if chain_contains chain responder \<or> chain_contains chain sender then Inl (Cycle responder)
      else Inr ())"

definition check_member :: "room \<Rightarrow> agent_id \<Rightarrow> (refusal, unit) result" where
  "check_member room agent =
     (if members_contains (room_members room) agent then Inr () else Inl (NotMember agent))"

definition check_resolution :: "resolution option \<Rightarrow> origin \<Rightarrow> (refusal, unit) result" where
  "check_resolution current local =
     (case current of
        Some winner \<Rightarrow> if event_origin (res_event winner) = local then Inl AlreadyResolved else Inr ()
      | None \<Rightarrow> Inr ())"

record usage =
  us_events :: u64
  us_bytes :: u64

datatype priority = Ordinary | Ending

definition ORDINARY_LIMIT :: usage where
  "ORDINARY_LIMIT = \<lparr>us_events = 200000, us_bytes = 512 * 1024 * 1024\<rparr>"

definition ENDING_LIMIT :: usage where
  "ENDING_LIMIT = \<lparr>us_events = 220000, us_bytes = 576 * 1024 * 1024\<rparr>"

definition RECEIVED_LIMIT :: usage where
  "RECEIVED_LIMIT = \<lparr>us_events = 400000, us_bytes = 1024 * 1024 * 1024\<rparr>"

definition below :: "usage \<Rightarrow> usage \<Rightarrow> bool" where
  "below usage limit = (us_events usage < us_events limit \<and> us_bytes usage < us_bytes limit)"

definition check_capacity :: "usage \<Rightarrow> priority \<Rightarrow> (refusal, unit) result" where
  "check_capacity usage priority =
     (let limit = (case priority of Ordinary \<Rightarrow> ORDINARY_LIMIT | Ending \<Rightarrow> ENDING_LIMIT)
      in if below usage limit then Inr () else Inl Full)"

definition fits_received :: "usage \<Rightarrow> bool" where
  "fits_received usage = below usage RECEIVED_LIMIT"

section \<open>What the checks decide\<close>

lemma delegated_iff:
  "delegated c s = Inr d \<longleftrightarrow> d = Chain (chain_agents c @ [s]) \<and> wf_chain d"
  by (auto simp: delegated_def result_simps chain_extended_iff wf_chain_def)

lemma check_ask_iff:
  "check_ask s r c = Inr () \<longleftrightarrow> s \<noteq> r \<and> r \<notin> set (chain_agents c) \<and> s \<notin> set (chain_agents c)"
  by (auto simp: check_ask_def chain_contains_def)

text \<open>
  What the policy lets an agent ask in a room, the ledger's own check accepts: an ask that passed
  \<open>check_ask\<close> and whose responder's machine is in the audience is a valid ask of an event.
\<close>

theorem policy_ask_valid:
  assumes "check_ask s r c = Inr ()" "audience_includes a (agent_origin r)"
    and "case k of InRoom _ \<Rightarrow> True | Direct pair \<Rightarrow> pair_other pair s = Some r"
  shows "valid_ask s k a (r, c)"
  using assms by (auto simp: check_ask_iff valid_ask_def chain_contains_def split: conversation.splits)

theorem policy_ask_valid_witness:
  "valid_ask (AgentId (AgentName ''a'') (Origin ''o'')) (InRoom (RoomId (Origin ''o'') (RoomName ''r'')))
     (Audience [Origin ''o'']) (AgentId (AgentName ''b'') (Origin ''o''), Chain [])"
proof -
  have "audience_includes (Audience [Origin ''o'']) (Origin ''o'')" by code_simp
  then show ?thesis
    by (intro policy_ask_valid) (simp_all add: check_ask_iff)
qed

text \<open>
  A full history still lets agents finish: whenever an ordinary event fits, an ending fits, whatever
  fits as an ending fits as a received event, and the only refusal of the capacity check is \<open>Full\<close>.
\<close>

theorem capacity_order:
  "(check_capacity u Ordinary = Inr () \<longrightarrow> check_capacity u Ending = Inr ()) \<and>
   (check_capacity u Ending = Inr () \<longrightarrow> fits_received u) \<and>
   (check_capacity v p = Inl x \<longrightarrow> x = Full)"
  by (auto simp: check_capacity_def below_def fits_received_def ORDINARY_LIMIT_def ENDING_LIMIT_def
      RECEIVED_LIMIT_def word_less_nat_alt Let_def split: if_splits)

theorem capacity_order_witness:
  "check_capacity \<lparr>us_events = 200000, us_bytes = 5\<rparr> Ordinary = Inl Full \<and>
   check_capacity \<lparr>us_events = 200000, us_bytes = 5\<rparr> Ending = Inr () \<and>
   fits_received \<lparr>us_events = 200000, us_bytes = 5\<rparr>"
proof -
  have e: "check_capacity \<lparr>us_events = 200000, us_bytes = 5\<rparr> Ending = Inr ()"
    by (simp add: check_capacity_def below_def ENDING_LIMIT_def word_less_nat_alt)
  have "check_capacity \<lparr>us_events = 200000, us_bytes = 5\<rparr> Ordinary = Inl Full"
    by (simp add: check_capacity_def below_def ORDINARY_LIMIT_def)
  with e capacity_order [of "\<lparr>us_events = 200000, us_bytes = 5\<rparr>"] show ?thesis by simp
qed

end
