(* ===== verification/Job_Domain.thy ===== *)
theory Job_Domain
  imports Rust_Str
begin

text \<open>
  The values a job is made of (\<open>domain.rs\<close>): machine names, identifiers, job references, portable
  relative paths, commands, and text from another machine as it may be shown on a terminal.
\<close>

definition IDENTIFIER_HEX_BYTES :: nat where
  "IDENTIFIER_HEX_BYTES = 32"

datatype domain_invalid =
    InvMachine | InvJobId | InvSubmissionId | InvJobReference | InvRelativePath | InvCommand
  | InvRemoteText

section \<open>Identities\<close>

definition machine_byte :: "char \<Rightarrow> bool" where
  "machine_byte b = (is_ascii_alphanumeric b \<or> b \<in> {CHR ''.'', CHR ''-'', CHR ''_'', CHR ''@''})"

definition check_machine :: "string \<Rightarrow> (domain_invalid, unit) result" where
  "check_machine value =
     (case value of
        [] \<Rightarrow> Inl InvMachine
      | first # _ \<Rightarrow>
          if length value > 128 \<or> \<not> is_ascii_alphanumeric first \<or> \<not> list_all machine_byte value
          then Inl InvMachine
          else Inr ())"

definition valid_identifier :: "string \<Rightarrow> bool" where
  "valid_identifier value = (length value = IDENTIFIER_HEX_BYTES \<and> list_all hex_lower value)"

datatype machine_name = MachineName (machine_str: string)
datatype job_id = JobId (job_str: string)
datatype submission_id = SubmissionId (submission_str: string)

definition machine_name_try_from :: "string \<Rightarrow> (domain_invalid, machine_name) result" where
  "machine_name_try_from value = and_then (check_machine value) (\<lambda>_. Inr (MachineName value))"

definition job_id_try_from :: "string \<Rightarrow> (domain_invalid, job_id) result" where
  "job_id_try_from value = (if valid_identifier value then Inr (JobId value) else Inl InvJobId)"

definition submission_id_try_from :: "string \<Rightarrow> (domain_invalid, submission_id) result" where
  "submission_id_try_from value =
     (if valid_identifier value then Inr (SubmissionId value) else Inl InvSubmissionId)"

definition job_id_from :: "submission_id \<Rightarrow> job_id" where
  "job_id_from submission = JobId (submission_str submission)"

record job_reference =
  ref_machine :: machine_name
  ref_job :: job_id

definition job_reference_try_from :: "string \<Rightarrow> (domain_invalid, job_reference) result" where
  "job_reference_try_from value =
     and_then (ok_or InvJobReference (split_once (CHR '':'') value)) (\<lambda>(machine, job).
     and_then (machine_name_try_from machine) (\<lambda>machine.
     and_then (job_id_try_from job) (\<lambda>job. Inr \<lparr>ref_machine = machine, ref_job = job\<rparr>)))"

section \<open>Relative paths\<close>

text \<open>\<open>str::split\<close> at an ASCII character, \<open>trim_end_matches(' ')\<close> and \<open>to_ascii_uppercase\<close>.\<close>

fun split_at :: "char \<Rightarrow> string \<Rightarrow> string list" where
  "split_at c [] = [[]]"
| "split_at c (x # xs) =
     (if x = c then [] # split_at c xs
      else case split_at c xs of w # ws \<Rightarrow> (x # w) # ws | [] \<Rightarrow> [[x]])"

definition trim_end_spaces :: "string \<Rightarrow> string" where
  "trim_end_spaces s = rev (dropWhile (\<lambda>c. c = CHR '' '') (rev s))"

definition to_ascii_uppercase :: "string \<Rightarrow> string" where
  "to_ascii_uppercase s =
     map (\<lambda>c. if is_ascii_lowercase c then char_of (byte c - 32) else c) s"

definition device_names :: "string list" where
  "device_names =
     [''CON'', ''PRN'', ''AUX'', ''NUL'', ''COM1'', ''COM2'', ''COM3'', ''COM4'', ''COM5'', ''COM6'',
      ''COM7'', ''COM8'', ''COM9'', ''LPT1'', ''LPT2'', ''LPT3'', ''LPT4'', ''LPT5'', ''LPT6'',
      ''LPT7'', ''LPT8'', ''LPT9'']"

text \<open>The characters of \<open>"\\:*?\"<>|"\<close>.\<close>

definition path_forbidden :: "nat \<Rightarrow> bool" where
  "path_forbidden c = (c \<in> {0x5C, 0x3A, 0x2A, 0x3F, 0x22, 0x3C, 0x3E, 0x7C})"

definition safe_component :: "string \<Rightarrow> bool" where
  "safe_component component =
     (if component = [] \<or> component = ''.'' \<or> component = ''..'' \<or>
         last component \<in> {CHR ''.'', CHR '' ''} \<or>
         list_ex (\<lambda>c. is_control c \<or> path_forbidden c) (chars component)
      then False
      else (let stem = trim_end_spaces (hd (split_at (CHR ''.'') component))
            in to_ascii_uppercase stem \<notin> set device_names))"

fun check_components :: "nat \<Rightarrow> string list \<Rightarrow> (domain_invalid, unit) result" where
  "check_components count [] = Inr ()"
| "check_components count (component # rest) =
     (let count = usize_add count 1
      in if count > 64 \<or> \<not> safe_component component then Inl InvRelativePath
         else check_components count rest)"

definition check_relative_path :: "string \<Rightarrow> (domain_invalid, unit) result" where
  "check_relative_path value =
     (if value = [] \<or> length value > 4096 then Inl InvRelativePath
      else check_components 0 (split_at (CHR ''/'') value))"

datatype relative_path = RelativePath (path_str: string)

definition relative_path_try_from :: "string \<Rightarrow> (domain_invalid, relative_path) result" where
  "relative_path_try_from value = and_then (check_relative_path value) (\<lambda>_. Inr (RelativePath value))"

section \<open>Commands\<close>

record command =
  cmd_program :: string
  cmd_arguments :: "string list"

text \<open>The loop of \<open>Command::try_from\<close>: the total length, or the refusal of a word.\<close>

fun command_total :: "nat \<Rightarrow> string list \<Rightarrow> (domain_invalid, nat) result" where
  "command_total tot [] = Inr tot"
| "command_total tot (word # rest) =
     (if tot + length word > usize_max then Inl InvCommand
      else let tot = tot + length word
           in if length word > 8192 \<or> CHR 0x00 \<in> set word then Inl InvCommand
              else command_total tot rest)"

definition command_try_from :: "string list \<Rightarrow> (domain_invalid, command) result" where
  "command_try_from value =
     (if value = [] \<or> length value > 256 then Inl InvCommand
      else and_then (command_total 0 value) (\<lambda>tot.
        if (case value of [] \<Rightarrow> True | first # _ \<Rightarrow> first = []) \<or> tot > 65536 then Inl InvCommand
        else case value of
               [] \<Rightarrow> Inl InvCommand
             | program # arguments \<Rightarrow> Inr \<lparr>cmd_program = program, cmd_arguments = arguments\<rparr>))"

definition command_into :: "command \<Rightarrow> string list" where
  "command_into c = cmd_program c # cmd_arguments c"

section \<open>Text from another machine\<close>

datatype remote_text = RemoteText (remote_str: string)

definition remote_text_try_from :: "string \<Rightarrow> (domain_invalid, remote_text) result" where
  "remote_text_try_from value =
     (if length value > 65536 then Inl InvRemoteText else Inr (RemoteText value))"

text \<open>\<open>char::escape_default\<close>, as scalar values.\<close>

definition escape_default :: "nat \<Rightarrow> nat list" where
  "escape_default c =
     (if c = 9 then [0x5C, 0x74]
      else if c = 13 then [0x5C, 0x72]
      else if c = 10 then [0x5C, 0x6E]
      else if c \<in> {0x27, 0x22, 0x5C} then [0x5C, c]
      else if 0x20 \<le> c \<and> c \<le> 0x7E then [c]
      else [0x5C, 0x75, 0x7B] @ map of_char (hex_text c) @ [0x7D])"

definition bidi_control :: "nat \<Rightarrow> bool" where
  "bidi_control c =
     (c = 0x61C \<or> c = 0x200E \<or> c = 0x200F \<or> (0x202A \<le> c \<and> c \<le> 0x202E) \<or>
      (0x2066 \<le> c \<and> c \<le> 0x2069) \<or> c = 0xFEFF)"

definition terminal_unsafe :: "nat \<Rightarrow> bool" where
  "terminal_unsafe c = (is_control c \<and> c \<noteq> 10 \<or> bidi_control c)"

definition terminal_text :: "string \<Rightarrow> string" where
  "terminal_text s =
     utf8 (concat (map (\<lambda>c. if terminal_unsafe c then escape_default c else [c]) (chars s)))"

definition for_terminal :: "remote_text \<Rightarrow> string" where
  "for_terminal t = terminal_text (remote_str t)"

section \<open>Properties\<close>

definition wf_machine_name :: "machine_name \<Rightarrow> bool" where
  "wf_machine_name m = (check_machine (machine_str m) = Inr ())"

definition wf_job_id :: "job_id \<Rightarrow> bool" where
  "wf_job_id j = valid_identifier (job_str j)"

lemma check_machine_iff:
  "check_machine s = Inr () \<longleftrightarrow>
     s \<noteq> [] \<and> length s \<le> 128 \<and> is_ascii_alphanumeric (hd s) \<and> list_all machine_byte s"
  by (cases s) (auto simp: check_machine_def)

lemma machine_no_colon: "check_machine s = Inr () \<Longrightarrow> CHR '':'' \<notin> set s"
  by (auto simp: check_machine_iff list_all_iff machine_byte_def ascii_defs)

text \<open>
  A job reference is read exactly from its own text: the machine, a colon and the job, each valid;
  a reference of valid parts always reads back, and a colon in the job part is refused.
\<close>

theorem job_reference_roundtrip:
  "job_reference_try_from s = Inr r \<longleftrightarrow>
     s = machine_str (ref_machine r) @ CHR '':'' # job_str (ref_job r) \<and>
     wf_machine_name (ref_machine r) \<and> wf_job_id (ref_job r)"
proof -
  have "job_reference_try_from s = Inr r \<longleftrightarrow>
      (\<exists>m j. split_once (CHR '':'') s = Some (m, j) \<and> check_machine m = Inr () \<and> valid_identifier j \<and>
         r = \<lparr>ref_machine = MachineName m, ref_job = JobId j\<rparr>)"
    by (auto simp: job_reference_try_from_def result_simps machine_name_try_from_def job_id_try_from_def
        split: if_splits)
  then show ?thesis
    using machine_no_colon [of "machine_str (ref_machine r)"]
    by (cases r; cases "ref_machine r"; cases "ref_job r")
      (auto simp: split_once_Some wf_machine_name_def wf_job_id_def)
qed

lemma split_at_nonempty: "split_at c s \<noteq> []"
  by (induction s) (auto split: list.splits)

lemma split_at_join: "concat (map (\<lambda>w. c # w) (split_at c s)) = c # s"
proof (induction s)
  case (Cons x s)
  then show ?case using split_at_nonempty [of c s] by (cases "split_at c s") auto
qed simp

lemma split_at_parts: "w \<in> set (split_at c s) \<Longrightarrow> c \<notin> set w"
proof (induction s arbitrary: w)
  case (Cons x s)
  then show ?case using split_at_nonempty [of c s] by (cases "split_at c s") (auto split: if_splits)
qed simp

lemma check_components_iff:
  "check_components n ws = Inr () \<longleftrightarrow> list_all safe_component ws \<and> (ws = [] \<or> n + length ws \<le> 64)"
proof (induction ws arbitrary: n)
  case (Cons w ws)
  show ?case
  proof (cases "n + 1 \<le> 64")
    case True
    then show ?thesis using Cons [of "Suc n"] by (auto simp: usize_add_def usize_max_def)
  next
    case False
    then show ?thesis by (auto simp: usize_add_def usize_max_def)
  qed
qed simp

text \<open>How a file system reads the components of a path below a directory.\<close>

fun resolve_path :: "string list \<Rightarrow> string list \<Rightarrow> string list" where
  "resolve_path dir [] = dir"
| "resolve_path dir (w # ws) =
     (if w = [] \<or> w = ''.'' then resolve_path dir ws
      else if w = ''..'' then resolve_path (butlast dir) ws
      else resolve_path (dir @ [w]) ws)"

lemma resolve_safe:
  "list_all (\<lambda>w. w \<noteq> [] \<and> w \<noteq> ''.'' \<and> w \<noteq> ''..'') ws \<Longrightarrow> resolve_path dir ws = dir @ ws"
  by (induction ws arbitrary: dir) auto

lemma safe_component_plain:
  "safe_component w \<Longrightarrow> w \<noteq> [] \<and> w \<noteq> ''.'' \<and> w \<noteq> ''..'' \<and> last w \<notin> {CHR ''.'', CHR '' ''} \<and>
     (\<forall>c \<in> set (chars w). \<not> is_control c \<and> \<not> path_forbidden c)"
  by (auto simp: safe_component_def list_ex_iff split: if_splits)

text \<open>
  C25: An accepted path stays below the directory it is used in: reading it there only appends its
  components, at most sixty-four of them, none of which is empty, a dot name, or holds a control
  character, a backslash or a drive colon; and it does not start with a separator.
\<close>

theorem relative_path_stays_below:
  assumes "relative_path_try_from p = Inr r"
  shows "path_str r = p \<and> resolve_path dir (split_at (CHR ''/'') p) = dir @ split_at (CHR ''/'') p \<and>
    length (split_at (CHR ''/'') p) \<le> 64 \<and> length p \<le> 4096 \<and> hd p \<noteq> CHR ''/'' \<and>
    (\<forall>w \<in> set (split_at (CHR ''/'') p). w \<noteq> [] \<and> w \<noteq> ''..'' \<and>
       (\<forall>c \<in> set (chars w). \<not> is_control c \<and> c \<noteq> 0x5C \<and> c \<noteq> 0x3A))"
proof -
  have ok: "p \<noteq> []" "length p \<le> 4096" "list_all safe_component (split_at (CHR ''/'') p)"
    "length (split_at (CHR ''/'') p) \<le> 64" "path_str r = p"
    using assms split_at_nonempty [of "CHR ''/''" p]
    by (auto simp: relative_path_try_from_def result_simps check_relative_path_def check_components_iff
        split: if_splits)
  then have parts: "\<forall>w \<in> set (split_at (CHR ''/'') p). w \<noteq> [] \<and> w \<noteq> ''.'' \<and> w \<noteq> ''..'' \<and>
      (\<forall>c \<in> set (chars w). \<not> is_control c \<and> \<not> path_forbidden c)"
    using safe_component_plain by (fastforce simp: list_all_iff)
  moreover have "hd p \<noteq> CHR ''/''"
    using parts ok(1) by (cases p) auto
  ultimately show ?thesis
    using ok by (simp add: resolve_safe list_all_iff path_forbidden_def)
qed

theorem relative_path_stays_below_witness:
  "relative_path_try_from ''src/main.rs'' = Inr (RelativePath ''src/main.rs'') \<and>
   resolve_path [''work''] (split_at (CHR ''/'') ''src/main.rs'') = [''work'', ''src'', ''main.rs''] \<and>
   is_ok (relative_path_try_from ''../up'') = False"
proof -
  have s: "split_at (CHR ''/'') ''src/main.rs'' = [''src'', ''main.rs'']"
    "split_at (CHR ''/'') ''../up'' = [''..'', ''up'']" by simp_all
  have "list_all safe_component [''src'', ''main.rs'']" "\<not> safe_component ''..''" by code_simp+
  then have p: "relative_path_try_from ''src/main.rs'' = Inr (RelativePath ''src/main.rs'')"
    and "is_ok (relative_path_try_from ''../up'') = False"
    using s by (simp_all add: relative_path_try_from_def check_relative_path_def check_components_iff
        is_ok_iff result_simps del: check_components.simps)
  with p s relative_path_stays_below [OF p, of "[''work'']"] show ?thesis by simp
qed

lemma command_total_iff:
  "n \<le> usize_max \<Longrightarrow> command_total n ws = Inr k \<longleftrightarrow>
     k = n + sum_list (map length ws) \<and> k \<le> usize_max \<and>
     list_all (\<lambda>w. length w \<le> 8192 \<and> CHR 0x00 \<notin> set w) ws"
proof (induction ws arbitrary: n)
  case (Cons w ws)
  show ?case
  proof (cases "n + length w \<le> usize_max")
    case True
    then show ?thesis using Cons.IH [of "n + length w"] by (auto simp: Let_def)
  next
    case False
    then show ?thesis by auto
  qed
qed auto

text \<open>
  A command is accepted exactly when it has a nonempty program, at most 256 words, at most 8192
  bytes in a word and 64 KiB in all, and no word holds a zero byte; and the words of the command are
  the words given.
\<close>

theorem command_roundtrip:
  "command_try_from ws = Inr c \<longleftrightarrow>
     ws = command_into c \<and> cmd_program c \<noteq> [] \<and> length ws \<le> 256 \<and> sum_list (map length ws) \<le> 65536 \<and>
     list_all (\<lambda>w. length w \<le> 8192 \<and> CHR 0x00 \<notin> set w) ws"
proof (cases ws)
  case Nil
  then show ?thesis by (simp add: command_try_from_def command_into_def)
next
  case (Cons w rest)
  have "usize_max \<ge> 65536" by (simp add: usize_max_def)
  then show ?thesis
    using Cons command_total_iff [of 0 ws]
    by (cases c) (auto simp: command_try_from_def command_into_def result_simps split: if_splits)
qed

section \<open>Text on a terminal\<close>

text \<open>A Rust \<open>str\<close> is the encoding of a list of scalar values.\<close>

definition is_str :: "string \<Rightarrow> bool" where
  "is_str s \<longleftrightarrow> (\<exists>cs. list_all (\<lambda>c. c < 1114112) cs \<and> s = utf8 cs)"

lemma hex_text_plain: "c \<in> set (hex_text n) \<Longrightarrow> 48 \<le> byte c \<and> byte c < 103"
  using format_hex_lower [of 0 n]
  by (auto simp: format_hex_def Let_def list_all_iff ascii_defs)

lemma escape_default_safe: "c \<in> set (escape_default d) \<Longrightarrow> \<not> terminal_unsafe c \<and> c < 1114112"
proof -
  assume "c \<in> set (escape_default d)"
  then have "0x20 \<le> c \<and> c < 0x7F"
    using hex_text_plain by (fastforce simp: escape_default_def split: if_splits)
  then show ?thesis by (simp add: terminal_unsafe_def is_control_def bidi_control_def)
qed

definition shown :: "nat list \<Rightarrow> nat list" where
  "shown cs = concat (map (\<lambda>c. if terminal_unsafe c then escape_default c else [c]) cs)"

lemma shown_safe:
  "list_all (\<lambda>c. c < 1114112) cs \<Longrightarrow> list_all (\<lambda>c. \<not> terminal_unsafe c \<and> c < 1114112) (shown cs)"
  using escape_default_safe unfolding shown_def list_all_iff by (auto split: if_splits)

lemma shown_id: "list_all (\<lambda>c. \<not> terminal_unsafe c) cs \<Longrightarrow> shown cs = cs"
  by (induction cs) (auto simp: shown_def)

text \<open>
  C26: Text from another machine cannot drive the terminal: what is shown has no control character
  except the newline and no directional formatting character, showing it again changes nothing, and
  text without such characters is shown as it is.
\<close>

theorem terminal_text_safe:
  assumes "is_str s"
  shows "list_all (\<lambda>c. \<not> terminal_unsafe c) (chars (terminal_text s)) \<and>
    terminal_text (terminal_text s) = terminal_text s \<and>
    (list_all (\<lambda>c. \<not> terminal_unsafe c) (chars s) \<longrightarrow> terminal_text s = s)"
proof -
  obtain cs where cs: "list_all (\<lambda>c. c < 1114112) cs" "s = utf8 cs" using assms by (auto simp: is_str_def)
  have t: "terminal_text (utf8 ds) = utf8 (shown ds)" if "list_all (\<lambda>c. c < 1114112) ds" for ds
    using that by (simp add: terminal_text_def shown_def)
  have sh: "list_all (\<lambda>c. \<not> terminal_unsafe c) (shown cs)" "list_all (\<lambda>c. c < 1114112) (shown cs)"
    using shown_safe [OF cs(1)] by (simp_all add: list_all_iff)
  have "chars (terminal_text s) = shown cs" using t [OF cs(1)] cs(2) sh(2) by simp
  moreover have "terminal_text (terminal_text s) = terminal_text s"
    using t [OF cs(1)] t [OF sh(2)] shown_id [OF sh(1)] cs(2) by simp
  moreover have "list_all (\<lambda>c. \<not> terminal_unsafe c) (chars s) \<longrightarrow> terminal_text s = s"
    using t [OF cs(1)] cs shown_id [of cs] by simp
  ultimately show ?thesis using sh(1) by simp
qed

theorem terminal_text_safe_witness:
  "terminal_text (utf8 [0x61, 0x1B, 0x202E]) = utf8 (shown [0x61, 0x1B, 0x202E]) \<and>
   list_all (\<lambda>c. \<not> terminal_unsafe c) (chars (terminal_text (utf8 [0x61, 0x1B, 0x202E])))"
proof -
  have "is_str (utf8 [0x61, 0x1B, 0x202E])" by (auto simp: is_str_def intro!: exI [of _ "[0x61, 0x1B, 0x202E]"])
  from terminal_text_safe [OF this] show ?thesis by (simp add: terminal_text_def shown_def)
qed

end
