(* ===== verification/Job_State.thy ===== *)
theory Job_State
  imports Rust_Str
begin

text \<open>
  The life of a job (\<open>state.rs\<close>): the phases, the events that advance them, the stored form and the
  completion of a scoped command; and the client's view of it (\<open>job_protocol.rs\<close>), with the start of a
  worker (\<open>worker_handoff.rs\<close>) and the process group it runs in (\<open>process_group.rs\<close>).

  \<open>NonZeroI32\<close> is a 32-bit word that is not zero and \<open>RemoteText\<close> a string; that the stored words are
  not zero is the invariant \<open>wf_state\<close>.
\<close>

datatype phase_kind = KAccepted | KQueued | KStarting | KRunning | KFinished

datatype job_outcome =
    Succeeded
  | JobFailed i32
  | LaunchFailed string
  | Lost
  | Killed
  | MemoryLimitExceeded

datatype phase = Accepted | Queued | Starting | Running u32 | Finished job_outcome

record job_state =
  js_phase :: phase

datatype raw_phase =
    RawAccepted | RawQueued | RawStarting | RawRunning u32 | RawFinished job_outcome

record raw_job_state =
  raw_phase :: raw_phase

datatype invalid_stored_state = InvalidStoredState

datatype command_completion_error = Unfinished | InvalidOutcome

definition job_state_try_from :: "raw_job_state \<Rightarrow> (invalid_stored_state, job_state) result" where
  "job_state_try_from value =
     (case raw_phase value of
        RawAccepted \<Rightarrow> Inr \<lparr>js_phase = Accepted\<rparr>
      | RawQueued \<Rightarrow> Inr \<lparr>js_phase = Queued\<rparr>
      | RawStarting \<Rightarrow> Inr \<lparr>js_phase = Starting\<rparr>
      | RawRunning pid \<Rightarrow> if pid = 0 then Inl InvalidStoredState else Inr \<lparr>js_phase = Running pid\<rparr>
      | RawFinished outcome \<Rightarrow> Inr \<lparr>js_phase = Finished outcome\<rparr>)"

definition raw_job_state_from :: "job_state \<Rightarrow> raw_job_state" where
  "raw_job_state_from value =
     (case js_phase value of
        Accepted \<Rightarrow> \<lparr>raw_phase = RawAccepted\<rparr>
      | Queued \<Rightarrow> \<lparr>raw_phase = RawQueued\<rparr>
      | Starting \<Rightarrow> \<lparr>raw_phase = RawStarting\<rparr>
      | Running pid \<Rightarrow> \<lparr>raw_phase = RawRunning pid\<rparr>
      | Finished outcome \<Rightarrow> \<lparr>raw_phase = RawFinished outcome\<rparr>)"

datatype job_event =
    EvQueued
  | EvStarting
  | EvSpawned u32
  | EvExited i32
  | EvLaunchFailed string
  | EvSupervisorGone
  | EvKilled
  | EvMemoryLimitExceeded

datatype event_kind =
    EkQueued | EkStarting | EkSpawned | EkExited | EkLaunchFailed | EkSupervisorGone | EkKilled
  | EkMemoryLimitExceeded

definition job_event_kind :: "job_event \<Rightarrow> event_kind" where
  "job_event_kind e =
     (case e of
        EvQueued \<Rightarrow> EkQueued
      | EvStarting \<Rightarrow> EkStarting
      | EvSpawned _ \<Rightarrow> EkSpawned
      | EvExited _ \<Rightarrow> EkExited
      | EvLaunchFailed _ \<Rightarrow> EkLaunchFailed
      | EvSupervisorGone \<Rightarrow> EkSupervisorGone
      | EvKilled \<Rightarrow> EkKilled
      | EvMemoryLimitExceeded \<Rightarrow> EkMemoryLimitExceeded)"

record invalid_transition =
  it_phase :: phase_kind
  it_event :: event_kind

definition accepted_state :: job_state where
  "accepted_state = \<lparr>js_phase = Accepted\<rparr>"

definition state_kind :: "job_state \<Rightarrow> phase_kind" where
  "state_kind s =
     (case js_phase s of
        Accepted \<Rightarrow> KAccepted
      | Queued \<Rightarrow> KQueued
      | Starting \<Rightarrow> KStarting
      | Running _ \<Rightarrow> KRunning
      | Finished _ \<Rightarrow> KFinished)"

definition state_outcome :: "job_state \<Rightarrow> job_outcome option" where
  "state_outcome s = (case js_phase s of Finished outcome \<Rightarrow> Some outcome | _ \<Rightarrow> None)"

definition state_pid :: "job_state \<Rightarrow> u32 option" where
  "state_pid s = (case js_phase s of Running pid \<Rightarrow> Some pid | _ \<Rightarrow> None)"

definition command_completion :: "job_state \<Rightarrow> (command_completion_error, job_event) result" where
  "command_completion s =
     (case state_outcome s of
        Some Succeeded \<Rightarrow> Inr (EvExited 0)
      | Some (JobFailed code) \<Rightarrow> Inr (EvExited code)
      | Some (LaunchFailed reason) \<Rightarrow> Inr (EvLaunchFailed reason)
      | Some Lost \<Rightarrow> Inl InvalidOutcome
      | Some Killed \<Rightarrow> Inl InvalidOutcome
      | Some MemoryLimitExceeded \<Rightarrow> Inl InvalidOutcome
      | None \<Rightarrow> Inl Unfinished)"

text \<open>The match of \<open>JobState::advance\<close>: \<open>None\<close> is one of the refused pairs.\<close>

fun next_phase :: "phase \<Rightarrow> job_event \<Rightarrow> phase option" where
  "next_phase (Finished _) _ = None"
| "next_phase _ (EvLaunchFailed reason) = Some (Finished (LaunchFailed reason))"
| "next_phase _ EvSupervisorGone = Some (Finished Lost)"
| "next_phase _ EvKilled = Some (Finished Killed)"
| "next_phase Accepted EvQueued = Some Queued"
| "next_phase Accepted EvStarting = Some Starting"
| "next_phase Queued EvStarting = Some Starting"
| "next_phase Starting (EvSpawned pid) = (if pid \<noteq> 0 then Some (Running pid) else None)"
| "next_phase (Running _) (EvExited code) =
     Some (Finished (if code \<noteq> 0 then JobFailed code else Succeeded))"
| "next_phase (Running _) EvMemoryLimitExceeded = Some (Finished MemoryLimitExceeded)"
| "next_phase _ _ = None"

definition advance :: "job_state \<Rightarrow> job_event \<Rightarrow> job_state \<times> (invalid_transition, unit) result" where
  "advance s event =
     (case next_phase (js_phase s) event of
        Some phase \<Rightarrow> (s\<lparr>js_phase := phase\<rparr>, Inr ())
      | None \<Rightarrow> (s, Inl \<lparr>it_phase = state_kind s, it_event = job_event_kind event\<rparr>))"

section \<open>The client's view: \<open>job_protocol.rs\<close>\<close>

datatype protocol_state = PAbsent | PAccepted | PActive | PFinished

definition protocol_of :: "phase_kind \<Rightarrow> protocol_state" where
  "protocol_of phase =
     (case phase of
        KAccepted \<Rightarrow> PAccepted
      | KQueued \<Rightarrow> PActive
      | KStarting \<Rightarrow> PActive
      | KRunning \<Rightarrow> PActive
      | KFinished \<Rightarrow> PFinished)"

datatype protocol_action = Submit bool | Attach | Disconnect | Reap

datatype protocol_refusal = RefMissing | RefConflict | RefNotActive

fun protocol_step :: "protocol_state \<Rightarrow> protocol_action \<Rightarrow> (protocol_refusal, protocol_state) result" where
  "protocol_step PAbsent (Submit _) = Inr PAccepted"
| "protocol_step state (Submit same_request) = (if same_request then Inr state else Inl RefConflict)"
| "protocol_step state Disconnect = Inr state"
| "protocol_step PAccepted Attach = Inr PActive"
| "protocol_step PAbsent Attach = Inl RefMissing"
| "protocol_step state Attach = Inr state"
| "protocol_step PActive Reap = Inr PFinished"
| "protocol_step _ Reap = Inl RefNotActive"

section \<open>Starting a worker: \<open>worker_handoff.rs\<close>\<close>

datatype handoff_phase = PhRead | PhDecode | PhValidate | PhLaunch

record 'e handoff_failure =
  hf_phase :: handoff_phase
  hf_cause :: 'e

text \<open>
  \<open>start\<close>: the four closures are arguments; the world they act on is threaded through them, so the
  order of their effects is the order of the source.
\<close>

definition handoff_start ::
  "('w \<Rightarrow> 'w \<times> ('e, 'b) result) \<Rightarrow> ('w \<Rightarrow> 'b \<Rightarrow> 'w \<times> ('e, 't) result) \<Rightarrow>
   ('w \<Rightarrow> 't \<Rightarrow> 'w \<times> ('e, unit) result) \<Rightarrow> ('w \<Rightarrow> 't \<Rightarrow> 'w \<times> ('e, unit) result) \<Rightarrow>
   'w \<Rightarrow> 'w \<times> ('e handoff_failure, unit) result" where
  "handoff_start read decode validate launch w =
     (case read w of
        (w1, Inl cause) \<Rightarrow> (w1, Inl \<lparr>hf_phase = PhRead, hf_cause = cause\<rparr>)
      | (w1, Inr bytes) \<Rightarrow>
          (case decode w1 bytes of
             (w2, Inl cause) \<Rightarrow> (w2, Inl \<lparr>hf_phase = PhDecode, hf_cause = cause\<rparr>)
           | (w2, Inr request) \<Rightarrow>
               (case validate w2 request of
                  (w3, Inl cause) \<Rightarrow> (w3, Inl \<lparr>hf_phase = PhValidate, hf_cause = cause\<rparr>)
                | (w3, Inr _) \<Rightarrow>
                    (case launch w3 request of
                       (w4, Inl cause) \<Rightarrow> (w4, Inl \<lparr>hf_phase = PhLaunch, hf_cause = cause\<rparr>)
                     | (w4, Inr _) \<Rightarrow> (w4, Inr ())))))"

section \<open>Process groups: \<open>process_group.rs\<close>\<close>

datatype process_group = ProcessGroup (group_get: i32)

datatype invalid_process_group = InvalidProcessGroup

definition process_group_new :: "i32 \<Rightarrow> (invalid_process_group, process_group) result" where
  "process_group_new value =
     (if value \<noteq> 0 \<and> sint value > 0 then Inr (ProcessGroup value) else Inl InvalidProcessGroup)"

definition process_group_from_str :: "string \<Rightarrow> (invalid_process_group, process_group) result" where
  "process_group_from_str s =
     and_then (map_err (\<lambda>_. InvalidProcessGroup) (ok_or () (parse_i32 s))) process_group_new"

section \<open>Runs of a job\<close>

definition wf_state :: "job_state \<Rightarrow> bool" where
  "wf_state s =
     (case js_phase s of
        Running pid \<Rightarrow> pid \<noteq> 0
      | Finished (JobFailed code) \<Rightarrow> code \<noteq> 0
      | _ \<Rightarrow> True)"

definition phase_rank :: "phase \<Rightarrow> nat" where
  "phase_rank p =
     (case p of Accepted \<Rightarrow> 0 | Queued \<Rightarrow> 1 | Starting \<Rightarrow> 2 | Running _ \<Rightarrow> 3 | Finished _ \<Rightarrow> 4)"

text \<open>The events that were accepted, in their order.\<close>

inductive job_run :: "job_state \<Rightarrow> job_event list \<Rightarrow> job_state \<Rightarrow> bool" where
  job_idle: "job_run s [] s"
| job_step: "job_run s es t \<Longrightarrow> advance t e = (u, Inr ()) \<Longrightarrow> job_run s (es @ [e]) u"

inductive_cases job_run_NilE: "job_run s [] t"
inductive_cases job_run_snocE: "job_run s (es @ [e]) t"

lemma advance_Inr:
  "advance s e = (t, Inr ()) \<longleftrightarrow> (\<exists>p. next_phase (js_phase s) e = Some p \<and> t = \<lparr>js_phase = p\<rparr>)"
  by (cases s) (auto simp: advance_def split: option.splits)

lemma advance_Inl:
  "advance s e = (t, Inl x) \<longleftrightarrow>
     t = s \<and> next_phase (js_phase s) e = None \<and>
     x = \<lparr>it_phase = state_kind s, it_event = job_event_kind e\<rparr>"
  by (auto simp: advance_def split: option.splits)

lemma next_phase_rank: "next_phase p e = Some q \<Longrightarrow> phase_rank p < phase_rank q"
  by (cases "(p, e)" rule: next_phase.cases) (auto simp: phase_rank_def split: phase.splits if_splits)

lemma next_phase_wf: "wf_state s \<Longrightarrow> next_phase (js_phase s) e = Some q \<Longrightarrow> wf_state \<lparr>js_phase = q\<rparr>"
  by (cases "(js_phase s, e)" rule: next_phase.cases) (auto simp: wf_state_def split: if_splits)

lemma job_run_wf: "job_run s es t \<Longrightarrow> wf_state s \<Longrightarrow> wf_state t"
  by (induction rule: job_run.induct) (auto simp: advance_Inr intro: next_phase_wf)

lemma job_run_rank: "job_run s es t \<Longrightarrow> phase_rank (js_phase s) + length es \<le> phase_rank (js_phase t)"
  by (induction rule: job_run.induct) (fastforce simp: advance_Inr dest: next_phase_rank)+

lemma phase_rank_le: "phase_rank p \<le> 4"
  by (cases p) (simp_all add: phase_rank_def)

text \<open>What the last accepted event of a finished job says of its outcome.\<close>

definition outcome_of :: "job_event \<Rightarrow> job_outcome option" where
  "outcome_of e =
     (case e of
        EvExited code \<Rightarrow> Some (if code \<noteq> 0 then JobFailed code else Succeeded)
      | EvLaunchFailed reason \<Rightarrow> Some (LaunchFailed reason)
      | EvSupervisorGone \<Rightarrow> Some Lost
      | EvKilled \<Rightarrow> Some Killed
      | EvMemoryLimitExceeded \<Rightarrow> Some MemoryLimitExceeded
      | _ \<Rightarrow> None)"

lemma next_phase_finished:
  "next_phase p e = Some (Finished out) \<Longrightarrow> outcome_of e = Some out"
  by (cases "(p, e)" rule: next_phase.cases) (auto simp: outcome_of_def split: if_splits)

lemma next_phase_running:
  "next_phase p e = Some (Running pid) \<Longrightarrow> e = EvSpawned pid \<and> pid \<noteq> 0"
  by (cases "(p, e)" rule: next_phase.cases) (auto split: if_splits)

lemma next_phase_needs_running:
  "next_phase p (EvExited code) = Some q \<Longrightarrow> \<exists>pid. p = Running pid"
  "next_phase p EvMemoryLimitExceeded = Some q \<Longrightarrow> \<exists>pid. p = Running pid"
  by (cases p; simp)+

lemma job_run_running:
  assumes "job_run accepted_state es t" "js_phase t = Running pid"
  shows "\<exists>pre. es = pre @ [EvSpawned pid] \<and> pid \<noteq> 0"
  using assms(1)
proof (cases rule: job_run.cases)
  case job_idle
  then show ?thesis using assms(2) by (simp add: accepted_state_def)
next
  case (job_step pre s e)
  then show ?thesis using assms(2) next_phase_running by (fastforce simp: advance_Inr)
qed

text \<open>
  C7: A job ends once: every accepted event moves the job forward, so at most four are ever accepted;
  once it is finished every further event is refused with the phase and the event it refused, and the
  outcome never changes.
\<close>

theorem job_ends_once:
  assumes "job_run accepted_state es s"
  shows "length es \<le> 4 \<and> wf_state s \<and>
    (\<forall>out e. state_outcome s = Some out \<longrightarrow>
       advance s e = (s, Inl \<lparr>it_phase = KFinished, it_event = job_event_kind e\<rparr>))"
proof -
  have "length es \<le> 4"
    using job_run_rank [OF assms] phase_rank_le [of "js_phase s"] by simp
  moreover have "wf_state s"
    by (rule job_run_wf [OF assms]) (simp add: wf_state_def accepted_state_def)
  ultimately show ?thesis
    by (auto simp: state_outcome_def advance_Inl state_kind_def split: phase.splits)
qed

theorem job_ends_once_witness:
  "job_run accepted_state [EvStarting, EvSpawned 7, EvExited 0] \<lparr>js_phase = Finished Succeeded\<rparr> \<and>
   advance \<lparr>js_phase = Finished Succeeded\<rparr> EvKilled =
     (\<lparr>js_phase = Finished Succeeded\<rparr>, Inl \<lparr>it_phase = KFinished, it_event = EkKilled\<rparr>)"
proof -
  have "job_run accepted_state [EvStarting] \<lparr>js_phase = Starting\<rparr>"
    using job_step [OF job_idle, of accepted_state EvStarting]
    by (simp add: accepted_state_def advance_Inr)
  then have "job_run accepted_state [EvStarting, EvSpawned 7] \<lparr>js_phase = Running 7\<rparr>"
    using job_step [of accepted_state "[EvStarting]" "\<lparr>js_phase = Starting\<rparr>" "EvSpawned 7"]
    by (simp add: advance_Inr)
  then have r: "job_run accepted_state [EvStarting, EvSpawned 7, EvExited 0]
      \<lparr>js_phase = Finished Succeeded\<rparr>"
    using job_step [of accepted_state "[EvStarting, EvSpawned 7]" "\<lparr>js_phase = Running 7\<rparr>" "EvExited 0"]
    by (simp add: advance_Inr)
  have "state_outcome \<lparr>js_phase = Finished Succeeded\<rparr> = Some Succeeded"
    by (simp add: state_outcome_def)
  with r job_ends_once [OF r] show ?thesis by (simp add: job_event_kind_def)
qed

text \<open>
  An outcome is what happened: it is the one the last accepted event reports, and an exit code or
  a memory-limit kill is only ever reported of a process that was spawned with a nonzero identifier.
\<close>

theorem outcome_provenance:
  assumes "job_run accepted_state es s" "state_outcome s = Some out"
  shows "\<exists>pre e. es = pre @ [e] \<and> outcome_of e = Some out \<and>
    ((\<exists>code. e = EvExited code) \<or> e = EvMemoryLimitExceeded \<longrightarrow>
       (\<exists>pid pre'. pid \<noteq> 0 \<and> pre = pre' @ [EvSpawned pid]))"
  using assms(1)
proof (cases rule: job_run.cases)
  case job_idle
  then show ?thesis using assms(2) by (simp add: state_outcome_def accepted_state_def)
next
  case (job_step pre t e)
  then have nx: "next_phase (js_phase t) e = Some (Finished out)"
    using assms(2) by (auto simp: advance_Inr state_outcome_def split: phase.splits)
  have "\<exists>pid pre'. pid \<noteq> 0 \<and> pre = pre' @ [EvSpawned pid]"
    if "(\<exists>code. e = EvExited code) \<or> e = EvMemoryLimitExceeded"
    using that nx next_phase_needs_running job_run_running [OF job_step(2)] by metis
  with job_step(1) next_phase_finished [OF nx] show ?thesis by blast
qed

theorem outcome_provenance_witness:
  "job_run accepted_state [EvKilled] \<lparr>js_phase = Finished Killed\<rparr> \<and>
   state_outcome \<lparr>js_phase = Finished Killed\<rparr> = Some Killed \<and>
   (\<exists>pre e. [EvKilled] = pre @ [e] \<and> outcome_of e = Some Killed)"
proof -
  have r: "job_run accepted_state ([] @ [EvKilled]) \<lparr>js_phase = Finished Killed\<rparr>"
    by (rule job_step [OF job_idle]) (simp add: accepted_state_def advance_Inr)
  have o: "state_outcome \<lparr>js_phase = Finished Killed\<rparr> = Some Killed" by (simp add: state_outcome_def)
  from outcome_provenance [OF r o] r o show ?thesis by auto
qed

text \<open>
  The stored form of a job is faithful: a state that was stored is read back unchanged, and what
  is read back is a well-formed state with that stored form.
\<close>

theorem stored_state_roundtrip:
  "(wf_state s \<longrightarrow> job_state_try_from (raw_job_state_from s) = Inr s) \<and>
   (\<forall>t. job_state_try_from raw = Inr t \<longrightarrow> raw_job_state_from t = raw)"
  by (cases s; cases raw)
    (auto simp: wf_state_def job_state_try_from_def raw_job_state_from_def
      split: phase.splits raw_phase.splits if_splits)

theorem stored_state_roundtrip_witness:
  "job_state_try_from (raw_job_state_from \<lparr>js_phase = Running 7\<rparr>) = Inr \<lparr>js_phase = Running 7\<rparr> \<and>
   job_state_try_from \<lparr>raw_phase = RawRunning 0\<rparr> = Inl InvalidStoredState"
  using stored_state_roundtrip [of "\<lparr>js_phase = Running 7\<rparr>"]
  by (simp add: wf_state_def job_state_try_from_def)

text \<open>
  The supervisor can take over the result of a scoped command: when the command's own record has
  completed, the event it yields is accepted by the running job and gives it the same outcome; an
  unfinished record and the outcomes only a supervisor can reach are refused.
\<close>

theorem command_completion_transfers:
  assumes "wf_state inner" "js_phase outer = Running pid"
  shows "(\<exists>e. command_completion inner = Inr e \<and>
      (\<exists>t. advance outer e = (t, Inr ()) \<and> state_outcome t = state_outcome inner)) \<or>
    command_completion inner = Inl Unfinished \<and> state_outcome inner = None \<or>
    command_completion inner = Inl InvalidOutcome \<and>
      state_outcome inner \<in> {Some Lost, Some Killed, Some MemoryLimitExceeded}"
proof (cases "state_outcome inner")
  case None
  then show ?thesis by (simp add: command_completion_def)
next
  case (Some out)
  then have "js_phase inner = Finished out" by (auto simp: state_outcome_def split: phase.splits)
  then show ?thesis
    using assms Some by (cases out) (auto simp: command_completion_def advance_Inr wf_state_def state_outcome_def)
qed

theorem command_completion_transfers_witness:
  "command_completion \<lparr>js_phase = Finished (JobFailed 3)\<rparr> = Inr (EvExited 3) \<and>
   (\<exists>t. advance \<lparr>js_phase = Running 7\<rparr> (EvExited 3) = (t, Inr ()) \<and>
      state_outcome t = Some (JobFailed 3))"
  using command_completion_transfers [of "\<lparr>js_phase = Finished (JobFailed 3)\<rparr>" "\<lparr>js_phase = Running 7\<rparr>" 7]
  by (auto simp: wf_state_def command_completion_def state_outcome_def)

section \<open>Refinement of the client's protocol\<close>

definition client_view :: "job_state \<Rightarrow> protocol_state" where
  "client_view s = protocol_of (state_kind s)"

fun protocol_run :: "protocol_state \<Rightarrow> protocol_action list \<Rightarrow> (protocol_refusal, protocol_state) result" where
  "protocol_run p [] = Inr p"
| "protocol_run p (a # as) = and_then (protocol_step p a) (\<lambda>q. protocol_run q as)"

lemmas view_defs = client_view_def protocol_of_def state_kind_def

lemma forward_simulation:
  assumes "next_phase (js_phase s) e = Some p"
  shows "\<exists>as. set as \<subseteq> {Attach, Reap} \<and>
    protocol_run (client_view s) as = Inr (client_view \<lparr>js_phase = p\<rparr>)"
proof -
  have "\<exists>as \<in> {[Attach], [Reap], [Attach, Reap]}.
      protocol_run (client_view s) as = Inr (client_view \<lparr>js_phase = p\<rparr>)"
    using assms
    by (cases "(js_phase s, e)" rule: next_phase.cases) (auto simp: view_defs split: if_splits)
  then show ?thesis
  proof
    fix as assume "as \<in> {[Attach], [Reap], [Attach, Reap]}"
      "protocol_run (client_view s) as = Inr (client_view \<lparr>js_phase = p\<rparr>)"
    then show ?thesis by (intro exI [of _ as]) auto
  qed
qed

lemma backward_simulation:
  assumes "a \<in> {Attach, Reap}" "protocol_step (client_view s) a = Inr q" "q \<noteq> client_view s"
  shows "\<exists>e u. advance s e = (u, Inr ()) \<and> client_view u = q"
proof -
  from assms consider "js_phase s = Accepted" "q = PActive" | "q = PFinished" "\<forall>out. js_phase s \<noteq> Finished out"
    by (cases "js_phase s") (auto simp: view_defs)
  then show ?thesis
  proof cases
    case 1
    then have "advance s EvStarting = (\<lparr>js_phase = Starting\<rparr>, Inr ())" by (simp add: advance_Inr)
    with 1 show ?thesis by (fastforce simp: view_defs)
  next
    case 2
    then have "advance s EvKilled = (\<lparr>js_phase = Finished Killed\<rparr>, Inr ())" by (cases "js_phase s") (auto simp: advance_Inr)
    with 2 show ?thesis by (fastforce simp: view_defs)
  qed
qed

text \<open>
  C19: The detailed job refines the protocol its clients see: each accepted event is a sequence of the
  protocol's own steps (attaching and reaping) between the views of the two states, and a refused event
  leaves the view alone. Conversely, where attaching or reaping changes the view, some event that the job
  accepts makes the same change.
\<close>

theorem job_refines_protocol:
  "(advance s e = (t, Inr ()) \<longrightarrow>
      (\<exists>as. set as \<subseteq> {Attach, Reap} \<and> protocol_run (client_view s) as = Inr (client_view t))) \<and>
   (advance s e = (t, Inl x) \<longrightarrow> client_view t = client_view s) \<and>
   (\<forall>a q. a \<in> {Attach, Reap} \<and> protocol_step (client_view s) a = Inr q \<and> q \<noteq> client_view s \<longrightarrow>
      (\<exists>e u. advance s e = (u, Inr ()) \<and> client_view u = q))"
  using forward_simulation [of s e] backward_simulation [of _ s]
  unfolding advance_Inr advance_Inl by blast

theorem job_refines_protocol_witness:
  "advance accepted_state EvKilled = (\<lparr>js_phase = Finished Killed\<rparr>, Inr ()) \<and>
   (\<exists>as. set as \<subseteq> {Attach, Reap} \<and>
      protocol_run (client_view accepted_state) as = Inr (client_view \<lparr>js_phase = Finished Killed\<rparr>)) \<and>
   (\<exists>e u. advance accepted_state e = (u, Inr ()) \<and> client_view u = PActive)"
proof -
  have "client_view accepted_state = PAccepted" by (simp add: view_defs accepted_state_def)
  then show ?thesis
    using job_refines_protocol [of accepted_state EvKilled "\<lparr>js_phase = Finished Killed\<rparr>"]
    by (fastforce simp: advance_Inr accepted_state_def)
qed

text \<open>
  Jobs persist: no client action ends a job or loses it. Disconnecting changes nothing, submitting
  the same request again changes nothing, another request under the same identity is refused, and only
  reaping an active job finishes it.
\<close>

theorem jobs_persist:
  "protocol_step p Disconnect = Inr p \<and>
   (p \<noteq> PAbsent \<longrightarrow> protocol_step p (Submit True) = Inr p \<and>
      protocol_step p (Submit False) = Inl RefConflict) \<and>
   (\<forall>a q. protocol_step p a = Inr q \<and> p \<noteq> PAbsent \<longrightarrow> q \<noteq> PAbsent) \<and>
   (\<forall>a. protocol_step p a = Inr PFinished \<and> p \<noteq> PFinished \<longrightarrow> p = PActive \<and> a = Reap)"
proof -
  have "q \<noteq> PAbsent" if "protocol_step p a = Inr q" "p \<noteq> PAbsent" for a q
    using that by (cases p; cases a) (auto split: if_splits)
  moreover have "p = PActive \<and> a = Reap" if "protocol_step p a = Inr PFinished" "p \<noteq> PFinished" for a
    using that by (cases p; cases a) (auto split: if_splits)
  ultimately show ?thesis by (cases p) auto
qed

theorem jobs_persist_witness:
  "protocol_step PActive (Submit True) = Inr PActive \<and> protocol_step PActive Reap = Inr PFinished"
  using jobs_persist [of PActive] by simp

text \<open>
  A worker is launched last and only when everything before it succeeded: when reading, decoding or
  validating fails, the launch has no influence on what happened, and a launch is of the very request
  that was read, decoded and validated.
\<close>

theorem handoff_launches_last:
  "(\<forall>f w'. handoff_start read decode validate launch w = (w', Inl f) \<and> hf_phase f \<noteq> PhLaunch \<longrightarrow>
      handoff_start read decode validate launch' w = (w', Inl f)) \<and>
   (\<forall>w'. handoff_start read decode validate launch w = (w', Inr ()) \<longrightarrow>
      (\<exists>w1 w2 w3 bytes request. read w = (w1, Inr bytes) \<and> decode w1 bytes = (w2, Inr request) \<and>
         validate w2 request = (w3, Inr ()) \<and> launch w3 request = (w', Inr ())))"
  by (auto simp: handoff_start_def split: prod.splits sum.splits)

theorem handoff_launches_last_witness:
  "handoff_start (\<lambda>w. (w, Inr ())) (\<lambda>w _. (w, Inr (3::nat))) (\<lambda>w _. (w, Inl ''no'')) (\<lambda>w n. (w + n, Inr ())) (0::nat) =
     (0, Inl \<lparr>hf_phase = PhValidate, hf_cause = ''no''\<rparr>) \<and>
   handoff_start (\<lambda>w. (w, Inr ())) (\<lambda>w _. (w, Inr (3::nat))) (\<lambda>w _. (w, Inl ''no'')) (\<lambda>w n. (w, Inl ''other'')) (0::nat) =
     (0, Inl \<lparr>hf_phase = PhValidate, hf_cause = ''no''\<rparr>)"
  using handoff_launches_last [of "\<lambda>w. (w, Inr ())" "\<lambda>w _. (w, Inr (3::nat))" "\<lambda>w _. (w, Inl ''no'')"
      "\<lambda>w n. (w + n, Inr ())" "0::nat" "\<lambda>w n. (w, Inl ''other'')"]
  by (simp add: handoff_start_def)

text \<open>
  Only a positive identifier names a process group, so a signal never reaches the sender's own
  group (zero) or every process (minus one); the decimal text of a group reads back as the group.
\<close>

theorem process_group_positive:
  "(is_ok (process_group_new v) \<longleftrightarrow> 0 < sint v) \<and>
   (process_group_from_str s = Inr g \<longrightarrow> 0 < sint (group_get g)) \<and>
   (0 < n \<and> n < 2 ^ 31 \<longrightarrow> process_group_from_str (decimal n) = Inr (ProcessGroup (of_nat n)))"
proof -
  have 1: "is_ok (process_group_new v) \<longleftrightarrow> 0 < sint v" for v
    by (auto simp: process_group_new_def)
  have 2: "0 < sint (of_nat n :: i32)" if "0 < n" "n < 2 ^ 31" for n
    using that by (simp add: signed_of_nat signed_take_bit_int_eq_self)
  show ?thesis
    using 1 2 [of n] parse_i32_decimal [of n]
    by (auto simp: process_group_from_str_def result_simps process_group_new_def split: if_splits)
qed

theorem process_group_positive_witness:
  "process_group_from_str ''42'' = Inr (ProcessGroup 42) \<and>
   process_group_from_str ''-1'' = Inl InvalidProcessGroup"
proof -
  have "decimal 42 = ''42''" by code_simp
  then have "process_group_from_str ''42'' = Inr (ProcessGroup 42)"
    using process_group_positive [of 1 "[]" "ProcessGroup 1" 42] by simp
  moreover have "process_group_from_str ''-1'' = Inl InvalidProcessGroup" by code_simp
  ultimately show ?thesis by simp
qed

end
