(* ===== verification/Job_Wire.thy ===== *)
theory Job_Wire
  imports Job_Domain Job_State Chat_Wire
begin

text \<open>
  The node protocol (\<open>wire.rs\<close>) and the one place that decodes it (\<open>ingress.rs\<close>): requests and replies,
  length-prefixed control frames, and the limits every decoder checks before it reads.

  \<open>serde_json\<close> is another crate: its encoder and decoder are arguments of the operations that call
  them, with the error type \<open>'j\<close> for \<open>serde_json::Error\<close>. A frame is a list of bytes.
\<close>

definition MAX_CONTROL_BYTES :: nat where
  "MAX_CONTROL_BYTES = 1048576"

definition MAX_SNAPSHOT_BYTES :: u64 where
  "MAX_SNAPSHOT_BYTES = 67108864"

definition CONTROL_HEADER_BYTES :: nat where
  "CONTROL_HEADER_BYTES = 4"

definition SNAPSHOT_DIGEST_HEX_CHARS :: nat where
  "SNAPSHOT_DIGEST_HEX_CHARS = 64"

datatype build_id = BuildId u64

datatype 'j wire_error = Incomplete | Trailing | TooLarge | SnapshotError | Json 'j

section \<open>Big-endian words\<close>

text \<open>\<open>u32::from_be_bytes\<close> and \<open>u32::to_be_bytes\<close>.\<close>

definition from_be_bytes :: "u8 list \<Rightarrow> u32" where
  "from_be_bytes bs = of_nat (foldl (\<lambda>n b. 256 * n + unat b) 0 bs)"

definition to_be_bytes :: "u32 \<Rightarrow> u8 list" where
  "to_be_bytes w =
     [of_nat (unat w div 256 ^ 3), of_nat (unat w div 256 ^ 2), of_nat (unat w div 256), of_nat (unat w)]"

datatype control_length = ControlLength (control_bytes: nat)

definition control_length_try_from :: "u8 list \<Rightarrow> ('j wire_error, control_length) result" where
  "control_length_try_from header =
     (let len = unat (from_be_bytes header)
      in if len > MAX_CONTROL_BYTES then Inl TooLarge else Inr (ControlLength len))"

section \<open>Messages\<close>

record snapshot =
  snap_bytes :: u64
  snap_digest :: string

definition snapshot_new :: "u64 \<Rightarrow> string \<Rightarrow> ('j wire_error, snapshot) result" where
  "snapshot_new bytes digest =
     (if bytes > MAX_SNAPSHOT_BYTES \<or> length digest \<noteq> SNAPSHOT_DIGEST_HEX_CHARS \<or>
         \<not> list_all hex_lower digest
      then Inl SnapshotError
      else Inr \<lparr>snap_bytes = bytes, snap_digest = digest\<rparr>)"

datatype clean_target = CleanJob job_id | CleanFinished

datatype input = InHome | InSnapshot snapshot

datatype request =
    ReqHello
  | ReqChat chat_request
  | ReqRun submission_id command input
  | ReqList
  | ReqStatus job_id
  | ReqLogs job_id
  | ReqWaitJob job_id
  | ReqKill job_id
  | ReqClean clean_target

datatype error_code =
    InvalidRequest | MissingJob | ConflictingSubmission | Unsupported | CorruptState | ResourceLimitCode
  | Internal

datatype reply =
    RepHello build_id
  | RepChat chat_reply
  | RepAccepted job_id
  | RepJobs "job_id list"
  | RepStatus job_state
  | RepLogs remote_text u64
  | RepCleaned u16
  | RepError error_code

datatype unexpected = Refused error_code | Other

definition reply_unexpected :: "reply \<Rightarrow> unexpected" where
  "reply_unexpected r = (case r of RepError code \<Rightarrow> Refused code | _ \<Rightarrow> Other)"

definition into_hello :: "reply \<Rightarrow> (unexpected, build_id) result" where
  "into_hello r = (case r of RepHello build \<Rightarrow> Inr build | _ \<Rightarrow> Inl (reply_unexpected r))"

definition into_accepted :: "reply \<Rightarrow> (unexpected, job_id) result" where
  "into_accepted r = (case r of RepAccepted job \<Rightarrow> Inr job | _ \<Rightarrow> Inl (reply_unexpected r))"

definition into_jobs :: "reply \<Rightarrow> (unexpected, job_id list) result" where
  "into_jobs r = (case r of RepJobs jobs \<Rightarrow> Inr jobs | _ \<Rightarrow> Inl (reply_unexpected r))"

definition into_status :: "reply \<Rightarrow> (unexpected, job_state) result" where
  "into_status r = (case r of RepStatus state \<Rightarrow> Inr state | _ \<Rightarrow> Inl (reply_unexpected r))"

definition into_logs :: "reply \<Rightarrow> (unexpected, remote_text \<times> u64) result" where
  "into_logs r = (case r of RepLogs t omitted \<Rightarrow> Inr (t, omitted) | _ \<Rightarrow> Inl (reply_unexpected r))"

definition into_cleaned :: "reply \<Rightarrow> (unexpected, u16) result" where
  "into_cleaned r = (case r of RepCleaned count \<Rightarrow> Inr count | _ \<Rightarrow> Inl (reply_unexpected r))"

definition into_chat :: "reply \<Rightarrow> (unexpected, chat_reply) result" where
  "into_chat r = (case r of RepChat reply \<Rightarrow> Inr reply | _ \<Rightarrow> Inl (reply_unexpected r))"

section \<open>Frames\<close>

definition payload :: "u8 list \<Rightarrow> ('j wire_error, u8 list) result" where
  "payload bytes =
     (if length bytes < CONTROL_HEADER_BYTES then Inl Incomplete
      else and_then (control_length_try_from (take CONTROL_HEADER_BYTES bytes)) (\<lambda>len.
        let expected = control_bytes len + CONTROL_HEADER_BYTES
        in if length bytes < expected then Inl Incomplete
           else if length bytes > expected then Inl Trailing
           else Inr (drop CONTROL_HEADER_BYTES bytes)))"

definition frame :: "('t \<Rightarrow> ('j, u8 list) result) \<Rightarrow> 't \<Rightarrow> ('j wire_error, u8 list) result" where
  "frame to_vec message =
     and_then (map_err Json (to_vec message)) (\<lambda>json.
       if length json > MAX_CONTROL_BYTES then Inl TooLarge
       else if length json \<ge> 2 ^ 32 then Inl TooLarge
       else Inr (to_be_bytes (of_nat (length json)) @ json))"

section \<open>Decoding: \<open>ingress.rs\<close>\<close>

definition MAX_FOREIGN_BYTES :: nat where
  "MAX_FOREIGN_BYTES = MAX_CONTROL_BYTES"

datatype 'j json_error = JsonTooLarge nat | JsonInvalid 'j

definition json :: "(u8 list \<Rightarrow> ('j, 't) result) \<Rightarrow> u8 list \<Rightarrow> nat \<Rightarrow> ('j json_error, 't) result" where
  "json from_slice bytes limit =
     (if length bytes > limit then Inl (JsonTooLarge limit)
      else map_err JsonInvalid (from_slice bytes))"

definition decode_payload :: "(u8 list \<Rightarrow> ('j, 't) result) \<Rightarrow> u8 list \<Rightarrow> ('j wire_error, 't) result" where
  "decode_payload from_slice bytes =
     (if length bytes > MAX_CONTROL_BYTES then Inl TooLarge else map_err Json (from_slice bytes))"

definition decode :: "(u8 list \<Rightarrow> ('j, 't) result) \<Rightarrow> u8 list \<Rightarrow> ('j wire_error, 't) result" where
  "decode from_slice bytes = and_then (payload bytes) (decode_payload from_slice)"

definition ingress_request :: "(u8 list \<Rightarrow> ('j, request) result) \<Rightarrow> u8 list \<Rightarrow> ('j wire_error, request) result" where
  "ingress_request from_slice bytes = decode from_slice bytes"

definition ingress_reply :: "(u8 list \<Rightarrow> ('j, reply) result) \<Rightarrow> u8 list \<Rightarrow> ('j wire_error, reply) result" where
  "ingress_reply from_slice bytes = decode from_slice bytes"

definition stored_request ::
  "(u8 list \<Rightarrow> ('j, request) result) \<Rightarrow> u8 list \<Rightarrow> ('j wire_error, request) result" where
  "stored_request from_slice bytes = decode_payload from_slice bytes"

definition stored_job ::
  "(u8 list \<Rightarrow> ('j, job_state) result) \<Rightarrow> u8 list \<Rightarrow> ('j wire_error, job_state) result" where
  "stored_job from_slice bytes =
     (if length bytes > MAX_CONTROL_BYTES then Inl TooLarge else map_err Json (from_slice bytes))"

definition foreign_json :: "(u8 list \<Rightarrow> ('j, 't) result) \<Rightarrow> string \<Rightarrow> ('j json_error, 't) result" where
  "foreign_json from_slice s = json from_slice (map of_char s) MAX_FOREIGN_BYTES"

definition ingress_value :: "('v \<Rightarrow> ('j, 't) result) \<Rightarrow> 'v \<Rightarrow> ('j, 't) result" where
  "ingress_value from_value value = from_value value"

section \<open>Frames round trip\<close>

lemma length_to_be_bytes [simp]: "length (to_be_bytes w) = 4"
  by (simp add: to_be_bytes_def)

lemma be_digits:
  fixes n :: nat
  assumes "n < 4294967296"
  shows "256 * (256 * (256 * (n div 16777216 mod 256) + n div 65536 mod 256) + n div 256 mod 256) +
    n mod 256 = n"
proof -
  have q: "n div 16777216 = n div 65536 div 256" "n div 65536 = n div 256 div 256"
    by (simp_all add: div_mult2_eq [symmetric])
  have "n div 16777216 mod 256 = n div 16777216" using assms by (simp add: less_mult_imp_div_less)
  then have "256 * (n div 16777216 mod 256) + n div 65536 mod 256 = n div 65536" using q by simp
  moreover have "256 * (n div 65536) + n div 256 mod 256 = n div 256" using q by simp
  ultimately show ?thesis by simp
qed

lemma unat_of_nat_byte: "unat (of_nat n :: u8) = n mod 256"
  by (simp add: unat_of_nat take_bit_eq_mod)

lemma from_to_be_bytes [simp]: "from_be_bytes (to_be_bytes w) = w"
proof -
  have "unat w < 4294967296" using unsigned_less [of w, where ?'a = nat] by simp
  moreover have "foldl (\<lambda>n b. 256 * n + unat b) 0 (to_be_bytes w) =
      256 * (256 * (256 * (unat w div 16777216 mod 256) + unat w div 65536 mod 256) +
        unat w div 256 mod 256) + unat w mod 256"
    by (simp only: to_be_bytes_def foldl.simps unat_of_nat_byte) simp
  ultimately have "foldl (\<lambda>n b. 256 * n + unat b) 0 (to_be_bytes w) = unat w"
    by (simp only: be_digits)
  then show ?thesis by (simp add: from_be_bytes_def)
qed

lemma unat_byte: "unat (b :: u8) < 256"
  using unsigned_less [of b, where ?'a = nat] by simp

lemma to_from_be_bytes:
  assumes "length bs = 4"
  shows "to_be_bytes (from_be_bytes bs) = bs"
proof -
  obtain a b c d where bs: "bs = [a, b, c, d]"
    using assms by (auto simp: length_Suc_conv eval_nat_numeral)
  let ?n = "256 * (256 * (256 * unat a + unat b) + unat c) + unat d"
  note lt = unat_byte [of a] unat_byte [of b] unat_byte [of c] unat_byte [of d]
  have snoc: "256 * x + y < 256 * k" "(256 * x + y) div 256 = x" if "x < k" "y < 256" for x y k :: nat
    using that by auto
  have n2: "256 * unat a + unat b < 65536" using snoc(1) [OF lt(1,2)] by simp
  have n3: "256 * (256 * unat a + unat b) + unat c < 16777216" using snoc(1) [OF n2 lt(3)] by simp
  have n: "?n < 4294967296" using snoc(1) [OF n3 lt(4)] by simp
  have d1: "?n div 256 = 256 * (256 * unat a + unat b) + unat c" by (rule snoc(2) [OF n3 lt(4)])
  have d2: "?n div 65536 = 256 * unat a + unat b"
    using div_mult2_eq [of ?n 256 256] d1 snoc(2) [OF n2 lt(3)] by simp
  have d3: "?n div 16777216 = unat a"
    using div_mult2_eq [of ?n 65536 256] d2 snoc(2) [OF lt(1,2)] by simp
  have u: "unat (from_be_bytes bs) = ?n"
    using n by (simp add: bs from_be_bytes_def unat_of_nat take_bit_eq_mod
        del: of_nat_add of_nat_mult)
  have byte: "of_nat (256 * x + unat y) = y" for x and y :: u8
    unfolding word_unat_eq_iff unat_of_nat_byte using unat_byte [of y] by simp
  have p: "256 ^ 3 = (16777216 :: nat)" "256 ^ 2 = (65536 :: nat)" "of_nat (unat a) = a" by simp_all
  show ?thesis by (simp only: to_be_bytes_def u [unfolded bs] p d1 d2 d3 byte bs)
qed

lemma payload_iff:
  "payload f = (Inr p :: ('j wire_error, u8 list) result) \<longleftrightarrow>
     f = to_be_bytes (of_nat (length p)) @ p \<and> length p \<le> MAX_CONTROL_BYTES"
proof
  assume "payload f = (Inr p :: ('j wire_error, u8 list) result)"
  then have f: "length f = unat (from_be_bytes (take 4 f)) + 4" "p = drop 4 f"
    "unat (from_be_bytes (take 4 f)) \<le> MAX_CONTROL_BYTES"
    by (auto simp: payload_def CONTROL_HEADER_BYTES_def result_simps control_length_try_from_def Let_def
        split: if_splits)
  then have "length p = unat (from_be_bytes (take 4 f))" by simp
  then have "from_be_bytes (take 4 f) = of_nat (length p)" by simp
  then have "take 4 f = to_be_bytes (of_nat (length p))" using to_from_be_bytes [of "take 4 f"] f(1) by simp
  with f show "f = to_be_bytes (of_nat (length p)) @ p \<and> length p \<le> MAX_CONTROL_BYTES"
    by (metis append_take_drop_id \<open>length p = unat (from_be_bytes (take 4 f))\<close>)
next
  assume p: "f = to_be_bytes (of_nat (length p)) @ p \<and> length p \<le> MAX_CONTROL_BYTES"
  then have "unat (of_nat (length p) :: u32) = length p"
    by (simp add: unat_of_nat take_bit_eq_mod MAX_CONTROL_BYTES_def)
  with p show "payload f = (Inr p :: ('j wire_error, u8 list) result)"
    by (simp add: payload_def CONTROL_HEADER_BYTES_def control_length_try_from_def Let_def)
qed

lemma frame_iff:
  "frame to_vec t = Inr f \<longleftrightarrow>
     (\<exists>js. to_vec t = Inr js \<and> length js \<le> MAX_CONTROL_BYTES \<and> f = to_be_bytes (of_nat (length js)) @ js)"
  by (cases "to_vec t") (auto simp: frame_def MAX_CONTROL_BYTES_def)

text \<open>
  C23: Frames are read back exactly: the payload of a frame is the encoding that was framed, a byte
  string is a frame of at most one payload, a cut frame is reported incomplete and a frame followed by
  anything is reported as trailing, so no message is ever read from part of another.
\<close>

theorem frame_payload:
  assumes "frame to_vec t = Inr f"
  shows "(\<exists>js. to_vec t = Inr js \<and> payload f = (Inr js :: ('j wire_error, u8 list) result)) \<and>
    (\<forall>n < length f. payload (take n f) = (Inl Incomplete :: ('j wire_error, u8 list) result)) \<and>
    (\<forall>b bs. payload (f @ b # bs) = (Inl Trailing :: ('j wire_error, u8 list) result))"
proof -
  obtain js where js: "to_vec t = Inr js" "length js \<le> MAX_CONTROL_BYTES"
    "f = to_be_bytes (of_nat (length js)) @ js" using assms by (auto simp: frame_iff)
  then have len: "unat (of_nat (length js) :: u32) = length js"
    by (simp add: unat_of_nat take_bit_eq_mod MAX_CONTROL_BYTES_def)
  have "payload (take n f) = (Inl Incomplete :: ('j wire_error, u8 list) result)" if "n < length f" for n
    using js len that
    by (cases "n < 4")
      (auto simp: payload_def CONTROL_HEADER_BYTES_def control_length_try_from_def min_def)
  moreover have "payload (f @ b # bs) = (Inl Trailing :: ('j wire_error, u8 list) result)" for b bs
    using js len by (simp add: payload_def CONTROL_HEADER_BYTES_def control_length_try_from_def)
  ultimately show ?thesis using js by (auto simp: payload_iff)
qed

theorem frame_payload_witness:
  "frame (\<lambda>_. Inr [7, 8]) () = (Inr [0, 0, 0, 2, 7, 8] :: (unit wire_error, u8 list) result) \<and>
   payload [0, 0, 0, 2, 7, 8] = (Inr [7, 8] :: (unit wire_error, u8 list) result) \<and>
   payload [0, 0, 0, 2, 7] = (Inl Incomplete :: (unit wire_error, u8 list) result)"
proof -
  have f: "frame (\<lambda>_. Inr [7, 8]) () = (Inr [0, 0, 0, 2, 7, 8] :: (unit wire_error, u8 list) result)"
    by (simp add: frame_def MAX_CONTROL_BYTES_def to_be_bytes_def)
  note p = frame_payload [OF f]
  have "payload [0, 0, 0, 2, 7, 8] = (Inr [7, 8] :: (unit wire_error, u8 list) result)"
    using p by auto
  moreover have "payload (take 5 [0, 0, 0, 2, 7, 8]) = (Inl Incomplete :: (unit wire_error, u8 list) result)"
    by (rule p [THEN conjunct2, THEN conjunct1, rule_format]) simp
  ultimately show ?thesis using f by simp
qed

text \<open>
  What the protocol relies on in \<open>serde_json\<close>: the decoder reads back what the encoder wrote for the
  value. It is documented behaviour of the crate for the derived implementations of the message types.
\<close>

definition json_roundtrip :: "('t \<Rightarrow> ('j, u8 list) result) \<Rightarrow> (u8 list \<Rightarrow> ('j, 't) result) \<Rightarrow> bool" where
  "json_roundtrip to_vec from_slice \<longleftrightarrow> (\<forall>t js. to_vec t = Inr js \<longrightarrow> from_slice js = Inr t)"

text \<open>What both directions share: a frame decodes to its message, and a message that was decoded was framed.\<close>

lemma decode_frame:
  fixes from_slice :: "u8 list \<Rightarrow> ('j, 'm) result"
  assumes "json_roundtrip to_vec from_slice" "frame to_vec r = Inr f"
  shows "decode from_slice f = Inr r"
proof -
  from assms(2) obtain js where js: "to_vec r = Inr js" "length js \<le> MAX_CONTROL_BYTES"
    "f = to_be_bytes (of_nat (length js)) @ js" by (auto simp: frame_iff)
  then have "payload f = (Inr js :: ('j wire_error, u8 list) result)" by (simp add: payload_iff)
  with js assms(1) show ?thesis by (simp add: decode_def decode_payload_def json_roundtrip_def)
qed

lemma decode_payload_of:
  fixes from_slice :: "u8 list \<Rightarrow> ('j, 'm) result"
  assumes "decode from_slice g = Inr r"
  shows "\<exists>js. payload g = (Inr js :: ('j wire_error, u8 list) result) \<and> length js \<le> MAX_CONTROL_BYTES \<and> from_slice js = Inr r"
  using assms by (auto simp: decode_def decode_payload_def result_simps split: if_splits)

text \<open>
  C24: Requests and replies arrive as they were sent: the node decodes the frame of a request to that request, the
  client the frame of a reply to that reply, and what either decodes is the content of a single frame of at
  most the control limit.
\<close>

theorem messages_arrive:
  fixes request_slice :: "u8 list \<Rightarrow> ('j, request) result" and reply_slice :: "u8 list \<Rightarrow> ('j, reply) result"
  assumes "json_roundtrip request_vec request_slice" "json_roundtrip reply_vec reply_slice"
  shows "(frame request_vec r = Inr f \<longrightarrow> ingress_request request_slice f = Inr r) \<and>
    (frame reply_vec a = Inr f \<longrightarrow> ingress_reply reply_slice f = Inr a) \<and>
    (ingress_request request_slice g = Inr r \<longrightarrow>
       (\<exists>js. payload g = (Inr js :: ('j wire_error, u8 list) result) \<and> length js \<le> MAX_CONTROL_BYTES \<and>
          request_slice js = Inr r)) \<and>
    (ingress_reply reply_slice g = Inr a \<longrightarrow>
       (\<exists>js. payload g = (Inr js :: ('j wire_error, u8 list) result) \<and> length js \<le> MAX_CONTROL_BYTES \<and>
          reply_slice js = Inr a))"
  unfolding ingress_request_def ingress_reply_def
  using decode_frame [OF assms(1)] decode_frame [OF assms(2)] decode_payload_of [of request_slice g r]
    decode_payload_of [of reply_slice g a] by blast

theorem messages_arrive_witness:
  "ingress_request (\<lambda>bs. if bs = [1] then Inr ReqList else Inl ()) [0, 0, 0, 1, 1] = Inr ReqList \<and>
   ingress_reply (\<lambda>bs. if bs = [1] then Inr (RepJobs []) else Inl ()) [0, 0, 0, 1, 1] = Inr (RepJobs [])"
proof -
  let ?e = "\<lambda>r. if r = ReqList then Inr [1 :: u8] else Inl ()" and ?d = "\<lambda>bs. if bs = [1 :: u8] then Inr ReqList else Inl ()"
  let ?e' = "\<lambda>r. if r = RepJobs [] then Inr [1 :: u8] else Inl ()" and ?d' = "\<lambda>bs. if bs = [1 :: u8] then Inr (RepJobs []) else Inl ()"
  have j: "json_roundtrip ?e ?d" "json_roundtrip ?e' ?d'" by (auto simp: json_roundtrip_def split: if_splits)
  have "frame ?e ReqList = Inr [0, 0, 0, 1, 1]" "frame ?e' (RepJobs []) = Inr [0, 0, 0, 1, 1]"
    by (simp_all add: frame_def MAX_CONTROL_BYTES_def to_be_bytes_def)
  with messages_arrive [OF j, of ReqList _ "RepJobs []"] show ?thesis by blast
qed

text \<open>
  A reply is taken for what it is: each accessor gives the content of its own kind of reply, an
  error reply is reported with its code by every accessor, and any other reply is unexpected.
\<close>

theorem replies_checked:
  "(into_accepted r = Inr job \<longleftrightarrow> r = RepAccepted job) \<and> (into_status r = Inr state \<longleftrightarrow> r = RepStatus state) \<and>
   (into_jobs r = Inr jobs \<longleftrightarrow> r = RepJobs jobs) \<and> (into_logs r = Inr (t, n) \<longleftrightarrow> r = RepLogs t n) \<and>
   (into_cleaned r = Inr k \<longleftrightarrow> r = RepCleaned k) \<and> (into_chat r = Inr c \<longleftrightarrow> r = RepChat c) \<and>
   (into_hello r = Inr b \<longleftrightarrow> r = RepHello b) \<and>
   (into_accepted r = Inl (Refused code) \<longleftrightarrow> r = RepError code) \<and>
   (into_status r = Inl (Refused code) \<longleftrightarrow> r = RepError code)"
  by (cases r) (auto simp: into_accepted_def into_status_def into_jobs_def into_logs_def
      into_cleaned_def into_chat_def into_hello_def reply_unexpected_def)

end
