(* ===== verification/Service.thy ===== *)
theory Service
  imports Rust_Str
begin

text \<open>
  Service definitions (\<open>service.rs\<close>): the launchd property list, the systemd unit and the Windows task
  command that start a program at login, and the arguments of \<open>schtasks\<close>.

  The escaped characters are ASCII, so the loops over \<open>chars\<close> run over the bytes: a scalar outside
  ASCII has no byte in common with them and is copied.
\<close>

abbreviation backslash :: char where "backslash \<equiv> CHR 0x5C"
abbreviation dquote :: char where "dquote \<equiv> CHR 0x22"
abbreviation squote :: char where "squote \<equiv> CHR 0x27"
abbreviation newline :: char where "newline \<equiv> CHR 0x0A"
abbreviation tab :: char where "tab \<equiv> CHR 0x09"

definition SCHTASKS_COMMAND_MAX :: nat where
  "SCHTASKS_COMMAND_MAX = 261"

type_synonym escape_table = "(char \<times> string) list"

definition XML :: escape_table where
  "XML =
     [(CHR ''&'', ''&amp;''), (CHR ''<'', ''&lt;''), (CHR ''>'', ''&gt;''), (dquote, ''&quot;''),
      (squote, ''&apos;'')]"

definition EXEC_START :: escape_table where
  "EXEC_START =
     [(backslash, [backslash, backslash]), (dquote, [backslash, dquote]),
      (CHR ''%'', ''%%''), (CHR ''$'', ''$$'')]"

definition SPECIFIERS :: escape_table where
  "SPECIFIERS = [(CHR ''%'', ''%%'')]"

datatype service_error =
    ControlCharacter | EmptyText | SystemdProgram | SystemdDescription | WindowsCommand | CommandTooLong

section \<open>Escaping\<close>

fun find_entry :: "escape_table \<Rightarrow> char \<Rightarrow> string option" where
  "find_entry [] c = None"
| "find_entry ((special, replacement) # table) c =
     (if special = c then Some replacement else find_entry table c)"

definition escape_char :: "escape_table \<Rightarrow> char \<Rightarrow> string" where
  "escape_char table c = (case find_entry table c of Some replacement \<Rightarrow> replacement | None \<Rightarrow> [c])"

definition escape :: "string \<Rightarrow> escape_table \<Rightarrow> string" where
  "escape s table = concat (map (escape_char table) s)"

definition check_service :: "string list \<Rightarrow> string list \<Rightarrow> (service_error, unit) result" where
  "check_service required optional =
     (if list_ex (\<lambda>s. s = []) required then Inl EmptyText
      else if list_ex (\<lambda>s. list_ex (\<lambda>c. is_control c \<or> c = 0xFFFE \<or> c = 0xFFFF) (chars s))
                (required @ optional)
      then Inl ControlCharacter
      else Inr ())"

definition lines :: "string list \<Rightarrow> string" where
  "lines ls = concat (map (\<lambda>l. l @ [newline]) ls)"

section \<open>launchd\<close>

definition launchd_plist ::
  "string \<Rightarrow> string \<Rightarrow> string list \<Rightarrow> string \<Rightarrow> (service_error, string) result" where
  "launchd_plist label program args log =
     and_then (check_service [label, program, log] args) (\<lambda>_.
       let ws = map (\<lambda>w. escape w XML) (program # args);
           arguments = join (''</string>'' @ [newline] @ ''    <string>'') ws;
           label = escape label XML; log = escape log XML
       in Inr (lines
         [''<?xml version='' @ [dquote] @ ''1.0'' @ [dquote] @ '' encoding='' @ [dquote] @ ''UTF-8'' @
            [dquote] @ ''?>'',
          ''<!DOCTYPE plist PUBLIC '' @ [dquote] @ ''-//Apple//DTD PLIST 1.0//EN'' @ [dquote] @ '' '' @
            [dquote] @ ''http://www.apple.com/DTDs/PropertyList-1.0.dtd'' @ [dquote] @ ''>'',
          ''<plist version='' @ [dquote] @ ''1.0'' @ [dquote] @ ''>'',
          ''<dict>'',
          ''  <key>Label</key>'',
          ''  <string>'' @ label @ ''</string>'',
          ''  <key>ProgramArguments</key>'',
          ''  <array>'',
          ''    <string>'' @ arguments @ ''</string>'',
          ''  </array>'',
          ''  <key>RunAtLoad</key>'',
          ''  <true/>'',
          ''  <key>KeepAlive</key>'',
          ''  <true/>'',
          ''  <key>StandardOutPath</key>'',
          ''  <string>'' @ log @ ''</string>'',
          ''  <key>StandardErrorPath</key>'',
          ''  <string>'' @ log @ ''</string>'',
          ''</dict>'',
          ''</plist>'']))"

section \<open>systemd\<close>

definition exec_start_word :: "string \<Rightarrow> string" where
  "exec_start_word word =
     (let escaped = escape word EXEC_START
      in if word = [] \<or> list_ex (\<lambda>c. c \<in> {CHR '' '', dquote, squote, backslash, CHR '';''}) word
         then [dquote] @ escaped @ [dquote]
         else escaped)"

definition systemd_unit :: "string \<Rightarrow> string \<Rightarrow> string list \<Rightarrow> (service_error, string) result" where
  "systemd_unit description program args =
     and_then (check_service [program] (description # args)) (\<lambda>_.
       if (case program of [] \<Rightarrow> True | c # _ \<Rightarrow> c \<noteq> CHR ''/'') \<or> CHR ''$'' \<in> set program
       then Inl SystemdProgram
       else if description \<noteq> [] \<and> last description = backslash then Inl SystemdDescription
       else
         (let ws = map exec_start_word (program # args)
          in Inr (lines
            [''[Unit]'',
             ''Description='' @ escape description SPECIFIERS,
             '''',
             ''[Service]'',
             ''ExecStart='' @ join '' '' ws,
             ''Restart=on-failure'',
             ''KillMode=process'',
             '''',
             ''[Install]'',
             ''WantedBy=default.target''])))"

section \<open>Windows\<close>

text \<open>
  The loop of \<open>push_windows_argument\<close>: what it pushes for the characters, and the number of
  backslashes at the end.
\<close>

fun quote_chars :: "nat \<Rightarrow> string \<Rightarrow> string \<times> nat" where
  "quote_chars backslashes [] = ([], backslashes)"
| "quote_chars backslashes (c # cs) =
     (if c = backslash then apfst (\<lambda>out. c # out) (quote_chars (usize_add backslashes 1) cs)
      else if c = dquote then
        apfst (\<lambda>out. replicate (usize_add backslashes 1) backslash @ c # out) (quote_chars 0 cs)
      else apfst (\<lambda>out. c # out) (quote_chars 0 cs))"

definition push_windows_argument :: "string \<Rightarrow> string \<Rightarrow> string" where
  "push_windows_argument command argument =
     (let quoted = (argument = [] \<or> list_ex (\<lambda>c. c \<in> {CHR '' '', tab}) argument);
          (out, backslashes) = quote_chars 0 argument
      in command @ (if quoted then [dquote] else []) @ out @
         (if quoted then replicate backslashes backslash @ [dquote] else []))"

definition utf16_len :: "string \<Rightarrow> nat" where
  "utf16_len s = sum_list (map (\<lambda>c. if c < 65536 then 1 else 2) (chars s))"

definition windows_task_command :: "string \<Rightarrow> string list \<Rightarrow> (service_error, string) result" where
  "windows_task_command program args =
     and_then (check_service [program] args) (\<lambda>_.
       if dquote \<in> set program \<or> list_ex (\<lambda>w. CHR ''%'' \<in> set w) (program # args)
       then Inl WindowsCommand
       else
         (let command =
            foldl (\<lambda>command argument. push_windows_argument (command @ [CHR '' '']) argument)
              ([dquote] @ program @ [dquote]) args
          in if utf16_len command > SCHTASKS_COMMAND_MAX then Inl CommandTooLong else Inr command))"

definition schtasks_create :: "string \<Rightarrow> string \<Rightarrow> string list" where
  "schtasks_create task command =
     [''/Create'', ''/F'', ''/SC'', ''ONLOGON'', ''/RL'', ''LIMITED'', ''/TN'', task, ''/TR'', command]"

definition schtasks_run :: "string \<Rightarrow> string list" where
  "schtasks_run task = [''/Run'', ''/TN'', task]"

definition schtasks_end :: "string \<Rightarrow> string list" where
  "schtasks_end task = [''/End'', ''/TN'', task]"

definition schtasks_delete :: "string \<Rightarrow> string list" where
  "schtasks_delete task = [''/Delete'', ''/F'', ''/TN'', task]"

definition schtasks_query :: "string \<Rightarrow> string list" where
  "schtasks_query task = [''/Query'', ''/TN'', task]"

section \<open>How Windows reads a command line\<close>

text \<open>
  \<open>windows_argv\<close> of the tests: the documented rules by which a Windows program splits its command line.
  \<open>argv_word\<close> reads one argument from its first character, \<open>windows_argv\<close> all of them.
\<close>

definition is_blank :: "char \<Rightarrow> bool" where
  "is_blank c = (c = CHR '' '' \<or> c = tab)"

lemma dropWhile_shorter: "dropWhile P xs = c # r \<Longrightarrow> length r < length xs"
  using length_dropWhile_le [of P xs] by simp

function argv_word :: "bool \<Rightarrow> string \<Rightarrow> string \<Rightarrow> string \<times> string" where
  "argv_word quoted argument rest =
     (let n = length (takeWhile (\<lambda>c. c = backslash) rest);
          rest' = dropWhile (\<lambda>c. c = backslash) rest
      in case rest' of
           [] \<Rightarrow> (argument @ replicate n backslash, [])
         | c # r \<Rightarrow>
             if c = dquote then
               if odd n then argv_word quoted (argument @ replicate (n div 2) backslash @ [dquote]) r
               else argv_word (\<not> quoted) (argument @ replicate (n div 2) backslash) r
             else if quoted \<or> \<not> is_blank c
             then argv_word quoted (argument @ replicate n backslash @ [c]) r
             else (argument @ replicate n backslash, rest'))"
  by pat_completeness auto
termination
proof (relation "measure (\<lambda>(quoted, argument, rest). length rest)", goal_cases)
  case 1
  then show ?case by simp
qed (auto dest!: dropWhile_shorter [OF sym])

declare argv_word.simps [simp del]

lemma argv_word_step:
  assumes "c \<noteq> backslash"
  shows "argv_word q a (replicate n backslash @ c # r) =
    (if c = dquote then
       if odd n then argv_word q (a @ replicate (n div 2) backslash @ [dquote]) r
       else argv_word (\<not> q) (a @ replicate (n div 2) backslash) r
     else if q \<or> \<not> is_blank c then argv_word q (a @ replicate n backslash @ [c]) r
     else (a @ replicate n backslash, c # r))"
proof -
  have "takeWhile (\<lambda>c. c = backslash) (replicate n backslash @ c # r) = replicate n backslash"
    "dropWhile (\<lambda>c. c = backslash) (replicate n backslash @ c # r) = c # r"
    using assms by (induction n) simp_all
  then show ?thesis by (subst argv_word.simps) (simp only: Let_def list.case length_replicate)
qed

lemma argv_word_end: "argv_word q a (replicate n backslash) = (a @ replicate n backslash, [])"
proof -
  have "takeWhile (\<lambda>c. c = backslash) (replicate n backslash) = replicate n backslash"
    "dropWhile (\<lambda>c. c = backslash) (replicate n backslash) = []"
    by (simp_all add: takeWhile_replicate dropWhile_replicate)
  then show ?thesis by (subst argv_word.simps) (simp only: Let_def list.case length_replicate)
qed

lemma argv_word_stop:
  assumes "t = [] \<or> (\<exists>c r. t = c # r \<and> is_blank c)"
  shows "argv_word False a (replicate n backslash @ t) = (a @ replicate n backslash, t)"
proof (cases t)
  case Nil
  then show ?thesis using argv_word_end by simp
next
  case (Cons c r)
  then have "is_blank c" "c \<noteq> backslash" "c \<noteq> dquote" using assms by (auto simp: is_blank_def)
  with Cons show ?thesis by (simp add: argv_word_step)
qed

lemma argv_word_le: "length (snd (argv_word q a s)) \<le> length s"
proof (induction q a s rule: argv_word.induct)
  case (1 q a s)
  show ?case
  proof (cases "dropWhile (\<lambda>c. c = backslash) s")
    case Nil
    then show ?thesis by (subst argv_word.simps) (simp only: Let_def list.case snd_conv, simp)
  next
    case (Cons c r)
    note lt = dropWhile_shorter [OF Cons]
    note IH = "1.IH" [OF refl refl Cons]
    have "length (snd (argv_word q a s)) \<le> max (length r) (length (c # r))"
      using IH Cons by (subst argv_word.simps) (auto simp: Let_def)
    with lt show ?thesis by simp
  qed
qed

lemma argv_word_less:
  assumes "s \<noteq> []" "\<not> is_blank (hd s)"
  shows "length (snd (argv_word False a s)) < length s"
proof (cases "dropWhile (\<lambda>c. c = backslash) s")
  case Nil
  then show ?thesis
    using assms(1) by (subst argv_word.simps) (simp only: Let_def list.case snd_conv, simp)
next
  case (Cons c r)
  note lt = dropWhile_shorter [OF Cons]
  show ?thesis
  proof (cases "c \<noteq> dquote \<and> is_blank c")
    case True
    then have "s \<noteq> c # r" using assms(2) by auto
    then have "length (c # r) < length s"
      using Cons length_dropWhile_le [of "\<lambda>c. c = backslash" s] dropWhile_eq_self_iff
      by (metis le_neq_implies_less takeWhile_dropWhile_id append_Nil length_append
          add_cancel_left_left length_0_conv)
    then show ?thesis using True Cons by (subst argv_word.simps) (simp add: Let_def)
  next
    case False
    have "length (snd (argv_word False a s)) \<le> length r"
      using False Cons argv_word_le [of _ _ r] by (subst argv_word.simps) (auto simp: Let_def)
    with lt show ?thesis by simp
  qed
qed

function windows_argv :: "string \<Rightarrow> string list" where
  "windows_argv line =
     (case dropWhile is_blank line of
        [] \<Rightarrow> []
      | c # r \<Rightarrow> (let (argument, rest) = argv_word False [] (c # r) in argument # windows_argv rest))"
  by pat_completeness auto
termination
proof (relation "measure length", goal_cases)
  case 1
  then show ?case by simp
next
  case (2 line c r x argument rest)
  then have "\<not> is_blank c" by (metis hd_dropWhile list.distinct(1) list.sel(1))
  then have "length rest < length (c # r)"
    using argv_word_less [of "c # r" "[]"] 2(3) [symmetric] by (simp add: 2(2))
  also have "\<dots> \<le> length line" using 2(1) length_dropWhile_le [of is_blank line] by simp
  finally show ?case by simp
qed

declare windows_argv.simps [simp del]

section \<open>The command line reaches the program\<close>

lemma replicate_snoc: "replicate n x @ x # xs = replicate (Suc n) x @ xs"
  by (induction n) auto

lemma argv_quote:
  assumes "n + length cs \<le> usize_max" "quote_chars n cs = (out, m)"
    and "q \<or> list_all (\<lambda>c. \<not> is_blank c) cs"
  shows "\<exists>pre. replicate n backslash @ cs = pre @ replicate m backslash \<and>
    (\<forall>tail. argv_word q a (replicate n backslash @ out @ tail) =
       argv_word q (a @ pre) (replicate m backslash @ tail))"
  using assms
proof (induction cs arbitrary: n out a)
  case Nil
  then show ?case by (auto intro!: exI [of _ "[]"])
next
  case (Cons c cs)
  have len: "usize_add n 1 = Suc n" using Cons.prems(1) by (simp add: usize_add_def)
  have qs: "q \<or> list_all (\<lambda>c. \<not> is_blank c) cs" using Cons.prems(3) by auto
  consider (bs) "c = backslash" | (dq) "c = dquote" | (other) "c \<noteq> backslash" "c \<noteq> dquote" by blast
  then show ?case
  proof cases
    case bs
    then obtain out' where o: "quote_chars (Suc n) cs = (out', m)" "out = backslash # out'"
      using Cons.prems(2) len by (cases "quote_chars (Suc n) cs") auto
    from Cons.IH [OF _ o(1) qs, of a] Cons.prems(1) bs o(2) show ?thesis
      by (simp add: replicate_snoc)
  next
    case dq
    then obtain out' where o: "quote_chars 0 cs = (out', m)"
      "out = replicate (Suc n) backslash @ dquote # out'"
      using Cons.prems(2) len by (cases "quote_chars 0 cs") auto
    have step: "argv_word q a (replicate n backslash @ out @ tail) =
        argv_word q (a @ replicate n backslash @ [dquote]) (out' @ tail)" for tail
    proof -
      have eq: "replicate n backslash @ out @ tail = replicate (n + Suc n) backslash @ dquote # out' @ tail"
        using o(2) by (simp add: replicate_add replicate_append_same)
      show ?thesis
        unfolding eq using argv_word_step [of dquote q a "n + Suc n" "out' @ tail"]
        by (simp del: replicate_Suc)
    qed
    from Cons.IH [OF _ o(1) qs, of "a @ replicate n backslash @ [dquote]"] Cons.prems(1)
    obtain pre where pre: "cs = pre @ replicate m backslash"
      "\<forall>tail. argv_word q (a @ replicate n backslash @ [dquote]) (out' @ tail) =
        argv_word q ((a @ replicate n backslash @ [dquote]) @ pre) (replicate m backslash @ tail)" by auto
    show ?thesis
      by (rule exI [of _ "replicate n backslash @ [dquote] @ pre"]) (use step pre dq in simp)
  next
    case other
    then obtain out' where o: "quote_chars 0 cs = (out', m)" "out = c # out'"
      using Cons.prems(2) by (cases "quote_chars 0 cs") auto
    have "q \<or> \<not> is_blank c" using Cons.prems(3) by auto
    then have step: "argv_word q a (replicate n backslash @ out @ tail) =
        argv_word q (a @ replicate n backslash @ [c]) (out' @ tail)" for tail
      using argv_word_step [OF other(1), of q a n "out' @ tail"] other(2) o(2) by simp
    from Cons.IH [OF _ o(1) qs, of "a @ replicate n backslash @ [c]"] Cons.prems(1)
    obtain pre where pre: "cs = pre @ replicate m backslash"
      "\<forall>tail. argv_word q (a @ replicate n backslash @ [c]) (out' @ tail) =
        argv_word q ((a @ replicate n backslash @ [c]) @ pre) (replicate m backslash @ tail)" by auto
    show ?thesis
      by (rule exI [of _ "replicate n backslash @ [c] @ pre"]) (use step pre in simp)
  qed
qed

lemma argv_word_open: "argv_word False a (dquote # s) = argv_word True a s"
  using argv_word_step [of dquote False a 0 s] by simp

lemma argv_word_close:
  assumes "t = [] \<or> (\<exists>c r. t = c # r \<and> is_blank c)"
  shows "argv_word True a (replicate m backslash @ replicate m backslash @ dquote # t) =
    (a @ replicate m backslash, t)"
proof -
  have "argv_word True a (replicate (m + m) backslash @ dquote # t) =
      argv_word False (a @ replicate m backslash) t"
    using argv_word_step [of dquote True a "m + m" t] by simp
  then show ?thesis
    using argv_word_stop [OF assms, of "a @ replicate m backslash" 0] by (simp add: replicate_add)
qed

lemma argv_argument:
  assumes "length arg \<le> usize_max" and t: "t = [] \<or> (\<exists>c r. t = c # r \<and> is_blank c)"
  shows "argv_word False [] (push_windows_argument [] arg @ t) = (arg, t)"
proof -
  obtain out m where o: "quote_chars 0 arg = (out, m)" by fastforce
  show ?thesis
  proof (cases "arg = [] \<or> list_ex (\<lambda>c. c \<in> {CHR '' '', tab}) arg")
    case True
    from argv_quote [of 0 arg out m True "[]"] assms(1) o
    obtain pre where pre: "arg = pre @ replicate m backslash"
      "argv_word True [] (out @ replicate m backslash @ dquote # t) =
         argv_word True pre (replicate m backslash @ replicate m backslash @ dquote # t)" by auto
    from True have "push_windows_argument [] arg = dquote # out @ replicate m backslash @ [dquote]"
      using o by (simp add: push_windows_argument_def)
    with pre argv_word_close [OF t] show ?thesis by (simp add: argv_word_open)
  next
    case False
    then have nb: "list_all (\<lambda>c. \<not> is_blank c) arg" by (auto simp: list_all_iff list_ex_iff is_blank_def)
    from argv_quote [of 0 arg out m False "[]"] assms(1) o nb
    obtain pre where pre: "arg = pre @ replicate m backslash"
      "argv_word False [] (out @ t) = argv_word False pre (replicate m backslash @ t)" by auto
    from False have "push_windows_argument [] arg = out"
      using o by (simp add: push_windows_argument_def)
    with pre argv_word_stop [OF t] show ?thesis by simp
  qed
qed

lemma quote_chars_plain:
  "dquote \<notin> set cs \<Longrightarrow> fst (quote_chars n cs) = cs \<and>
     (snd (quote_chars n cs) = (if cs = [] then n else if last cs = backslash then snd (quote_chars n cs) else 0))"
  by (induction cs arbitrary: n) (auto split: prod.splits)

lemma push_head: "push_windows_argument [] a \<noteq> [] \<and> \<not> is_blank (hd (push_windows_argument [] a))"
proof (cases "a = [] \<or> list_ex (\<lambda>c. c \<in> {CHR '' '', tab}) a")
  case True
  then show ?thesis
    by (cases "quote_chars 0 a") (simp add: push_windows_argument_def is_blank_def)
next
  case False
  then obtain c cs where c: "a = c # cs" "\<not> is_blank c" by (cases a) (auto simp: is_blank_def)
  with False show ?thesis
    by (cases "quote_chars (Suc 0) cs"; cases "quote_chars 0 cs")
      (auto simp: push_windows_argument_def is_blank_def usize_add_def usize_max_def)
qed

lemma windows_argv_word:
  assumes "s \<noteq> []" "\<not> is_blank (hd s)" "argv_word False [] (s @ t) = (w, t)"
  shows "windows_argv (s @ t) = w # windows_argv t" "windows_argv (CHR '' '' # s @ t) = w # windows_argv t"
proof -
  obtain c r where s: "s = c # r" using assms(1) by (cases s) auto
  then have d: "\<not> is_blank c" using assms(2) by simp
  show "windows_argv (s @ t) = w # windows_argv t"
    using assms(3) s by (subst windows_argv.simps) (simp add: d)
  have "is_blank (CHR '' '')" by (simp add: is_blank_def)
  then show "windows_argv (CHR '' '' # s @ t) = w # windows_argv t"
    using assms(3) s by (subst windows_argv.simps) (simp add: d)
qed

definition argument_tail :: "string list \<Rightarrow> string" where
  "argument_tail args = concat (map (\<lambda>a. CHR '' '' # push_windows_argument [] a) args)"

lemma argument_tail_start: "argument_tail args = [] \<or> (\<exists>c r. argument_tail args = c # r \<and> is_blank c)"
  by (cases args) (auto simp: argument_tail_def is_blank_def)

lemma windows_argv_tail:
  "\<forall>a \<in> set args. length a \<le> usize_max \<Longrightarrow> windows_argv (argument_tail args) = args"
proof (induction args)
  case Nil
  then show ?case by (subst windows_argv.simps) (simp add: argument_tail_def)
next
  case (Cons a args)
  have "argument_tail (a # args) = CHR '' '' # push_windows_argument [] a @ argument_tail args"
    by (simp add: argument_tail_def)
  moreover have "argv_word False [] (push_windows_argument [] a @ argument_tail args) = (a, argument_tail args)"
    using Cons.prems argument_tail_start by (intro argv_argument) auto
  ultimately show ?case
    using windows_argv_word(2) [of "push_windows_argument [] a"] push_head Cons by simp
qed

lemma push_windows_argument_append:
  "push_windows_argument command a = command @ push_windows_argument [] a"
  by (cases "quote_chars 0 a") (simp add: push_windows_argument_def Let_def)

lemma windows_command_text:
  "foldl (\<lambda>command a. push_windows_argument (command @ [CHR '' '']) a) c args = c @ argument_tail args"
proof (induction args arbitrary: c)
  case (Cons a args)
  have "push_windows_argument (c @ [CHR '' '']) a = c @ CHR '' '' # push_windows_argument [] a"
    using push_windows_argument_append [of "c @ [CHR '' '']" a] by simp
  with Cons show ?case by (simp add: argument_tail_def)
qed (simp add: argument_tail_def)

lemma windows_program:
  assumes "program \<noteq> []" "dquote \<notin> set program" "last program \<noteq> backslash" "length program \<le> usize_max"
    and t: "t = [] \<or> (\<exists>c r. t = c # r \<and> is_blank c)"
  shows "argv_word False [] (([dquote] @ program @ [dquote]) @ t) = (program, t)"
proof -
  have "quote_chars 0 program = (program, 0)"
    using quote_chars_plain [OF assms(2), of 0] assms(1,3) by (cases "quote_chars 0 program") auto
  from argv_quote [of 0 program program 0 True "[]"] this assms(4)
  have "argv_word True [] (program @ dquote # t) = argv_word True program (dquote # t)" by auto
  also have "\<dots> = (program, t)" using argv_word_close [OF t, of program 0] by simp
  finally show ?thesis by (simp add: argv_word_open)
qed

text \<open>
  The documented rules of the C runtime for a whole command line: in the first word, the program, a quotation mark only
  switches quotation on and off and a backslash is a character like any other; \<open>windows_argv\<close> reads the rest.
\<close>

fun program_word :: "bool \<Rightarrow> string \<Rightarrow> string \<times> string" where
  "program_word quoted [] = ([], [])"
| "program_word quoted (c # rest) =
     (if c = dquote then program_word (\<not> quoted) rest
      else if \<not> quoted \<and> is_blank c then ([], c # rest)
      else apfst (\<lambda>word. c # word) (program_word quoted rest))"

definition command_argv :: "string \<Rightarrow> string list" where
  "command_argv line = (let (program, rest) = program_word False line in program # windows_argv rest)"

lemma program_word_quoted:
  "dquote \<notin> set program \<Longrightarrow> t = [] \<or> (\<exists>c r. t = c # r \<and> is_blank c) \<Longrightarrow>
     program_word True (program @ dquote # t) = (program, t)"
  by (induction program) (auto simp: is_blank_def)

text \<open>
  C20: The Windows task runs the program with exactly its arguments: split by the documented rules, the
  command line that was built is the program followed by the arguments, whatever blanks, quotes and
  runs of backslashes the arguments hold and whatever accepted characters the program does; and it fits the limit
  of \<open>schtasks\<close>. The reader of the unit tests, which escapes with backslashes in the program too, agrees unless the
  program ends in a backslash. (A string of the code has at most \<open>usize::MAX\<close> bytes.)
\<close>

theorem windows_command_reaches_program:
  assumes "windows_task_command program args = Inr command" "\<forall>a \<in> set (program # args). length a \<le> usize_max"
  shows "command_argv command = program # args \<and> utf16_len command \<le> SCHTASKS_COMMAND_MAX \<and>
    (last program \<noteq> backslash \<longrightarrow> windows_argv command = program # args)"
proof -
  have c: "command = ([dquote] @ program @ [dquote]) @ argument_tail args"
    "utf16_len command \<le> SCHTASKS_COMMAND_MAX" "dquote \<notin> set program" "program \<noteq> []"
    using assms(1)
    by (auto simp: windows_task_command_def result_simps windows_command_text check_service_def Let_def
        split: if_splits)
  have tail: "windows_argv (argument_tail args) = args" using windows_argv_tail [of args] assms(2) by simp
  then have "command_argv command = program # args"
    using program_word_quoted [OF c(3) argument_tail_start [of args]] by (simp add: command_argv_def c(1))
  moreover have "windows_argv command = program # args" if "last program \<noteq> backslash"
  proof -
    have "argv_word False [] (([dquote] @ program @ [dquote]) @ argument_tail args) = (program, argument_tail args)"
      using windows_program c(3,4) that assms(2) argument_tail_start by simp
    then have "windows_argv command = program # windows_argv (argument_tail args)"
      unfolding c(1) by (intro windows_argv_word(1)) (auto simp: is_blank_def)
    then show ?thesis using tail by simp
  qed
  ultimately show ?thesis using c(2) by blast
qed

theorem windows_command_reaches_program_witness:
  "\<exists>command. windows_task_command ''p'' [''a b'', [backslash]] = Inr command \<and>
     command_argv command = [''p'', ''a b'', [backslash]] \<and> windows_argv command = [''p'', ''a b'', [backslash]]"
proof -
  have "is_ok (windows_task_command ''p'' [''a b'', [backslash]])"
    by (simp add: windows_task_command_def check_service_def chars_def is_control_def
        push_windows_argument_def utf16_len_def SCHTASKS_COMMAND_MAX_def usize_add_def usize_max_def)
  then obtain command where c: "windows_task_command ''p'' [''a b'', [backslash]] = Inr command"
    by (auto simp: is_ok_iff)
  from windows_command_reaches_program [OF c] c show ?thesis by (simp add: usize_max_def)
qed

section \<open>Escaped text\<close>

text \<open>What an XML reader makes of the five entities.\<close>

fun xml_text :: "string \<Rightarrow> string" where
  "xml_text [] = []"
| "xml_text (c # s) =
     (if take 5 (c # s) = ''&amp;'' then CHR ''&'' # xml_text (drop 5 (c # s))
      else if take 4 (c # s) = ''&lt;'' then CHR ''<'' # xml_text (drop 4 (c # s))
      else if take 4 (c # s) = ''&gt;'' then CHR ''>'' # xml_text (drop 4 (c # s))
      else if take 6 (c # s) = ''&quot;'' then dquote # xml_text (drop 6 (c # s))
      else if take 6 (c # s) = ''&apos;'' then squote # xml_text (drop 6 (c # s))
      else c # xml_text s)"

lemma xml_char:
  "xml_text (escape_char XML c @ s) = c # xml_text s"
  by (auto simp: escape_char_def XML_def)

lemma xml_char_plain: "c' \<in> set (escape_char XML c) \<Longrightarrow> c' \<notin> {CHR ''<'', CHR ''>'', dquote, squote}"
  by (auto simp: escape_char_def XML_def split: if_splits)

text \<open>What systemd makes of a word: specifiers and variables first undone, then backslashes.\<close>

fun exec_text :: "string \<Rightarrow> string" where
  "exec_text (c # d # s) =
     (if c = backslash \<or> c = CHR ''%'' \<or> c = CHR ''$'' then d # exec_text s else c # exec_text (d # s))"
| "exec_text s = s"

lemma exec_char: "exec_text (escape_char EXEC_START c @ s) = c # exec_text s"
  by (cases s) (auto simp: escape_char_def EXEC_START_def)

text \<open>
  Escaped text means itself: an XML reader gives back the text that was escaped for the property
  list, which holds no angle bracket and no quote that could end its element; and a word escaped for
  \<open>ExecStart\<close> stands for itself.
\<close>

theorem escape_roundtrip:
  "xml_text (escape s XML) = s \<and> set (escape s XML) \<inter> {CHR ''<'', CHR ''>'', dquote, squote} = {} \<and>
   exec_text (escape s EXEC_START) = s"
proof -
  have "xml_text (escape s XML) = s" by (induction s) (simp_all add: escape_def xml_char)
  moreover have "exec_text (escape s EXEC_START) = s" by (induction s) (simp_all add: escape_def exec_char)
  moreover have "set (escape s XML) \<inter> {CHR ''<'', CHR ''>'', dquote, squote} = {}"
    using xml_char_plain by (fastforce simp: escape_def)
  ultimately show ?thesis by blast
qed

end
