(* ===== verification/Resource_Policy.thy ===== *)
theory Resource_Policy
  imports Prelude
begin

text \<open>
  Resource limits of jobs (\<open>resource_budget.rs\<close>, \<open>resource_policy.rs\<close>) and the admission of captured
  output (\<open>capture_policy.rs\<close>).
\<close>

record budget =
  bud_concurrent :: u32
  bud_high :: u64
  bud_max :: u64
  bud_swap :: u64

definition budget_valid :: "budget \<Rightarrow> bool" where
  "budget_valid b =
     (bud_concurrent b > 0 \<and> bud_concurrent b \<le> 2 \<and> bud_high b > 0 \<and> bud_high b < bud_max b \<and>
      bud_max b \<le> 11 * 1024 * 1024 * 1024 \<and> bud_swap b \<le> 2 * 1024 * 1024 * 1024)"

datatype policy = Policy (policy_budget: budget)

record raw_policy =
  raw_version :: u32
  raw_max_concurrent_jobs :: u32
  raw_slice :: string
  raw_memory_high_bytes :: u64
  raw_memory_max_bytes :: u64
  raw_memory_swap_max_bytes :: u64

datatype invalid_policy = InvalidPolicy

definition policy_try_from :: "raw_policy \<Rightarrow> (invalid_policy, policy) result" where
  "policy_try_from raw =
     (let budget =
        \<lparr>bud_concurrent = raw_max_concurrent_jobs raw, bud_high = raw_memory_high_bytes raw,
         bud_max = raw_memory_max_bytes raw, bud_swap = raw_memory_swap_max_bytes raw\<rparr>
      in if raw_version raw = 1 \<and> raw_slice raw = ''domyjob.slice'' \<and> budget_valid budget
         then Inr (Policy budget) else Inl InvalidPolicy)"

definition raw_policy_from :: "policy \<Rightarrow> raw_policy" where
  "raw_policy_from p =
     \<lparr>raw_version = 1, raw_max_concurrent_jobs = bud_concurrent (policy_budget p),
      raw_slice = ''domyjob.slice'', raw_memory_high_bytes = bud_high (policy_budget p),
      raw_memory_max_bytes = bud_max (policy_budget p),
      raw_memory_swap_max_bytes = bud_swap (policy_budget p)\<rparr>"

datatype capture_policy = Prefix | Complete

datatype capture_admission = Accept | RefuseTruncated

definition admit_capture :: "capture_policy \<Rightarrow> u64 \<Rightarrow> capture_admission" where
  "admit_capture policy omitted =
     (case policy of
        Prefix \<Rightarrow> Accept
      | Complete \<Rightarrow> if omitted = 0 then Accept else RefuseTruncated)"

section \<open>Properties\<close>

lemma policy_roundtrip:
  "policy_try_from raw = Inr p \<longleftrightarrow> raw = raw_policy_from p \<and> budget_valid (policy_budget p)"
  by (cases raw; cases p; cases "policy_budget p")
    (auto simp: policy_try_from_def raw_policy_from_def Let_def)

text \<open>
  C34: A policy is read exactly from its stored form, and every policy in force bounds the machine: all
  its jobs together, each at its memory and swap limit, use at most 26 GiB, without any sum wrapping.
\<close>

theorem policy_bounds:
  "(policy_try_from raw = Inr p \<longleftrightarrow> raw = raw_policy_from p \<and> budget_valid (policy_budget p)) \<and>
   (budget_valid b \<longrightarrow>
      unat (bud_concurrent b) * (unat (bud_max b) + unat (bud_swap b)) \<le> 26 * 1024 ^ 3 \<and>
      unat (bud_max b + bud_swap b) = unat (bud_max b) + unat (bud_swap b) \<and>
      1 \<le> unat (bud_concurrent b))"
proof -
  have "unat (bud_concurrent b) * (unat (bud_max b) + unat (bud_swap b)) \<le> 26 * 1024 ^ 3 \<and>
      unat (bud_max b + bud_swap b) = unat (bud_max b) + unat (bud_swap b) \<and> 1 \<le> unat (bud_concurrent b)"
    if "budget_valid b"
  proof -
    have b: "1 \<le> unat (bud_concurrent b)" "unat (bud_concurrent b) \<le> 2" "unat (bud_max b) \<le> 11811160064"
      "unat (bud_swap b) \<le> 2147483648"
      using that by (simp_all add: budget_valid_def word_le_nat_alt word_less_nat_alt)
    then have "unat (bud_max b) + unat (bud_swap b) \<le> 13958643712" by linarith
    then have "unat (bud_concurrent b) * (unat (bud_max b) + unat (bud_swap b)) \<le> 2 * 13958643712"
      using b(2) mult_le_mono by blast
    moreover have "unat (bud_max b + bud_swap b) = unat (bud_max b) + unat (bud_swap b)"
      using b by (intro unat_add_lem [THEN iffD1]) simp
    ultimately show ?thesis using b by simp
  qed
  with policy_roundtrip show ?thesis by blast
qed

theorem policy_bounds_witness:
  "budget_valid \<lparr>bud_concurrent = 2, bud_high = 5, bud_max = 6, bud_swap = 7\<rparr> \<and>
   unat (2 :: u32) * (unat (6 :: u64) + unat (7 :: u64)) \<le> 26 * 1024 ^ 3"
proof -
  have v: "budget_valid \<lparr>bud_concurrent = 2, bud_high = 5, bud_max = 6, bud_swap = 7\<rparr>"
    by (simp add: budget_valid_def word_le_nat_alt word_less_nat_alt)
  with policy_bounds [of "raw_policy_from p" p "\<lparr>bud_concurrent = 2, bud_high = 5, bud_max = 6, bud_swap = 7\<rparr>" for p]
  show ?thesis by simp
qed

end
