(* ===== verification/Source_Paths.thy ===== *)
theory Source_Paths
  imports Job_Wire
begin

text \<open>
  Which files of a working copy a snapshot holds (\<open>source_paths.rs\<close>): the list of tracked paths, as
  version control prints it with a zero byte after each path, is read within a byte, file and path
  budget; paths with a component that is version-control metadata (\<open>source_paths/metadata.rs\<close>) are
  left out; and the length of a file that is read must be the one announced
  (\<open>source_paths/read_length.rs\<close>).
\<close>

definition MAX_FILES :: nat where
  "MAX_FILES = 100000"

definition MAX_PATH_BYTES :: nat where
  "MAX_PATH_BYTES = 16777216"

definition MAX_TRACKED_BYTES :: nat where
  "MAX_TRACKED_BYTES = MAX_PATH_BYTES + MAX_FILES"

definition MAX_RECORD_BYTES :: nat where
  "MAX_RECORD_BYTES = 4096"

datatype tracked_error =
    TrackedCapacity | TrackedEmpty | TrackedUnterminated | TrackedNotUtf8
  | TrackedInvalid domain_invalid

datatype tracked_list = TrackedPaths (tracked_items: "relative_path list")

section \<open>Metadata components\<close>

definition to_ascii_lowercase :: "char \<Rightarrow> char" where
  "to_ascii_lowercase c = (if is_ascii_uppercase c then char_of (byte c + 32) else c)"

definition metadata_bytes :: "string \<Rightarrow> bool" where
  "metadata_bytes component =
     (case component of
        [_, _, _] \<Rightarrow> map to_ascii_lowercase component \<in> {''.jj'', ''.hg'', ''cvs''}
      | [_, _, _, _] \<Rightarrow> map to_ascii_lowercase component \<in> {''.git'', ''.svn'', ''.bzr''}
      | [_, _, _, _, _, _] \<Rightarrow> map to_ascii_lowercase component \<in> {''.pijul'', ''_darcs''}
      | _ \<Rightarrow> False)"

definition metadata_component :: "string \<Rightarrow> bool" where
  "metadata_component component = metadata_bytes component"

text \<open>The loop of \<open>metadata::metadata_path\<close> over the ends of components, with the start of the current one.\<close>

function metadata_scan :: "string \<Rightarrow> nat \<Rightarrow> nat \<Rightarrow> bool" where
  "metadata_scan bytes first end =
     (if end > length bytes then False
      else if end = length bytes \<or> bytes ! end = CHR ''/'' then
        first \<le> end \<and> metadata_bytes (take (end - first) (drop first bytes)) \<or>
        metadata_scan bytes (usize_add end 1) (Suc end)
      else metadata_scan bytes first (Suc end))"
  by pat_completeness auto
termination
  by (relation "measure (\<lambda>(bytes, first, end). Suc (length bytes) - end)") auto

declare metadata_scan.simps [simp del]

definition metadata_path :: "relative_path \<Rightarrow> bool" where
  "metadata_path path = metadata_scan (path_str path) 0 0"

section \<open>The budget\<close>

record path_budget =
  pb_bytes :: nat
  pb_records :: nat
  pb_record_bytes :: nat
  pb_path_bytes :: nat

definition path_budget_default :: path_budget where
  "path_budget_default = \<lparr>pb_bytes = 0, pb_records = 0, pb_record_bytes = 0, pb_path_bytes = 0\<rparr>"

datatype boundary = BoundaryByte | BoundaryPath

definition budget_advance :: "path_budget \<Rightarrow> char \<Rightarrow> (tracked_error, path_budget \<times> boundary) result" where
  "budget_advance b x =
     and_then (ok_or TrackedCapacity (usize_checked_add (pb_bytes b) 1)) (\<lambda>bytes.
       if bytes > MAX_TRACKED_BYTES \<or> pb_records b \<ge> MAX_FILES then Inl TrackedCapacity
       else if x = CHR 0x00 then
         (if pb_record_bytes b = 0 then Inl TrackedEmpty
          else and_then (ok_or TrackedCapacity (usize_checked_add (pb_records b) 1)) (\<lambda>records.
            Inr (\<lparr>pb_bytes = bytes, pb_records = records, pb_record_bytes = 0,
                  pb_path_bytes = pb_path_bytes b\<rparr>, BoundaryPath)))
       else
         and_then (ok_or TrackedCapacity (usize_checked_add (pb_record_bytes b) 1)) (\<lambda>record_bytes.
         and_then (ok_or TrackedCapacity (usize_checked_add (pb_path_bytes b) 1)) (\<lambda>path_bytes.
           if record_bytes > MAX_RECORD_BYTES \<or> path_bytes > MAX_PATH_BYTES then Inl TrackedCapacity
           else Inr (\<lparr>pb_bytes = bytes, pb_records = pb_records b, pb_record_bytes = record_bytes,
                      pb_path_bytes = path_bytes\<rparr>, BoundaryByte))))"

definition budget_finish :: "path_budget \<Rightarrow> (tracked_error, unit) result" where
  "budget_finish b = (if pb_record_bytes b = 0 then Inr () else Inl TrackedUnterminated)"

section \<open>Reading the list\<close>

text \<open>The loop of \<open>tracked_paths\<close> over the bytes, with its three variables.\<close>

fun tracked_loop ::
  "path_budget \<Rightarrow> string \<Rightarrow> relative_path list \<Rightarrow> string
     \<Rightarrow> (tracked_error, path_budget \<times> string \<times> relative_path list) result" where
  "tracked_loop budget record paths [] = Inr (budget, record, paths)"
| "tracked_loop budget record paths (x # bytes) =
     and_then (budget_advance budget x) (\<lambda>(budget, boundary).
       case boundary of
         BoundaryByte \<Rightarrow> tracked_loop budget (record @ [x]) paths bytes
       | BoundaryPath \<Rightarrow>
           if \<not> valid_utf8 record then Inl TrackedNotUtf8
           else and_then (map_err TrackedInvalid (relative_path_try_from record)) (\<lambda>path.
             tracked_loop budget [] (if metadata_path path then paths else paths @ [path]) bytes))"

definition tracked_paths :: "string \<Rightarrow> (tracked_error, tracked_list) result" where
  "tracked_paths bytes =
     (if length bytes > MAX_TRACKED_BYTES then Inl TrackedCapacity
      else and_then (tracked_loop path_budget_default [] [] bytes) (\<lambda>(budget, _, paths).
        and_then (budget_finish budget) (\<lambda>_. Inr (TrackedPaths paths))))"

section \<open>Lengths of files that are read\<close>

datatype read_length = ReadLength (read_len: u64)

definition read_length_new :: "u64 \<Rightarrow> read_length option" where
  "read_length_new n = (if n \<le> MAX_SNAPSHOT_BYTES then Some (ReadLength n) else None)"

definition read_length_limit :: "read_length \<Rightarrow> u64" where
  "read_length_limit l = saturating_add (read_len l) 1"

definition read_length_matches :: "read_length \<Rightarrow> u64 \<Rightarrow> bool" where
  "read_length_matches l actual = (read_len l = actual)"

section \<open>Properties\<close>

text \<open>The scan for metadata looks at exactly the components of the path.\<close>

lemma split_at_no_sep: "c \<notin> set w \<Longrightarrow> split_at c w = [w]"
  by (induction w) auto

lemma split_at_append: "c \<notin> set w \<Longrightarrow> split_at c (w @ c # s) = w # split_at c s"
  by (induction w) (auto split: list.splits)

lemma metadata_scan_iff:
  assumes "first \<le> end" "end \<le> length s" "length s < usize_max"
    and "CHR ''/'' \<notin> set (take (end - first) (drop first s))"
  shows "metadata_scan s first end \<longleftrightarrow> list_ex metadata_bytes (split_at (CHR ''/'') (drop first s))"
  using assms
proof (induction s first "end" rule: metadata_scan.induct)
  case (1 s first "end")
  have w: "drop first s = take (end - first) (drop first s) @ drop end s"
    using "1.prems"(1) by (metis append_take_drop_id drop_drop le_add_diff_inverse2)
  show ?case
  proof (cases "end = length s")
    case True
    then have "metadata_scan s (usize_add end 1) (Suc end) = False"
      by (subst metadata_scan.simps) simp
    then show ?thesis
      using True w split_at_no_sep [OF "1.prems"(4)] "1.prems"(1) by (subst metadata_scan.simps) auto
  next
    case neq: False
    then have e: "end < length s" using "1.prems"(2) by simp
    then have d: "drop end s = s ! end # drop (Suc end) s" by (rule Cons_nth_drop_Suc [symmetric])
    show ?thesis
    proof (cases "s ! end = CHR ''/''")
      case True
      have u: "usize_add end 1 = Suc end" using e "1.prems"(3) by (simp add: usize_add_def)
      have "split_at (CHR ''/'') (drop first s) =
          take (end - first) (drop first s) # split_at (CHR ''/'') (drop (Suc end) s)"
        using split_at_append [OF "1.prems"(4)] w d True by metis
      moreover have "metadata_scan s (Suc end) (Suc end) \<longleftrightarrow>
          list_ex metadata_bytes (split_at (CHR ''/'') (drop (Suc end) s))"
        using "1.IH"(1) True e "1.prems"(3) u by simp
      ultimately show ?thesis using True e "1.prems"(1) u by (subst metadata_scan.simps) simp
    next
      case False
      have "take (Suc end - first) (drop first s) = take (end - first) (drop first s) @ [s ! end]"
        using e "1.prems"(1) by (simp add: Suc_diff_le take_Suc_conv_app_nth)
      then show ?thesis
        using "1.IH"(2) False neq e "1.prems" by (subst metadata_scan.simps) simp
    qed
  qed
qed

lemma metadata_path_iff:
  "length p < usize_max \<Longrightarrow>
     metadata_path (RelativePath p) \<longleftrightarrow> (\<exists>w \<in> set (split_at (CHR ''/'') p). metadata_component w)"
  using metadata_scan_iff [of 0 0 p]
  by (simp add: metadata_path_def metadata_component_def list_ex_iff)

text \<open>A record of the list, the bytes of a list of records, and what may be a record.\<close>

definition record_bytes :: "string \<Rightarrow> string" where
  "record_bytes r = r @ [CHR 0x00]"

definition good_record :: "string \<Rightarrow> bool" where
  "good_record r = (CHR 0x00 \<notin> set r \<and> valid_utf8 r \<and> check_relative_path r = Inr ())"

definition source_paths :: "string list \<Rightarrow> relative_path list" where
  "source_paths rs = filter (\<lambda>p. \<not> metadata_path p) (map RelativePath rs)"

definition source_path :: "string \<Rightarrow> relative_path list" where
  "source_path r = (if metadata_path (RelativePath r) then [] else [RelativePath r])"

lemma source_paths_simps:
  "source_paths [] = []" "source_paths (r # rs) = source_path r @ source_paths rs"
  by (simp_all add: source_paths_def source_path_def)

lemma check_relative_path_size: "check_relative_path r = Inr () \<Longrightarrow> r \<noteq> [] \<and> length r \<le> 4096"
  by (auto simp: check_relative_path_def split: if_splits)

lemma records_cons:
  assumes "CHR 0x00 \<notin> set r" "\<forall>t \<in> set rs. CHR 0x00 \<notin> set t"
  shows "r @ CHR 0x00 # bs = concat (map record_bytes rs) \<longleftrightarrow>
    (\<exists>ts. rs = r # ts \<and> bs = concat (map record_bytes ts))"
proof (cases rs)
  case (Cons t ts)
  have "r @ CHR 0x00 # bs = t @ CHR 0x00 # concat (map record_bytes ts) \<longleftrightarrow>
      r = t \<and> bs = concat (map record_bytes ts)"
    using assms Cons split_once_Some [of "CHR 0x00" "r @ CHR 0x00 # bs"]
    by (metis list.set_intros(1) option.inject prod.inject)
  then show ?thesis using Cons by (auto simp: record_bytes_def)
qed simp

lemma records_none:
  assumes "CHR 0x00 \<notin> set r"
  shows "r = concat (map record_bytes rs) \<longleftrightarrow> r = [] \<and> rs = []"
  using assms by (cases rs) (auto simp: record_bytes_def)

lemma good_records_cons:
  assumes "CHR 0x00 \<notin> set r"
  shows "(\<exists>rs. r @ CHR 0x00 # bs = concat (map record_bytes rs) \<and> list_all good_record rs \<and> P rs) \<longleftrightarrow>
    good_record r \<and> (\<exists>ts. bs = concat (map record_bytes ts) \<and> list_all good_record ts \<and> P (r # ts))"
    (is "?lhs \<longleftrightarrow> ?rhs")
proof
  assume ?lhs
  then obtain rs where rs: "r @ CHR 0x00 # bs = concat (map record_bytes rs)" "list_all good_record rs" "P rs"
    by blast
  moreover have "\<forall>t \<in> set rs. CHR 0x00 \<notin> set t" using rs(2) by (auto simp: list_all_iff good_record_def)
  ultimately show ?rhs using records_cons [OF assms, of rs bs] by auto
next
  assume ?rhs
  then obtain ts where "good_record r" "bs = concat (map record_bytes ts)" "list_all good_record ts" "P (r # ts)"
    by blast
  then show ?lhs by (intro exI [of _ "r # ts"]) (simp add: record_bytes_def)
qed

lemma relative_path_ok:
  "relative_path_try_from r = Inr p \<longleftrightarrow> check_relative_path r = Inr () \<and> p = RelativePath r"
  by (auto simp: relative_path_try_from_def result_simps)

text \<open>What the budget has counted when \<open>n\<close> records of \<open>q\<close> bytes and the bytes \<open>r\<close> of another were read.\<close>

definition counted :: "nat \<Rightarrow> nat \<Rightarrow> string \<Rightarrow> path_budget" where
  "counted n q r =
     \<lparr>pb_bytes = n + q + length r, pb_records = n, pb_record_bytes = length r,
      pb_path_bytes = q + length r\<rparr>"

lemma counted_default: "path_budget_default = counted 0 0 []"
  by (simp add: path_budget_default_def counted_def)

lemmas limits = MAX_FILES_def MAX_PATH_BYTES_def MAX_TRACKED_BYTES_def MAX_RECORD_BYTES_def usize_max_def

lemma advance_byte:
  assumes "n \<le> MAX_FILES" "q + length r \<le> MAX_PATH_BYTES" "x \<noteq> CHR 0x00"
  shows "budget_advance (counted n q r) x =
    (if n < MAX_FILES \<and> length r < MAX_RECORD_BYTES \<and> q + length r < MAX_PATH_BYTES
     then Inr (counted n q (r @ [x]), BoundaryByte) else Inl TrackedCapacity)"
  using assms by (auto simp: budget_advance_def counted_def usize_checked_add_def limits)

lemma advance_zero:
  assumes "n \<le> MAX_FILES" "q + length r \<le> MAX_PATH_BYTES"
  shows "budget_advance (counted n q r) (CHR 0x00) =
    (if n \<ge> MAX_FILES then Inl TrackedCapacity else if r = [] then Inl TrackedEmpty
     else Inr (counted (Suc n) (q + length r) [], BoundaryPath))"
  using assms by (auto simp: budget_advance_def counted_def usize_checked_add_def limits)

lemma tracked_loop_iff:
  assumes "n \<le> MAX_FILES" "q + length r \<le> MAX_PATH_BYTES" "length r \<le> MAX_RECORD_BYTES" "CHR 0x00 \<notin> set r"
  shows "(\<exists>b. tracked_loop (counted n q r) r ps bs = Inr (b, [], ps')) \<longleftrightarrow>
    (\<exists>rs. r @ bs = concat (map record_bytes rs) \<and> list_all good_record rs \<and> n + length rs \<le> MAX_FILES \<and>
       q + sum_list (map length rs) \<le> MAX_PATH_BYTES \<and> ps' = ps @ source_paths rs)"
  using assms
proof (induction bs arbitrary: n q r ps)
  case Nil
  then show ?case by (auto simp: records_none source_paths_def)
next
  case (Cons x bs)
  note ok = Cons.prems
  show ?case
  proof (cases "x = CHR 0x00")
    case False
    have guard: "n < MAX_FILES \<and> length r < MAX_RECORD_BYTES \<and> q + length r < MAX_PATH_BYTES"
      if rs: "r @ x # bs = concat (map record_bytes rs)" "list_all good_record rs" "n + length rs \<le> MAX_FILES"
        "q + sum_list (map length rs) \<le> MAX_PATH_BYTES" for rs
    proof -
      obtain t ts where t: "rs = t # ts" using rs(1) by (cases rs) auto
      then have z: "CHR 0x00 \<notin> set t" "length t \<le> MAX_RECORD_BYTES"
        using rs(2) check_relative_path_size by (auto simp: good_record_def MAX_RECORD_BYTES_def)
      have "r @ x # bs = t @ CHR 0x00 # concat (map record_bytes ts)"
        using rs(1) t by (simp add: record_bytes_def)
      then have "length r < length t"
        using False ok(4) z(1) by (auto simp: append_eq_append_conv2 Cons_eq_append_conv append_eq_Cons_conv)
      then show ?thesis using rs(3,4) t z(2) by simp
    qed
    show ?thesis
    proof (cases "n < MAX_FILES \<and> length r < MAX_RECORD_BYTES \<and> q + length r < MAX_PATH_BYTES")
      case True
      then show ?thesis
        using Cons.IH [of n q "r @ [x]" ps] ok False by (simp add: advance_byte)
    next
      case g: False
      then have "tracked_loop (counted n q r) r ps (x # bs) = Inl TrackedCapacity"
        using ok False by (auto simp: advance_byte)
      then show ?thesis using guard g by (metis Inl_Inr_False)
    qed
  next
    case True
    have rs: "(\<exists>rs. r @ x # bs = concat (map record_bytes rs) \<and> list_all good_record rs \<and> P rs) \<longleftrightarrow>
        good_record r \<and> (\<exists>ts. bs = concat (map record_bytes ts) \<and> list_all good_record ts \<and> P (r # ts))" for P
      using good_records_cons [OF ok(4)] True by simp
    have step: "tracked_loop (counted n q r) r ps (x # bs) = Inr (b, [], ps') \<longleftrightarrow>
        n < MAX_FILES \<and> good_record r \<and>
        tracked_loop (counted (Suc n) (q + length r) []) [] (ps @ source_path r) bs = Inr (b, [], ps')" for b
      using True ok check_relative_path_size [of r]
      by (auto simp: advance_zero result_simps relative_path_ok good_record_def source_path_def)
    show ?thesis
    proof (cases "n < MAX_FILES")
      case True
      then show ?thesis
        using Cons.IH [of "Suc n" "q + length r" "[]" "ps @ source_path r"] ok
        by (simp add: step rs source_paths_simps add.assoc del: tracked_loop.simps)
    next
      case False
      then show ?thesis by (simp add: step rs del: tracked_loop.simps)
    qed
  qed
qed

lemma tracked_loop_shape:
  assumes "n \<le> MAX_FILES" "q + length r \<le> MAX_PATH_BYTES" "CHR 0x00 \<notin> set r"
    and "tracked_loop (counted n q r) r ps bs = Inr (b, t, ps')"
  shows "\<exists>k p. b = counted k p t \<and> k \<le> MAX_FILES \<and> p + length t \<le> MAX_PATH_BYTES \<and>
    k + p + length t = n + q + length r + length bs"
  using assms
proof (induction bs arbitrary: n q r ps)
  case Nil
  then show ?case by auto
next
  case (Cons x bs)
  show ?case
  proof (cases "x = CHR 0x00")
    case True
    then have "n < MAX_FILES" "tracked_loop (counted (Suc n) (q + length r) []) []
        (if metadata_path (RelativePath r) then ps else ps @ [RelativePath r]) bs = Inr (b, t, ps')"
      using Cons.prems by (auto simp: advance_zero result_simps relative_path_ok split: if_splits)
    then show ?thesis
      using Cons.IH [of "Suc n" "q + length r" "[]"] Cons.prems(2) by (auto simp: add.assoc)
  next
    case False
    then have "n < MAX_FILES" "q + length r < MAX_PATH_BYTES"
      "tracked_loop (counted n q (r @ [x])) (r @ [x]) ps bs = Inr (b, t, ps')"
      using Cons.prems by (auto simp: advance_byte result_simps split: if_splits)
    then show ?thesis using Cons.IH [of n q "r @ [x]"] Cons.prems(3) False by auto
  qed
qed

lemma records_size: "length (concat (map record_bytes rs)) = length rs + sum_list (map length rs)"
  by (induction rs) (auto simp: record_bytes_def)

text \<open>
  C35: The tracked paths are read exactly: a list is accepted if and only if it is a sequence of
  zero-terminated valid paths, at most \<open>MAX_FILES\<close> of them and \<open>MAX_PATH_BYTES\<close> in all; and the result
  is those paths, in order, without the ones that have a version-control component in any case of
  letters. A cut list, an empty entry and anything that is not a portable path are refused.
\<close>

theorem tracked_paths_exact:
  "tracked_paths bytes = Inr (TrackedPaths ps) \<longleftrightarrow>
     (\<exists>rs. bytes = concat (map (\<lambda>r. r @ [CHR 0x00]) rs) \<and>
        list_all (\<lambda>r. CHR 0x00 \<notin> set r \<and> valid_utf8 r \<and> is_ok (relative_path_try_from r)) rs \<and>
        length rs \<le> MAX_FILES \<and> sum_list (map length rs) \<le> MAX_PATH_BYTES \<and>
        ps = map RelativePath
          (filter (\<lambda>r. \<not> list_ex metadata_component (split_at (CHR ''/'') r)) rs))"
proof -
  have f: "source_paths rs = map RelativePath
      (filter (\<lambda>r. \<not> list_ex metadata_component (split_at (CHR ''/'') r)) rs)"
    if "list_all good_record rs" for rs
    using that
  proof (induction rs)
    case (Cons r rs)
    then have "length r < usize_max"
      using check_relative_path_size by (fastforce simp: good_record_def usize_max_def)
    then show ?case using Cons by (simp add: source_paths_def metadata_path_iff list_ex_iff)
  qed (simp add: source_paths_def)
  have g: "(CHR 0x00 \<notin> set r \<and> valid_utf8 r \<and> is_ok (relative_path_try_from r)) = good_record r" for r
    by (auto simp: good_record_def is_ok_iff relative_path_ok)
  have d: "concat (map (\<lambda>r. r @ [CHR 0x00]) rs) = concat (map record_bytes rs)" for rs
    by (simp add: record_bytes_def [abs_def])
  have e: "pb_record_bytes b = 0 \<longleftrightarrow> t = []" if "tracked_loop (counted 0 0 []) [] [] bytes = Inr (b, t, ps')" for b t ps'
    using tracked_loop_shape [OF _ _ _ that] by (auto simp: counted_def)
  have fin: "and_then (tracked_loop path_budget_default [] [] bytes) (\<lambda>(budget, _, paths).
        and_then (budget_finish budget) (\<lambda>_. Inr (TrackedPaths paths))) = Inr (TrackedPaths ps) \<longleftrightarrow>
      (\<exists>b. tracked_loop (counted 0 0 []) [] [] bytes = Inr (b, [], ps))"
  proof (cases "tracked_loop (counted 0 0 []) [] [] bytes")
    case (Inr z)
    obtain b t ps' where z: "z = (b, t, ps')" by (cases z)
    show ?thesis using Inr e [of b t ps'] z by (simp add: counted_default budget_finish_def)
  qed (simp add: counted_default)
  have len: "length (concat (map record_bytes rs)) \<le> MAX_TRACKED_BYTES"
    if "length rs \<le> MAX_FILES" "sum_list (map length rs) \<le> MAX_PATH_BYTES" for rs
    using that by (simp add: records_size MAX_TRACKED_BYTES_def)
  have "tracked_paths bytes = Inr (TrackedPaths ps) \<longleftrightarrow>
      length bytes \<le> MAX_TRACKED_BYTES \<and> (\<exists>b. tracked_loop (counted 0 0 []) [] [] bytes = Inr (b, [], ps))"
    using fin by (simp add: tracked_paths_def)
  also have "\<dots> \<longleftrightarrow> length bytes \<le> MAX_TRACKED_BYTES \<and>
      (\<exists>rs. bytes = concat (map record_bytes rs) \<and> list_all good_record rs \<and> length rs \<le> MAX_FILES \<and>
         sum_list (map length rs) \<le> MAX_PATH_BYTES \<and> ps = source_paths rs)"
    using tracked_loop_iff [of 0 0 "[]" "[]" bytes ps] by (simp add: MAX_RECORD_BYTES_def)
  also have "\<dots> \<longleftrightarrow>
      (\<exists>rs. bytes = concat (map record_bytes rs) \<and> list_all good_record rs \<and> length rs \<le> MAX_FILES \<and>
         sum_list (map length rs) \<le> MAX_PATH_BYTES \<and> ps = source_paths rs)"
    using len by auto
  also have "\<dots> \<longleftrightarrow>
      (\<exists>rs. bytes = concat (map record_bytes rs) \<and> list_all good_record rs \<and> length rs \<le> MAX_FILES \<and>
         sum_list (map length rs) \<le> MAX_PATH_BYTES \<and>
         ps = map RelativePath (filter (\<lambda>r. \<not> list_ex metadata_component (split_at (CHR ''/'') r)) rs))"
    using f by (intro ex_cong1) auto
  finally show ?thesis unfolding g d .
qed






end
