(* ===== verification/Dashboard.thy ===== *)
theory Dashboard
  imports Job_Domain
begin

text \<open>
  The state and layout of the terminal dashboard (\<open>dashboard.rs\<close> and \<open>dashboard/geometry.rs\<close>):
  navigation over rows, the selection kept across refreshes, generations of refreshes, freshness, the
  restoration of the terminal, text as it may be shown, and the geometry of the frame.
\<close>

section \<open>Views and navigation\<close>

definition MAX_ROWS :: nat where
  "MAX_ROWS = 256"

definition MAX_QUERY_BYTES :: nat where
  "MAX_QUERY_BYTES = 128"

definition STALE_MILLIS :: u64 where
  "STALE_MILLIS = 30000"

definition MIN_VIEW_WIDTH :: u16 where
  "MIN_VIEW_WIDTH = 32"

definition MIN_VIEW_HEIGHT :: u16 where
  "MIN_VIEW_HEIGHT = 10"

definition SPLIT_VIEW_WIDTH :: u16 where
  "SPLIT_VIEW_WIDTH = 76"

definition SIDEBAR_VIEW_WIDTH :: u16 where
  "SIDEBAR_VIEW_WIDTH = 112"

datatype viewport_kind = ViewMinimal | ViewCompact | ViewSplit | ViewSidebar

definition viewport :: "u16 \<Rightarrow> u16 \<Rightarrow> viewport_kind" where
  "viewport width height =
     (if width < MIN_VIEW_WIDTH \<or> height < MIN_VIEW_HEIGHT then ViewMinimal
      else if width < SPLIT_VIEW_WIDTH then ViewCompact
      else if width < SIDEBAR_VIEW_WIDTH then ViewSplit
      else ViewSidebar)"

datatype dashboard_section = SecMachines | SecAgents | SecChats

fun section_next :: "dashboard_section \<Rightarrow> dashboard_section" where
  "section_next SecMachines = SecAgents"
| "section_next SecAgents = SecChats"
| "section_next SecChats = SecMachines"

datatype movement = MovePrevious | MoveNext | MoveFirst | MoveLast

definition navigate :: "nat option \<Rightarrow> nat \<Rightarrow> movement \<Rightarrow> nat option" where
  "navigate selected count movement =
     (if count = 0 then None
      else let last_row = count - 1;
               inside = (case selected of Some index \<Rightarrow> index < count | None \<Rightarrow> False);
               current = (case selected of Some c \<Rightarrow> if c < count then c else 0 | None \<Rightarrow> 0)
           in case movement of
                MovePrevious \<Rightarrow> Some (current - 1)
              | MoveNext \<Rightarrow>
                  if \<not> inside then Some 0
                  else let next_row = usize_add current 1
                       in Some (if next_row > last_row then last_row else next_row)
              | MoveFirst \<Rightarrow> Some 0
              | MoveLast \<Rightarrow> Some last_row)"

datatype identity_match = IdExact | IdDifferent

definition retained_selection :: "identity_match \<Rightarrow> nat \<Rightarrow> nat \<Rightarrow> nat option" where
  "retained_selection identity position count =
     (if identity = IdExact \<and> position < count then Some position else None)"

definition viewing_identity :: "identity_match \<Rightarrow> bool \<Rightarrow> bool" where
  "viewing_identity identity registered = (identity = IdExact \<and> registered)"

definition selection_after_refresh :: "bool \<Rightarrow> nat option \<Rightarrow> nat \<Rightarrow> nat option" where
  "selection_after_refresh had_selection retained count =
     (case retained of
        Some position \<Rightarrow>
          if position < count then Some position
          else if had_selection then None
          else navigate None count MoveFirst
      | None \<Rightarrow> if had_selection then None else navigate None count MoveFirst)"

datatype freshness_kind = FreshUnknown | Fresh u64 | Stale u64

definition freshness :: "u64 option \<Rightarrow> u64 option \<Rightarrow> u64 \<Rightarrow> freshness_kind" where
  "freshness observed now limit =
     (case (observed, now) of
        (Some observed, Some now) \<Rightarrow>
          (case checked_sub now observed of
             None \<Rightarrow> FreshUnknown
           | Some elapsed \<Rightarrow> if elapsed \<ge> limit then Stale elapsed else Fresh elapsed)
      | _ \<Rightarrow> FreshUnknown)"

section \<open>Generations of refreshes\<close>

record refresh =
  refresh_accepted :: u64
  refresh_pending :: "u64 option"

definition refresh_default :: refresh where
  "refresh_default = \<lparr>refresh_accepted = 0, refresh_pending = None\<rparr>"

definition refresh_request :: "refresh \<Rightarrow> refresh \<times> u64 option" where
  "refresh_request r =
     (if refresh_pending r \<noteq> None then (r, None)
      else case checked_add (refresh_accepted r) 1 of
        None \<Rightarrow> (r, None)
      | Some generation \<Rightarrow> (r\<lparr>refresh_pending := Some generation\<rparr>, Some generation))"

definition refresh_complete :: "refresh \<Rightarrow> u64 \<Rightarrow> refresh \<times> bool" where
  "refresh_complete r generation =
     (if refresh_pending r \<noteq> Some generation \<or> generation \<le> refresh_accepted r then (r, False)
      else (r\<lparr>refresh_accepted := generation, refresh_pending := None\<rparr>, True))"

definition refresh_complete_view :: "refresh \<Rightarrow> u64 \<Rightarrow> identity_match \<Rightarrow> refresh \<times> bool" where
  "refresh_complete_view r generation scope =
     (let (r', done) = refresh_complete r generation in (r', done \<and> scope = IdExact))"

section \<open>Restoring the terminal\<close>

datatype terminal_stage = Untouched | RawAttempted | ScreenAttempted | CursorAttempted

datatype restore = RestoreCursor | RestoreScreen | RestoreRaw

definition stage_owns :: "terminal_stage \<Rightarrow> restore \<Rightarrow> bool" where
  "stage_owns stage restore =
     (case restore of
        RestoreCursor \<Rightarrow> stage = CursorAttempted
      | RestoreScreen \<Rightarrow> stage = ScreenAttempted \<or> stage = CursorAttempted
      | RestoreRaw \<Rightarrow> stage \<noteq> Untouched)"

section \<open>Text on the dashboard\<close>

datatype display_kind = Literal nat | Escaped nat

definition display_char :: "nat \<Rightarrow> display_kind" where
  "display_char c =
     (if is_control c \<or> (0x202A \<le> c \<and> c \<le> 0x202E) \<or> (0x2066 \<le> c \<and> c \<le> 0x2069) \<or> c = 0x200E \<or> c = 0x200F
      then Escaped c else Literal c)"

datatype display_text = DisplayText (display_str: string)

definition display :: "string \<Rightarrow> display_text" where
  "display s =
     DisplayText (utf8 (concat (map (\<lambda>c.
       case display_char c of Literal d \<Rightarrow> [d] | Escaped d \<Rightarrow> escape_default d) (chars s))))"

definition query_admits :: "nat \<Rightarrow> nat \<Rightarrow> bool" where
  "query_admits used c =
     ((case display_char c of Literal _ \<Rightarrow> True | Escaped _ \<Rightarrow> False) \<and>
      (case usize_checked_add used (len_utf8 c) of Some tot \<Rightarrow> tot \<le> MAX_QUERY_BYTES | None \<Rightarrow> False))"

definition query_push :: "string \<Rightarrow> nat \<Rightarrow> string \<times> bool" where
  "query_push query c =
     (if \<not> query_admits (length query) c then (query, False) else (query @ utf8 [c], True))"

section \<open>Geometry\<close>

definition MAX_COLUMNS :: u16 where
  "MAX_COLUMNS = 512"

definition MAX_LINES :: u16 where
  "MAX_LINES = 256"

definition MAX_GLYPH_BYTES :: nat where
  "MAX_GLYPH_BYTES = 128"

definition PERCENT :: u32 where
  "PERCENT = 100"

datatype equality = Same | Different

definition equality_new :: "bool \<Rightarrow> equality" where
  "equality_new same = (if same then Same else Different)"

datatype paint = PaintUnchanged | PaintChangedRows | PaintResize

definition paint_plan :: "equality \<Rightarrow> equality \<Rightarrow> paint" where
  "paint_plan frame_same extent_same =
     (if extent_same = Different then PaintResize
      else if frame_same = Same then PaintUnchanged
      else PaintChangedRows)"

datatype geometry_refusal = GeoCapacity | GeoGlyph | GeoOutside

record extent =
  ext_width :: u16
  ext_height :: u16

record rect =
  rect_x :: u16
  rect_y :: u16
  rect_width :: u16
  rect_height :: u16

record placement =
  place_index :: nat
  place_next :: u16

datatype glyph = Glyph (glyph_columns: u16)

definition extent_new :: "u16 \<Rightarrow> u16 \<Rightarrow> (geometry_refusal, extent) result" where
  "extent_new width height =
     (if width > MAX_COLUMNS \<or> height > MAX_LINES then Inl GeoCapacity
      else Inr \<lparr>ext_width = width, ext_height = height\<rparr>)"

definition rect_new :: "u16 \<Rightarrow> u16 \<Rightarrow> u16 \<Rightarrow> u16 \<Rightarrow> rect" where
  "rect_new x y width height = \<lparr>rect_x = x, rect_y = y, rect_width = width, rect_height = height\<rparr>"

definition extent_area :: "extent \<Rightarrow> rect" where
  "extent_area e = rect_new 0 0 (ext_width e) (ext_height e)"

definition usize_mul :: "nat \<Rightarrow> nat \<Rightarrow> nat" where
  "usize_mul a b = min (a * b) usize_max"

definition extent_cells :: "extent \<Rightarrow> nat" where
  "extent_cells e = usize_mul (unat (ext_width e)) (unat (ext_height e))"

definition extent_place :: "extent \<Rightarrow> u16 \<Rightarrow> u16 \<Rightarrow> glyph \<Rightarrow> (geometry_refusal, placement) result" where
  "extent_place e x y glyph =
     and_then (ok_or GeoOutside (checked_add x (glyph_columns glyph))) (\<lambda>next_x.
       if y \<ge> ext_height e \<or> next_x > ext_width e then Inl GeoOutside
       else Inr \<lparr>place_index = usize_add (usize_mul (unat y) (unat (ext_width e))) (unat x),
                 place_next = next_x\<rparr>)"

definition glyph_new :: "nat \<Rightarrow> nat \<Rightarrow> (geometry_refusal, glyph) result" where
  "glyph_new columns bytes =
     (if bytes = 0 \<or> bytes > MAX_GLYPH_BYTES then Inl GeoGlyph
      else if columns = 1 then Inr (Glyph 1)
      else if columns = 2 then Inr (Glyph 2)
      else Inl GeoGlyph)"

definition rect_clip :: "rect \<Rightarrow> extent \<Rightarrow> rect" where
  "rect_clip r e =
     (let x = (if rect_x r < ext_width e then rect_x r else ext_width e);
          y = (if rect_y r < ext_height e then rect_y r else ext_height e);
          width = saturating_sub (ext_width e) x;
          height = saturating_sub (ext_height e) y
      in \<lparr>rect_x = x, rect_y = y,
          rect_width = (if rect_width r < width then rect_width r else width),
          rect_height = (if rect_height r < height then rect_height r else height)\<rparr>)"

definition rect_columns :: "rect \<Rightarrow> u16 \<Rightarrow> rect \<times> rect" where
  "rect_columns r first =
     (let first = (if first < rect_width r then first else rect_width r)
      in (r\<lparr>rect_width := first\<rparr>,
          r\<lparr>rect_x := saturating_add (rect_x r) first, rect_width := saturating_sub (rect_width r) first\<rparr>))"

definition rect_rows :: "rect \<Rightarrow> u16 \<Rightarrow> rect \<times> rect" where
  "rect_rows r first =
     (let first = (if first < rect_height r then first else rect_height r)
      in (r\<lparr>rect_height := first\<rparr>,
          r\<lparr>rect_y := saturating_add (rect_y r) first, rect_height := saturating_sub (rect_height r) first\<rparr>))"

definition rect_inset :: "rect \<Rightarrow> rect" where
  "rect_inset r =
     \<lparr>rect_x = (if rect_width r = 0 then rect_x r else saturating_add (rect_x r) 1),
      rect_y = (if rect_height r = 0 then rect_y r else saturating_add (rect_y r) 1),
      rect_width = saturating_sub (saturating_sub (rect_width r) 1) 1,
      rect_height = saturating_sub (saturating_sub (rect_height r) 1) 1\<rparr>"

definition share :: "u16 \<Rightarrow> u8 \<Rightarrow> u16 option" where
  "share tot percent =
     (if ucast percent > PERCENT then None
      else let scaled = saturating_mul (ucast tot :: u32) (ucast percent) div PERCENT
           in if scaled < 2 ^ 16 then Some (ucast scaled) else None)"

definition rect_centered :: "rect \<Rightarrow> u8 \<Rightarrow> u8 \<Rightarrow> rect option" where
  "rect_centered r width_percent height_percent =
     Option.bind (share (rect_width r) width_percent) (\<lambda>width.
     Option.bind (share (rect_height r) height_percent) (\<lambda>height.
       Some \<lparr>rect_x = saturating_add (rect_x r) (saturating_sub (rect_width r) width div 2),
             rect_y = saturating_add (rect_y r) (saturating_sub (rect_height r) height div 2),
             rect_width = width, rect_height = height\<rparr>))"

section \<open>Refreshes\<close>

text \<open>The generations accepted while refreshes are requested and answers arrive, in any order and number.\<close>

datatype refresh_op = OpRequest | OpComplete u64

fun refresh_run :: "refresh \<Rightarrow> refresh_op list \<Rightarrow> u64 list" where
  "refresh_run r [] = []"
| "refresh_run r (OpRequest # ops) = refresh_run (fst (refresh_request r)) ops"
| "refresh_run r (OpComplete g # ops) =
     (let (r', ok) = refresh_complete r g in (if ok then [g] else []) @ refresh_run r' ops)"

definition refresh_ok :: "refresh \<Rightarrow> bool" where
  "refresh_ok r =
     (refresh_pending r = None \<or>
      refresh_accepted r \<noteq> - 1 \<and> refresh_pending r = Some (refresh_accepted r + 1))"

lemma refresh_request_ok:
  "refresh_ok r \<Longrightarrow> refresh_ok (fst (refresh_request r)) \<and>
     refresh_accepted (fst (refresh_request r)) = refresh_accepted r"
  by (auto simp: refresh_ok_def refresh_request_def checked_succ split: option.split)

lemma refresh_complete_ok:
  assumes "refresh_ok r"
  shows "refresh_complete r g =
    (if refresh_pending r = Some g \<and> refresh_accepted r \<noteq> - 1 \<and> g = refresh_accepted r + 1
     then (\<lparr>refresh_accepted = g, refresh_pending = None\<rparr>, True) else (r, False))"
proof -
  have "\<not> refresh_accepted r + 1 \<le> refresh_accepted r" if "refresh_accepted r \<noteq> - 1"
    using that by (simp add: word_le_nat_alt unat_succ)
  then show ?thesis using assms by (cases r) (auto simp: refresh_ok_def refresh_complete_def)
qed

lemma refresh_run_counts:
  "refresh_ok r \<Longrightarrow> \<exists>n. unat (refresh_accepted r) \<le> n \<and>
     refresh_run r ops = map of_nat [Suc (unat (refresh_accepted r))..<Suc n]"
proof (induction r ops rule: refresh_run.induct)
  case (1 r)
  then show ?case by (intro exI [of _ "unat (refresh_accepted r)"]) simp
next
  case (2 r ops)
  then show ?case using refresh_request_ok by fastforce
next
  case (3 r g ops)
  show ?case
  proof (cases "refresh_pending r = Some g \<and> refresh_accepted r \<noteq> - 1 \<and> g = refresh_accepted r + 1")
    case True
    let ?r = "\<lparr>refresh_accepted = g, refresh_pending = None\<rparr>"
    have c: "refresh_complete r g = (?r, True)" using True refresh_complete_ok [OF 3(2)] by simp
    have g: "unat g = Suc (unat (refresh_accepted r))" using True by (simp add: unat_succ)
    obtain n where n: "unat g \<le> n" "refresh_run ?r ops = map of_nat [Suc (unat g)..<Suc n]"
      using 3(1) [OF c [symmetric] refl] by (auto simp: refresh_ok_def)
    have "[Suc (unat (refresh_accepted r))..<Suc n] = unat g # [Suc (unat g)..<Suc n]"
      using g n(1) upt_conv_Cons [of "unat g" "Suc n"] by simp
    then have "refresh_run r (OpComplete g # ops) = map of_nat [Suc (unat (refresh_accepted r))..<Suc n]"
      using c n(2) by simp
    then show ?thesis using g n(1) by (intro exI [of _ n]) linarith
  next
    case False
    then have c: "refresh_complete r g = (r, False)" using refresh_complete_ok [OF 3(2)] by auto
    then show ?thesis using 3(1) [OF c [symmetric] refl 3(2)] by simp
  qed
qed

text \<open>
  Refreshes are shown in order: however requests and answers interleave, and however often an
  answer is repeated or arrives late, the generations accepted are one, two, three and so on without
  a gap, and an answer to anything but the pending request changes nothing.
\<close>

theorem refreshes_in_order:
  "(\<exists>n. refresh_run refresh_default ops = map of_nat [1..<Suc n]) \<and>
   (refresh_pending r \<noteq> Some g \<longrightarrow> refresh_complete r g = (r, False))"
  using refresh_run_counts [of refresh_default ops]
  by (auto simp: refresh_ok_def refresh_default_def refresh_complete_def)

theorem refreshes_in_order_witness:
  "refresh_run refresh_default [OpRequest, OpComplete 2, OpComplete 1, OpComplete 1, OpRequest, OpComplete 2] =
     [1, 2] \<and>
   refresh_complete refresh_default 1 = (refresh_default, False)"
proof -
  have "refresh_pending refresh_default \<noteq> Some 1" by (simp add: refresh_default_def)
  with refreshes_in_order [of "[]" refresh_default 1]
  have "refresh_complete refresh_default 1 = (refresh_default, False)" by blast
  then show ?thesis
    by (simp add: refresh_default_def refresh_request_def refresh_complete_def checked_add_def
        word_le_nat_alt)
qed

section \<open>The frame\<close>

definition rect_cells :: "rect \<Rightarrow> (nat \<times> nat) set" where
  "rect_cells r =
     {unat (rect_x r)..<unat (rect_x r) + unat (rect_width r)} \<times>
     {unat (rect_y r)..<unat (rect_y r) + unat (rect_height r)}"

definition rect_fits :: "rect \<Rightarrow> bool" where
  "rect_fits r =
     (unat (rect_x r) + unat (rect_width r) < 2 ^ 16 \<and> unat (rect_y r) + unat (rect_height r) < 2 ^ 16)"

lemma clip_fits: "rect_fits (rect_clip r e)"
proof -
  have "unat (if a < w then a else w) + unat (if b < saturating_sub w (if a < w then a else w) then b
      else saturating_sub w (if a < w then a else w)) < 2 ^ 16" for a b w :: u16
    using unsigned_less [of w, where ?'a = nat]
    by (auto simp: unat_saturating_sub word_less_nat_alt)
  then show ?thesis by (simp add: rect_fits_def rect_clip_def Let_def)
qed

lemma clip_cells: "rect_cells (rect_clip r e) = rect_cells r \<inter> rect_cells (extent_area e)"
proof -
  have "{unat (if a < w then a else w)..<unat (if a < w then a else w) +
      unat (if b < saturating_sub w (if a < w then a else w) then b
        else saturating_sub w (if a < w then a else w))} =
      {unat a..<unat a + unat b} \<inter> {0..<unat w}" for a b w :: u16
    by (auto simp: unat_saturating_sub word_less_nat_alt)
  then show ?thesis
    by (simp add: rect_cells_def rect_clip_def Let_def extent_area_def rect_new_def Times_Int_Times)
qed

lemma interval_split: "k \<le> n \<Longrightarrow> {a..<a + n} = {a..<a + k} \<union> {a + k..<a + n}" for a :: nat
  by (simp add: ivl_disj_un_two(3))

lemma columns_cells:
  assumes "rect_fits r" "rect_columns r k = (a, b)"
  shows "rect_cells a \<union> rect_cells b = rect_cells r \<and> rect_cells a \<inter> rect_cells b = {}"
proof -
  define f where "f = (if k < rect_width r then k else rect_width r)"
  let ?x = "unat (rect_x r)" and ?w = "unat (rect_width r)" and ?n = "unat f"
    and ?Y = "{unat (rect_y r)..<unat (rect_y r) + unat (rect_height r)}"
  have n: "?n \<le> ?w" by (auto simp: f_def word_less_nat_alt)
  then have "unat (saturating_add (rect_x r) f) = ?x + ?n"
    using assms(1) by (simp add: unat_saturating_add rect_fits_def)
  then have "rect_cells a = {?x..<?x + ?n} \<times> ?Y" "rect_cells b = {?x + ?n..<?x + ?w} \<times> ?Y"
    using assms(2) n by (auto simp: rect_columns_def Let_def rect_cells_def unat_saturating_sub simp flip: f_def)
  moreover have "rect_cells r = {?x..<?x + ?w} \<times> ?Y" by (simp add: rect_cells_def)
  ultimately show ?thesis
    using interval_split [OF n, of ?x] by (simp add: Sigma_Un_distrib1 Times_Int_Times)
qed

lemma rows_cells:
  assumes "rect_fits r" "rect_rows r k = (a, b)"
  shows "rect_cells a \<union> rect_cells b = rect_cells r \<and> rect_cells a \<inter> rect_cells b = {}"
proof -
  define f where "f = (if k < rect_height r then k else rect_height r)"
  let ?y = "unat (rect_y r)" and ?h = "unat (rect_height r)" and ?n = "unat f"
    and ?X = "{unat (rect_x r)..<unat (rect_x r) + unat (rect_width r)}"
  have n: "?n \<le> ?h" by (auto simp: f_def word_less_nat_alt)
  then have "unat (saturating_add (rect_y r) f) = ?y + ?n"
    using assms(1) by (simp add: unat_saturating_add rect_fits_def)
  then have "rect_cells a = ?X \<times> {?y..<?y + ?n}" "rect_cells b = ?X \<times> {?y + ?n..<?y + ?h}"
    using assms(2) n by (auto simp: rect_rows_def Let_def rect_cells_def unat_saturating_sub simp flip: f_def)
  moreover have "rect_cells r = ?X \<times> {?y..<?y + ?h}" by (simp add: rect_cells_def)
  ultimately show ?thesis
    using interval_split [OF n, of ?y] by (simp add: Sigma_Un_distrib2 Times_Int_Times)
qed

lemma inset_interval:
  fixes x w :: u16
  assumes "unat x + unat w < 2 ^ 16"
  shows "{unat (if w = 0 then x else saturating_add x 1)..<
      unat (if w = 0 then x else saturating_add x 1) + unat (saturating_sub (saturating_sub w 1) 1)} \<subseteq>
    {unat x..<unat x + unat w}"
proof (cases "w = 0")
  case False
  then have "unat (saturating_add x 1) = unat x + 1"
    using assms unat_gt_0 [of w] by (simp add: unat_saturating_add)
  then show ?thesis using False by (auto simp: unat_saturating_sub)
qed (simp add: unat_saturating_sub)

lemma inset_cells: "rect_fits r \<Longrightarrow> rect_cells (rect_inset r) \<subseteq> rect_cells r"
  using inset_interval [of "rect_x r" "rect_width r"] inset_interval [of "rect_y r" "rect_height r"]
  unfolding rect_cells_def rect_inset_def rect_fits_def rect.simps by (intro Sigma_mono) auto

lemma widened: "unat (ucast b :: u32) = unat b" "unat (ucast n :: u32) = unat n" for b :: u8 and n :: u16
  using unsigned_less [of b, where ?'a = nat] unsigned_less [of n, where ?'a = nat]
  by (simp_all add: unsigned_ucast_eq take_bit_nat_eq_self)

lemma share_le: "share n p = Some k \<Longrightarrow> unat k = unat n * unat p div 100 \<and> unat p \<le> 100 \<and> unat k \<le> unat n"
proof -
  assume s: "share n p = Some k"
  then have p: "unat p \<le> 100"
    by (auto simp: share_def PERCENT_def word_less_nat_alt widened split: if_splits)
  have n: "unat n < 65536" using unsigned_less [of n, where ?'a = nat] by simp
  then have "unat n * unat p \<le> 65536 * 100" using p by (intro mult_mono) auto
  then have m: "unat (saturating_mul (ucast n :: u32) (ucast p)) = unat n * unat p"
    using p n by (simp add: saturating_mul_def unat_mult_lem [THEN iffD1] widened)
  have d: "unat n * unat p div 100 \<le> unat n"
    using p by (metis div_mult_self_is_m div_le_mono mult_le_mono2 zero_less_numeral)
  have "k = ucast (saturating_mul (ucast n :: u32) (ucast p) div 100)"
    using s by (auto simp: share_def PERCENT_def Let_def split: if_splits)
  then have "unat k = unat n * unat p div 100"
    using m n d by (simp add: unsigned_ucast_eq unat_div take_bit_eq_mod)
  then show ?thesis using p d by simp
qed

lemma centered_interval:
  fixes x w k :: u16
  assumes "unat x + unat w < 2 ^ 16" "unat k \<le> unat w"
  shows "{unat (saturating_add x (saturating_sub w k div 2))..<
      unat (saturating_add x (saturating_sub w k div 2)) + unat k} \<subseteq> {unat x..<unat x + unat w}"
proof -
  have "unat (saturating_sub w k div 2) = (unat w - unat k) div 2" by (simp add: unat_div unat_saturating_sub)
  then have "unat (saturating_add x (saturating_sub w k div 2)) = unat x + (unat w - unat k) div 2"
    using assms by (simp add: unat_saturating_add)
  then show ?thesis using assms(2) by auto
qed

lemma centered_cells:
  assumes "rect_fits r" "rect_centered r p q = Some c"
  shows "rect_cells c \<subseteq> rect_cells r"
proof -
  obtain k l where k: "share (rect_width r) p = Some k" "share (rect_height r) q = Some l"
    "c = \<lparr>rect_x = saturating_add (rect_x r) (saturating_sub (rect_width r) k div 2),
      rect_y = saturating_add (rect_y r) (saturating_sub (rect_height r) l div 2),
      rect_width = k, rect_height = l\<rparr>"
    using assms(2) by (auto simp: rect_centered_def bind_eq_Some_conv)
  show ?thesis
    using centered_interval [of "rect_x r" "rect_width r" k] centered_interval [of "rect_y r" "rect_height r" l]
      share_le [OF k(1)] share_le [OF k(2)] assms(1)
    unfolding k(3) rect_cells_def rect_fits_def rect.simps by (intro Sigma_mono) auto
qed

text \<open>
  The layout stays on the screen: a clipped area is exactly the part of it on the screen; splitting
  a clipped area into columns or rows gives two areas that share no cell and together are the area;
  and its inset and every centered area lie inside it.
\<close>

theorem layout_partitions:
  "rect_cells (rect_clip r e) = rect_cells r \<inter> rect_cells (extent_area e) \<and>
   (rect_columns (rect_clip r e) k = (a, b) \<longrightarrow>
      rect_cells a \<union> rect_cells b = rect_cells (rect_clip r e) \<and> rect_cells a \<inter> rect_cells b = {}) \<and>
   (rect_rows (rect_clip r e) k = (a', b') \<longrightarrow>
      rect_cells a' \<union> rect_cells b' = rect_cells (rect_clip r e) \<and> rect_cells a' \<inter> rect_cells b' = {}) \<and>
   rect_cells (rect_inset (rect_clip r e)) \<subseteq> rect_cells (rect_clip r e) \<and>
   (rect_centered (rect_clip r e) p q = Some c \<longrightarrow> rect_cells c \<subseteq> rect_cells (rect_clip r e))"
  using clip_cells [of r e] columns_cells [OF clip_fits, of r e k a b]
    rows_cells [OF clip_fits, of r e k a' b'] inset_cells [OF clip_fits, of r e]
    centered_cells [OF clip_fits, of r e p q c] by meson

theorem layout_partitions_witness:
  "rect_columns (rect_clip (rect_new 70 0 20 5) \<lparr>ext_width = 80, ext_height = 24\<rparr>) 4 =
     (rect_new 70 0 4 5, rect_new 74 0 6 5) \<and>
   rect_cells (rect_new 70 0 4 5) \<inter> rect_cells (rect_new 74 0 6 5) = {}"
proof -
  have c: "rect_columns (rect_clip (rect_new 70 0 20 5) \<lparr>ext_width = 80, ext_height = 24\<rparr>) 4 =
      (rect_new 70 0 4 5, rect_new 74 0 6 5)"
    by (simp add: rect_columns_def rect_clip_def rect_new_def Let_def saturating_sub_def saturating_add_def
        word_less_nat_alt word_le_nat_alt)
  with layout_partitions [of "rect_new 70 0 20 5" "\<lparr>ext_width = 80, ext_height = 24\<rparr>" 4
      "rect_new 70 0 4 5" "rect_new 74 0 6 5"]
  show ?thesis by blast
qed

lemma place_Inr:
  "extent_place e x y g = Inr p \<longleftrightarrow>
     unat x + unat (glyph_columns g) \<le> unat (ext_width e) \<and> unat y < unat (ext_height e) \<and>
     p = \<lparr>place_index = unat y * unat (ext_width e) + unat x, place_next = x + glyph_columns g\<rparr>"
proof -
  have b: "unat y < 65536" "unat (ext_width e) < 65536" "unat x < 65536"
    using unsigned_less [where ?'a = nat and ?'b = 16] by simp_all
  then have "unat y * unat (ext_width e) \<le> 65536 * 65536" by (intro mult_mono) auto
  with b have i: "usize_add (usize_mul (unat y) (unat (ext_width e))) (unat x) = unat y * unat (ext_width e) + unat x"
    by (simp add: usize_add_def usize_mul_def usize_max_def)
  show ?thesis
  proof (cases "unat x + unat (glyph_columns g) < 65536")
    case True
    then have "unat (x + glyph_columns g) = unat x + unat (glyph_columns g)" by (simp add: unat_add_lem [THEN iffD1])
    then show ?thesis
      using True by (auto simp: extent_place_def checked_add_def i word_le_nat_alt word_less_nat_alt)
  next
    case False
    then show ?thesis using b(2) by (simp add: extent_place_def checked_add_def)
  qed
qed

lemma cell_row_column:
  fixes w x x' y y' :: nat
  assumes "x < w" "x' < w" "y * w + x = y' * w + x'"
  shows "y = y' \<and> x = x'"
proof -
  have "(y * w + x) div w = y" "(y' * w + x') div w = y'" using assms(1,2) by auto
  then have "y = y'" using assms(3) by simp
  then show ?thesis using assms(3) by simp
qed

text \<open>
  Glyphs have their own cells: a glyph that is placed occupies exactly its columns of its row, all
  of them cells of the frame, and the next glyph starts after it; two glyphs that are placed share a
  cell of the frame only where their columns overlap in one row.
\<close>

theorem glyphs_have_cells:
  assumes "extent_place e x y g = Inr p" "extent_place e x' y' g' = Inr p'"
    and "i < unat (glyph_columns g)" "j < unat (glyph_columns g')"
  shows "place_index p + i < extent_cells e \<and> unat (place_next p) = unat x + unat (glyph_columns g) \<and>
    (place_index p + i = place_index p' + j \<longleftrightarrow> y = y' \<and> unat x + i = unat x' + j)"
proof -
  let ?w = "unat (ext_width e)"
  have p: "unat x + unat (glyph_columns g) \<le> ?w" "unat y < unat (ext_height e)"
    "place_index p = unat y * ?w + unat x" "place_next p = x + glyph_columns g"
    and p': "unat x' + unat (glyph_columns g') \<le> ?w" "place_index p' = unat y' * ?w + unat x'"
    using assms(1,2) by (auto simp: place_Inr)
  have b: "?w < 65536" "unat (ext_height e) < 65536"
    using unsigned_less [where ?'a = nat and ?'b = 16] by simp_all
  then have "?w * unat (ext_height e) \<le> 65536 * 65536" by (intro mult_mono) auto
  then have cells: "extent_cells e = ?w * unat (ext_height e)"
    by (simp add: extent_cells_def usize_mul_def usize_max_def)
  have "unat y * ?w + (unat x + i) < Suc (unat y) * ?w" using p(1) assms(3) by simp
  also have "\<dots> \<le> unat (ext_height e) * ?w" using p(2) by (intro mult_le_mono1) simp
  finally have "place_index p + i < extent_cells e" by (simp add: p(3) cells mult.commute)
  moreover have "unat (place_next p) = unat x + unat (glyph_columns g)"
    using p(1,4) b(1) by (simp add: unat_add_lem [THEN iffD1])
  moreover have "place_index p + i = place_index p' + j \<longleftrightarrow> y = y' \<and> unat x + i = unat x' + j"
    using cell_row_column [of "unat x + i" ?w "unat x' + j" "unat y" "unat y'"] p(1) p'(1) assms(3,4)
    by (auto simp: p(3) p'(2) word_unat_eq_iff)
  ultimately show ?thesis by blast
qed

theorem glyphs_have_cells_witness:
  "extent_place \<lparr>ext_width = 80, ext_height = 24\<rparr> 78 1 (Glyph 2) = Inr \<lparr>place_index = 158, place_next = 80\<rparr> \<and>
   158 + 1 < extent_cells \<lparr>ext_width = 80, ext_height = 24\<rparr> \<and>
   extent_place \<lparr>ext_width = 80, ext_height = 24\<rparr> 79 1 (Glyph 2) = Inl GeoOutside"
proof -
  have p: "extent_place \<lparr>ext_width = 80, ext_height = 24\<rparr> 78 1 (Glyph 2) =
      Inr \<lparr>place_index = 158, place_next = 80\<rparr>" by (simp add: place_Inr)
  have "extent_place \<lparr>ext_width = 80, ext_height = 24\<rparr> 79 1 (Glyph 2) = Inl GeoOutside"
    by (simp add: extent_place_def checked_add_def word_less_nat_alt)
  with p glyphs_have_cells [OF p p, of 1 1] show ?thesis by simp
qed

section \<open>Selection\<close>

text \<open>
  The selections a user can reach: the first view, movements, and refreshes to \<open>k\<close> rows in which the
  row that was selected is looked for by identity and found, or not, at \<open>position\<close>.
\<close>

inductive selecting :: "nat option \<Rightarrow> nat \<Rightarrow> bool" where
  selecting_start: "selecting (selection_after_refresh False None n) n"
| selecting_move: "selecting s n \<Longrightarrow> selecting (navigate s n movement) n"
| selecting_refresh:
    "selecting s n \<Longrightarrow>
     selecting (selection_after_refresh (s \<noteq> None) (retained_selection identity position k) k) k"

lemma navigate_inside: "navigate s n m = Some i \<Longrightarrow> i < n"
  by (auto simp: navigate_def Let_def split: if_splits movement.splits option.splits)

lemma navigate_some: "0 < n \<Longrightarrow> \<exists>i. navigate s n m = Some i"
  by (cases m) (auto simp: navigate_def Let_def)

lemma selection_after_refresh_inside: "selection_after_refresh h r n = Some i \<Longrightarrow> i < n"
  by (auto simp: selection_after_refresh_def dest: navigate_inside split: option.splits if_splits)

text \<open>
  The selection is always a row of the list, and follows the row it was made on: a refresh keeps
  the selection only at the position where the same row is found again, and otherwise clears it rather
  than selecting another row; any movement selects a row as long as there is one.
\<close>

theorem selection_follows_row:
  assumes "selecting s n"
  shows "(\<forall>i. s = Some i \<longrightarrow> i < n) \<and> (0 < n \<longrightarrow> (\<exists>i. i < n \<and> navigate s n m = Some i)) \<and>
    (s \<noteq> None \<longrightarrow> selection_after_refresh (s \<noteq> None) (retained_selection identity position k) k =
       (if identity = IdExact \<and> position < k then Some position else None))"
proof -
  have "\<forall>i. s = Some i \<longrightarrow> i < n"
    using assms
    by (induction rule: selecting.induct) (auto dest: navigate_inside selection_after_refresh_inside)
  then show ?thesis
    using navigate_some [of n s m] navigate_inside
    by (auto simp: selection_after_refresh_def retained_selection_def)
qed

theorem selection_follows_row_witness:
  "selecting (Some 1) 3 \<and> selection_after_refresh True (retained_selection IdDifferent 1 3) 3 = None \<and>
   selection_after_refresh True (retained_selection IdExact 2 3) 3 = Some 2"
proof -
  have "selection_after_refresh False None 3 = Some 0" "navigate (Some 0) 3 MoveNext = Some 1"
    by (simp_all add: selection_after_refresh_def navigate_def usize_add_def usize_max_def)
  with selecting_move [OF selecting_start [of 3], of MoveNext] have s: "selecting (Some 1) 3" by simp
  from s selection_follows_row [OF s, of _ IdDifferent 1 3] selection_follows_row [OF s, of _ IdExact 2 3]
  show ?thesis by simp
qed

section \<open>What is shown\<close>

definition literal :: "nat \<Rightarrow> bool" where
  "literal c = (display_char c = Literal c)"

definition displayed :: "nat list \<Rightarrow> nat list" where
  "displayed cs = concat (map (\<lambda>c. if literal c then [c] else escape_default c) cs)"

lemma display_displayed: "display s = DisplayText (utf8 (displayed (chars s)))"
proof -
  have "(case display_char c of Literal d \<Rightarrow> [d] | Escaped d \<Rightarrow> escape_default d) =
      (if literal c then [c] else escape_default c)" for c
    by (auto simp: literal_def display_char_def split: if_splits)
  then show ?thesis by (simp add: display_def displayed_def)
qed

lemma escape_literal: "d \<in> set (escape_default c) \<Longrightarrow> literal d \<and> d < 1114112"
  using escape_default_safe [of d c]
  by (auto simp: literal_def display_char_def terminal_unsafe_def bidi_control_def is_control_def escape_default_def
      dest: hex_text_plain split: if_splits)

lemma displayed_literal:
  "list_all (\<lambda>c. c < 1114112) cs \<Longrightarrow> list_all (\<lambda>c. literal c \<and> c < 1114112) (displayed cs)"
  using escape_literal by (auto simp: displayed_def list_all_iff split: if_splits)

lemma displayed_id: "list_all literal cs \<Longrightarrow> displayed cs = cs"
  by (induction cs) (auto simp: displayed_def)

definition type_query :: "string \<Rightarrow> nat list \<Rightarrow> string" where
  "type_query q cs = foldl (\<lambda>q c. fst (query_push q c)) q cs"

lemma utf8_snoc: "utf8 (cs @ [c]) = utf8 cs @ utf8 [c]"
  by (simp add: utf8_def)

lemma type_query_form:
  "list_all literal qs \<and> list_all (\<lambda>c. c < 1114112) qs \<and> length (utf8 qs) \<le> MAX_QUERY_BYTES \<Longrightarrow>
   list_all (\<lambda>c. c < 1114112) cs \<Longrightarrow>
     \<exists>ds. type_query (utf8 qs) cs = utf8 ds \<and> list_all literal ds \<and> list_all (\<lambda>c. c < 1114112) ds \<and>
       length (utf8 ds) \<le> MAX_QUERY_BYTES"
proof (induction cs arbitrary: qs)
  case Nil
  then show ?case by (auto simp: type_query_def)
next
  case (Cons c cs)
  show ?case
  proof (cases "query_admits (length (utf8 qs)) c")
    case True
    then have "literal c" "length (utf8 (qs @ [c])) \<le> MAX_QUERY_BYTES"
      by (auto simp: query_admits_def literal_def usize_checked_add_def len_utf8_def utf8_def display_char_def
          split: if_splits)
    then show ?thesis
      using Cons.IH [of "qs @ [c]"] Cons.prems True by (simp add: type_query_def query_push_def utf8_snoc)
  next
    case False
    then show ?thesis using Cons.IH [of qs] Cons.prems by (simp add: type_query_def query_push_def)
  qed
qed

text \<open>
  The dashboard shows text and not commands: no text puts a control character or a directional
  override on the screen, text without them is shown as it is, showing is idempotent, and whatever is
  typed, a search query stays within its bytes and is shown exactly as it is stored.
\<close>

theorem display_shows_text:
  assumes "is_str s" "list_all (\<lambda>c. c < 1114112) typed"
  shows "list_all (\<lambda>c. \<not> is_control c \<and> \<not> (0x202A \<le> c \<and> c \<le> 0x202E) \<and> \<not> (0x2066 \<le> c \<and> c \<le> 0x2069))
      (chars (display_str (display s))) \<and>
    display (display_str (display s)) = display s \<and>
    length (type_query [] typed) \<le> MAX_QUERY_BYTES \<and>
    display_str (display (type_query [] typed)) = type_query [] typed"
proof -
  obtain cs where cs: "list_all (\<lambda>c. c < 1114112) cs" "s = utf8 cs" using assms(1) by (auto simp: is_str_def)
  have d: "display_str (display s) = utf8 (displayed cs)" using cs by (simp add: display_displayed)
  have l: "list_all literal (displayed cs)" "list_all (\<lambda>c. c < 1114112) (displayed cs)"
    using displayed_literal [OF cs(1)] by (simp_all add: list_all_iff)
  obtain ds where q: "type_query [] typed = utf8 ds" "list_all literal ds" "list_all (\<lambda>c. c < 1114112) ds"
    "length (utf8 ds) \<le> MAX_QUERY_BYTES"
    using type_query_form [of "[]" typed] assms(2) by (auto simp: utf8_def)
  have "list_all (\<lambda>c. \<not> is_control c \<and> \<not> (0x202A \<le> c \<and> c \<le> 0x202E) \<and> \<not> (0x2066 \<le> c \<and> c \<le> 0x2069))
      (displayed cs)"
    using l(1) by (auto simp: list_all_iff literal_def display_char_def split: if_splits)
  moreover have "display (utf8 (displayed cs)) = DisplayText (utf8 (displayed cs))"
    using l by (simp add: display_displayed displayed_id)
  moreover have "display_str (display (utf8 ds)) = utf8 ds" using q by (simp add: display_displayed displayed_id)
  ultimately show ?thesis using d l q cs by (simp add: display_displayed)
qed

theorem display_shows_text_witness:
  "type_query [] [0x61, 0x1B, 0x62] = ''ab'' \<and> display_str (display ''ab'') = ''ab''"
proof -
  have "char_of (0x61::nat) = CHR ''a''" "char_of (0x62::nat) = CHR ''b''" by code_simp+
  then have t: "type_query [] [0x61, 0x1B, 0x62] = ''ab''"
    by (simp add: type_query_def query_push_def query_admits_def display_char_def is_control_def
        usize_checked_add_def usize_max_def len_utf8_def utf8_bytes_def MAX_QUERY_BYTES_def utf8_def)
  have "is_str []" by (auto simp: is_str_def utf8_def intro!: exI [of _ "[]"])
  with display_shows_text [of "[]" "[0x61, 0x1B, 0x62]"] t show ?thesis by simp
qed

text \<open>
  The two ways text is made safe differ: the Arabic letter mark is escaped for the terminal but shown
  as it is on the dashboard, which escapes the other two directional marks.
\<close>

lemma letter_mark_differs:
  "terminal_unsafe 0x61C \<and> display_char 0x61C = Literal 0x61C \<and>
   display_char 0x200E = Escaped 0x200E \<and> display_char 0x200F = Escaped 0x200F"
  by (simp add: terminal_unsafe_def bidi_control_def display_char_def is_control_def)

end
