(* ===== verification/Terminal_Input.thy ===== *)
theory Terminal_Input
  imports Rust_Str
begin

text \<open>
  Keys from a terminal (\<open>terminal_input.rs\<close> and the modules under \<open>terminal_input/\<close>): the byte decoder
  of escape sequences and UTF-8 text with its bounded buffer, the decoder of UTF-16 units and key
  records of a Windows console, and the modes and sizes of terminals. A byte is a \<open>u8\<close>, a character
  its scalar value.
\<close>

unbundle bit_operations_syntax

section \<open>Terminal modes and sizes\<close>

definition MAX_TERMINAL_FD :: i32 where
  "MAX_TERMINAL_FD = 65536"

definition MAX_POLL_MILLIS :: u64 where
  "MAX_POLL_MILLIS = 100"

definition WINDOWS_ALT_KEY :: u16 where
  "WINDOWS_ALT_KEY = 18"

definition NANOS_PER_MILLI :: i64 where
  "NANOS_PER_MILLI = 1000000"

text \<open>\<open>checked_add\<close> and \<open>checked_mul\<close> of the signed integers.\<close>

definition signed_checked :: "int \<Rightarrow> 'a::len word option" where
  "signed_checked v =
     (if - (2 ^ (LENGTH('a) - 1)) \<le> v \<and> v < 2 ^ (LENGTH('a) - 1) then Some (word_of_int v) else None)"

definition descriptor_span :: "i32 \<Rightarrow> i32 option" where
  "descriptor_span fd =
     (if sint fd < 0 \<or> sint fd \<ge> sint MAX_TERMINAL_FD then None else signed_checked (sint fd + 1))"

definition poll_nanos :: "u64 \<Rightarrow> i64 option" where
  "poll_nanos millis =
     (if millis > MAX_POLL_MILLIS then None
      else if uint millis < 2 ^ 63 then signed_checked (uint millis * sint NANOS_PER_MILLI) else None)"

record console_view =
  view_width :: u16
  view_height :: u16

definition u16_try_from :: "i16 \<Rightarrow> u16 option" where
  "u16_try_from v = (if sint v < 0 then None else Some v)"

definition console_viewport :: "i16 \<Rightarrow> i16 \<Rightarrow> i16 \<Rightarrow> i16 \<Rightarrow> console_view option" where
  "console_viewport left upper right lower =
     Option.bind (u16_try_from left) (\<lambda>left.
     Option.bind (u16_try_from upper) (\<lambda>upper.
     Option.bind (u16_try_from right) (\<lambda>right.
     Option.bind (u16_try_from lower) (\<lambda>lower.
     Option.bind (Option.bind (checked_sub right left) (\<lambda>w. checked_add w 1)) (\<lambda>width.
     Option.bind (Option.bind (checked_sub lower upper) (\<lambda>h. checked_add h 1)) (\<lambda>height.
       Some \<lparr>view_width = width, view_height = height\<rparr>))))))"

definition windows_input_mode :: "u32 \<Rightarrow> u32" where
  "windows_input_mode original =
     (let removed = 1 OR 2 OR 4 OR 64 OR 512 in (original AND NOT removed) OR 8 OR 128)"

definition windows_output_mode :: "u32 \<Rightarrow> u32" where
  "windows_output_mode original = original OR 1 OR 4 OR 8"

section \<open>Keys\<close>

datatype key_code =
    KBackspace | KEnter | KLeft | KRight | KUp | KDown | KHome | KEnd | KPageUp | KPageDown | KTab
  | KBackTab | KDelete | KInsert | KEsc | KF u32 | KChar nat | KNull

datatype modifier = ModControl | ModAlt | ModShift

datatype key_modifiers = KeyModifiers (modifier_bits: u8)

definition MOD_NONE :: key_modifiers where
  "MOD_NONE = KeyModifiers 0"

definition MOD_ALT :: key_modifiers where
  "MOD_ALT = KeyModifiers 2"

definition MOD_SHIFT :: key_modifiers where
  "MOD_SHIFT = KeyModifiers 4"

definition modifiers_contain :: "key_modifiers \<Rightarrow> key_modifiers \<Rightarrow> bool" where
  "modifiers_contain m other = (modifier_bits m AND modifier_bits other = modifier_bits other)"

definition modifiers_with :: "key_modifiers \<Rightarrow> modifier \<Rightarrow> key_modifiers" where
  "modifiers_with m modifier =
     (let flag = (case modifier of ModControl \<Rightarrow> 1 | ModAlt \<Rightarrow> 2 | ModShift \<Rightarrow> 4)
      in KeyModifiers (modifier_bits m OR flag))"

datatype key_kind = Press | Repeat | Release

record key_event =
  key_code :: key_code
  key_modifiers :: key_modifiers
  key_kind :: key_kind

definition key_event_new :: "key_code \<Rightarrow> key_modifiers \<Rightarrow> key_event" where
  "key_event_new code modifiers = \<lparr>key_code = code, key_modifiers = modifiers, key_kind = Press\<rparr>"

definition key_with_kind :: "key_event \<Rightarrow> key_kind \<Rightarrow> key_event" where
  "key_with_kind e kind = e\<lparr>key_kind := kind\<rparr>"

datatype decoded = Key key_event | KeyPending | KeyIgnored

section \<open>The buffer of a sequence\<close>

definition MAX_SEQUENCE_BYTES :: nat where
  "MAX_SEQUENCE_BYTES = 32"

record sequence =
  seq_bytes :: "u8 list"
  seq_used :: nat

definition sequence_default :: sequence where
  "sequence_default = \<lparr>seq_bytes = replicate MAX_SEQUENCE_BYTES 0, seq_used = 0\<rparr>"

definition sequence_clear :: "sequence \<Rightarrow> sequence" where
  "sequence_clear s = s\<lparr>seq_used := 0\<rparr>"

definition sequence_content :: "sequence \<Rightarrow> u8 list option" where
  "sequence_content s =
     (if seq_used s \<le> length (seq_bytes s) then Some (take (seq_used s) (seq_bytes s)) else None)"

definition sequence_push :: "sequence \<Rightarrow> u8 \<Rightarrow> sequence \<times> bool" where
  "sequence_push s b =
     (if seq_used s < length (seq_bytes s)
      then (\<lparr>seq_bytes = (seq_bytes s)[seq_used s := b], seq_used = usize_add (seq_used s) 1\<rparr>, True)
      else (s, False))"

section \<open>UTF-8\<close>

fun scalar_tail :: "u32 \<Rightarrow> u8 list \<Rightarrow> u32 option" where
  "scalar_tail scalar [] = Some scalar"
| "scalar_tail scalar (b # rest) =
     (if b AND 0xC0 \<noteq> 0x80 then None
      else Option.bind (checked_add (push_bit 6 scalar) (ucast (b AND 0x3F))) (\<lambda>scalar.
        scalar_tail scalar rest))"

definition scalar_shape :: "u8 \<Rightarrow> (nat \<times> u8 \<times> u32) option" where
  "scalar_shape first =
     (if 0xC2 \<le> first \<and> first \<le> 0xDF then Some (2, 0x1F, 0x80)
      else if 0xE0 \<le> first \<and> first \<le> 0xEF then Some (3, 0x0F, 0x800)
      else if 0xF0 \<le> first \<and> first \<le> 0xF4 then Some (4, 0x07, 0x10000)
      else None)"

definition scalar :: "u8 list \<Rightarrow> nat option" where
  "scalar bytes =
     (case bytes of
        [] \<Rightarrow> None
      | first # rest \<Rightarrow>
          Option.bind (scalar_shape first) (\<lambda>(len, mask, minimum).
            if length bytes \<noteq> len then None
            else Option.bind (scalar_tail (ucast (first AND mask)) rest) (\<lambda>value.
              if value < minimum then None else from_u32 (unat value))))"

section \<open>Control sequences\<close>

definition MAX_FIELDS :: nat where
  "MAX_FIELDS = 3"

definition checked_mul :: "'a::len word \<Rightarrow> 'a word \<Rightarrow> 'a word option" where
  "checked_mul a b = (if unat a * unat b < 2 ^ LENGTH('a) then Some (a * b) else None)"

fun fields_loop :: "u32 list \<Rightarrow> nat \<Rightarrow> u8 list \<Rightarrow> u32 list option" where
  "fields_loop fs position [] = Some fs"
| "fields_loop fs position (b # bytes) =
     (if b = 59 \<or> b = 58 then
        Option.bind (usize_checked_add position 1) (\<lambda>position.
          if position \<ge> MAX_FIELDS then None else fields_loop fs position bytes)
      else
        Option.bind (checked_sub b 48) (\<lambda>digit.
          if (ucast digit :: u32) \<ge> 10 then None
          else if position < length fs then
            Option.bind (Option.bind (checked_mul (fs ! position) 10) (\<lambda>v. checked_add v (ucast digit)))
              (\<lambda>v. fields_loop (fs[position := v]) position bytes)
          else None))"

definition control_fields :: "u8 list \<Rightarrow> u32 list option" where
  "control_fields bytes = fields_loop (replicate MAX_FIELDS 0) 0 bytes"

definition modifiers :: "u32 \<Rightarrow> key_modifiers option" where
  "modifiers value =
     (let value = (if value = 0 then 1 else value)
      in if value > 8 then None
         else Option.bind (checked_sub value 1) (\<lambda>bits.
           Some (foldl (\<lambda>m (flag, modifier). if bits AND flag \<noteq> 0 then modifiers_with m modifier else m)
             MOD_NONE [(1, ModShift), (2, ModAlt), (4, ModControl)])))"

definition TILDE_KEYS :: "(u32 \<times> key_code) list" where
  "TILDE_KEYS =
     [(1, KHome), (2, KInsert), (3, KDelete), (4, KEnd), (5, KPageUp), (6, KPageDown), (7, KHome), (8, KEnd),
      (11, KF 1), (12, KF 2), (13, KF 3), (14, KF 4), (15, KF 5), (17, KF 6), (18, KF 7), (19, KF 8),
      (20, KF 9), (21, KF 10), (23, KF 11), (24, KF 12)]"

definition control_code :: "u8 \<Rightarrow> u32 \<Rightarrow> key_code option" where
  "control_code final first =
     (if final = 65 then Some KUp
      else if final = 66 then Some KDown
      else if final = 67 then Some KRight
      else if final = 68 then Some KLeft
      else if final = 72 then Some KHome
      else if final = 70 then Some KEnd
      else if final = 80 then Some (KF 1)
      else if final = 81 then Some (KF 2)
      else if final = 82 then Some (KF 3)
      else if final = 83 then Some (KF 4)
      else if final = 126 then map_option snd (find (\<lambda>(value, _). value = first) TILDE_KEYS)
      else if final = 117 then
        (if first = 0 then Some KNull else map_option KChar (from_u32 (unat first)))
      else None)"

definition control_kind :: "u32 \<Rightarrow> key_kind option" where
  "control_kind kind =
     (if kind = 0 \<or> kind = 1 then Some Press
      else if kind = 2 then Some Repeat
      else if kind = 3 then Some Release
      else None)"

definition control_key :: "u8 list \<Rightarrow> key_event option" where
  "control_key bytes =
     (if bytes = [] then None
      else Option.bind (control_fields (butlast bytes)) (\<lambda>fs.
        if last bytes = 90 then Some (key_event_new KBackTab MOD_SHIFT)
        else
          Option.bind (control_code (last bytes) (fs ! 0)) (\<lambda>code.
          Option.bind (modifiers (fs ! 1)) (\<lambda>mods.
          Option.bind (control_kind (fs ! 2)) (\<lambda>kind.
            Some (key_with_kind (key_event_new code mods) kind))))))"

section \<open>The byte decoder\<close>

datatype decoder_state = Ground | Escape | Utf8 | Control | Discard | Mouse u8

record decoder =
  dec_state :: decoder_state
  dec_sequence :: sequence
  dec_expected :: nat
  dec_modifiers :: key_modifiers

definition decoder_default :: decoder where
  "decoder_default =
     \<lparr>dec_state = Ground, dec_sequence = sequence_default, dec_expected = 0, dec_modifiers = MOD_NONE\<rparr>"

definition decoder_reset :: "decoder \<Rightarrow> decoder" where
  "decoder_reset d =
     d\<lparr>dec_state := Ground, dec_sequence := sequence_clear (dec_sequence d), dec_expected := 0,
       dec_modifiers := MOD_NONE\<rparr>"

definition utf8_expected :: "u8 \<Rightarrow> nat option" where
  "utf8_expected b =
     (if 194 \<le> b \<and> b \<le> 223 then Some 2
      else if 224 \<le> b \<and> b \<le> 239 then Some 3
      else if 240 \<le> b \<and> b \<le> 244 then Some 4
      else None)"

definition start_utf8 :: "decoder \<Rightarrow> u8 \<Rightarrow> decoder \<times> decoded" where
  "start_utf8 d b =
     (case utf8_expected b of
        None \<Rightarrow> (decoder_reset d, KeyIgnored)
      | Some expected \<Rightarrow>
          (let (sq, pushed) = sequence_push (sequence_clear (dec_sequence d)) b;
               d = d\<lparr>dec_expected := expected, dec_sequence := sq\<rparr>
           in if pushed then (d\<lparr>dec_state := Utf8\<rparr>, KeyPending) else (decoder_reset d, KeyIgnored)))"

definition ground :: "decoder \<Rightarrow> u8 \<Rightarrow> key_modifiers \<Rightarrow> decoder \<times> decoded" where
  "ground d b mods =
     (let d = d\<lparr>dec_modifiers := mods\<rparr>;
          emit = (\<lambda>code. (d, Key (key_event_new code mods)))
      in if b = 27 then (d\<lparr>dec_state := Escape\<rparr>, KeyPending)
         else if b = 8 \<or> b = 127 then emit KBackspace
         else if b = 9 then emit KTab
         else if b = 13 \<or> b = 10 then emit KEnter
         else if b = 0 then emit KNull
         else if b \<le> 26 then
           (case from_u32 (unat (saturating_sub (saturating_add (ucast b :: u32) 97) 1)) of
              None \<Rightarrow> (d, KeyIgnored)
            | Some c \<Rightarrow> (d, Key (key_event_new (KChar c) (modifiers_with mods ModControl))))
         else if b \<le> 127 then emit (KChar (unat b))
         else start_utf8 d b)"

definition escape_step :: "decoder \<Rightarrow> u8 \<Rightarrow> decoder \<times> decoded" where
  "escape_step d b =
     (if b = 91 \<or> b = 79 then
        (d\<lparr>dec_sequence := sequence_clear (dec_sequence d), dec_state := Control\<rparr>, KeyPending)
      else if b = 27 then (d, Key (key_event_new KEsc MOD_NONE))
      else ground (decoder_reset d) b MOD_ALT)"

definition utf8_step :: "decoder \<Rightarrow> u8 \<Rightarrow> decoder \<times> decoded" where
  "utf8_step d b =
     (if b AND 192 \<noteq> 128 then ground (decoder_reset d) b MOD_NONE
      else let (sq, pushed) = sequence_push (dec_sequence d) b;
               d = d\<lparr>dec_sequence := sq\<rparr>
           in if \<not> pushed then (decoder_reset d, KeyIgnored)
              else if seq_used sq < dec_expected d then (d, KeyPending)
              else (case Option.bind (sequence_content sq) scalar of
                  Some c \<Rightarrow> (decoder_reset d, Key (key_event_new (KChar c) (dec_modifiers d)))
                | None \<Rightarrow> (decoder_reset d, KeyIgnored)))"

definition control_step :: "decoder \<Rightarrow> u8 \<Rightarrow> decoder \<times> decoded" where
  "control_step d b =
     (if \<not> (32 \<le> b \<and> b \<le> 126) then ground (decoder_reset d) b MOD_NONE
      else let final_byte = (64 \<le> b \<and> b \<le> 126);
               (sq, pushed) = sequence_push (dec_sequence d) b;
               d = d\<lparr>dec_sequence := sq\<rparr>
           in if \<not> pushed then
                (if final_byte then decoder_reset d else (decoder_reset d)\<lparr>dec_state := Discard\<rparr>, KeyIgnored)
              else if \<not> final_byte then (d, KeyPending)
              else let legacy_mouse = (seq_used sq = 1 \<and> b = 77);
                       key = Option.bind (sequence_content sq) control_key;
                       d = decoder_reset d;
                       d = (if legacy_mouse then d\<lparr>dec_state := Mouse 3\<rparr> else d)
                   in (d, case key of Some key \<Rightarrow> Key key | None \<Rightarrow> KeyIgnored))"

definition decode_byte :: "decoder \<Rightarrow> u8 \<Rightarrow> decoder \<times> decoded" where
  "decode_byte d b =
     (case dec_state d of
        Ground \<Rightarrow> ground d b MOD_NONE
      | Escape \<Rightarrow> escape_step d b
      | Utf8 \<Rightarrow> utf8_step d b
      | Control \<Rightarrow> control_step d b
      | Discard \<Rightarrow> (if 64 \<le> b \<and> b \<le> 126 then decoder_reset d else d, KeyIgnored)
      | Mouse remaining \<Rightarrow>
          (if remaining \<le> 1 then decoder_reset d
           else d\<lparr>dec_state := Mouse (saturating_sub remaining 1)\<rparr>, KeyIgnored))"

definition decoder_finish :: "decoder \<Rightarrow> decoder \<times> decoded" where
  "decoder_finish d =
     (decoder_reset d,
      if dec_state d = Escape then Key (key_event_new KEsc MOD_NONE) else KeyIgnored)"

definition decoder_quiet :: "decoder \<Rightarrow> decoder \<times> decoded" where
  "decoder_quiet d = (if dec_state d = Escape then decoder_finish d else (d, KeyPending))"

definition decoder_pending :: "decoder \<Rightarrow> bool" where
  "decoder_pending d = (dec_state d \<noteq> Ground)"

definition buffered_bytes :: "decoder \<Rightarrow> nat" where
  "buffered_bytes d = seq_used (dec_sequence d)"

section \<open>UTF-16 and console records\<close>

record windows_record =
  wk_down :: i32
  wk_repeats :: u16
  wk_virtual_key :: u16
  wk_unit :: u16
  wk_control_state :: u32

definition alt_text :: "windows_record \<Rightarrow> bool" where
  "alt_text k = (wk_down k = 0 \<and> wk_virtual_key k = WINDOWS_ALT_KEY \<and> wk_unit k \<noteq> 0)"

definition event_kind_of :: "windows_record \<Rightarrow> key_kind" where
  "event_kind_of k =
     (if alt_text k then Press
      else if wk_down k = 0 then Release
      else if wk_repeats k > 1 then Repeat
      else Press)"

record utf16_decoder =
  u16_high :: "u16 option"

definition utf16_default :: utf16_decoder where
  "utf16_default = \<lparr>u16_high = None\<rparr>"

definition utf16_decode :: "utf16_decoder \<Rightarrow> u16 \<Rightarrow> utf16_decoder \<times> nat option" where
  "utf16_decode d u =
     (if 0xD800 \<le> u \<and> u \<le> 0xDBFF then (\<lparr>u16_high = Some u\<rparr>, None)
      else (\<lparr>u16_high = None\<rparr>,
        Option.bind
          (if 0xDC00 \<le> u \<and> u \<le> 0xDFFF then
             Option.bind (u16_high d) (\<lambda>high.
             Option.bind (checked_sub high 0xD800) (\<lambda>h.
             Option.bind (checked_sub u 0xDC00) (\<lambda>l.
             Option.bind (checked_add (push_bit 10 (ucast h :: u32)) (ucast l)) (\<lambda>v.
               checked_add v 0x10000))))
           else Some (ucast u))
          (\<lambda>value. from_u32 (unat value))))"

definition utf16_clear :: "utf16_decoder \<Rightarrow> utf16_decoder" where
  "utf16_clear d = \<lparr>u16_high = None\<rparr>"

definition windows_named :: "u16 \<Rightarrow> key_modifiers \<Rightarrow> key_code option" where
  "windows_named vk mods =
     (if vk = 8 then Some KBackspace
      else if vk = 9 then Some (if modifiers_contain mods MOD_SHIFT then KBackTab else KTab)
      else if vk = 13 then Some KEnter
      else if vk = 27 then Some KEsc
      else if vk = 33 then Some KPageUp
      else if vk = 34 then Some KPageDown
      else if vk = 35 then Some KEnd
      else if vk = 36 then Some KHome
      else if vk = 37 then Some KLeft
      else if vk = 38 then Some KUp
      else if vk = 39 then Some KRight
      else if vk = 40 then Some KDown
      else if vk = 45 then Some KInsert
      else if vk = 46 then Some KDelete
      else if 112 \<le> vk \<and> vk \<le> 135 then Some (KF (saturating_add (ucast (saturating_sub vk 112)) 1))
      else None)"

definition windows_key_code ::
  "utf16_decoder \<Rightarrow> windows_record \<Rightarrow> key_modifiers \<Rightarrow> utf16_decoder \<times> key_modifiers \<times> key_code option" where
  "windows_key_code d k mods =
     (case windows_named (wk_virtual_key k) mods of
        Some code \<Rightarrow> (d, mods, Some code)
      | None \<Rightarrow>
          if wk_unit k = 0 then (d, mods, None)
          else if wk_unit k \<le> 26 then
            (d, modifiers_with mods ModControl,
             map_option KChar (from_u32 (unat (saturating_sub (saturating_add (ucast (wk_unit k) :: u32) 97) 1))))
          else (let (d, c) = utf16_decode d (wk_unit k) in (d, mods, map_option KChar c)))"

definition windows_modifiers :: "u32 \<Rightarrow> key_modifiers" where
  "windows_modifiers control_state =
     foldl (\<lambda>m (mask, modifier). if control_state AND mask \<noteq> 0 then modifiers_with m modifier else m)
       MOD_NONE [(2 OR 1, ModAlt), (8 OR 4, ModControl), (16, ModShift)]"

definition windows_key :: "utf16_decoder \<Rightarrow> windows_record \<Rightarrow> utf16_decoder \<times> key_event option" where
  "windows_key d k =
     (let mods = windows_modifiers (wk_control_state k);
          (d, mods, code) =
            (if alt_text k then let (d, c) = utf16_decode d (wk_unit k) in (d, mods, map_option KChar c)
             else windows_key_code d k mods)
      in case code of
           None \<Rightarrow> (d, None)
         | Some code \<Rightarrow>
             (utf16_clear d, Some (key_with_kind (key_event_new code mods) (event_kind_of k))))"

end
