(* ===== verification/Terminal_Bytes.thy ===== *)
theory Terminal_Bytes
  imports Terminal_Input
begin

text \<open>
  The bytes of a terminal as numbers: masks as remainders, and the decoder of one multi-byte character
  as the inverse of the UTF-8 encoding, on canonical encodings and on nothing else.
\<close>

unbundle bit_operations_syntax

section \<open>Bytes as numbers\<close>

lemma and_low_bits: "unat (b AND mask n) = unat b mod 2 ^ n" for b :: "'a::len word"
  using unsigned_take_bit_eq [of n b, where ?'a = nat]
  by (simp add: take_bit_eq_mask [of n b] take_bit_eq_mod [of n "unat b"])

lemma low_bits:
  "unat (b AND 0x3F) = unat b mod 64" "unat (b AND 0x1F) = unat b mod 32"
  "unat (b AND 0x0F) = unat b mod 16" "unat (b AND 0x07) = unat b mod 8" for b :: u8
  using and_low_bits [of b 6] and_low_bits [of b 5] and_low_bits [of b 4] and_low_bits [of b 3]
  by (simp_all add: mask_eq_exp_minus_1)

lemma high_bits: "unat (b AND 0xC0) = unat b div 64 * 64" for b :: u8
proof -
  have "(0xC0 :: u8) = NOT (mask 6)" "mask 8 = (- 1 :: u8)"
    by (simp_all add: mask_eq_exp_minus_1 not_eq_complement)
  then have "b AND 0xC0 = push_bit 6 (take_bit 2 (drop_bit 6 b))"
    using slice_eq_mask [of 6 2 b] by simp
  moreover have "unat b div 64 < 4" using unsigned_less [of b, where ?'a = nat] by simp
  ultimately show ?thesis
    using unsigned_less [of b, where ?'a = nat]
    by (simp add: drop_bit_eq_div push_bit_eq_mult take_bit_eq_mod unat_word_ariths unat_div unat_mod)
qed

lemma continuation_iff: "b AND 0xC0 = 0x80 \<longleftrightarrow> 128 \<le> unat b \<and> unat b < 192" for b :: u8
proof -
  have "b AND 0xC0 = 0x80 \<longleftrightarrow> unat b div 64 * 64 = 128" by (simp flip: high_bits add: word_unat_eq_iff)
  also have "\<dots> \<longleftrightarrow> unat b div 64 = 2" by auto
  also have "\<dots> \<longleftrightarrow> 128 \<le> unat b \<and> unat b < 192" by auto
  finally show ?thesis .
qed

lemma scalar_tail_step:
  assumes "unat s < 2 ^ 20"
  shows "scalar_tail s (b # bs) =
    (if 128 \<le> unat b \<and> unat b < 192 then scalar_tail (word_of_nat (unat s * 64 + unat b mod 64)) bs else None)"
proof -
  have u: "unat (ucast (b AND 0x3F) :: u32) = unat b mod 64"
    using low_bits(1) [of b] by (simp add: unsigned_ucast_eq take_bit_nat_eq_self)
  have p: "push_bit 6 s = word_of_nat (unat s * 64)" by (simp add: push_bit_eq_mult)
  have "unat (push_bit 6 s) = unat s * 64" using assms by (simp add: push_bit_eq_mult unat_word_ariths)
  moreover have "ucast (b AND 0x3F) = (word_of_nat (unat b mod 64) :: u32)"
    using u by (simp add: word_unat_eq_iff unat_of_nat)
  ultimately have "checked_add (push_bit 6 s) (ucast (b AND 0x3F)) = Some (word_of_nat (unat s * 64 + unat b mod 64))"
    using assms u by (simp add: checked_add_def p)
  then show ?thesis by (simp add: continuation_iff)
qed

lemma byte_less: "unat b < 256" for b :: u8
  using unsigned_less [of b, where ?'a = nat] by simp

lemma lead_mask: "unat (ucast (b AND m) :: u32) = unat (b AND m)" for b m :: u8
  using byte_less [of "b AND m"] by (simp add: unsigned_ucast_eq take_bit_nat_eq_self)

declare scalar_tail.simps(2) [simp del]

text \<open>The value of the continuation bytes, as a number.\<close>

fun tail_value :: "nat \<Rightarrow> u8 list \<Rightarrow> nat option" where
  "tail_value s [] = Some s"
| "tail_value s (b # bs) =
     (if 128 \<le> unat b \<and> unat b < 192 then tail_value (s * 64 + unat b mod 64) bs else None)"

lemma tail_value_bound: "tail_value s bs = Some v \<Longrightarrow> v < Suc s * 64 ^ length bs"
proof (induction s bs rule: tail_value.induct)
  case (2 s b bs)
  have "Suc (s * 64 + unat b mod 64) \<le> Suc s * 64" using mod_less_divisor [of 64 "unat b"] by simp
  then have "Suc (s * 64 + unat b mod 64) * 64 ^ length bs \<le> Suc s * 64 * 64 ^ length bs"
    by (rule mult_le_mono1)
  moreover have "v < Suc (s * 64 + unat b mod 64) * 64 ^ length bs"
    using 2 by (simp only: tail_value.simps split: if_splits) auto
  ultimately show ?case by (simp only: length_Cons power_Suc mult.assoc)
qed auto

lemma scalar_tail_value:
  "Suc (unat s) * 64 ^ length bs \<le> 2 ^ 26 \<Longrightarrow>
     scalar_tail s bs = map_option word_of_nat (tail_value (unat s) bs)"
proof (induction bs arbitrary: s)
  case (Cons b bs)
  let ?v = "unat s * 64 + unat b mod 64"
  have "Suc (unat s) * 64 \<le> Suc (unat s) * 64 ^ length (b # bs)" by (rule mult_le_mono2) simp
  then have s: "unat s < 2 ^ 20" using Cons.prems by simp
  have "Suc ?v \<le> Suc (unat s) * 64" using mod_less_divisor [of 64 "unat b"] by simp
  then have "Suc ?v * 64 ^ length bs \<le> Suc (unat s) * 64 * 64 ^ length bs" by (rule mult_le_mono1)
  also have "\<dots> = Suc (unat s) * 64 ^ length (b # bs)" by (simp only: length_Cons power_Suc mult.assoc)
  finally have "Suc ?v * 64 ^ length bs \<le> 2 ^ 26" using Cons.prems by (rule le_trans)
  moreover have "unat (word_of_nat ?v :: u32) = ?v"
    by (subst unat_of_nat) (use s mod_less_divisor [of 64 "unat b"] in simp)
  ultimately show ?case
    using Cons.IH [of "word_of_nat ?v"] s by (simp only: scalar_tail_step tail_value.simps) auto
qed simp

text \<open>The decoder of a scalar value, over numbers.\<close>

lemma scalar_bytes:
  assumes "scalar_shape a = Some (n, m, l)" "length bs < 4" "unat (a AND m) < 32"
  shows "scalar (a # bs) =
    (if Suc (length bs) = n then
       Option.bind (tail_value (unat (a AND m)) bs) (\<lambda>v. if v < unat l then None else from_u32 v)
     else None)"
proof -
  let ?s = "ucast (a AND m) :: u32"
  have "(64::nat) ^ length bs \<le> 64 ^ 3" by (rule power_increasing) (use assms(2) in auto)
  then have "Suc (unat (a AND m)) * 64 ^ length bs \<le> 32 * 64 ^ 3"
    using assms(3) by (intro mult_le_mono) auto
  then have b: "Suc (unat ?s) * 64 ^ length bs \<le> 2 ^ 26" by (simp add: lead_mask)
  have "unat (word_of_nat v :: u32) = v" if "tail_value (unat (a AND m)) bs = Some v" for v
    using tail_value_bound [OF that] b by (simp add: unat_of_nat take_bit_eq_mod lead_mask)
  then show ?thesis
    using assms(1) scalar_tail_value [OF b]
    by (cases "tail_value (unat (a AND m)) bs") (auto simp: scalar_def lead_mask word_less_nat_alt)
qed

text \<open>The bytes of a character are read back as the character, and no other bytes are.\<close>

lemma shapes:
  "scalar_shape a = Some (2, 0x1F, 0x80) \<longleftrightarrow> 194 \<le> unat a \<and> unat a \<le> 223"
  "scalar_shape a = Some (3, 0x0F, 0x800) \<longleftrightarrow> 224 \<le> unat a \<and> unat a \<le> 239"
  "scalar_shape a = Some (4, 0x07, 0x10000) \<longleftrightarrow> 240 \<le> unat a \<and> unat a \<le> 244"
  by (auto simp: scalar_shape_def word_le_nat_alt)

lemma split_byte:
  "128 \<le> b \<Longrightarrow> b < 192 \<Longrightarrow> b = 128 + b mod 64" "194 \<le> b \<Longrightarrow> b \<le> 223 \<Longrightarrow> b = 192 + b mod 32"
  "224 \<le> b \<Longrightarrow> b \<le> 239 \<Longrightarrow> b = 224 + b mod 16" "240 \<le> b \<Longrightarrow> b \<le> 244 \<Longrightarrow> b = 240 + b mod 8"
  for b :: nat
  using lead_byte_mod [of "b - 128"] lead_byte_mod [of "b - 192"] lead_byte_mod [of "b - 224"]
    lead_byte_mod [of "b - 240"] by simp_all

lemma minima: "unat (0x80 :: u32) = 128" "unat (0x800 :: u32) = 2048" "unat (0x10000 :: u32) = 65536"
  by simp_all

lemma utf8_forms:
  assumes "is_scalar c" "128 \<le> c" "map unat bs = utf8_bytes c"
  obtains (two) a b where "bs = [a, b]" "unat a = 192 + c div 64" "unat b = 128 + c mod 64"
      "2 \<le> c div 64" "c div 64 < 32"
    | (three) a b d where "bs = [a, b, d]" "unat a = 224 + c div 4096" "unat b = 128 + c div 64 mod 64"
      "unat d = 128 + c mod 64" "2048 \<le> c" "c div 4096 < 16"
    | (four) a b d e where "bs = [a, b, d, e]" "unat a = 240 + c div 262144" "unat b = 128 + c div 4096 mod 64"
      "unat d = 128 + c div 64 mod 64" "unat e = 128 + c mod 64" "65536 \<le> c" "c div 262144 \<le> 4"
proof -
  consider "c < 2048" | "2048 \<le> c" "c < 65536" | "65536 \<le> c" "c < 1114112"
    using is_scalar_less [OF assms(1)] by linarith
  then show thesis
  proof cases
    case 1
    then have "utf8_bytes c = [192 + c div 64, 128 + c mod 64]" using assms(2) by (simp add: utf8_bytes_def)
    with assms(3) obtain a b where "bs = [a, b]" "unat a = 192 + c div 64" "unat b = 128 + c mod 64"
      by (auto simp: map_eq_Cons_conv)
    with 1 assms(2) show thesis by (intro two) auto
  next
    case 2
    then have "utf8_bytes c = [224 + c div 4096, 128 + c div 64 mod 64, 128 + c mod 64]"
      by (simp add: utf8_bytes_def)
    with assms(3) obtain a b d where "bs = [a, b, d]" "unat a = 224 + c div 4096"
      "unat b = 128 + c div 64 mod 64" "unat d = 128 + c mod 64" by (auto simp: map_eq_Cons_conv)
    with 2 show thesis by (intro three) auto
  next
    case 3
    then have "utf8_bytes c = [240 + c div 262144, 128 + c div 4096 mod 64, 128 + c div 64 mod 64, 128 + c mod 64]"
      by (simp add: utf8_bytes_def)
    with assms(3) obtain a b d e where "bs = [a, b, d, e]" "unat a = 240 + c div 262144"
      "unat b = 128 + c div 4096 mod 64" "unat d = 128 + c div 64 mod 64" "unat e = 128 + c mod 64"
      by (auto simp: map_eq_Cons_conv)
    with 3 show thesis by (intro four) auto
  qed
qed

lemma scalar_of_utf8:
  assumes "is_scalar c" "128 \<le> c" "map unat bs = utf8_bytes c"
  shows "scalar bs = Some c"
proof -
  have f: "from_u32 c = Some c" using assms(1) by (simp add: from_u32_def)
  show ?thesis
  proof (rule utf8_forms [OF assms], goal_cases)
    case (1 a b)
    then have "scalar_shape a = Some (2, 0x1F, 0x80)" by (simp add: shapes)
    from scalar_bytes [OF this, of "[b]"] 1 assms(2) f show ?case
      by (simp add: low_bits lead_byte_mod minima)
  next
    case (2 a b d)
    then have "scalar_shape a = Some (3, 0x0F, 0x800)" by (simp add: shapes)
    from scalar_bytes [OF this, of "[b, d]"] 2 f utf8_parts(2) [of c] show ?case
      by (simp add: low_bits lead_byte_mod minima add_mult_distrib mult.commute [of 4096])
  next
    case (3 a b d e)
    then have "scalar_shape a = Some (4, 0x07, 0x10000)" by (simp add: shapes)
    from scalar_bytes [OF this, of "[b, d, e]"] 3 f utf8_parts(3) [of c] show ?case
      by (simp add: low_bits lead_byte_mod minima add_mult_distrib mult.commute [of 4096] mult.commute [of 262144])
  qed
qed

lemma tail_value_digits:
  assumes "tail_value s bs = Some v"
  shows "v div 64 ^ length bs = s \<and>
    (\<forall>k < length bs. unat (bs ! k) = 128 + v div 64 ^ (length bs - Suc k) mod 64)"
  using assms
proof (induction s bs rule: tail_value.induct)
  case (2 s b bs)
  let ?s = "s * 64 + unat b mod 64"
  have b: "128 \<le> unat b" "unat b < 192" "tail_value ?s bs = Some v" using "2.prems" by (auto split: if_splits)
  then have IH: "v div 64 ^ length bs = ?s"
    "\<forall>k < length bs. unat (bs ! k) = 128 + v div 64 ^ (length bs - Suc k) mod 64" using 2 by auto
  have "v div 64 ^ length (b # bs) = v div 64 ^ length bs div 64"
    by (simp add: div_mult2_eq [symmetric] mult.commute)
  also have "\<dots> = s" using IH(1) by simp
  finally have "v div 64 ^ length (b # bs) = s" .
  moreover have "unat b = 128 + unat b mod 64" using b(1,2) by (rule split_byte)
  then have "unat ((b # bs) ! k) = 128 + v div 64 ^ (length (b # bs) - Suc k) mod 64" if "k < length (b # bs)" for k
    using that IH by (cases k) auto
  ultimately show ?case by blast
qed simp

lemma scalar_canonical:
  assumes "scalar bs = Some c"
  shows "is_scalar c \<and> 128 \<le> c \<and> map unat bs = utf8_bytes c"
proof -
  obtain a rest where bs: "bs = a # rest" using assms by (cases bs) (auto simp: scalar_def)
  obtain n m l where sh: "scalar_shape a = Some (n, m, l)" "length bs = n"
    using assms bs by (auto simp: scalar_def bind_eq_Some_conv split: if_splits)
  have fs: "is_scalar c" if "from_u32 v = Some c" "v = c" for v
    using that by (auto simp: from_u32_def split: if_splits)
  have m: "x mod 32 < 32" "x mod 16 < 32" "x mod 8 < 32" for x :: nat
    using mod_less_divisor [of 32 x] mod_less_divisor [of 16 x] mod_less_divisor [of 8 x] by simp_all
  consider "n = 2" "m = 0x1F" "l = 0x80" "194 \<le> unat a" "unat a \<le> 223"
    | "n = 3" "m = 0x0F" "l = 0x800" "224 \<le> unat a" "unat a \<le> 239"
    | "n = 4" "m = 0x07" "l = 0x10000" "240 \<le> unat a" "unat a \<le> 244"
    using sh(1) by (auto simp: scalar_shape_def word_le_nat_alt split: if_splits)
  then show ?thesis
  proof cases
    case 1
    obtain b where r: "rest = [b]" using sh(2) bs 1(1) by (cases rest) auto
    have t: "tail_value (unat a mod 32) [b] = Some c" "128 \<le> c" "is_scalar c"
      using scalar_bytes [OF sh(1), of rest] assms bs r 1 m
      by (auto simp: low_bits minima bind_eq_Some_conv from_u32_def split: if_splits)
    from tail_value_digits [OF t(1)] have d: "c div 64 = unat a mod 32" "unat b = 128 + c mod 64" by auto
    have "unat a = 192 + c div 64" unfolding d(1) using 1 by (intro split_byte)
    moreover have "c < 2048" using m(1) [of "unat a"] by (simp flip: d(1))
    then have "utf8_bytes c = [192 + c div 64, 128 + c mod 64]" using t(2) by (simp add: utf8_bytes_def)
    ultimately show ?thesis using t(2,3) d(2) bs r by simp
  next
    case 2
    obtain b e where r: "rest = [b, e]" using sh(2) bs 2(1) by (cases rest; cases "tl rest") auto
    have t: "tail_value (unat a mod 16) [b, e] = Some c" "2048 \<le> c" "is_scalar c"
      using scalar_bytes [OF sh(1), of rest] assms bs r 2 m
      by (auto simp: low_bits minima bind_eq_Some_conv from_u32_def simp del: tail_value.simps split: if_splits)
    from tail_value_digits [OF t(1)] have d: "c div 4096 = unat a mod 16" "unat b = 128 + c div 64 mod 64"
      "unat e = 128 + c mod 64" by (auto simp: less_Suc_eq nth_Cons')
    have "unat a = 224 + c div 4096" unfolding d(1) using 2 by (intro split_byte)
    moreover have "c div 4096 < 16" unfolding d(1) by simp
    then have "utf8_bytes c = [224 + c div 4096, 128 + c div 64 mod 64, 128 + c mod 64]"
      using t(2) by (simp add: utf8_bytes_def)
    ultimately show ?thesis using t(2,3) d(2,3) bs r by simp
  next
    case 3
    obtain b e g where r: "rest = [b, e, g]" using sh(2) bs 3(1) by (cases rest; cases "tl rest"; cases "tl (tl rest)") auto
    have t: "tail_value (unat a mod 8) [b, e, g] = Some c" "65536 \<le> c" "is_scalar c"
      using scalar_bytes [OF sh(1), of rest] assms bs r 3 m
      by (auto simp: low_bits minima bind_eq_Some_conv from_u32_def simp del: tail_value.simps split: if_splits)
    from tail_value_digits [OF t(1)] have d: "c div 262144 = unat a mod 8" "unat b = 128 + c div 4096 mod 64"
      "unat e = 128 + c div 64 mod 64" "unat g = 128 + c mod 64" by (auto simp: less_Suc_eq nth_Cons' numeral_3_eq_3)
    have "unat a = 240 + c div 262144" unfolding d(1) using 3 by (intro split_byte)
    moreover have "utf8_bytes c = [240 + c div 262144, 128 + c div 4096 mod 64, 128 + c div 64 mod 64, 128 + c mod 64]"
      using t(2) by (simp add: utf8_bytes_def)
    ultimately show ?thesis using t(2,3) d(2,3,4) bs r by simp
  qed
qed

end
