(* ===== verification/Terminal_Decoder.thy ===== *)
theory Terminal_Decoder
  imports Terminal_Bytes
begin

text \<open>
  What the decoders of terminal input guarantee: the invariant of the byte decoder and its bounded
  buffer, its recovery from any input, text and key reports that arrive as they were sent, and text
  from a console.
\<close>

unbundle bit_operations_syntax

section \<open>The byte decoder keeps within its buffer\<close>

definition sequence_ok :: "sequence \<Rightarrow> bool" where
  "sequence_ok s = (length (seq_bytes s) = MAX_SEQUENCE_BYTES \<and> seq_used s \<le> MAX_SEQUENCE_BYTES)"

definition dec_ok :: "decoder \<Rightarrow> bool" where
  "dec_ok d =
     (sequence_ok (dec_sequence d) \<and>
      (case dec_state d of
         Utf8 \<Rightarrow> 1 \<le> buffered_bytes d \<and> buffered_bytes d < dec_expected d \<and> dec_expected d \<le> 4
       | Control \<Rightarrow> True
       | Mouse n \<Rightarrow> buffered_bytes d = 0 \<and> 1 \<le> unat n \<and> unat n \<le> 3
       | _ \<Rightarrow> buffered_bytes d = 0))"

lemma sequence_push_ok:
  assumes "sequence_ok s"
  shows "sequence_push s b = (if seq_used s < MAX_SEQUENCE_BYTES
    then (\<lparr>seq_bytes = (seq_bytes s)[seq_used s := b], seq_used = Suc (seq_used s)\<rparr>, True) else (s, False))"
  using assms by (auto simp: sequence_push_def sequence_ok_def usize_add_def usize_max_def MAX_SEQUENCE_BYTES_def)

lemma sequence_clear_ok: "sequence_ok s \<Longrightarrow> sequence_ok (sequence_clear s)"
  by (simp add: sequence_ok_def sequence_clear_def)

lemma reset_ok: "dec_ok d \<Longrightarrow> dec_ok (decoder_reset d) \<and> dec_state (decoder_reset d) = Ground"
  by (simp add: dec_ok_def decoder_reset_def buffered_bytes_def sequence_clear_def sequence_ok_def)

lemma dec_ok_sequence: "dec_ok d \<Longrightarrow> sequence_ok (dec_sequence d)"
  by (simp add: dec_ok_def)

lemma reset_sequence_ok:
  "sequence_ok (dec_sequence d) \<Longrightarrow> dec_ok (decoder_reset d) \<and> dec_state (decoder_reset d) = Ground"
  by (simp add: dec_ok_def decoder_reset_def buffered_bytes_def sequence_clear_def sequence_ok_def)

lemma utf8_expected_bounds: "utf8_expected b = Some n \<Longrightarrow> 2 \<le> n \<and> n \<le> 4"
  by (auto simp: utf8_expected_def split: if_splits)

lemma start_utf8_ok: "dec_ok d \<Longrightarrow> dec_ok (fst (start_utf8 d b))"
  using reset_ok [of d] dec_ok_sequence [of d] sequence_clear_ok [of "dec_sequence d"]
  by (auto simp: start_utf8_def sequence_push_ok sequence_clear_def dec_ok_def buffered_bytes_def sequence_ok_def
      MAX_SEQUENCE_BYTES_def dest: utf8_expected_bounds split: option.split)

lemma ground_ok:
  assumes "dec_ok d" "dec_state d = Ground"
  shows "dec_ok (fst (ground d b m))"
proof -
  have "dec_ok (d\<lparr>dec_modifiers := m\<rparr>)" "dec_ok (d\<lparr>dec_modifiers := m, dec_state := Escape\<rparr>)"
    using assms by (simp_all add: dec_ok_def buffered_bytes_def)
  then show ?thesis using start_utf8_ok by (simp add: ground_def Let_def split: option.split)
qed

lemma sequence_push_fst_ok: "sequence_ok s \<Longrightarrow> sequence_ok (fst (sequence_push s b))"
  by (auto simp: sequence_push_ok sequence_ok_def)

lemma mouse_step:
  fixes n :: u8
  assumes "1 < n" "n \<le> 3"
  shows "1 \<le> unat (saturating_sub n 1) \<and> unat (saturating_sub n 1) \<le> 3"
  using assms by (auto simp: unat_saturating_sub word_less_nat_alt word_le_nat_alt)

lemma decode_byte_ok:
  assumes "dec_ok d"
  shows "dec_ok (fst (decode_byte d b))"
proof -
  note r = reset_ok [OF assms] and s = dec_ok_sequence [OF assms]
  have g: "dec_ok (fst (ground (decoder_reset d) b m))" for m using ground_ok r by blast
  show ?thesis
  proof (cases "dec_state d")
    case Ground
    then show ?thesis using assms ground_ok by (simp add: decode_byte_def)
  next
    case Escape
    have "dec_ok (d\<lparr>dec_sequence := sequence_clear (dec_sequence d), dec_state := Control\<rparr>)"
      using sequence_clear_ok [OF s] by (simp add: dec_ok_def)
    then show ?thesis using Escape g assms by (simp add: decode_byte_def escape_step_def)
  next
    case Utf8
    have u: "seq_used (dec_sequence d) < 4" "dec_expected d \<le> 4"
      using assms Utf8 by (auto simp: dec_ok_def buffered_bytes_def)
    let ?d = "d\<lparr>dec_sequence := fst (sequence_push (dec_sequence d) b)\<rparr>"
    have "dec_ok (decoder_reset ?d)" using reset_sequence_ok [of ?d] sequence_push_fst_ok [OF s] by simp
    moreover have "dec_ok ?d" if "Suc (seq_used (dec_sequence d)) < dec_expected d"
      using that u Utf8 sequence_push_fst_ok [OF s, of b]
      by (simp add: dec_ok_def buffered_bytes_def sequence_push_ok [OF s] MAX_SEQUENCE_BYTES_def)
    ultimately show ?thesis
      using Utf8 g u
      by (simp add: decode_byte_def utf8_step_def sequence_push_ok [OF s] Let_def MAX_SEQUENCE_BYTES_def
          split: option.split)
  next
    case Control
    let ?d = "d\<lparr>dec_sequence := fst (sequence_push (dec_sequence d) b)\<rparr>"
    have "dec_ok (decoder_reset ?d)" using reset_sequence_ok [of ?d] sequence_push_fst_ok [OF s] by simp
    moreover have "dec_ok ?d" using sequence_push_fst_ok [OF s] Control by (simp add: dec_ok_def)
    moreover have "dec_ok ((decoder_reset ?d)\<lparr>dec_state := Mouse 3\<rparr>)"
      "dec_ok ((decoder_reset ?d)\<lparr>dec_state := Discard\<rparr>)"
      using sequence_push_fst_ok [OF s, of b]
      by (simp_all add: dec_ok_def decoder_reset_def buffered_bytes_def sequence_clear_def sequence_ok_def)
    ultimately show ?thesis
      using Control g
      by (cases "sequence_push (dec_sequence d) b") (simp add: decode_byte_def control_step_def Let_def)
  next
    case Discard
    then show ?thesis using r assms by (simp add: decode_byte_def)
  next
    case (Mouse n)
    then show ?thesis
      using r assms mouse_step [of n]
      by (auto simp: decode_byte_def dec_ok_def buffered_bytes_def word_less_nat_alt word_le_nat_alt not_le)
  qed
qed

text \<open>The outputs of a run of bytes, and the keys among them.\<close>

fun decode_bytes :: "decoder \<Rightarrow> u8 list \<Rightarrow> decoder \<times> decoded list" where
  "decode_bytes d [] = (d, [])"
| "decode_bytes d (b # bs) =
     (let (d', out) = decode_byte d b; (d'', outs) = decode_bytes d' bs in (d'', out # outs))"

fun keys_of :: "decoded list \<Rightarrow> key_event list" where
  "keys_of [] = []"
| "keys_of (Key e # outs) = e # keys_of outs"
| "keys_of (_ # outs) = keys_of outs"

lemma decode_bytes_append:
  "decode_bytes d (xs @ ys) =
     (let (d', outs) = decode_bytes d xs; (d'', outs') = decode_bytes d' ys in (d'', outs @ outs'))"
  by (induction xs arbitrary: d) (auto split: prod.splits)

lemma keys_of_append [simp]: "keys_of (xs @ ys) = keys_of xs @ keys_of ys"
  by (induction xs rule: keys_of.induct) auto

lemma keys_of_pending [simp]: "keys_of (replicate n KeyPending) = []"
  by (induction n) auto

lemma decode_bytes_ok: "dec_ok d \<Longrightarrow> dec_ok (fst (decode_bytes d bs))"
proof (induction bs arbitrary: d)
  case (Cons b bs)
  then show ?case
    using Cons.IH [OF decode_byte_ok [OF Cons.prems, of b]] by (simp add: case_prod_beta Let_def)
qed simp

lemma default_ok: "dec_ok decoder_default \<and> dec_state decoder_default = Ground"
  by (simp add: dec_ok_def decoder_default_def sequence_default_def sequence_ok_def buffered_bytes_def)

lemma dec_ok_idle: "dec_ok d \<Longrightarrow> dec_state d = Ground \<Longrightarrow> buffered_bytes d = 0"
  by (simp add: dec_ok_def)

text \<open>
  A character that ends every sequence: one from the at sign to the tilde that neither opens a control sequence after
  an escape (\<open>[\<close>, \<open>O\<close>) nor announces a mouse report (\<open>M\<close>). Three of them end a mouse report.
\<close>

definition closing :: "u8 \<Rightarrow> bool" where
  "closing b \<longleftrightarrow> 64 \<le> b \<and> b \<le> 126 \<and> b \<notin> {77, 79, 91}"

lemma closing_bytes:
  assumes "closing b"
  shows "64 \<le> unat b" "unat b \<le> 126" "b \<noteq> 77" "b \<noteq> 79" "b \<noteq> 91" "b \<noteq> 27" "b \<noteq> 8" "b \<noteq> 127" "b \<noteq> 9" "b \<noteq> 13" "b \<noteq> 10" "b \<noteq> 0"
    "\<not> b \<le> 26" "b \<le> 127" "b AND 192 \<noteq> 128"
  using assms by (auto simp: closing_def word_le_nat_alt continuation_iff)

lemma closing_ground: "closing b \<Longrightarrow> dec_state d = Ground \<Longrightarrow> dec_state (fst (ground d b m)) = Ground"
  by (simp add: ground_def Let_def closing_bytes)

lemma closing_step:
  assumes "dec_ok d" "closing b"
  shows "case dec_state (fst (decode_byte d b)) of
      Ground \<Rightarrow> True | Mouse n \<Rightarrow> (\<exists>k. dec_state d = Mouse k \<and> unat n = unat k - 1 \<and> 1 < unat k) | _ \<Rightarrow> False"
proof (cases "dec_state d")
  case (Mouse n)
  then show ?thesis
    using reset_ok [OF assms(1)]
    by (auto simp: decode_byte_def unat_saturating_sub word_le_nat_alt)
next
  case Utf8
  then show ?thesis
    using closing_ground [OF assms(2)] reset_ok [OF assms(1)] closing_bytes [OF assms(2)] by (simp add: decode_byte_def utf8_step_def)
next
  case Control
  then show ?thesis
    using closing_bytes [OF assms(2)]
    by (cases "sequence_push (dec_sequence d) b")
      (simp add: decode_byte_def control_step_def Let_def word_le_nat_alt decoder_reset_def)
qed (use closing_ground [OF assms(2)] reset_ok [OF assms(1)] closing_bytes [OF assms(2)] in
    \<open>simp_all add: decode_byte_def escape_step_def word_le_nat_alt decoder_reset_def\<close>)

lemma closing_recovers:
  assumes "dec_ok d" "list_all closing [x, y, z]"
  shows "dec_state (fst (decode_bytes d [x, y, z])) = Ground"
proof -
  define e where "e = fst (decode_byte d x)"
  define f where "f = fst (decode_byte e y)"
  define g where "g = fst (decode_byte f z)"
  have ok: "dec_ok e" "dec_ok f" using decode_byte_ok assms(1) by (auto simp: e_def f_def)
  have n: "case dec_state d of Mouse n \<Rightarrow> unat n \<le> 3 | _ \<Rightarrow> True"
    using assms(1) by (auto simp: dec_ok_def split: decoder_state.split)
  have "dec_state g = Ground"
    using closing_step [OF assms(1), of x] closing_step [OF ok(1), of y] closing_step [OF ok(2), of z] n assms(2)
    unfolding e_def [symmetric] f_def [symmetric] g_def [symmetric]
    by (auto split: decoder_state.splits)
  moreover have "fst (decode_bytes d [x, y, z]) = g"
    by (simp add: e_def f_def g_def split: prod.split)
  ultimately show ?thesis by simp
qed

text \<open>
  C36: The terminal decoder never grows and can always be brought back: whatever bytes arrive, at most 32 are
  buffered and none when no sequence is pending; ending the input always leaves it idle; and from any
  state it has reached, any three characters from the at sign to the tilde other than \<open>M\<close>, \<open>O\<close> and \<open>[\<close> bring it back
  to reading text.
\<close>

theorem decoder_bounded:
  assumes "decode_bytes decoder_default bytes = (d, outs)"
  shows "buffered_bytes d \<le> MAX_SEQUENCE_BYTES \<and> (\<not> decoder_pending d \<longrightarrow> buffered_bytes d = 0) \<and>
    \<not> decoder_pending (fst (decoder_finish d)) \<and>
    (\<forall>x y z. list_all (\<lambda>b. 64 \<le> b \<and> b \<le> 126 \<and> b \<notin> {77, 79, 91}) [x, y, z] \<longrightarrow>
       \<not> decoder_pending (fst (decode_bytes d [x, y, z])))"
proof -
  have ok: "dec_ok d" using decode_bytes_ok [of decoder_default bytes] default_ok assms by simp
  then have "buffered_bytes d \<le> MAX_SEQUENCE_BYTES"
    using dec_ok_sequence by (simp add: sequence_ok_def buffered_bytes_def)
  moreover have "\<not> decoder_pending (fst (decode_bytes d [x, y, z]))"
    if "list_all (\<lambda>b. 64 \<le> b \<and> b \<le> 126 \<and> b \<notin> {77, 79, 91}) [x, y, z]" for x y z
    using closing_recovers [OF ok, of x y z] that unfolding closing_def decoder_pending_def by simp
  moreover have "\<not> decoder_pending d \<longrightarrow> buffered_bytes d = 0" "\<not> decoder_pending (fst (decoder_finish d))"
    using ok dec_ok_idle reset_ok by (simp_all add: decoder_pending_def decoder_finish_def)
  ultimately show ?thesis by blast
qed

theorem decoder_bounded_witness:
  "decoder_pending (fst (decode_bytes decoder_default [27, 91])) \<and>
   \<not> decoder_pending (fst (decode_bytes (fst (decode_bytes decoder_default [27, 91])) [97, 98, 99]))"
proof -
  have "decoder_pending (fst (decode_bytes decoder_default [27, 91]))"
    by (simp add: decoder_default_def decode_byte_def ground_def escape_step_def decoder_pending_def)
  moreover obtain d outs where run: "decode_bytes decoder_default [27, 91] = (d, outs)" by (rule prod.exhaust)
  have "list_all (\<lambda>b. 64 \<le> b \<and> b \<le> 126 \<and> b \<notin> {77, 79, 91}) [97, 98, 99 :: u8]" by (simp add: word_le_nat_alt)
  with decoder_bounded [OF run] have "\<not> decoder_pending (fst (decode_bytes d [97, 98, 99]))" by blast
  ultimately show ?thesis unfolding run fst_conv by blast
qed

section \<open>Text that is typed\<close>

lemma content_push:
  assumes "sequence_ok s" "sequence_content s = Some pre" "length pre < MAX_SEQUENCE_BYTES"
  shows "\<exists>s'. sequence_push s b = (s', True) \<and> sequence_ok s' \<and> sequence_content s' = Some (pre @ [b]) \<and>
    seq_used s' = Suc (length pre)"
proof -
  have "seq_used s = length pre" "take (seq_used s) (seq_bytes s) = pre"
    using assms(1,2) by (auto simp: sequence_content_def sequence_ok_def split: if_splits)
  then show ?thesis
    using assms by (auto simp: sequence_push_ok sequence_content_def sequence_ok_def take_Suc_conv_app_nth)
qed

lemma content_used: "sequence_ok s \<Longrightarrow> sequence_content s = Some pre \<Longrightarrow> seq_used s = length pre"
  by (auto simp: sequence_content_def sequence_ok_def split: if_splits)

lemma utf8_tail:
  assumes "dec_state d = Utf8" "sequence_ok (dec_sequence d)" "sequence_content (dec_sequence d) = Some pre"
    "dec_expected d = length pre + length bs" "bs \<noteq> []" "length pre + length bs \<le> 4"
    "list_all (\<lambda>b. 128 \<le> unat b \<and> unat b < 192) bs" "scalar (pre @ bs) = Some c"
  shows "\<exists>d'. decode_bytes d bs = (d', replicate (length bs - 1) KeyPending @
      [Key (key_event_new (KChar c) (dec_modifiers d))]) \<and> dec_ok d' \<and> dec_state d' = Ground"
  using assms
proof (induction bs arbitrary: d pre)
  case (Cons b bs)
  have "length pre < MAX_SEQUENCE_BYTES" using Cons.prems(6) by (simp add: MAX_SEQUENCE_BYTES_def)
  then obtain s where s: "sequence_push (dec_sequence d) b = (s, True)" "sequence_ok s"
    "sequence_content s = Some (pre @ [b])" "seq_used s = Suc (length pre)"
    using content_push [OF Cons.prems(2,3)] by blast
  let ?d = "d\<lparr>dec_sequence := s\<rparr>"
  have cont: "b AND 192 = 128" using Cons.prems(7) by (simp add: continuation_iff)
  show ?case
  proof (cases "bs = []")
    case True
    then have "decode_byte d b = (decoder_reset ?d, Key (key_event_new (KChar c) (dec_modifiers d)))"
      using Cons.prems(1,4,8) s cont by (simp add: decode_byte_def utf8_step_def)
    then show ?thesis using True reset_sequence_ok [of ?d] s(2) by simp
  next
    case False
    then have "decode_byte d b = (?d, KeyPending)"
      using Cons.prems(1,4) s cont by (simp add: decode_byte_def utf8_step_def)
    moreover have "\<exists>d'. decode_bytes ?d bs = (d', replicate (length bs - 1) KeyPending @
        [Key (key_event_new (KChar c) (dec_modifiers ?d))]) \<and> dec_ok d' \<and> dec_state d' = Ground"
      using Cons.IH [of ?d "pre @ [b]"] Cons.prems s False by simp
    moreover have "replicate (length bs) KeyPending = KeyPending # replicate (length bs - 1) KeyPending"
      using False by (cases bs) auto
    ultimately show ?thesis by auto
  qed
qed simp

definition printable :: "nat \<Rightarrow> bool" where
  "printable c = (is_scalar c \<and> 32 \<le> c \<and> c \<noteq> 127)"

lemma utf8_bytes_shape:
  assumes "is_scalar c" "128 \<le> c" "map unat bs = utf8_bytes c"
  shows "\<exists>a rest. bs = a # rest \<and> utf8_expected a = Some (length bs) \<and> rest \<noteq> [] \<and> length bs \<le> 4 \<and>
    128 \<le> unat a \<and> list_all (\<lambda>b. 128 \<le> unat b \<and> unat b < 192) rest"
proof (rule utf8_forms [OF assms], goal_cases)
  case (1 a b)
  then show ?case by (simp add: utf8_expected_def word_le_nat_alt)
next
  case (2 a b d)
  then show ?case by (simp add: utf8_expected_def word_le_nat_alt)
next
  case (3 a b d e)
  then show ?case by (simp add: utf8_expected_def word_le_nat_alt)
qed

lemma typed_char:
  assumes "dec_ok d" "dec_state d = Ground" "printable c" "map unat bs = utf8_bytes c"
  shows "\<exists>d' outs. decode_bytes d bs = (d', outs) \<and> dec_ok d' \<and> dec_state d' = Ground \<and>
    keys_of outs = [key_event_new (KChar c) MOD_NONE]"
proof (cases "c < 128")
  case True
  then obtain b where b: "bs = [b]" "unat b = c" using assms(4) by (auto simp: utf8_bytes_def map_eq_Cons_conv)
  have "dec_ok (d\<lparr>dec_modifiers := MOD_NONE\<rparr>)"
    using assms(1,2) by (simp add: dec_ok_def buffered_bytes_def)
  then show ?thesis
    using b True assms(2,3)
    by (auto simp: decode_byte_def ground_def Let_def printable_def word_le_nat_alt word_unat_eq_iff)
next
  case False
  have sc: "is_scalar c" "128 \<le> c" using assms(3) False by (auto simp: printable_def)
  obtain a rest where bs: "bs = a # rest" "utf8_expected a = Some (length bs)" "rest \<noteq> []" "length bs \<le> 4"
    "128 \<le> unat a" "list_all (\<lambda>b. 128 \<le> unat b \<and> unat b < 192) rest"
    using utf8_bytes_shape [OF sc assms(4)] by blast
  have s: "sequence_ok (sequence_clear (dec_sequence d))" "sequence_content (sequence_clear (dec_sequence d)) = Some []"
    using sequence_clear_ok [OF dec_ok_sequence [OF assms(1)]]
    by (simp_all add: sequence_content_def sequence_clear_def)
  obtain s' where s': "sequence_push (sequence_clear (dec_sequence d)) a = (s', True)" "sequence_ok s'"
    "sequence_content s' = Some [a]"
    using content_push [OF s, of a] by (auto simp: MAX_SEQUENCE_BYTES_def)
  let ?d = "d\<lparr>dec_modifiers := MOD_NONE, dec_expected := length bs, dec_sequence := s', dec_state := Utf8\<rparr>"
  have "decode_byte d a = (?d, KeyPending)"
    using assms(2) bs(2,5) s'(1)
    by (simp add: decode_byte_def ground_def Let_def start_utf8_def word_le_nat_alt word_unat_eq_iff)
  moreover have "\<exists>d'. decode_bytes ?d rest = (d', replicate (length rest - 1) KeyPending @
      [Key (key_event_new (KChar c) (dec_modifiers ?d))]) \<and> dec_ok d' \<and> dec_state d' = Ground"
    using scalar_of_utf8 [OF sc assms(4)] bs s' by (intro utf8_tail [of _ "[a]"]) auto
  ultimately show ?thesis using bs(1) by auto
qed

text \<open>
  C37: Text that is typed arrives as it was typed: the UTF-8 bytes of any printable characters give
  exactly one key for each character, in order, and leave the decoder idle. Of the bytes collected for a character of
  several bytes, \<open>scalar\<close> accepts exactly the canonical encodings, so neither an overlong form nor a surrogate is taken
  for typed text (a key report such as \<open>ESC [ 233 u\<close> names its character in digits instead).
\<close>

theorem typed_text_arrives:
  assumes "list_all printable cs" "map unat bytes = concat (map utf8_bytes cs)"
  shows "\<exists>d outs. decode_bytes decoder_default bytes = (d, outs) \<and> \<not> decoder_pending d \<and>
      keys_of outs = map (\<lambda>c. key_event_new (KChar c) MOD_NONE) cs \<and>
    (\<forall>bs c. scalar bs = Some c \<longleftrightarrow> is_scalar c \<and> 128 \<le> c \<and> map unat bs = utf8_bytes c)"
proof -
  have "\<exists>d' outs. decode_bytes d bytes = (d', outs) \<and> dec_ok d' \<and> dec_state d' = Ground \<and>
      keys_of outs = map (\<lambda>c. key_event_new (KChar c) MOD_NONE) cs"
    if "dec_ok d" "dec_state d = Ground" for d
    using assms that
  proof (induction cs arbitrary: bytes d)
    case (Cons c cs)
    obtain xs ys where b: "bytes = xs @ ys" "map unat xs = utf8_bytes c" "map unat ys = concat (map utf8_bytes cs)"
      using Cons.prems(2) by (auto simp: map_eq_append_conv)
    obtain d1 o1 where 1: "decode_bytes d xs = (d1, o1)" "dec_ok d1" "dec_state d1 = Ground"
      "keys_of o1 = [key_event_new (KChar c) MOD_NONE]"
      using typed_char [OF Cons.prems(3,4) _ b(2)] Cons.prems(1) by auto
    obtain d2 o2 where "decode_bytes d1 ys = (d2, o2)" "dec_ok d2" "dec_state d2 = Ground"
      "keys_of o2 = map (\<lambda>c. key_event_new (KChar c) MOD_NONE) cs"
      using Cons.IH [OF _ b(3) 1(2,3)] Cons.prems(1) by auto
    with 1 show ?case by (simp add: b(1) decode_bytes_append)
  qed simp
  with default_ok obtain d outs where "decode_bytes decoder_default bytes = (d, outs)" "dec_state d = Ground"
    "keys_of outs = map (\<lambda>c. key_event_new (KChar c) MOD_NONE) cs" by blast
  moreover have "scalar bs = Some c \<longleftrightarrow> is_scalar c \<and> 128 \<le> c \<and> map unat bs = utf8_bytes c" for bs c
    using scalar_of_utf8 scalar_canonical by blast
  ultimately show ?thesis by (auto simp: decoder_pending_def)
qed

theorem typed_text_arrives_witness:
  "\<exists>d outs. decode_bytes decoder_default [0x61, 0xC3, 0xA9] = (d, outs) \<and> \<not> decoder_pending d \<and>
     keys_of outs = [key_event_new (KChar 0x61) MOD_NONE, key_event_new (KChar 0xE9) MOD_NONE]"
proof -
  have "list_all printable [0x61, 0xE9]" by (simp add: printable_def is_scalar_def)
  moreover have "map unat [0x61, 0xC3, 0xA9 :: u8] = concat (map utf8_bytes [0x61, 0xE9])"
    by (simp add: utf8_bytes_def)
  ultimately show ?thesis using typed_text_arrives [of "[0x61, 0xE9]"] by fastforce
qed

section \<open>Keys that are reported\<close>

lemma control_run:
  assumes "dec_state d = Control" "sequence_ok (dec_sequence d)" "sequence_content (dec_sequence d) = Some pre"
    "length pre + length ps < MAX_SEQUENCE_BYTES" "list_all (\<lambda>b. 32 \<le> unat b \<and> unat b < 64) ps"
    "64 \<le> unat f" "unat f \<le> 126" "pre @ ps \<noteq> []"
  shows "\<exists>d'. decode_bytes d (ps @ [f]) = (d', replicate (length ps) KeyPending @
      [case control_key (pre @ ps @ [f]) of Some k \<Rightarrow> Key k | None \<Rightarrow> KeyIgnored]) \<and> dec_ok d' \<and> dec_state d' = Ground"
  using assms
proof (induction ps arbitrary: d pre)
  case Nil
  then obtain s where s: "sequence_push (dec_sequence d) f = (s, True)" "sequence_ok s"
    "sequence_content s = Some (pre @ [f])" "seq_used s = Suc (length pre)"
    using content_push [of "dec_sequence d" pre f] by auto
  have "\<not> (seq_used s = 1 \<and> f = 77)" using s(4) Nil.prems(8) by simp
  then have "decode_byte d f = (decoder_reset (d\<lparr>dec_sequence := s\<rparr>),
      case control_key (pre @ [f]) of Some k \<Rightarrow> Key k | None \<Rightarrow> KeyIgnored)"
    using Nil.prems(1,6,7) s(1,3) by (auto simp: decode_byte_def control_step_def Let_def word_le_nat_alt)
  then show ?case using reset_sequence_ok [of "d\<lparr>dec_sequence := s\<rparr>"] s(2) by simp
next
  case (Cons b ps)
  then obtain s where s: "sequence_push (dec_sequence d) b = (s, True)" "sequence_ok s"
    "sequence_content s = Some (pre @ [b])"
    using content_push [of "dec_sequence d" pre b] by auto
  have "decode_byte d b = (d\<lparr>dec_sequence := s\<rparr>, KeyPending)"
    using Cons.prems(1,5) s(1) by (simp add: decode_byte_def control_step_def Let_def word_le_nat_alt)
  moreover have "\<exists>d'. decode_bytes (d\<lparr>dec_sequence := s\<rparr>) (ps @ [f]) = (d', replicate (length ps) KeyPending @
      [case control_key ((pre @ [b]) @ ps @ [f]) of Some k \<Rightarrow> Key k | None \<Rightarrow> KeyIgnored]) \<and> dec_ok d' \<and> dec_state d' = Ground"
    using Cons.prems s by (intro Cons.IH) auto
  ultimately show ?case by auto
qed

text \<open>Decimal digits as bytes.\<close>

definition digits :: "nat \<Rightarrow> u8 list" where
  "digits n = map (\<lambda>c. word_of_nat (byte c)) (decimal n)"

definition digit_value :: "nat \<Rightarrow> u8 list \<Rightarrow> nat" where
  "digit_value v ds = foldl (\<lambda>n d. 10 * n + (unat d - 48)) v ds"

lemma digits_ok: "list_all (\<lambda>b. 48 \<le> unat b \<and> unat b \<le> 57) (digits n)"
  using decimal_digits [of n]
  by (auto simp: digits_def list_all_iff is_ascii_digit_def in_range_def unat_of_nat)

lemma digits_value: "digit_value 0 (digits n) = n"
proof -
  have "unat (word_of_nat (byte c) :: u8) = byte c" for c
    by (simp add: unat_of_nat)
  then have "digit_value v (map (\<lambda>c. word_of_nat (byte c)) s) = foldl (\<lambda>n d. 10 * n + (byte d - 48)) v s" for v s
    by (induction s arbitrary: v) (simp_all add: digit_value_def)
  then show ?thesis using dec_value_decimal [of n] by (simp add: digits_def dec_value_def)
qed

lemma digit_value_mono: "v \<le> digit_value v ds"
proof (induction ds arbitrary: v)
  case (Cons d ds)
  have "v \<le> 10 * v + (unat d - 48)" by simp
  also have "\<dots> \<le> digit_value v (d # ds)" using Cons by (simp add: digit_value_def)
  finally show ?case .
qed (simp add: digit_value_def)

lemma word_of_unat: "unat w = n \<Longrightarrow> w = word_of_nat n" for w :: "'a::len word"
  by auto

lemma fields_digits:
  assumes "list_all (\<lambda>b. 48 \<le> unat b \<and> unat b \<le> 57) ds" "k < length fs"
    "digit_value (unat (fs ! k)) ds < 2 ^ 32"
  shows "fields_loop fs k (ds @ rest) = fields_loop (fs[k := word_of_nat (digit_value (unat (fs ! k)) ds)]) k rest"
  using assms
proof (induction ds arbitrary: fs)
  case Nil
  then show ?case by (simp add: digit_value_def)
next
  case (Cons d ds)
  have d: "48 \<le> unat d" "unat d \<le> 57" using Cons.prems(1) by simp_all
  let ?v = "10 * unat (fs ! k) + (unat d - 48)"
  have v: "?v < 2 ^ 32"
    using Cons.prems(3) digit_value_mono [of ?v ds] by (simp add: digit_value_def)
  have sub: "checked_sub d 48 = Some (d - 48)" "unat (d - 48) = unat d - 48"
    using d(1) by (simp_all add: checked_sub_def word_le_nat_alt unat_sub)
  have wide: "unat (ucast (d - 48) :: u32) = unat d - 48"
    using byte_less [of "d - 48"] sub(2) by (simp add: unsigned_ucast_eq take_bit_nat_eq_self)
  have mul: "checked_mul (fs ! k) 10 = Some (fs ! k * 10)" "unat (fs ! k * 10) = 10 * unat (fs ! k)"
    using v by (simp_all add: checked_mul_def unat_mult_lem [THEN iffD1] mult.commute)
  have add: "checked_add (fs ! k * 10) (ucast (d - 48)) = Some (word_of_nat ?v)"
  proof -
    have "checked_add (fs ! k * 10) (ucast (d - 48)) = Some (fs ! k * 10 + ucast (d - 48))"
      "unat (fs ! k * 10 + ucast (d - 48)) = ?v"
      using v mul(2) wide by (simp_all add: checked_add_def unat_add_lem [THEN iffD1])
    then show ?thesis using word_of_unat [of "fs ! k * 10 + ucast (d - 48)"] by simp
  qed
  have "d \<noteq> 59" "d \<noteq> 58" "\<not> 10 \<le> unat d - 48" using d by auto
  then have "fields_loop fs k ((d # ds) @ rest) = fields_loop (fs[k := word_of_nat ?v]) k (ds @ rest)"
    using sub wide d mul add Cons.prems(2) by (simp add: word_le_nat_alt)
  moreover have "unat (fs[k := word_of_nat ?v] ! k) = ?v"
    using Cons.prems(2) v by (simp only: nth_list_update_eq unat_of_nat) simp
  ultimately show ?case
    using Cons.IH [of "fs[k := word_of_nat ?v]"] Cons.prems by (simp add: digit_value_def)
qed

text \<open>
  The report of a character key in the extended keyboard protocol: the escape character, a bracket, the
  character's code, its modifiers, the kind of event and the letter u.
\<close>

definition modifier_value :: "key_modifiers \<Rightarrow> nat" where
  "modifier_value m =
     1 + (if bit (modifier_bits m) 2 then 1 else 0) + (if bit (modifier_bits m) 1 then 2 else 0) +
     (if bit (modifier_bits m) 0 then 4 else 0)"

definition kind_value :: "key_kind \<Rightarrow> nat" where
  "kind_value k = (case k of Press \<Rightarrow> 1 | Repeat \<Rightarrow> 2 | Release \<Rightarrow> 3)"

definition key_report :: "key_event \<Rightarrow> nat \<Rightarrow> u8 list" where
  "key_report e c =
     [27, 91] @ (digits c @ [59] @ digits (modifier_value (key_modifiers e)) @ [58] @
       digits (kind_value (key_kind e))) @ [117]"

lemma small_modifiers:
  assumes "modifier_bits m < 8"
  shows "m \<in> KeyModifiers ` {0, 1, 2, 3, 4, 5, 6, 7}"
proof -
  have "unat (modifier_bits m) < 8" using assms by (simp add: word_less_nat_alt)
  then have "unat (modifier_bits m) \<in> {0, 1, 2, 3, 4, 5, 6, 7}" by auto
  then have "modifier_bits m \<in> {0, 1, 2, 3, 4, 5, 6, 7}" by (auto simp: word_unat_eq_iff)
  then show ?thesis by (metis image_eqI key_modifiers.collapse)
qed

lemma modifiers_value:
  assumes "modifier_bits m < 8"
  shows "modifiers (word_of_nat (modifier_value m)) = Some m \<and> modifier_value m < 9"
  using small_modifiers [OF assms]
  by (auto simp: modifiers_def modifier_value_def MOD_NONE_def modifiers_with_def checked_sub_def
      word_le_nat_alt word_less_nat_alt)

lemma kind_value_ok: "control_kind (word_of_nat (kind_value k)) = Some k \<and> kind_value k < 4"
  by (cases k) (simp_all add: control_kind_def kind_value_def)

lemma report_fields:
  assumes "c < 2 ^ 32" "m < 2 ^ 32" "k < 2 ^ 32"
  shows "control_fields (digits c @ [59] @ digits m @ [58] @ digits k) =
    Some [word_of_nat c, word_of_nat m, word_of_nat k]"
proof -
  have "fields_loop [0, 0, 0] 0 (digits c @ ([59] @ digits m @ [58] @ digits k)) =
      fields_loop [word_of_nat c, 0, 0] 0 ([59] @ digits m @ [58] @ digits k)"
    using fields_digits [OF digits_ok, of 0 "[0, 0, 0]" c] assms(1) by (simp add: digits_value)
  also have "\<dots> = fields_loop [word_of_nat c, 0, 0] 1 (digits m @ ([58] @ digits k))"
    by (simp add: usize_checked_add_def usize_max_def MAX_FIELDS_def)
  also have "\<dots> = fields_loop [word_of_nat c, word_of_nat m, 0] 1 ([58] @ digits k)"
    using fields_digits [OF digits_ok, of 1 "[word_of_nat c, 0, 0]" m] assms(2) by (simp add: digits_value)
  also have "\<dots> = fields_loop [word_of_nat c, word_of_nat m, 0] 2 (digits k @ [])"
    by (simp add: usize_checked_add_def usize_max_def MAX_FIELDS_def flip: numeral_2_eq_2)
  also have "\<dots> = fields_loop [word_of_nat c, word_of_nat m, word_of_nat k] 2 []"
    using fields_digits [OF digits_ok, of 2 "[word_of_nat c, word_of_nat m, 0]" k "[]"] assms(3)
    by (simp add: digits_value)
  finally show ?thesis
    by (simp add: control_fields_def MAX_FIELDS_def numeral_3_eq_3)
qed

lemma decimal_length: "n < 10 ^ Suc k \<Longrightarrow> length (decimal n) \<le> Suc k"
proof (induction n arbitrary: k rule: decimal.induct)
  case (1 n)
  show ?case
  proof (cases "n < 10")
    case True
    then show ?thesis by (subst decimal.simps) simp
  next
    case False
    then obtain j where k: "k = Suc j" using "1.prems" by (cases k) auto
    have "n div 10 < 10 ^ Suc j" using "1.prems" k by (simp add: less_mult_imp_div_less)
    then have "length (decimal (n div 10)) \<le> Suc j" using "1.IH" False by simp
    then show ?thesis using False k by (subst decimal.simps) simp
  qed
qed

text \<open>
  A key that is reported is the key that was pressed: for every character, every set of modifiers
  and every kind of event, the report of the extended keyboard protocol gives exactly that key, and
  leaves the decoder idle.
\<close>

theorem key_reports_arrive:
  assumes "is_scalar c" "c \<noteq> 0" "key_code e = KChar c" "modifier_bits (key_modifiers e) < 8"
  shows "\<exists>d outs. decode_bytes decoder_default (key_report e c) = (d, outs) \<and> \<not> decoder_pending d \<and>
    keys_of outs = [e]"
proof -
  let ?m = "modifier_value (key_modifiers e)" and ?k = "kind_value (key_kind e)"
  let ?ps = "digits c @ [59] @ digits ?m @ [58] @ digits ?k"
  let ?d = "decoder_default\<lparr>dec_state := Control\<rparr>"
  note m = modifiers_value [OF assms(4)] and k = kind_value_ok [of "key_kind e"] and s = is_scalar_less [OF assms(1)]
  have len: "length (digits c) \<le> 7" "length (digits ?m) \<le> 1" "length (digits ?k) \<le> 1" "digits c \<noteq> []"
    using decimal_length [of c 6] decimal_length [of ?m 0] decimal_length [of ?k 0] s m k decimal_nonempty [of c]
    by (simp_all add: digits_def)
  have start: "decode_bytes decoder_default [27, 91] = (?d, [KeyPending, KeyPending])"
    by (simp add: decoder_default_def decode_byte_def ground_def escape_step_def sequence_clear_def
        sequence_default_def MOD_NONE_def)
  have params: "list_all (\<lambda>b. 32 \<le> unat b \<and> unat b < 64) ?ps"
    using digits_ok [of c] digits_ok [of ?m] digits_ok [of ?k] by (auto simp: list_all_iff)
  have f: "control_fields ?ps = Some [word_of_nat c, word_of_nat ?m, word_of_nat ?k]"
    by (rule report_fields) (use s m k in auto)
  have "unat (word_of_nat c :: u32) = c" "(word_of_nat c :: u32) \<noteq> 0"
    using s assms(2) by (auto simp: unat_of_nat word_unat_eq_iff)
  then have "control_code 117 (word_of_nat c) = Some (KChar c)"
    using assms(1) by (simp add: control_code_def from_u32_def)
  then have key: "control_key (?ps @ [117]) = Some e"
    using f m k assms(3) by (simp add: control_key_def butlast_append key_event_new_def key_with_kind_def)
  obtain d' where "decode_bytes ?d (?ps @ [117]) = (d', replicate (length ?ps) KeyPending @ [Key e])" "dec_state d' = Ground"
    using control_run [of ?d "[]" ?ps 117] params key len default_ok
    by (auto simp: dec_ok_def sequence_content_def decoder_default_def sequence_default_def MAX_SEQUENCE_BYTES_def
        sequence_ok_def)
  then show ?thesis
    using start decode_bytes_append [of decoder_default "[27, 91]" "?ps @ [117]"]
    by (simp add: key_report_def decoder_pending_def del: decode_bytes.simps)
qed

theorem key_reports_arrive_witness:
  "\<exists>d outs. decode_bytes decoder_default
       (key_report \<lparr>key_code = KChar 0xE9, key_modifiers = KeyModifiers 3, key_kind = Release\<rparr> 0xE9) = (d, outs) \<and>
     \<not> decoder_pending d \<and>
     keys_of outs = [\<lparr>key_code = KChar 0xE9, key_modifiers = KeyModifiers 3, key_kind = Release\<rparr>]"
  by (rule key_reports_arrive) (simp_all add: is_scalar_def word_less_nat_alt)

section \<open>Text from a console\<close>

text \<open>\<open>char::encode_utf16\<close>, and a run of the decoder with the characters it gives.\<close>

definition utf16_units :: "nat \<Rightarrow> nat list" where
  "utf16_units c =
     (if c < 0x10000 then [c]
      else [0xD800 + (c - 0x10000) div 1024, 0xDC00 + (c - 0x10000) mod 1024])"

fun utf16_run :: "utf16_decoder \<Rightarrow> u16 list \<Rightarrow> utf16_decoder \<times> nat list" where
  "utf16_run d [] = (d, [])"
| "utf16_run d (u # us) =
     (let (d', c) = utf16_decode d u; (d'', cs) = utf16_run d' us
      in (d'', (case c of Some c \<Rightarrow> [c] | None \<Rightarrow> []) @ cs))"

lemma utf16_run_append:
  "utf16_run d (xs @ ys) =
     (let (d', cs) = utf16_run d xs; (d'', cs') = utf16_run d' ys in (d'', cs @ cs'))"
  by (induction xs arbitrary: d) (auto split: prod.splits option.splits)

lemma utf16_low:
  assumes "unat h = 0xD800 + a" "a < 1024" "unat u = 0xDC00 + b" "b < 1024"
  shows "utf16_decode \<lparr>u16_high = Some h\<rparr> u = (\<lparr>u16_high = None\<rparr>, from_u32 (0x10000 + a * 1024 + b))"
proof -
  have h: "checked_sub h 0xD800 = Some (h - 0xD800)" "unat (h - 0xD800) = a"
    and l: "checked_sub u 0xDC00 = Some (u - 0xDC00)" "unat (u - 0xDC00) = b"
    using assms by (simp_all add: checked_sub_def word_le_nat_alt unat_sub)
  have w: "unat (ucast (h - 0xD800) :: u32) = a" "unat (ucast (u - 0xDC00) :: u32) = b"
    using h(2) l(2) assms(2,4) by (simp_all add: unsigned_ucast_eq take_bit_nat_eq_self)
  then have p: "unat (push_bit 10 (ucast (h - 0xD800) :: u32)) = a * 1024"
    using assms(2) by (simp add: push_bit_eq_mult unat_word_ariths)
  have "\<exists>v. Option.bind (checked_add (push_bit 10 (ucast (h - 0xD800) :: u32)) (ucast (u - 0xDC00))) (\<lambda>v.
      checked_add v 0x10000) = Some v \<and> unat v = 0x10000 + a * 1024 + b"
    using p w assms(2,4) by (simp add: checked_add_def unat_word_ariths)
  then obtain v where "Option.bind (checked_add (push_bit 10 (ucast (h - 0xD800) :: u32)) (ucast (u - 0xDC00)))
      (\<lambda>v. checked_add v 0x10000) = Some v" "unat v = 0x10000 + a * 1024 + b" by blast
  then show ?thesis using h(1) l(1) assms(3,4) by (simp add: utf16_decode_def word_le_nat_alt)
qed

lemma utf16_char:
  assumes "is_scalar c" "map unat us = utf16_units c"
  shows "utf16_run d us = (utf16_default, [c])"
proof (cases "c < 0x10000")
  case True
  then obtain u where u: "us = [u]" "unat u = c" using assms(2) by (auto simp: utf16_units_def map_eq_Cons_conv)
  have "unat (ucast u :: u32) = c" using u(2) True by (simp add: unsigned_ucast_eq take_bit_nat_eq_self)
  moreover have "\<not> (0xD800 \<le> c \<and> c < 0xE000)" using assms(1) by (simp add: is_scalar_def)
  ultimately show ?thesis
    using u assms(1) by (auto simp: utf16_decode_def word_le_nat_alt utf16_default_def from_u32_def)
next
  case False
  define a where "a = (c - 0x10000) div 1024"
  define b where "b = (c - 0x10000) mod 1024"
  have c: "c = 0x10000 + a * 1024 + b" using False by (simp add: a_def b_def)
  have ab: "a < 1024" "b < 1024"
    using is_scalar_less [OF assms(1)] by (simp_all add: a_def b_def less_mult_imp_div_less)
  obtain h u where u: "us = [h, u]" "unat h = 0xD800 + a" "unat u = 0xDC00 + b"
    using assms(2) False by (auto simp: utf16_units_def map_eq_Cons_conv a_def b_def)
  have "utf16_decode d h = (\<lparr>u16_high = Some h\<rparr>, None)"
    using u(2) ab(1) by (simp add: utf16_decode_def word_le_nat_alt)
  then show ?thesis
    using utf16_low [OF u(2) ab(1) u(3) ab(2)] u(1) assms(1) by (simp add: from_u32_def utf16_default_def flip: c)
qed

text \<open>
  Text from a console arrives as it was typed, whatever was left over before: the UTF-16 units of
  any characters give exactly those characters, and leave no half of a pair behind; a low half alone
  gives nothing.
\<close>

theorem utf16_text_arrives:
  assumes "list_all is_scalar cs" "map unat units = concat (map utf16_units cs)" "cs \<noteq> []"
  shows "utf16_run d units = (utf16_default, cs) \<and>
    (0xDC00 \<le> unat u \<and> unat u < 0xE000 \<longrightarrow> utf16_decode utf16_default u = (utf16_default, None))"
proof -
  have "utf16_run d units = (if cs = [] then d else utf16_default, cs)"
    using assms(1,2)
  proof (induction cs arbitrary: units d)
    case (Cons c cs)
    obtain xs ys where "units = xs @ ys" "map unat xs = utf16_units c" "map unat ys = concat (map utf16_units cs)"
      using Cons.prems(2) by (auto simp: map_eq_append_conv)
    then show ?case
      using utf16_char [of c xs d] Cons.IH [of ys utf16_default] Cons.prems(1) by (simp add: utf16_run_append)
  qed simp
  then show ?thesis
    using assms(3) by (auto simp: utf16_decode_def utf16_default_def word_le_nat_alt)
qed

theorem utf16_text_arrives_witness:
  "utf16_run \<lparr>u16_high = Some 0xD800\<rparr> [0x71, 0xD83E, 0xDD80] = (utf16_default, [0x71, 0x1F980])"
  using utf16_text_arrives [of "[0x71, 0x1F980]" "[0x71, 0xD83E, 0xDD80]"]
  by (simp add: is_scalar_def utf16_units_def)

end
