(* ===== verification/Hook_Clients.thy ===== *)
theory Hook_Clients
  imports Job_Wire "HOL-Library.Finite_Map"
begin

text \<open>
  The configuration of the clients: the lifecycle hooks merged into a configuration file that belongs to
  the user (\<open>hook_clients.rs\<close>), and the commands and checks that register the MCP server
  (\<open>mcp_clients.rs\<close>). JSON values and their text belong to a library: they are the parameter \<open>json_api\<close>,
  and \<open>json_laws\<close> and \<open>text_reads_back\<close> state what the code relies on.
\<close>

section \<open>JSON values\<close>

record ('v, 'j) json_api =
  js_as_object :: "'v \<Rightarrow> (string \<rightharpoonup> 'v) option"
  js_object :: "(string \<rightharpoonup> 'v) \<Rightarrow> 'v"
  js_as_array :: "'v \<Rightarrow> 'v list option"
  js_array :: "'v list \<Rightarrow> 'v"
  js_as_str :: "'v \<Rightarrow> string option"
  js_str :: "string \<Rightarrow> 'v"
  js_number :: "u64 \<Rightarrow> 'v"
  js_bool :: "bool \<Rightarrow> 'v"
  js_from_slice :: "u8 list \<Rightarrow> ('j, 'v) result"
  js_to_string :: "'v \<Rightarrow> string"

text \<open>
  An object is its members, an array its elements and a string its text; and the text of a value is not
  blank and reads back as the value.
\<close>

definition json_laws :: "('v, 'j) json_api \<Rightarrow> bool" where
  "json_laws J \<longleftrightarrow>
     (\<forall>m. finite (dom m) \<longrightarrow> js_as_object J (js_object J m) = Some m) \<and>
     (\<forall>v m. js_as_object J v = Some m \<longrightarrow> finite (dom m) \<and> js_object J m = v) \<and>
     (\<forall>vs. js_as_array J (js_array J vs) = Some vs) \<and>
     (\<forall>v vs. js_as_array J v = Some vs \<longrightarrow> js_array J vs = v) \<and>
     (\<forall>s. js_as_str J (js_str J s) = Some s)"

definition text_reads_back :: "('v, 'j) json_api \<Rightarrow> 'v \<Rightarrow> bool" where
  "text_reads_back J v \<longleftrightarrow>
     js_from_slice J (map of_char (js_to_string J v)) = Inr v \<and> trim (js_to_string J v) \<noteq> []"

definition js_get :: "('v, 'j) json_api \<Rightarrow> 'v \<Rightarrow> string \<Rightarrow> 'v option" where
  "js_get J v key = Option.bind (js_as_object J v) (\<lambda>m. m key)"

definition is_string :: "('v, 'j) json_api \<Rightarrow> 'v option \<Rightarrow> bool" where
  "is_string J v = (case v of None \<Rightarrow> False | Some v \<Rightarrow> js_as_str J v \<noteq> None)"

section \<open>Hooks\<close>

definition EVENTS :: "(string \<times> string) list" where
  "EVENTS =
     [(''SessionStart'', ''start''), (''PreToolUse'', ''pre''), (''PostToolUse'', ''post''), (''Stop'', ''stop'')]"

definition STATUS :: string where
  "STATUS = ''domyjob: chat lifecycle''"

definition TIMEOUT_SECONDS :: u64 where
  "TIMEOUT_SECONDS = 30"

record codex_command =
  cx_command :: string
  cx_windows :: string

datatype codex_hooks = CodexHooks (hooks_str: string)

datatype 'j hook_error = HookJson "'j json_error" | HookShape string

text \<open>\<open>slice.swap\<close>, and the loop that moves the groups to keep to the front.\<close>

definition swap :: "'a list \<Rightarrow> nat \<Rightarrow> nat \<Rightarrow> 'a list" where
  "swap xs i j = xs[i := xs ! j, j := xs ! i]"

definition compact_step :: "('a \<Rightarrow> bool) \<Rightarrow> 'a list \<times> nat \<Rightarrow> nat \<Rightarrow> 'a list \<times> nat" where
  "compact_step owned st i =
     (let (groups, retained) = st
      in if i < length groups \<and> \<not> owned (groups ! i)
         then (swap groups retained i, usize_add retained 1) else (groups, retained))"

definition compact_foreign :: "'a list \<Rightarrow> ('a \<Rightarrow> bool) \<Rightarrow> 'a list \<times> nat" where
  "compact_foreign groups owned = foldl (compact_step owned) (groups, 0) [0..<length groups]"

definition replace_owned :: "'a list \<Rightarrow> ('a \<Rightarrow> bool) \<Rightarrow> 'a \<Rightarrow> 'a list" where
  "replace_owned groups owned replacement =
     (let (groups, len) = compact_foreign groups owned in take len groups @ [replacement])"

definition owned_group :: "('v, 'j) json_api \<Rightarrow> 'v \<Rightarrow> bool" where
  "owned_group J grp =
     (case Option.bind (js_get J grp ''hooks'') (js_as_array J) of
        None \<Rightarrow> False
      | Some handlers \<Rightarrow>
          (case handlers of
             [handler] \<Rightarrow>
               Option.bind (js_get J handler ''type'') (js_as_str J) = Some ''command'' \<and>
               Option.bind (js_get J handler ''statusMessage'') (js_as_str J) = Some STATUS \<and>
               is_string J (js_get J handler ''command'') \<and>
               is_string J (js_get J handler ''commandWindows'')
           | _ \<Rightarrow> False))"

definition group_shape :: "('v, 'j) json_api \<Rightarrow> 'v \<Rightarrow> bool" where
  "group_shape J grp =
     (js_as_object J grp \<noteq> None \<and>
      (case js_get J grp ''hooks'' of None \<Rightarrow> True | Some handlers \<Rightarrow> js_as_array J handlers \<noteq> None))"

text \<open>
  \<open>event_groups\<close> gives a reference into the document, creating the maps on the way; here it gives the
  two maps it passed and the groups, and \<open>put_groups\<close> is the document with other groups in their place.
\<close>

definition event_groups ::
  "('v, 'j) json_api \<Rightarrow> 'v \<Rightarrow> string \<Rightarrow> ('j hook_error, (string \<rightharpoonup> 'v) \<times> (string \<rightharpoonup> 'v) \<times> 'v list) result" where
  "event_groups J document event =
     and_then (ok_or (HookShape ''root'') (js_as_object J document)) (\<lambda>root.
     let hooks = (case root ''hooks'' of Some h \<Rightarrow> h | None \<Rightarrow> js_object J Map.empty) in
     and_then (ok_or (HookShape ''hooks map'') (js_as_object J hooks)) (\<lambda>events.
     let groups = (case events event of Some g \<Rightarrow> g | None \<Rightarrow> js_array J []) in
     and_then (ok_or (HookShape ''event groups'') (js_as_array J groups)) (\<lambda>groups.
       if list_ex (\<lambda>grp. \<not> group_shape J grp) groups then Inl (HookShape ''matcher group'')
       else Inr (root, events, groups))))"

definition put_groups ::
  "('v, 'j) json_api \<Rightarrow> string \<Rightarrow> (string \<rightharpoonup> 'v) \<Rightarrow> (string \<rightharpoonup> 'v) \<Rightarrow> 'v list \<Rightarrow> 'v" where
  "put_groups J event root events groups =
     js_object J (root(''hooks'' \<mapsto> js_object J (events(event \<mapsto> js_array J groups))))"

definition codex_group :: "('v, 'j) json_api \<Rightarrow> codex_command \<Rightarrow> 'v" where
  "codex_group J command =
     js_object J [''hooks'' \<mapsto> js_array J [js_object J
       [''type'' \<mapsto> js_str J ''command'', ''command'' \<mapsto> js_str J (cx_command command),
        ''commandWindows'' \<mapsto> js_str J (cx_windows command), ''statusMessage'' \<mapsto> js_str J STATUS,
        ''timeout'' \<mapsto> js_number J TIMEOUT_SECONDS]]]"

fun merge_events ::
  "('v, 'j) json_api \<Rightarrow> 'v \<Rightarrow> (string \<times> codex_command) list \<Rightarrow> ('j hook_error, 'v) result" where
  "merge_events J document [] = Inr document"
| "merge_events J document ((event, command) # rest) =
     and_then (event_groups J document event) (\<lambda>(root, events, groups).
       merge_events J
         (put_groups J event root events (replace_owned groups (owned_group J) (codex_group J command))) rest)"

definition codex_parse :: "('v, 'j) json_api \<Rightarrow> string \<Rightarrow> ('j hook_error, 'v) result" where
  "codex_parse J document =
     (if trim document = [] then Inr (js_object J Map.empty)
      else map_err HookJson (foreign_json (js_from_slice J) document))"

definition codex_merge ::
  "('v, 'j) json_api \<Rightarrow> string \<Rightarrow> codex_command list \<Rightarrow> ('j hook_error, codex_hooks) result" where
  "codex_merge J document commands =
     (if length document > MAX_FOREIGN_BYTES then Inl (HookJson (JsonTooLarge MAX_FOREIGN_BYTES))
      else
        and_then (codex_parse J document) (\<lambda>original.
        and_then (merge_events J original (zip (map fst EVENTS) commands)) (\<lambda>parsed.
          if parsed = original then Inr (CodexHooks document)
          else let encoded = js_to_string J parsed
               in if length encoded > MAX_FOREIGN_BYTES
                  then Inl (HookJson (JsonTooLarge MAX_FOREIGN_BYTES))
                  else Inr (CodexHooks encoded))))"

definition claude_settings :: "('v, 'j) json_api \<Rightarrow> string \<Rightarrow> 'v" where
  "claude_settings J program =
     js_object J [''hooks'' \<mapsto> js_object J (map_of (map (\<lambda>(event, phase).
       (event, js_array J [js_object J [''hooks'' \<mapsto> js_array J [js_object J
          [''type'' \<mapsto> js_str J ''command'', ''command'' \<mapsto> js_str J program,
           ''args'' \<mapsto> js_array J (map (js_str J)
              [''chat'', ''hook'', phase, ''--client'', ''claude'', ''--if-bound'']),
           ''timeout'' \<mapsto> js_number J TIMEOUT_SECONDS]]]])) EVENTS))]"

section \<open>Registration of the MCP server\<close>

definition SERVER :: string where
  "SERVER = ''domyjob''"

definition OPENCODE_MEMBER :: "string list" where
  "OPENCODE_MEMBER = [''mcp'', SERVER]"

definition claude_get :: "string list" where
  "claude_get = [''mcp'', ''get'', SERVER]"

definition claude_remove :: "string list" where
  "claude_remove = [''mcp'', ''remove'', ''--scope'', ''user'', SERVER]"

definition claude_add :: "string \<Rightarrow> string list" where
  "claude_add program =
     [''mcp'', ''add'', ''--scope'', ''user'', ''--transport'', ''stdio'', SERVER, ''--'', program, ''mcp'']"

text \<open>\<open>str::lines\<close>: the lines without their line ends, a last empty line left out.\<close>

definition strip_cr :: "string \<Rightarrow> string" where
  "strip_cr line = (if line \<noteq> [] \<and> last line = CHR 0x0D then butlast line else line)"

definition str_lines :: "string \<Rightarrow> string list" where
  "str_lines s =
     (let parts = split_at (CHR 0x0A) s
      in map strip_cr (butlast parts) @ (if last parts = [] then [] else [last parts]))"

definition starts_with :: "string \<Rightarrow> string \<Rightarrow> bool" where
  "starts_with s prefix = (take (length prefix) s = prefix)"

definition claude_registration_matches :: "string \<Rightarrow> string \<Rightarrow> bool" where
  "claude_registration_matches get_output program =
     (let lines = map trim (str_lines get_output)
      in list_ex (\<lambda>line. starts_with line ''Scope: User config'') lines \<and>
         list_all (\<lambda>wanted. wanted \<in> set lines) [''Type: stdio'', ''Command: '' @ program, ''Args: mcp''])"

definition codex_get :: "string list" where
  "codex_get = [''mcp'', ''get'', SERVER, ''--json'']"

definition codex_remove :: "string list" where
  "codex_remove = [''mcp'', ''remove'', SERVER]"

definition codex_add :: "string \<Rightarrow> string list" where
  "codex_add program = [''mcp'', ''add'', SERVER, ''--'', program, ''mcp'']"

record codex_transport =
  ct_kind :: string
  ct_command :: string
  ct_args :: "string list"

record codex_server =
  cs_enabled :: bool
  cs_transport :: codex_transport

definition codex_registration_matches ::
  "(u8 list \<Rightarrow> ('j, codex_server) result) \<Rightarrow> string \<Rightarrow> string \<Rightarrow> bool" where
  "codex_registration_matches from_slice get_json program =
     (case foreign_json from_slice get_json of
        Inr server \<Rightarrow>
          cs_enabled server \<and> ct_kind (cs_transport server) = ''stdio'' \<and>
          ct_command (cs_transport server) = program \<and> ct_args (cs_transport server) = [''mcp'']
      | Inl _ \<Rightarrow> False)"

definition opencode_mcp_value :: "('v, 'j) json_api \<Rightarrow> string \<Rightarrow> string" where
  "opencode_mcp_value J program =
     [CHR ''{'', CHR 0x22] @ ''type'' @ [CHR 0x22, CHR '':'', CHR 0x22] @ ''local'' @ [CHR 0x22, CHR '','', CHR 0x22] @
     ''command'' @ [CHR 0x22, CHR '':'', CHR ''[''] @ js_to_string J (js_str J program) @
     [CHR '','', CHR 0x22] @ ''mcp'' @ [CHR 0x22, CHR '']'', CHR '','', CHR 0x22] @ ''enabled'' @
     [CHR 0x22, CHR '':''] @ ''true}''"

section \<open>Replacing the own groups\<close>

definition compact_ok :: "('a \<Rightarrow> bool) \<Rightarrow> 'a list \<Rightarrow> nat \<Rightarrow> 'a list \<times> nat \<Rightarrow> bool" where
  "compact_ok owned groups i st =
     (let (gs, n) = st
      in length gs = length groups \<and> n \<le> i \<and> take n gs = filter (\<lambda>g. \<not> owned g) (take i groups) \<and>
         drop i gs = drop i groups)"

lemma take_swap:
  assumes "n \<le> i" "i < length gs"
  shows "take (Suc n) (swap gs n i) = take n gs @ [gs ! i] \<and> drop (Suc i) (swap gs n i) = drop (Suc i) gs"
proof (cases "n = i")
  case True
  then show ?thesis using assms by (simp add: swap_def take_Suc_conv_app_nth)
next
  case False
  then show ?thesis
    using assms by (simp add: swap_def take_Suc_conv_app_nth nth_list_update)
qed

lemma compact_step_ok:
  assumes "compact_ok owned groups i st" "i < length groups" "length groups < usize_max"
  shows "compact_ok owned groups (Suc i) (compact_step owned st i)"
proof -
  obtain gs n where st: "st = (gs, n)" by (cases st)
  have ok: "length gs = length groups" "n \<le> i" "take n gs = filter (\<lambda>g. \<not> owned g) (take i groups)"
    "drop i gs = drop i groups" using assms(1) by (auto simp: compact_ok_def st)
  have e: "gs ! i = groups ! i" using ok(4) ok(1) assms(2) by (metis hd_drop_conv_nth)
  have d: "drop (Suc i) gs = drop (Suc i) groups" using ok(4) by (metis drop_Suc tl_drop)
  have u: "usize_add n 1 = Suc n" using ok(2) assms(2,3) by (simp add: usize_add_def)
  show ?thesis
    using take_swap [of n i gs] ok e d u assms(2)
    by (auto simp: compact_ok_def compact_step_def st take_Suc_conv_app_nth swap_def)
qed

lemma compact_foreign_ok:
  assumes "length groups < usize_max"
  shows "compact_ok owned groups (length groups) (compact_foreign groups owned)"
proof -
  have "k \<le> length groups \<Longrightarrow>
      compact_ok owned groups k (foldl (compact_step owned) (groups, 0) [0..<k])" for k
  proof (induction k)
    case (Suc k)
    then show ?case using compact_step_ok [OF _ _ assms] by simp
  qed (simp add: compact_ok_def)
  then show ?thesis by (simp add: compact_foreign_def)
qed

lemma replace_owned_filter:
  "length groups < usize_max \<Longrightarrow> replace_owned groups owned r = filter (\<lambda>g. \<not> owned g) groups @ [r]"
  using compact_foreign_ok [of groups owned] by (auto simp: replace_owned_def compact_ok_def)

section \<open>Merging\<close>

lemma json_object: "json_laws J \<Longrightarrow> finite (dom m) \<Longrightarrow> js_as_object J (js_object J m) = Some m"
  and json_object_id: "json_laws J \<Longrightarrow> js_as_object J v = Some m \<Longrightarrow> finite (dom m) \<and> js_object J m = v"
  and json_array: "json_laws J \<Longrightarrow> js_as_array J (js_array J vs) = Some vs"
  and json_array_id: "json_laws J \<Longrightarrow> js_as_array J v = Some vs \<Longrightarrow> js_array J vs = v"
  and json_str: "json_laws J \<Longrightarrow> js_as_str J (js_str J s) = Some s"
  by (simp_all add: json_laws_def)

lemma codex_group_owned:
  assumes "json_laws J"
  shows "owned_group J (codex_group J c) \<and> group_shape J (codex_group J c)"
  using assms
  by (simp add: owned_group_def group_shape_def codex_group_def js_get_def json_object json_array json_str is_string_def)


lemma event_groups_Inr:
  "event_groups J document event = Inr (root, events, gs) \<longleftrightarrow>
     js_as_object J document = Some root \<and>
     js_as_object J (case root ''hooks'' of Some h \<Rightarrow> h | None \<Rightarrow> js_object J Map.empty) = Some events \<and>
     js_as_array J (case events event of Some g \<Rightarrow> g | None \<Rightarrow> js_array J []) = Some gs \<and>
     list_all (group_shape J) gs"
  by (auto simp: event_groups_def Let_def result_simps list_all_iff list_ex_iff)

lemma put_groups_own:
  assumes "json_laws J" "event_groups J document event = Inr (root, events, gs)" "list_all (group_shape J) hs"
  shows "event_groups J (put_groups J event root events hs) event =
    Inr (root(''hooks'' \<mapsto> js_object J (events(event \<mapsto> js_array J hs))), events(event \<mapsto> js_array J hs), hs)"
proof -
  have "finite (dom root)" "finite (dom events)"
    using assms(2) json_object_id [OF assms(1)] by (auto simp: event_groups_Inr)
  then show ?thesis
    using assms(3) json_object [OF assms(1)] json_array [OF assms(1)] by (simp add: event_groups_Inr put_groups_def)
qed

lemma put_groups_other:
  assumes "json_laws J" "event_groups J document event = Inr (root, events, gs)" "e \<noteq> event"
  shows "event_groups J (put_groups J event root events hs) e =
    map_ok (\<lambda>(_, _, gs'). (root(''hooks'' \<mapsto> js_object J (events(event \<mapsto> js_array J hs))),
      events(event \<mapsto> js_array J hs), gs')) (event_groups J document e)"
proof -
  have "finite (dom root)" "finite (dom events)"
    "js_as_object J document = Some root"
    "js_as_object J (case root ''hooks'' of Some h \<Rightarrow> h | None \<Rightarrow> js_object J Map.empty) = Some events"
    using assms(2) json_object_id [OF assms(1)] by (auto simp: event_groups_Inr)
  then show ?thesis
    using assms(3) json_object [OF assms(1)]
    by (cases "js_as_array J (case events e of Some g \<Rightarrow> g | None \<Rightarrow> js_array J [])")
      (simp_all add: event_groups_def Let_def put_groups_def)
qed

text \<open>What one event of the merge does to the groups of every event and to the rest of the document.\<close>

definition merge_event :: "('v, 'j) json_api \<Rightarrow> 'v \<Rightarrow> string \<Rightarrow> codex_command \<Rightarrow> ('j hook_error, 'v) result" where
  "merge_event J document event command =
     and_then (event_groups J document event) (\<lambda>(root, events, groups).
       Inr (put_groups J event root events (replace_owned groups (owned_group J) (codex_group J command))))"

lemma merge_events_Cons:
  "merge_events J document ((event, command) # rest) =
     and_then (merge_event J document event command) (\<lambda>d. merge_events J d rest)"
  by (cases "event_groups J document event") (auto simp: merge_event_def)

definition has_groups :: "('v, 'j) json_api \<Rightarrow> 'v \<Rightarrow> string \<Rightarrow> 'v list \<Rightarrow> bool" where
  "has_groups J document event gs = (\<exists>root events. event_groups J document event = Inr (root, events, gs))"

definition foreign :: "('v, 'j) json_api \<Rightarrow> 'v list \<Rightarrow> 'v list" where
  "foreign J gs = filter (\<lambda>g. \<not> owned_group J g) gs"

lemma merge_event_groups:
  assumes "json_laws J" "merge_event J document event command = Inr d" "has_groups J document event gs"
    "length gs < usize_max"
  shows "has_groups J d event (foreign J gs @ [codex_group J command])"
    and "e \<noteq> event \<Longrightarrow> has_groups J d e hs \<longleftrightarrow> has_groups J document e hs"
    and "k \<noteq> ''hooks'' \<Longrightarrow> js_get J d k = js_get J document k"
proof -
  obtain root events where eg: "event_groups J document event = Inr (root, events, gs)"
    using assms(3) by (auto simp: has_groups_def)
  have d: "d = put_groups J event root events (foreign J gs @ [codex_group J command])"
    using assms(2,4) eg by (simp add: merge_event_def replace_owned_filter foreign_def)
  have "list_all (group_shape J) (foreign J gs @ [codex_group J command])"
    using eg codex_group_owned [OF assms(1)] by (auto simp: event_groups_Inr foreign_def list_all_iff)
  then show "has_groups J d event (foreign J gs @ [codex_group J command])"
    using put_groups_own [OF assms(1) eg] by (auto simp: d has_groups_def)
  show "has_groups J d e hs \<longleftrightarrow> has_groups J document e hs" if "e \<noteq> event"
    using put_groups_other [OF assms(1) eg that] by (auto simp: d has_groups_def result_simps)
  show "js_get J d k = js_get J document k" if "k \<noteq> ''hooks''"
    using that eg json_object_id [OF assms(1)] json_object [OF assms(1)]
    by (auto simp: d put_groups_def js_get_def event_groups_Inr)
qed

lemma merge_event_ok: "merge_event J document event command = Inr d \<Longrightarrow> \<exists>gs. has_groups J document event gs"
  by (auto simp: merge_event_def has_groups_def result_simps)

lemma has_groups_unique: "has_groups J d e gs \<Longrightarrow> has_groups J d e hs \<Longrightarrow> gs = hs"
  by (auto simp: has_groups_def)

lemma merge_events_groups:
  assumes "json_laws J" "merge_events J document L = Inr d" "distinct (map fst L)"
    and "\<forall>e gs. e \<in> fst ` set L \<and> has_groups J document e gs \<longrightarrow> length gs < usize_max"
  shows "(\<forall>(e, c) \<in> set L. \<exists>gs. has_groups J document e gs \<and> has_groups J d e (foreign J gs @ [codex_group J c])) \<and>
    (\<forall>e gs. e \<notin> fst ` set L \<longrightarrow> has_groups J d e gs = has_groups J document e gs) \<and>
    (\<forall>k. k \<noteq> ''hooks'' \<longrightarrow> js_get J d k = js_get J document k)"
  using assms(2-)
proof (induction L arbitrary: document)
  case (Cons ec L)
  obtain event command where ec: "ec = (event, command)" by (cases ec)
  obtain d1 where d1: "merge_event J document event command = Inr d1" "merge_events J d1 L = Inr d"
    using Cons.prems(1) by (auto simp: ec merge_events_Cons result_simps simp del: merge_events.simps)
  obtain gs where gs: "has_groups J document event gs" using merge_event_ok [OF d1(1)] by blast
  then have len: "length gs < usize_max" using Cons.prems(3) ec by auto
  note m = merge_event_groups [OF assms(1) d1(1) gs len]
  have ev: "event \<notin> fst ` set L" "distinct (map fst L)" using Cons.prems(2) ec by auto
  have "\<forall>e gs. e \<in> fst ` set L \<and> has_groups J d1 e gs \<longrightarrow> length gs < usize_max"
  proof (intro allI impI)
    fix e hs assume e: "e \<in> fst ` set L \<and> has_groups J d1 e hs"
    then have "e \<noteq> event" "e \<in> fst ` set (ec # L)" using ev(1) by auto
    with e show "length hs < usize_max" using Cons.prems(3) m(2) by blast
  qed
  note IH = Cons.IH [OF d1(2) ev(2) this]
  have own: "has_groups J d event (foreign J gs @ [codex_group J command])" using IH m(1) ev(1) by blast
  have other: "\<exists>hs. has_groups J document e hs \<and> has_groups J d e (foreign J hs @ [codex_group J c])"
    if ecL: "(e, c) \<in> set L" for e c
  proof -
    have "e \<noteq> event" using ev(1) ecL by force
    then show ?thesis using IH ecL m(2) by fastforce
  qed
  show ?case
  proof (intro conjI allI impI ballI)
    fix x assume "x \<in> set (ec # L)"
    then show "case x of (e, c) \<Rightarrow>
        \<exists>gs. has_groups J document e gs \<and> has_groups J d e (foreign J gs @ [codex_group J c])"
      using own other gs ec by auto
  next
    fix e hs assume "e \<notin> fst ` set (ec # L)"
    then show "has_groups J d e hs = has_groups J document e hs" using IH m(2) ec by auto
  next
    fix k :: string assume "k \<noteq> ''hooks''"
    then show "js_get J d k = js_get J document k" using IH m(3) by simp
  qed
qed simp

lemma put_same:
  assumes "json_laws J" "event_groups J d e = Inr (root, events, hs)" "hs \<noteq> []"
  shows "put_groups J e root events hs = d"
proof -
  have r: "js_as_object J d = Some root"
    "js_as_object J (case root ''hooks'' of Some h \<Rightarrow> h | None \<Rightarrow> js_object J Map.empty) = Some events"
    "js_as_array J (case events e of Some g \<Rightarrow> g | None \<Rightarrow> js_array J []) = Some hs"
    using assms(2) by (auto simp: event_groups_Inr)
  obtain g where g: "events e = Some g" "js_array J hs = g"
    using r(3) assms(3) json_array [OF assms(1)] json_array_id [OF assms(1)] by (auto split: option.splits)
  then have "root ''hooks'' \<noteq> None"
    using r(2) json_object [OF assms(1), of Map.empty] by (auto split: option.splits)
  then obtain h where h: "root ''hooks'' = Some h" "js_object J events = h"
    using r(2) json_object_id [OF assms(1)] by auto
  have "events(e \<mapsto> js_array J hs) = events" using g by (simp add: map_upd_triv)
  moreover have "root(''hooks'' \<mapsto> js_object J events) = root" using h by (simp add: map_upd_triv)
  ultimately show ?thesis using json_object_id [OF assms(1) r(1)] by (simp add: put_groups_def)
qed

lemma merge_event_settled:
  assumes "json_laws J" "has_groups J d e (foreign J gs @ [codex_group J c])" "Suc (length gs) < usize_max"
  shows "merge_event J d e c = Inr d"
proof -
  let ?hs = "foreign J gs @ [codex_group J c]"
  obtain root events where eg: "event_groups J d e = Inr (root, events, ?hs)"
    using assms(2) by (auto simp: has_groups_def)
  have "length (foreign J gs) \<le> length gs" by (simp add: foreign_def)
  then have "length ?hs < usize_max" using assms(3) by simp
  then have "replace_owned ?hs (owned_group J) (codex_group J c) = ?hs"
    using codex_group_owned [OF assms(1)] by (simp add: replace_owned_filter foreign_def)
  then show ?thesis using eg put_same [OF assms(1) eg] by (simp add: merge_event_def)
qed

lemma distinct_prefix_zip: "distinct xs \<Longrightarrow> distinct (map fst (zip xs ys))"
  by (simp add: map_fst_zip_take)

lemma merge_events_settled:
  assumes "json_laws J" "\<forall>(e, c) \<in> set L. merge_event J d e c = Inr d"
  shows "merge_events J d L = Inr d"
  using assms(2)
proof (induction L)
  case (Cons x L)
  then show ?case by (cases x) (simp add: merge_events_Cons del: merge_events.simps)
qed simp

lemma merge_twice:
  assumes "json_laws J" "merge_events J document L = Inr d" "distinct (map fst L)"
    and "\<forall>e gs. has_groups J document e gs \<longrightarrow> Suc (length gs) < usize_max"
  shows "merge_events J d L = Inr d"
proof (rule merge_events_settled [OF assms(1)], clarify)
  fix e c assume "(e, c) \<in> set L"
  then obtain gs where "has_groups J document e gs" "has_groups J d e (foreign J gs @ [codex_group J c])"
    using merge_events_groups [OF assms(1-3)] assms(4) Suc_lessD by blast
  then show "merge_event J d e c = Inr d" using merge_event_settled [OF assms(1)] assms(4) by blast
qed

lemma events_distinct: "distinct (map fst (zip (map fst EVENTS) commands))"
  by (rule distinct_prefix_zip) (simp add: EVENTS_def)

lemma codex_merge_result:
  assumes "codex_parse J document = Inr v" "codex_merge J document commands = Inr (CodexHooks merged)"
    and "\<forall>w. merge_events J v (zip (map fst EVENTS) commands) = Inr w \<longrightarrow> text_reads_back J w"
  obtains w where "merge_events J v (zip (map fst EVENTS) commands) = Inr w" "codex_parse J merged = Inr w"
    "length merged \<le> MAX_FOREIGN_BYTES"
proof -
  have l: "length document \<le> MAX_FOREIGN_BYTES" using assms(2) by (auto simp: codex_merge_def split: if_splits)
  obtain w where w: "merge_events J v (zip (map fst EVENTS) commands) = Inr w"
    "w = v \<and> merged = document \<or> merged = js_to_string J w \<and> length merged \<le> MAX_FOREIGN_BYTES"
    using assms(1,2) by (auto simp: codex_merge_def result_simps Let_def split: if_splits)
  from w(2) show thesis
  proof
    assume "w = v \<and> merged = document"
    then show thesis using that [of w] w(1) assms(1) l by simp
  next
    assume m: "merged = js_to_string J w \<and> length merged \<le> MAX_FOREIGN_BYTES"
    have "text_reads_back J w" using assms(3) w(1) by blast
    then have "codex_parse J merged = Inr w"
      using m by (auto simp: text_reads_back_def codex_parse_def foreign_json_def json_def)
    then show thesis using that [of w] w(1) m by blast
  qed
qed

section \<open>A sample library of JSON values\<close>

text \<open>
  The witnesses read and print JSON with a small library of values: the text \<open>old\<close> is a document with
  one group of another program, every other text is the given value.
\<close>

datatype sample_value =
    SObject "(string, sample_value) fmap" | SArray "sample_value list" | SString string | SNumber u64 | SBool bool

definition sample_group :: sample_value where
  "sample_group = SObject (fmupd ''matcher'' (SString ''x'') fmempty)"

definition sample_old :: sample_value where
  "sample_old = SObject (fmupd ''hooks'' (SObject (fmupd ''Stop'' (SArray [sample_group]) fmempty)) fmempty)"

definition sample_api :: "sample_value \<Rightarrow> (sample_value, unit) json_api" where
  "sample_api stored =
     \<lparr>js_as_object = (\<lambda>v. case v of SObject m \<Rightarrow> Some (fmlookup m) | _ \<Rightarrow> None),
      js_object = (\<lambda>m. SObject (Abs_fmap m)),
      js_as_array = (\<lambda>v. case v of SArray vs \<Rightarrow> Some vs | _ \<Rightarrow> None),
      js_array = SArray,
      js_as_str = (\<lambda>v. case v of SString s \<Rightarrow> Some s | _ \<Rightarrow> None),
      js_str = SString,
      js_number = SNumber,
      js_bool = SBool,
      js_from_slice = (\<lambda>bytes. Inr (if bytes = map of_char ''old'' then sample_old else stored)),
      js_to_string = (\<lambda>_. ''new'')\<rparr>"

definition sample_commands :: "codex_command list" where
  "sample_commands = replicate 4 \<lparr>cx_command = ''run'', cx_windows = ''run.exe''\<rparr>"

definition sample_merged :: sample_value where
  "sample_merged =
     (case merge_events (sample_api sample_old) sample_old (zip (map fst EVENTS) sample_commands) of
        Inr w \<Rightarrow> w | Inl _ \<Rightarrow> sample_old)"

abbreviation sample_library :: "(sample_value, unit) json_api" where
  "sample_library \<equiv> sample_api sample_merged"

lemma sample_laws: "json_laws (sample_api v)"
  by (auto simp: json_laws_def sample_api_def Abs_fmap_inverse fmlookup_inverse split: sample_value.splits)

lemma sample_sel:
  "js_as_object (sample_api u) = js_as_object (sample_api v)" "js_object (sample_api u) = js_object (sample_api v)"
  "js_as_array (sample_api u) = js_as_array (sample_api v)" "js_array (sample_api u) = js_array (sample_api v)"
  "js_as_str (sample_api u) = js_as_str (sample_api v)" "js_str (sample_api u) = js_str (sample_api v)"
  "js_number (sample_api u) = js_number (sample_api v)"
  by (simp_all add: sample_api_def)

lemma sample_event_groups: "event_groups (sample_api u) d e = event_groups (sample_api v) d e"
  unfolding event_groups_def group_shape_def js_get_def sample_sel [of u v] ..

lemma sample_merge_events: "merge_events (sample_api u) d L = merge_events (sample_api v) d L"
proof (induction L arbitrary: d)
  case (Cons x L)
  have "owned_group (sample_api u) = owned_group (sample_api v)"
    unfolding owned_group_def js_get_def is_string_def sample_sel [of u v] ..
  moreover have "put_groups (sample_api u) = put_groups (sample_api v)" "codex_group (sample_api u) = codex_group (sample_api v)"
    unfolding put_groups_def codex_group_def sample_sel [of u v] by simp_all
  ultimately show ?case using Cons.IH sample_event_groups [of u _ _ v] by (cases x) simp
qed simp

lemma sample_groups:
  "has_groups (sample_api v) sample_old e gs \<longleftrightarrow> gs = (if e = ''Stop'' then [sample_group] else [])"
  by (auto simp: has_groups_def event_groups_def sample_api_def sample_old_def sample_group_def group_shape_def
      js_get_def Abs_fmap_inverse)

lemma sample_room: "\<forall>e gs. has_groups (sample_api v) sample_old e gs \<longrightarrow> Suc (length gs) < usize_max"
  by (simp add: sample_groups usize_max_def)

lemma merge_events_total:
  assumes "json_laws J" "distinct (map fst L)"
    "\<forall>e \<in> fst ` set L. \<exists>gs. has_groups J d e gs \<and> length gs < usize_max"
  shows "\<exists>w. merge_events J d L = Inr w"
  using assms(2,3)
proof (induction L arbitrary: d)
  case (Cons x L)
  obtain e c where x: "x = (e, c)" by (cases x)
  obtain gs where gs: "has_groups J d e gs" "length gs < usize_max" using Cons.prems(2) x by auto
  then obtain d1 where d1: "merge_event J d e c = Inr d1" by (auto simp: has_groups_def merge_event_def)
  have "\<forall>e' \<in> fst ` set L. \<exists>hs. has_groups J d1 e' hs \<and> length hs < usize_max"
  proof
    fix e' assume e': "e' \<in> fst ` set L"
    then have "e' \<noteq> e" using Cons.prems(1) x by auto
    then show "\<exists>hs. has_groups J d1 e' hs \<and> length hs < usize_max"
      using Cons.prems(2) e' merge_event_groups(2) [OF assms(1) d1 gs] by auto
  qed
  then show ?case using Cons.IH [of d1] Cons.prems(1) d1 x by (simp add: merge_events_Cons del: merge_events.simps)
qed simp

lemma sample_merge: "merge_events sample_library sample_old (zip (map fst EVENTS) sample_commands) = Inr sample_merged"
proof -
  have "\<exists>w. merge_events (sample_api sample_old) sample_old (zip (map fst EVENTS) sample_commands) = Inr w"
    by (rule merge_events_total [OF sample_laws events_distinct]) (auto simp: sample_groups usize_max_def)
  then show ?thesis
    using sample_merge_events [of sample_merged sample_old _ sample_old] by (auto simp: sample_merged_def)
qed

lemma sample_merged_groups:
  "has_groups sample_library sample_merged ''SessionStart'' [codex_group sample_library (sample_commands ! 0)]"
proof -
  have "(''SessionStart'', sample_commands ! 0) \<in> set (zip (map fst EVENTS) sample_commands)"
    by (simp add: EVENTS_def sample_commands_def numeral_eq_Suc)
  moreover have "\<forall>e gs. e \<in> fst ` set (zip (map fst EVENTS) sample_commands) \<and>
      has_groups sample_library sample_old e gs \<longrightarrow> length gs < usize_max"
    using sample_room [of sample_merged] Suc_lessD by blast
  ultimately show ?thesis
    using merge_events_groups [OF sample_laws sample_merge events_distinct, THEN conjunct1]
    by (fastforce simp: sample_groups foreign_def)
qed

lemma sample_changed: "sample_merged \<noteq> sample_old"
  using sample_merged_groups has_groups_unique [of sample_library sample_old "''SessionStart''"] sample_groups by fastforce

lemma sample_texts: "trim ''old'' \<noteq> []" "trim ''new'' \<noteq> []"
  by (simp_all add: trim_def chars_ascii trim_chars_def is_whitespace_def utf8_def utf8_bytes_def)

lemma sample_reads_back: "text_reads_back sample_library w \<longleftrightarrow> w = sample_merged"
  using sample_texts by (auto simp: text_reads_back_def sample_api_def)

lemma sample_all_read_back:
  "\<forall>w. merge_events sample_library sample_old (zip (map fst EVENTS) sample_commands) = Inr w \<longrightarrow>
     text_reads_back sample_library w"
  by (simp add: sample_merge sample_reads_back)

lemma sample_parse: "codex_parse sample_library ''old'' = Inr sample_old"
  using sample_texts
  by (simp add: codex_parse_def foreign_json_def json_def MAX_FOREIGN_BYTES_def MAX_CONTROL_BYTES_def sample_api_def)

lemma sample_codex_merge: "codex_merge sample_library ''old'' sample_commands = Inr (CodexHooks ''new'')"
  using sample_changed
  by (simp add: codex_merge_def sample_parse sample_merge MAX_FOREIGN_BYTES_def MAX_CONTROL_BYTES_def)
    (simp add: sample_api_def)

section \<open>Properties of the merge\<close>

text \<open>
  C40: Merging the hooks keeps what belongs to the user: after a merge every lifecycle event has the
  groups of others it had, in their order, followed by one group of its own; the groups of every other
  event and every other member of the document are as they were.
\<close>

theorem hooks_keep_foreign:
  assumes "json_laws J" "codex_parse J document = Inr v" "codex_merge J document commands = Inr (CodexHooks merged)"
    and "\<forall>w. merge_events J v (zip (map fst EVENTS) commands) = Inr w \<longrightarrow> text_reads_back J w"
    and "\<forall>e gs. has_groups J v e gs \<longrightarrow> Suc (length gs) < usize_max"
  shows "\<exists>w. codex_parse J merged = Inr w \<and> (\<forall>k. k \<noteq> ''hooks'' \<longrightarrow> js_get J w k = js_get J v k) \<and>
    (\<forall>(e, c) \<in> set (zip (map fst EVENTS) commands).
       \<exists>gs. has_groups J v e gs \<and> has_groups J w e (foreign J gs @ [codex_group J c])) \<and>
    (\<forall>e gs. e \<notin> set (map fst EVENTS) \<longrightarrow> has_groups J w e gs = has_groups J v e gs)"
proof -
  let ?L = "zip (map fst EVENTS) commands"
  obtain w where w: "merge_events J v ?L = Inr w" "codex_parse J merged = Inr w"
    using codex_merge_result [OF assms(2-4)] by blast
  have "\<forall>e gs. e \<in> fst ` set ?L \<and> has_groups J v e gs \<longrightarrow> length gs < usize_max"
    using assms(5) Suc_lessD by blast
  note m = merge_events_groups [OF assms(1) w(1) events_distinct this]
  have sub: "fst ` set ?L \<subseteq> set (map fst EVENTS)" by (auto dest: set_zip_leftD)
  have other: "has_groups J w e gs = has_groups J v e gs" if "e \<notin> set (map fst EVENTS)" for e gs
  proof -
    have "e \<notin> fst ` set ?L" using that sub by blast
    then show ?thesis using m [THEN conjunct2, THEN conjunct1] by blast
  qed
  show ?thesis
    by (intro exI [of _ w] conjI allI impI other w(2) m [THEN conjunct1] m [THEN conjunct2, THEN conjunct2, rule_format])
qed

theorem hooks_keep_foreign_witness:
  "\<exists>w. codex_parse sample_library ''new'' = Inr w \<and>
     has_groups sample_library w ''Stop'' [sample_group, codex_group sample_library (sample_commands ! 3)] \<and>
     js_get sample_library w ''other'' = js_get sample_library sample_old ''other''"
proof -
  note f = hooks_keep_foreign [OF sample_laws sample_parse sample_codex_merge sample_all_read_back sample_room]
  obtain w where w: "codex_parse sample_library ''new'' = Inr w"
    "\<forall>k. k \<noteq> ''hooks'' \<longrightarrow> js_get sample_library w k = js_get sample_library sample_old k"
    "\<forall>(e, c) \<in> set (zip (map fst EVENTS) sample_commands). \<exists>gs. has_groups sample_library sample_old e gs \<and>
       has_groups sample_library w e (foreign sample_library gs @ [codex_group sample_library c])"
    using f by blast
  have "(''Stop'', sample_commands ! 3) \<in> set (zip (map fst EVENTS) sample_commands)"
    by (simp add: EVENTS_def sample_commands_def numeral_eq_Suc)
  then have "has_groups sample_library w ''Stop''
      (foreign sample_library [sample_group] @ [codex_group sample_library (sample_commands ! 3)])"
    using w(3) by (auto simp: sample_groups)
  moreover have "foreign sample_library [sample_group] = [sample_group]"
    by (simp add: foreign_def owned_group_def js_get_def sample_api_def sample_group_def)
  ultimately show ?thesis using w(1,2) by auto
qed

text \<open>
  Merging the hooks again changes nothing: the merge of a merged document is that document, byte
  for byte.
\<close>

theorem hooks_merge_idempotent:
  assumes "json_laws J" "codex_parse J document = Inr v" "codex_merge J document commands = Inr (CodexHooks merged)"
    and "\<forall>w. merge_events J v (zip (map fst EVENTS) commands) = Inr w \<longrightarrow> text_reads_back J w"
    and "\<forall>e gs. has_groups J v e gs \<longrightarrow> Suc (length gs) < usize_max"
  shows "codex_merge J merged commands = Inr (CodexHooks merged)"
proof -
  obtain w where w: "merge_events J v (zip (map fst EVENTS) commands) = Inr w" "codex_parse J merged = Inr w"
    "length merged \<le> MAX_FOREIGN_BYTES"
    using codex_merge_result [OF assms(2-4)] by blast
  have "merge_events J w (zip (map fst EVENTS) commands) = Inr w"
    by (rule merge_twice [OF assms(1) w(1) events_distinct assms(5)])
  then show ?thesis using w(2,3) by (simp add: codex_merge_def)
qed

theorem hooks_merge_idempotent_witness:
  "codex_merge sample_library ''new'' sample_commands = Inr (CodexHooks ''new'')"
  by (rule hooks_merge_idempotent [OF sample_laws sample_parse sample_codex_merge sample_all_read_back sample_room])

end
