(* ===== verification/Jsonc.thy ===== *)
theory Jsonc
  imports Hook_Clients
begin

text \<open>
  The editor of JSON documents with comments (\<open>jsonc.rs\<close>): the scanners that skip comments, strings and
  containers, the walk to a member of the document, and the edits that set or remove it in the text of
  the user.

  A text is its UTF-8 bytes, and a position an index into them. The code adds to positions with
  saturation; a position is at most one past the length of a slice, which the language bounds by
  \<open>isize::MAX\<close>, so the sums never saturate and are plain sums here. Reading and printing of JSON belong to a
  library and are the parameter \<open>jsonc_api\<close>.
\<close>

section \<open>Bytes\<close>

definition byte_at :: "string \<Rightarrow> nat \<Rightarrow> char option" where
  "byte_at bytes at = (if at < length bytes then Some (bytes ! at) else None)"

abbreviation "line_feed \<equiv> CHR 0x0A"
abbreviation "carriage_return \<equiv> CHR 0x0D"
abbreviation "quote_mark \<equiv> CHR 0x22"
abbreviation "escape_mark \<equiv> CHR 0x5C"

definition is_space :: "char \<Rightarrow> bool" where
  "is_space c = (c \<in> {CHR '' '', CHR 0x09, line_feed, carriage_return})"

definition is_pad :: "char \<Rightarrow> bool" where
  "is_pad c = (c \<in> {CHR '' '', CHR 0x09})"

text \<open>\<open>str::get\<close> of a range.\<close>

definition str_get :: "string \<Rightarrow> nat \<Rightarrow> nat \<Rightarrow> string option" where
  "str_get s a b =
     (if a \<le> b \<and> b \<le> length s \<and> char_boundary s a \<and> char_boundary s b
      then Some (take (b - a) (drop a s)) else None)"

definition unwrap_str :: "string option \<Rightarrow> string" where
  "unwrap_str s = (case s of None \<Rightarrow> [] | Some s \<Rightarrow> s)"

definition trim_end_space :: "string \<Rightarrow> string" where
  "trim_end_space s = rev (dropWhile is_space (rev s))"

definition trim_space :: "string \<Rightarrow> string" where
  "trim_space s = trim_end_space (dropWhile is_space s)"

definition rfind :: "char \<Rightarrow> string \<Rightarrow> nat option" where
  "rfind c s = map_option (length \<circ> fst) (rsplit_once c s)"

section \<open>Scanners\<close>

text \<open>The position of the first end of a block comment, as \<open>windows(2).position\<close> finds it.\<close>

fun block_end :: "string \<Rightarrow> nat option" where
  "block_end (a # b # s) = (if a = CHR ''*'' \<and> b = CHR ''/'' then Some 0 else map_option Suc (block_end (b # s)))"
| "block_end _ = None"

definition comment_end :: "string \<Rightarrow> nat \<Rightarrow> nat option" where
  "comment_end bytes at =
     (if at > length bytes then None
      else let rest = drop at bytes in
        if take 2 rest = ''//''
        then Some (at + length (takeWhile (\<lambda>c. c \<noteq> line_feed \<and> c \<noteq> carriage_return) rest))
        else if take 2 rest = ''/*'' then map_option (\<lambda>len. at + len + 4) (block_end (drop 2 rest))
        else None)"

lemma block_end_less: "block_end s = Some n \<Longrightarrow> n + 2 \<le> length s"
  by (induction s arbitrary: n rule: block_end.induct) (auto split: if_splits)

lemma take2_eq: "take 2 s = [a, b] \<longleftrightarrow> (\<exists>r. s = a # b # r)"
  by (cases s; cases "tl s") auto

lemma comment_end_less: "comment_end bytes at = Some e \<Longrightarrow> at < e \<and> e \<le> length bytes"
proof -
  assume e: "comment_end bytes at = Some e"
  have l: "length (drop at bytes) = length bytes - at" by simp
  have "at < e \<and> e \<le> length bytes" if r: "drop at bytes = CHR ''/'' # CHR ''/'' # r" "at \<le> length bytes" for r
    using e that l length_takeWhile_le [of "\<lambda>c. c \<noteq> line_feed \<and> c \<noteq> carriage_return" r]
    by (auto simp: comment_end_def)
  moreover have "at < e \<and> e \<le> length bytes" if r: "drop at bytes = CHR ''/'' # CHR ''*'' # r" "at \<le> length bytes" for r
    using e that l block_end_less [of r] by (auto simp: comment_end_def)
  ultimately show ?thesis
    using e by (auto simp: comment_end_def Let_def take2_eq split: if_splits)
qed

function skip_trivia :: "string \<Rightarrow> nat \<Rightarrow> nat" where
  "skip_trivia bytes at =
     (case comment_end bytes at of
        Some end \<Rightarrow> skip_trivia bytes end
      | None \<Rightarrow>
          (case byte_at bytes at of
             Some c \<Rightarrow> if is_space c then skip_trivia bytes (at + 1) else at
           | None \<Rightarrow> at))"
  by pat_completeness auto
termination
  by (relation "measure (\<lambda>(bytes, at). length bytes - at)")
    (auto dest: comment_end_less simp: byte_at_def split: if_splits)

definition blank_end :: "string \<Rightarrow> nat \<Rightarrow> nat" where
  "blank_end bytes at = at + length (takeWhile is_pad (drop at bytes))"

fun string_scan :: "bool \<Rightarrow> nat \<Rightarrow> string \<Rightarrow> nat option" where
  "string_scan escaped offset [] = None"
| "string_scan escaped offset (c # bytes) =
     (if escaped then string_scan False (offset + 1) bytes
      else if c = escape_mark then string_scan True (offset + 1) bytes
      else if c = quote_mark then Some (offset + 1)
      else string_scan escaped (offset + 1) bytes)"

definition string_end :: "string \<Rightarrow> nat \<Rightarrow> nat" where
  "string_end bytes at =
     (case string_scan False (at + 1) (drop (at + 1) bytes) of Some end \<Rightarrow> end | None \<Rightarrow> length bytes)"

lemma string_scan_less: "string_scan e n s = Some k \<Longrightarrow> n < k \<and> k \<le> n + length s"
  by (induction e n s rule: string_scan.induct) (auto split: if_splits)

lemma string_end_less: "at < length bytes \<Longrightarrow> at < string_end bytes at \<and> string_end bytes at \<le> length bytes"
  using string_scan_less [of False "at + 1" "drop (at + 1) bytes"]
  by (fastforce simp: string_end_def split: option.splits)

function container_scan :: "string \<Rightarrow> nat \<Rightarrow> nat \<Rightarrow> nat" where
  "container_scan bytes depth cursor =
     (case byte_at bytes cursor of
        None \<Rightarrow> cursor
      | Some c \<Rightarrow>
          let next = cursor + 1 in
          if c = quote_mark then container_scan bytes depth (string_end bytes cursor)
          else if c = CHR ''/'' then
            container_scan bytes depth (case comment_end bytes cursor of Some end \<Rightarrow> end | None \<Rightarrow> next)
          else if c \<in> {CHR ''{'', CHR ''[''} then container_scan bytes (depth + 1) next
          else if c \<in> {CHR ''}'', CHR '']''} then
            (if depth - 1 = 0 then next else container_scan bytes (depth - 1) next)
          else container_scan bytes depth next)"
  by pat_completeness auto
termination
  by (relation "measure (\<lambda>(bytes, depth, cursor). length bytes - cursor)")
    (auto dest!: string_end_less comment_end_less simp: byte_at_def diff_less_mono2
      split: if_splits option.splits)

definition container_end :: "string \<Rightarrow> nat \<Rightarrow> nat" where
  "container_end bytes at = container_scan bytes 0 at"

definition literal_byte :: "char \<Rightarrow> bool" where
  "literal_byte c = (is_ascii_alphanumeric c \<or> c \<in> {CHR ''.'', CHR ''+'', CHR ''-''})"

definition value_end :: "string \<Rightarrow> nat \<Rightarrow> nat" where
  "value_end bytes at =
     (if byte_at bytes at = Some quote_mark then string_end bytes at
      else if byte_at bytes at \<in> {Some (CHR ''{''), Some (CHR ''['')} then container_end bytes at
      else at + length (takeWhile literal_byte (drop at bytes)))"

declare skip_trivia.simps [simp del] container_scan.simps [simp del]

lemma skip_trivia_le: "at \<le> skip_trivia bytes at"
proof (induction bytes at rule: skip_trivia.induct)
  case (1 bytes at)
  then show ?case
    by (subst skip_trivia.simps) (fastforce dest: comment_end_less split: option.splits)
qed

lemma container_scan_end: "byte_at bytes at = None \<Longrightarrow> container_scan bytes depth at = at"
  by (subst container_scan.simps) simp

lemma container_scan_quote:
  "byte_at bytes at = Some quote_mark \<Longrightarrow> container_scan bytes depth at = container_scan bytes depth (string_end bytes at)"
  by (subst container_scan.simps) simp

lemma container_scan_slash:
  "byte_at bytes at = Some (CHR ''/'') \<Longrightarrow> container_scan bytes depth at =
     container_scan bytes depth (case comment_end bytes at of Some end \<Rightarrow> end | None \<Rightarrow> at + 1)"
  by (subst container_scan.simps) (simp split: option.splits)

lemma container_scan_open:
  "byte_at bytes at = Some c \<Longrightarrow> c \<in> {CHR ''{'', CHR ''[''} \<Longrightarrow>
     container_scan bytes depth at = container_scan bytes (depth + 1) (at + 1)"
  by (subst container_scan.simps) auto

lemma container_scan_close:
  "byte_at bytes at = Some c \<Longrightarrow> c \<in> {CHR ''}'', CHR '']''} \<Longrightarrow>
     container_scan bytes depth at = (if depth - 1 = 0 then at + 1 else container_scan bytes (depth - 1) (at + 1))"
  by (subst container_scan.simps) auto

lemma container_scan_other:
  "byte_at bytes at = Some c \<Longrightarrow> c \<notin> {quote_mark, CHR ''/'', CHR ''{'', CHR ''['', CHR ''}'', CHR '']''} \<Longrightarrow>
     container_scan bytes depth at = container_scan bytes depth (at + 1)"
  by (subst container_scan.simps) simp

lemma container_scan_le: "cursor \<le> container_scan bytes depth cursor"
proof (induction "length bytes - cursor" arbitrary: depth cursor rule: less_induct)
  case less
  show ?case
  proof (cases "byte_at bytes cursor")
    case None
    then show ?thesis by (simp add: container_scan_end)
  next
    case (Some c)
    then have at: "cursor < length bytes" by (simp add: byte_at_def split: if_splits)
    have step: "cursor \<le> container_scan bytes d next" if "cursor < next" for d "next"
    proof -
      have "length bytes - next < length bytes - cursor" using that at by linarith
      from less [OF this, of d] show ?thesis using that by linarith
    qed
    consider "c = quote_mark" | "c = CHR ''/''" | "c \<in> {CHR ''{'', CHR ''[''}" | "c \<in> {CHR ''}'', CHR '']''}"
      | "c \<notin> {quote_mark, CHR ''/'', CHR ''{'', CHR ''['', CHR ''}'', CHR '']''}" by blast
    then show ?thesis
    proof cases
      case 1
      then show ?thesis using Some step string_end_less [OF at] by (simp add: container_scan_quote)
    next
      case 2
      then show ?thesis
        using Some step comment_end_less [of bytes cursor] by (simp add: container_scan_slash split: option.splits)
    next
      case 3
      then show ?thesis using Some step by (simp add: container_scan_open)
    next
      case 4
      then show ?thesis using Some step by (simp add: container_scan_close)
    next
      case 5
      then show ?thesis using Some step by (simp add: container_scan_other)
    qed
  qed
qed

lemma value_end_le: "at \<le> value_end bytes at"
  using container_scan_le [of at bytes 0] string_end_less [of at bytes]
  by (auto simp: value_end_def container_end_def byte_at_def split: if_splits)

section \<open>Stripping comments\<close>

function strip_scan :: "string \<Rightarrow> char \<Rightarrow> nat \<Rightarrow> (nat \<times> nat) list" where
  "strip_scan bytes previous at =
     (case byte_at bytes at of
        None \<Rightarrow> []
      | Some c \<Rightarrow>
          (case comment_end bytes at of
             Some end \<Rightarrow> (at, end) # strip_scan bytes previous end
           | None \<Rightarrow>
               (if c = CHR '','' \<and> previous \<notin> {CHR ''['', CHR ''{'', CHR '','', CHR '':''} \<and>
                   byte_at bytes (skip_trivia bytes (at + 1)) \<in> {Some (CHR '']''), Some (CHR ''}'')}
                then [(at, at + 1)] else []) @
               strip_scan bytes (if is_space c then previous else c)
                 (if c = quote_mark then string_end bytes at else at + 1)))"
  by pat_completeness auto
termination
  by (relation "measure (\<lambda>(bytes, previous, at). length bytes - at)")
    (auto dest!: string_end_less comment_end_less simp: byte_at_def diff_less_mono2 split: if_splits)

declare strip_scan.simps [simp del]

fun strip_chars :: "(nat \<times> nat) list \<Rightarrow> nat \<Rightarrow> nat list \<Rightarrow> nat list" where
  "strip_chars pending offset [] = []"
| "strip_chars pending offset (character # cs) =
     (let pending = dropWhile (\<lambda>(_, end). end \<le> offset) pending;
          blank = (case pending of [] \<Rightarrow> False | (first, end) # _ \<Rightarrow> first \<le> offset \<and> offset < end)
      in (if blank \<and> character \<notin> {10, 13} then 32 else character) #
         strip_chars pending (offset + len_utf8 character) cs)"

definition strip :: "string \<Rightarrow> string" where
  "strip text = utf8 (strip_chars (strip_scan text (CHR ''['') 0) 0 (chars text))"

section \<open>The walk to a member\<close>

record 'j jsonc_api =
  jc_ignored :: "u8 list \<Rightarrow> ('j, unit) result"
  jc_string :: "u8 list \<Rightarrow> ('j, string) result"
  jc_quoted :: "string \<Rightarrow> string"

datatype 'j jsonc_error =
    JcDocument "'j json_error" | JcValue "'j json_error" | JcEmptyPath | JcNotObject string
  | JcDuplicateKey string

record jc_member =
  mb_start :: nat
  mb_value :: nat
  mb_end :: nat
  mb_comma :: "nat option"
  mb_wanted :: bool

record jc_object =
  ob_open :: nat
  ob_close :: nat
  ob_members :: "jc_member list"

record jc_missing =
  ms_object :: jc_object
  ms_key :: string
  ms_rest :: "string list"

datatype jc_target = TargetEmpty | TargetMissing jc_missing | TargetFound "jc_member option" jc_member

record jc_layout =
  lo_newline :: string
  lo_unit :: string

definition INLINE :: jc_layout where
  "INLINE = \<lparr>lo_newline = [], lo_unit = []\<rparr>"

function object_members ::
  "'j jsonc_api \<Rightarrow> string \<Rightarrow> string \<Rightarrow> nat \<Rightarrow> ('j jsonc_error, nat \<times> jc_member list) result" where
  "object_members J text key at =
     (if byte_at text at \<noteq> Some quote_mark then Inr (at, [])
      else
        let key_end = string_end text at in
        and_then (map_err JcDocument (foreign_json (jc_string J) (unwrap_str (str_get text at key_end)))) (\<lambda>name.
        let val = skip_trivia text (skip_trivia text key_end + 1);
            end = value_end text val;
            after = skip_trivia text end;
            comma = (if byte_at text after = Some (CHR '','') then Some after else None);
            member = \<lparr>mb_start = at, mb_value = val, mb_end = end, mb_comma = comma, mb_wanted = (name = key)\<rparr>;
            next = (case comma of None \<Rightarrow> after | Some position \<Rightarrow> skip_trivia text (position + 1))
        in map_ok (\<lambda>(close, members). (close, member # members)) (object_members J text key next)))"
  by pat_completeness auto

lemma member_advances:
  assumes "byte_at text at = Some quote_mark"
  shows "length text - skip_trivia text (value_end text (skip_trivia text (Suc (skip_trivia text (string_end text at)))))
      < length text - at"
    and "length text - skip_trivia text (Suc (skip_trivia text (value_end text
        (skip_trivia text (Suc (skip_trivia text (string_end text at))))))) < length text - at"
proof -
  have at: "at < length text" using assms by (simp add: byte_at_def split: if_splits)
  have "at < string_end text at" using string_end_less [OF at] by simp
  also have "string_end text at \<le> skip_trivia text (string_end text at)" by (rule skip_trivia_le)
  also have "\<dots> \<le> skip_trivia text (Suc (skip_trivia text (string_end text at)))"
    using skip_trivia_le Suc_leD by blast
  also have "\<dots> \<le> value_end text (skip_trivia text (Suc (skip_trivia text (string_end text at))))" by (rule value_end_le)
  also have "\<dots> \<le> skip_trivia text (value_end text (skip_trivia text (Suc (skip_trivia text (string_end text at)))))"
    by (rule skip_trivia_le)
  finally have lt: "at < skip_trivia text (value_end text (skip_trivia text (Suc (skip_trivia text (string_end text at)))))" .
  then show "length text - skip_trivia text (value_end text (skip_trivia text (Suc (skip_trivia text (string_end text at)))))
      < length text - at" using at by linarith
  from lt skip_trivia_le Suc_leD
  have "at < skip_trivia text (Suc (skip_trivia text (value_end text
        (skip_trivia text (Suc (skip_trivia text (string_end text at)))))))" by (meson less_le_trans)
  then show "length text - skip_trivia text (Suc (skip_trivia text (value_end text
        (skip_trivia text (Suc (skip_trivia text (string_end text at))))))) < length text - at" using at by linarith
qed

termination object_members
  by (relation "measure (\<lambda>(J, text, key, at). length text - at)")
    (auto simp: member_advances split: option.splits)

declare object_members.simps [simp del]

definition parse_object :: "'j jsonc_api \<Rightarrow> string \<Rightarrow> nat \<Rightarrow> string \<Rightarrow> ('j jsonc_error, jc_object option) result" where
  "parse_object J text open key =
     (if byte_at text open \<noteq> Some (CHR ''{'') then Inr None
      else map_ok (\<lambda>(close, members). Some \<lparr>ob_open = open, ob_close = close, ob_members = members\<rparr>)
        (object_members J text key (skip_trivia text (open + 1))))"

definition describe :: "string list \<Rightarrow> nat \<Rightarrow> string" where
  "describe path count =
     (if count \<le> length path \<and> count \<noteq> 0 then ''`'' @ join ''.'' (take count path) @ ''`''
      else ''the document root'')"

fun walk_keys ::
  "'j jsonc_api \<Rightarrow> string \<Rightarrow> string list \<Rightarrow> nat \<Rightarrow> string list \<Rightarrow> nat \<Rightarrow> ('j jsonc_error, jc_target) result" where
  "walk_keys J text path depth [] open = Inl JcEmptyPath"
| "walk_keys J text path depth (key # rest) open =
     and_then (parse_object J text open key) (\<lambda>object.
       case object of
         None \<Rightarrow> Inl (JcNotObject (describe path depth))
       | Some object \<Rightarrow>
           (case filter (mb_wanted \<circ> snd) (enumerate 0 (ob_members object)) of
              [] \<Rightarrow> Inr (TargetMissing \<lparr>ms_object = object, ms_key = key, ms_rest = rest\<rparr>)
            | [(index, member)] \<Rightarrow>
                if depth + 1 = length path
                then Inr (TargetFound (if index = 0 then None else Some (ob_members object ! (index - 1))) member)
                else walk_keys J text path (depth + 1) rest (mb_value member)
            | _ \<Rightarrow> Inl (JcDuplicateKey (describe path (depth + 1)))))"

definition walk :: "'j jsonc_api \<Rightarrow> string \<Rightarrow> string list \<Rightarrow> ('j jsonc_error, jc_target) result" where
  "walk J text path =
     (let plain = strip text in
      if trim_space plain = [] then (if path = [] then Inl JcEmptyPath else Inr TargetEmpty)
      else
        and_then (map_err JcDocument (foreign_json (jc_ignored J) plain)) (\<lambda>_.
          walk_keys J text path 0 path (skip_trivia text 0)))"

section \<open>Edits\<close>

fun splice_from :: "string \<Rightarrow> nat \<Rightarrow> (nat \<times> nat \<times> string) list \<Rightarrow> string" where
  "splice_from text cursor [] = unwrap_str (str_get text cursor (length text))"
| "splice_from text cursor ((first, end, replacement) # edits) =
     unwrap_str (str_get text cursor first) @ replacement @ splice_from text end edits"

definition splice :: "string \<Rightarrow> (nat \<times> nat \<times> string) list \<Rightarrow> string" where
  "splice text edits = splice_from text 0 edits"

definition doc_newline :: "string \<Rightarrow> string" where
  "doc_newline text =
     (if str_contains [carriage_return, line_feed] text then [carriage_return, line_feed] else [line_feed])"

definition line_indent :: "string \<Rightarrow> nat \<Rightarrow> string" where
  "line_indent text at =
     (let line = unwrap_str (map_option (\<lambda>head. last (split_at line_feed head)) (str_get text 0 at))
      in unwrap_str (strip_suffix line (dropWhile is_pad line)))"

fun find_map :: "('a \<Rightarrow> 'b option) \<Rightarrow> 'a list \<Rightarrow> 'b option" where
  "find_map f [] = None"
| "find_map f (x # xs) = (case f x of None \<Rightarrow> find_map f xs | Some y \<Rightarrow> Some y)"

definition doc_unit :: "string \<Rightarrow> string" where
  "doc_unit text =
     (case find_map (\<lambda>line.
          let content = dropWhile is_pad line in
          Option.bind (strip_suffix line content) (\<lambda>indent.
            if starts_with content [quote_mark] \<and> indent \<noteq> [] then Some indent else None)) (str_lines text) of
        None \<Rightarrow> ''  '' | Some indent \<Rightarrow> indent)"

fun nest :: "'j jsonc_api \<Rightarrow> string list \<Rightarrow> string \<Rightarrow> string \<Rightarrow> jc_layout \<Rightarrow> string" where
  "nest J [] val indent layout = val"
| "nest J (key # rest) val indent layout =
     (let inner = indent @ lo_unit layout;
          nested = nest J rest val inner layout;
          line = lo_newline layout
      in ''{'' @ line @ inner @ jc_quoted J key @ '': '' @ nested @ line @ indent @ ''}'')"

definition insert_member :: "'j jsonc_api \<Rightarrow> string \<Rightarrow> jc_missing \<Rightarrow> string \<Rightarrow> string" where
  "insert_member J text missing val =
     (let object = ms_object missing;
          anchor = length (trim_end_space (unwrap_str (str_get text 0 (ob_close object))));
          broken = list_ex (\<lambda>c. c = line_feed \<or> c = carriage_return)
            (unwrap_str (str_get text anchor (ob_close object)));
          last = (if ob_members object = [] then None else Some (last (ob_members object)));
          inline = (last \<noteq> None \<and> \<not> broken);
          layout = (if inline then INLINE else \<lparr>lo_newline = doc_newline text, lo_unit = doc_unit text\<rparr>);
          indent = (if inline then [] else line_indent text (ob_open object));
          inner = indent @ lo_unit layout;
          trailing = (case last of None \<Rightarrow> [] | Some member \<Rightarrow> if mb_comma member \<noteq> None then '','' else []);
          nested = nest J (ms_rest missing) val inner layout;
          member = jc_quoted J (ms_key missing) @ '': '' @ nested @ trailing;
          line = lo_newline layout
      in splice text
           ((case last of
               None \<Rightarrow> []
             | Some before \<Rightarrow> if mb_comma before = None then [(mb_end before, mb_end before, '','')] else []) @
            [if inline then (anchor, anchor, '' '' @ member)
             else if broken then (anchor, anchor, line @ inner @ member)
             else (anchor, ob_close object, line @ inner @ member @ line @ indent)]))"

definition whole_lines :: "string \<Rightarrow> nat \<Rightarrow> nat \<Rightarrow> (nat \<times> nat) option" where
  "whole_lines text first end =
     Option.bind (str_get text 0 first) (\<lambda>head.
     let line = (case rfind line_feed head of None \<Rightarrow> 0 | Some position \<Rightarrow> position + 1) in
     Option.bind (str_get head line (length head)) (\<lambda>lead.
     if \<not> list_all is_pad lead then None
     else
       let after = blank_end text end in
       if after > length text then None
       else
         Option.bind (if take 2 (drop after text) = ''//'' then comment_end text after else Some after) (\<lambda>after.
         let after = after + (if byte_at text after = Some carriage_return then 1 else 0) in
         if byte_at text after = Some line_feed then Some (line, after + 1) else None)))"

definition removal :: "string \<Rightarrow> jc_member option \<Rightarrow> jc_member \<Rightarrow> string" where
  "removal text previous member =
     (let own = (case mb_comma member of None \<Rightarrow> mb_end member | Some comma \<Rightarrow> comma + 1);
          dangling = (if mb_comma member = None then Option.bind previous mb_comma else None)
      in splice text
           (case (whole_lines text (mb_start member) own, dangling) of
              (Some (a, b), Some comma) \<Rightarrow> [(comma, comma + 1, []), (a, b, [])]
            | (Some (a, b), None) \<Rightarrow> [(a, b, [])]
            | (None, Some comma) \<Rightarrow> [(comma, mb_end member, [])]
            | (None, None) \<Rightarrow> [(mb_start member, blank_end text own, [])]))"

partial_function (option) set_member ::
  "'j jsonc_api \<Rightarrow> string \<Rightarrow> string list \<Rightarrow> string \<Rightarrow> ('j jsonc_error, string) result option" where
  "set_member J document path value_json =
     (case map_err JcValue (foreign_json (jc_ignored J) value_json) of
        Inl e \<Rightarrow> Some (Inl e)
      | Inr _ \<Rightarrow>
          (case walk J document path of
             Inl e \<Rightarrow> Some (Inl e)
           | Inr target \<Rightarrow>
               (case target of
                  TargetFound _ member \<Rightarrow>
                    Some (Inr (splice document [(mb_value member, mb_end member, trim_space value_json)]))
                | TargetMissing missing \<Rightarrow> Some (Inr (insert_member J document missing (trim_space value_json)))
                | TargetEmpty \<Rightarrow>
                    let comments = trim_end_space document;
                        line = doc_newline document
                    in set_member J
                         (if comments = [] then ''{}'' @ line else comments @ line @ ''{}'' @ line) path value_json)))"

declare set_member.simps [code]

definition remove_member :: "'j jsonc_api \<Rightarrow> string \<Rightarrow> string list \<Rightarrow> ('j jsonc_error, string) result" where
  "remove_member J document path =
     (case walk J document path of
        Inr (TargetFound previous member) \<Rightarrow> Inr (removal document previous member)
      | Inr (TargetMissing _) \<Rightarrow> Inr document
      | Inr TargetEmpty \<Rightarrow> Inr document
      | Inl (JcNotObject _) \<Rightarrow> Inr document
      | Inl e \<Rightarrow> Inl e)"

end
