(* ===== verification/Jsonc_Tree.thy ===== *)
theory Jsonc_Tree
  imports Jsonc
begin

text \<open>
  Documents as trees that keep every byte of their text: literals, strings, arrays and objects with the
  spaces and comments between them. The scanners of \<open>Jsonc\<close> find the parts of such a document exactly.
\<close>

section \<open>Trees\<close>

datatype jval = JLit string | JStr string | JArr jitems string | JObj jitems string
  and jitems = JEnd | JItem string "(string \<times> string \<times> string) option" jval string bool jitems

definition render_key :: "(string \<times> string \<times> string) option \<Rightarrow> string" where
  "render_key key =
     (case key of None \<Rightarrow> [] | Some (k, before, behind) \<Rightarrow> quote_mark # k @ quote_mark # before @ '':'' @ behind)"

primrec render :: "jval \<Rightarrow> string" and render_items :: "jitems \<Rightarrow> string" where
  "render (JLit l) = l"
| "render (JStr b) = quote_mark # b @ [quote_mark]"
| "render (JArr items tail) = ''['' @ render_items items @ tail @ '']''"
| "render (JObj items tail) = ''{'' @ render_items items @ tail @ ''}''"
| "render_items JEnd = []"
| "render_items (JItem lead key v post comma rest) =
     lead @ render_key key @ render v @ post @ (if comma then '','' else []) @ render_items rest"

text \<open>Spaces and closed comments.\<close>

inductive trivia :: "string \<Rightarrow> bool" where
  trivia_Nil: "trivia []"
| trivia_space: "is_space c \<Longrightarrow> trivia t \<Longrightarrow> trivia (c # t)"
| trivia_line: "line_feed \<notin> set body \<Longrightarrow> carriage_return \<notin> set body \<Longrightarrow> c \<in> {line_feed, carriage_return} \<Longrightarrow>
    trivia t \<Longrightarrow> trivia (''//'' @ body @ c # t)"
| trivia_block: "block_end (body @ ''*/'') = Some (length body) \<Longrightarrow> trivia t \<Longrightarrow> trivia (''/*'' @ body @ ''*/'' @ t)"

text \<open>The inside of a string: every quote escaped, no escape left open.\<close>

fun str_body :: "string \<Rightarrow> bool" where
  "str_body [] = True"
| "str_body (c # s) =
     (if c = escape_mark then (case s of [] \<Rightarrow> False | _ # s \<Rightarrow> str_body s) else c \<noteq> quote_mark \<and> str_body s)"

definition key_name :: "'j jsonc_api \<Rightarrow> string \<Rightarrow> string option" where
  "key_name J k =
     (case foreign_json (jc_string J) (quote_mark # k @ [quote_mark]) of Inr name \<Rightarrow> Some name | Inl _ \<Rightarrow> None)"

definition wf_key :: "'j jsonc_api \<Rightarrow> bool \<Rightarrow> (string \<times> string \<times> string) option \<Rightarrow> bool" where
  "wf_key J keyed key =
     (case key of
        None \<Rightarrow> \<not> keyed
      | Some (k, before, behind) \<Rightarrow> keyed \<and> str_body k \<and> key_name J k \<noteq> None \<and> trivia before \<and> trivia behind)"

primrec wf_val :: "'j jsonc_api \<Rightarrow> jval \<Rightarrow> bool" and wf_items :: "'j jsonc_api \<Rightarrow> bool \<Rightarrow> jitems \<Rightarrow> bool" where
  "wf_val J (JLit l) = (l \<noteq> [] \<and> list_all literal_byte l)"
| "wf_val J (JStr b) = str_body b"
| "wf_val J (JArr items tail) = (wf_items J False items \<and> trivia tail)"
| "wf_val J (JObj items tail) = (wf_items J True items \<and> trivia tail)"
| "wf_items J keyed JEnd = True"
| "wf_items J keyed (JItem lead key v post comma rest) =
     (trivia lead \<and> wf_key J keyed key \<and> wf_val J v \<and> trivia post \<and> (rest = JEnd \<or> comma) \<and> wf_items J keyed rest)"

section \<open>Positions\<close>

definition rest_at :: "string \<Rightarrow> nat \<Rightarrow> string \<Rightarrow> bool" where
  "rest_at bytes at r = (at \<le> length bytes \<and> drop at bytes = r)"

lemma rest_at_append: "rest_at bytes at (x @ y) \<Longrightarrow> rest_at bytes (at + length x) y"
proof -
  assume r: "rest_at bytes at (x @ y)"
  then have d: "drop at bytes = x @ y" and l: "at \<le> length bytes" by (simp_all add: rest_at_def)
  have "drop (at + length x) bytes = y" using d by (metis add.commute append_eq_conv_conj drop_drop)
  moreover have "at + length x \<le> length bytes" using l arg_cong [OF d, of length] by simp
  ultimately show ?thesis by (simp add: rest_at_def)
qed

lemma rest_at_Cons: "rest_at bytes at (c # y) \<Longrightarrow> rest_at bytes (Suc at) y"
  using rest_at_append [of bytes at "[c]" y] by simp

lemma rest_at_byte: "rest_at bytes at (c # y) \<Longrightarrow> byte_at bytes at = Some c"
proof -
  assume "rest_at bytes at (c # y)"
  then have d: "drop at bytes = c # y" by (simp add: rest_at_def)
  then have "at < length bytes" by (metis drop_all leI list.distinct(1))
  then show ?thesis using d by (simp add: byte_at_def hd_drop_conv_nth [symmetric])
qed

lemma rest_at_Nil: "rest_at bytes at [] \<Longrightarrow> byte_at bytes at = None"
  by (auto simp: rest_at_def byte_at_def)

lemma rest_at_take: "rest_at bytes at r \<Longrightarrow> bytes = take at bytes @ r \<and> length (take at bytes) = at"
  by (auto simp: rest_at_def)

section \<open>Trivia\<close>

lemma comment_line:
  assumes "rest_at bytes at (''//'' @ body @ c # r)" "line_feed \<notin> set body" "carriage_return \<notin> set body"
    and "c \<in> {line_feed, carriage_return}"
  shows "comment_end bytes at = Some (at + length body + 2)"
proof -
  have "takeWhile (\<lambda>c. c \<noteq> line_feed \<and> c \<noteq> carriage_return) (''//'' @ body @ c # r) = ''//'' @ body"
    using assms(2-) by (subst takeWhile_append2) (auto simp: takeWhile_append2 takeWhile_tail)
  then show ?thesis using assms(1) by (simp add: comment_end_def rest_at_def)
qed

lemma block_end_append: "block_end s = Some n \<Longrightarrow> block_end (s @ r) = Some n"
  by (induction s arbitrary: n rule: block_end.induct) (auto split: if_splits)

lemma comment_block:
  assumes "rest_at bytes at (''/*'' @ body @ ''*/'' @ r)" "block_end (body @ ''*/'') = Some (length body)"
  shows "comment_end bytes at = Some (at + length body + 4)"
  using assms block_end_append [OF assms(2), of r] by (simp add: comment_end_def rest_at_def)

lemma comment_none: "rest_at bytes at r \<Longrightarrow> r = [] \<or> hd r \<noteq> CHR ''/'' \<Longrightarrow> comment_end bytes at = None"
  by (cases r) (auto simp: comment_end_def rest_at_def)

lemma skip_space: "rest_at bytes at (c # r) \<Longrightarrow> is_space c \<Longrightarrow> skip_trivia bytes at = skip_trivia bytes (Suc at)"
  using comment_none [of bytes at "c # r"] rest_at_byte [of bytes at c r]
  by (subst skip_trivia.simps) (auto simp: is_space_def)

lemma skip_comment: "comment_end bytes at = Some e \<Longrightarrow> skip_trivia bytes at = skip_trivia bytes e"
  by (subst skip_trivia.simps) simp

definition solid :: "string \<Rightarrow> bool" where
  "solid r = (case r of [] \<Rightarrow> True | c # _ \<Rightarrow> \<not> is_space c \<and> c \<noteq> CHR ''/'')"

lemma skip_solid: "rest_at bytes at r \<Longrightarrow> solid r \<Longrightarrow> skip_trivia bytes at = at"
  using comment_none [of bytes at r] rest_at_byte [of bytes at] rest_at_Nil [of bytes at]
  by (subst skip_trivia.simps) (auto simp: solid_def split: list.splits)

text \<open>The scanners pass over trivia.\<close>

lemma skip_over:
  assumes "trivia t" "rest_at bytes at (t @ r)"
  shows "skip_trivia bytes at = skip_trivia bytes (at + length t)"
  using assms
proof (induction t arbitrary: at rule: trivia.induct)
  case (trivia_space c t)
  then show ?case using skip_space [of bytes at c "t @ r"] rest_at_Cons [of bytes at c] by simp
next
  case (trivia_line body c t)
  have r: "rest_at bytes at ((''//'' @ body) @ c # t @ r)" using trivia_line.prems by simp
  have sp: "is_space c" using trivia_line.hyps(3) by (auto simp: is_space_def)
  have "comment_end bytes at = Some (at + length body + 2)"
    using comment_line [of bytes at body c "t @ r"] trivia_line.hyps(1-3) r by simp
  then have "skip_trivia bytes at = skip_trivia bytes (at + length (''//'' @ body))"
    using skip_comment by (simp add: add.commute add.left_commute)
  also have "\<dots> = skip_trivia bytes (Suc (at + length (''//'' @ body)))"
    by (rule skip_space [OF rest_at_append [OF r] sp])
  finally show ?case
    using trivia_line.IH [OF rest_at_Cons [OF rest_at_append [OF r]]] by (simp add: algebra_simps)
next
  case (trivia_block body t)
  have r: "rest_at bytes at ((''/*'' @ body @ ''*/'') @ t @ r)" using trivia_block.prems by simp
  have "comment_end bytes at = Some (at + length body + 4)"
    using comment_block [of bytes at body "t @ r"] trivia_block.hyps(1) r by simp
  then have "skip_trivia bytes at = skip_trivia bytes (at + length (''/*'' @ body @ ''*/''))"
    using skip_comment by (simp add: numeral_eq_Suc)
  then show ?case using trivia_block.IH [OF rest_at_append [OF r]] by (simp add: algebra_simps)
qed simp

lemma skip_to: "trivia t \<Longrightarrow> rest_at bytes at (t @ r) \<Longrightarrow> solid r \<Longrightarrow> skip_trivia bytes at = at + length t"
  using skip_over [of t bytes at r] skip_solid [OF rest_at_append [of bytes at t r]] by simp

section \<open>Strings, values and containers\<close>

lemma string_scan_body: "str_body b \<Longrightarrow> string_scan False n (b @ quote_mark # r) = Some (n + length b + 1)"
  by (induction b arbitrary: n rule: str_body.induct) (auto split: list.splits if_splits)

lemma string_end_body:
  assumes "str_body b" "rest_at bytes at (quote_mark # b @ quote_mark # r)"
  shows "string_end bytes at = at + length b + 2"
proof -
  have "drop (at + 1) bytes = b @ quote_mark # r" using rest_at_Cons [OF assms(2)] by (simp add: rest_at_def)
  then show ?thesis using string_scan_body [OF assms(1), of "at + 1" r] by (simp add: string_end_def)
qed

lemma container_plain:
  assumes "list_all (\<lambda>c. c \<notin> {quote_mark, CHR ''/'', CHR ''{'', CHR ''['', CHR ''}'', CHR '']''}) x"
    "rest_at bytes at (x @ r)"
  shows "container_scan bytes depth at = container_scan bytes depth (at + length x)"
  using assms
proof (induction x arbitrary: at)
  case (Cons c x)
  have "container_scan bytes depth at = container_scan bytes depth (at + 1)"
    using Cons.prems rest_at_byte [of bytes at c "x @ r"] by (intro container_scan_other [of _ _ c]) simp_all
  then show ?case using Cons.IH [of "Suc at"] Cons.prems rest_at_Cons [of bytes at c "x @ r"] by simp
qed simp

lemma space_plain: "is_space c \<Longrightarrow> c \<notin> {quote_mark, CHR ''/'', CHR ''{'', CHR ''['', CHR ''}'', CHR '']''}"
  by (auto simp: is_space_def)

lemma container_comment:
  "rest_at bytes at (CHR ''/'' # r) \<Longrightarrow> comment_end bytes at = Some e \<Longrightarrow>
     container_scan bytes depth at = container_scan bytes depth e"
  by (simp add: container_scan_slash [OF rest_at_byte])

lemma container_trivia:
  assumes "trivia t" "rest_at bytes at (t @ r)"
  shows "container_scan bytes depth at = container_scan bytes depth (at + length t)"
  using assms
proof (induction t arbitrary: at rule: trivia.induct)
  case (trivia_space c t)
  then show ?case
    using container_plain [of "[c]" bytes at "t @ r" depth] rest_at_Cons [of bytes at c] space_plain by simp
next
  case (trivia_line body c t)
  have r: "rest_at bytes at ((''//'' @ body) @ c # t @ r)" using trivia_line.prems by simp
  have sp: "is_space c" using trivia_line.hyps(3) by (auto simp: is_space_def)
  have "comment_end bytes at = Some (at + length body + 2)"
    using comment_line [of bytes at body c "t @ r"] trivia_line.hyps(1-3) r by simp
  then have "container_scan bytes depth at = container_scan bytes depth (at + length (''//'' @ body))"
    using container_comment r by (simp add: numeral_eq_Suc)
  also have "\<dots> = container_scan bytes depth (at + length (''//'' @ body) + length [c])"
    using space_plain [OF sp] rest_at_append [OF r] by (intro container_plain [of _ _ _ "t @ r"]) simp_all
  finally show ?case
    using trivia_line.IH [OF rest_at_Cons [OF rest_at_append [OF r]]] by (simp add: algebra_simps)
next
  case (trivia_block body t)
  have r: "rest_at bytes at ((''/*'' @ body @ ''*/'') @ t @ r)" using trivia_block.prems by simp
  have "comment_end bytes at = Some (at + length body + 4)"
    using comment_block [of bytes at body "t @ r"] trivia_block.hyps(1) r by simp
  then have "container_scan bytes depth at = container_scan bytes depth (at + length (''/*'' @ body @ ''*/''))"
    using container_comment r by (simp add: numeral_eq_Suc)
  then show ?case using trivia_block.IH [OF rest_at_append [OF r]] by (simp add: algebra_simps)
qed simp

lemma container_string:
  assumes "str_body b" "rest_at bytes at (quote_mark # b @ quote_mark # r)"
  shows "container_scan bytes depth at = container_scan bytes depth (at + length (quote_mark # b @ [quote_mark]))"
  using container_scan_quote [OF rest_at_byte [OF assms(2)]] string_end_body [OF assms] by simp

lemma container_key:
  assumes "wf_key J keyed key" "rest_at bytes at (render_key key @ r)"
  shows "container_scan bytes depth at = container_scan bytes depth (at + length (render_key key))"
proof (cases key)
  case (Some x)
  obtain k before behind where x: "x = (k, before, behind)" by (cases x)
  have k: "str_body k" "trivia before" "trivia behind" using assms(1) by (simp_all add: wf_key_def Some x)
  let ?q = "quote_mark # k @ [quote_mark]"
  have r: "rest_at bytes at (?q @ before @ '':'' @ behind @ r)" using assms(2) by (simp add: render_key_def Some x)
  note r1 = rest_at_append [OF r]
  note r2 = rest_at_append [OF r1]
  note r3 = rest_at_append [OF r2]
  have "container_scan bytes depth at = container_scan bytes depth (at + length ?q)"
    using container_string [OF k(1)] r by simp
  also have "\<dots> = container_scan bytes depth (at + length ?q + length before)" by (rule container_trivia [OF k(2) r1])
  also have "\<dots> = container_scan bytes depth (at + length ?q + length before + length '':'')"
    by (rule container_plain [OF _ r2]) simp
  also have "\<dots> = container_scan bytes depth (at + length ?q + length before + length '':'' + length behind)"
    by (rule container_trivia [OF k(3) r3])
  finally show ?thesis by (simp add: render_key_def Some x algebra_simps)
qed (simp add: render_key_def)

lemma literal_plain: "literal_byte c \<Longrightarrow> c \<notin> {quote_mark, CHR ''/'', CHR ''{'', CHR ''['', CHR ''}'', CHR '']''}"
  by (auto simp: literal_byte_def ascii_defs)

lemma container_inside:
  assumes "\<And>at. rest_at bytes at (render_items items @ tail @ c # r) \<Longrightarrow>
      container_scan bytes (Suc d) at = container_scan bytes (Suc d) (at + length (render_items items))"
    and "trivia tail" "a \<in> {CHR ''{'', CHR ''[''}" "c \<in> {CHR ''}'', CHR '']''}"
    and "rest_at bytes at (a # render_items items @ tail @ c # r)"
  shows "container_scan bytes d at =
    (if d = 0 then at + length (a # render_items items @ tail @ [c])
     else container_scan bytes d (at + length (a # render_items items @ tail @ [c])))"
proof -
  note r1 = rest_at_Cons [OF assms(5)]
  note r2 = rest_at_append [OF r1]
  note r3 = rest_at_append [OF r2]
  have "container_scan bytes d at = container_scan bytes (Suc d) (Suc at)"
    using container_scan_open [OF rest_at_byte [OF assms(5)] assms(3)] by simp
  also have "\<dots> = container_scan bytes (Suc d) (Suc at + length (render_items items))" by (rule assms(1) [OF r1])
  also have "\<dots> = container_scan bytes (Suc d) (Suc at + length (render_items items) + length tail)"
    by (rule container_trivia [OF assms(2) r2])
  finally show ?thesis
    using container_scan_close [OF rest_at_byte [OF r3] assms(4), of "Suc d"] by (simp add: algebra_simps)
qed

lemma container_val:
  "wf_val J v \<Longrightarrow> rest_at bytes at (render v @ r) \<Longrightarrow>
     container_scan bytes (Suc d) at = container_scan bytes (Suc d) (at + length (render v))"
  and container_items:
  "wf_items J keyed items \<Longrightarrow> rest_at bytes at (render_items items @ r) \<Longrightarrow>
     container_scan bytes (Suc d) at = container_scan bytes (Suc d) (at + length (render_items items))"
proof (induction v and items arbitrary: at r d and keyed at r d)
  case (JLit l)
  then show ?case using container_plain [of l bytes at r "Suc d"] literal_plain by (auto simp: list_all_iff)
next
  case (JStr b)
  then show ?case using container_string [of b bytes at r "Suc d"] by simp
next
  case (JArr items tail)
  then have "container_scan bytes (Suc d) at =
      (if Suc d = 0 then at + length (CHR ''['' # render_items items @ tail @ '']'')
       else container_scan bytes (Suc d) (at + length (CHR ''['' # render_items items @ tail @ '']'')))"
    by (intro container_inside) auto
  then show ?case by simp
next
  case (JObj items tail)
  then have "container_scan bytes (Suc d) at =
      (if Suc d = 0 then at + length (CHR ''{'' # render_items items @ tail @ ''}'')
       else container_scan bytes (Suc d) (at + length (CHR ''{'' # render_items items @ tail @ ''}'')))"
    by (intro container_inside) auto
  then show ?case by simp
next
  case (JItem lead key v post comma rest)
  let ?c = "if comma then '','' else []"
  have wf: "trivia lead" "wf_key J keyed key" "wf_val J v" "trivia post" "wf_items J keyed rest"
    using JItem.prems(1) by simp_all
  have r: "rest_at bytes at (lead @ render_key key @ render v @ post @ ?c @ render_items rest @ r)"
    using JItem.prems(2) by simp
  note r1 = rest_at_append [OF r]
  note r2 = rest_at_append [OF r1]
  note r3 = rest_at_append [OF r2]
  note r4 = rest_at_append [OF r3]
  note r5 = rest_at_append [OF r4]
  show ?case
    using container_trivia [OF wf(1) r, of "Suc d"] container_key [OF wf(2) r1, of "Suc d"]
      JItem.IH(1) [OF wf(3) r2, of d] container_trivia [OF wf(4) r3, of "Suc d"]
      container_plain [of ?c, OF _ r4, of "Suc d"] JItem.IH(2) [OF wf(5) r5, of d]
    by (simp add: algebra_simps)
qed simp

definition ends_value :: "string \<Rightarrow> bool" where
  "ends_value r = (case r of [] \<Rightarrow> True | c # _ \<Rightarrow> \<not> literal_byte c \<and> byte c < 128)"

lemma takeWhile_all_then: "list_all P x \<Longrightarrow> r = [] \<or> \<not> P (hd r) \<Longrightarrow> takeWhile P (x @ r) = x"
  by (induction x) (auto, cases r, auto)

lemma value_end_val:
  assumes "wf_val J v" "rest_at bytes at (render v @ r)" "ends_value r"
  shows "value_end bytes at = at + length (render v)"
proof (cases v)
  case (JLit l)
  have l: "l \<noteq> []" "list_all literal_byte l" using assms(1) by (simp_all add: JLit)
  then have "byte_at bytes at = Some (hd l)" "literal_byte (hd l)"
    using assms(2) rest_at_byte [of bytes at "hd l" "tl l @ r"] by (cases l; simp add: JLit)+
  moreover have "takeWhile literal_byte (drop at bytes) = l"
    using assms(2,3) l(2) takeWhile_all_then [of literal_byte l r]
    by (auto simp: rest_at_def JLit ends_value_def split: list.splits)
  ultimately show ?thesis using literal_plain [of "hd l"] by (auto simp: value_end_def JLit)
next
  case (JStr b)
  then show ?thesis
    using assms string_end_body [of b bytes at r] rest_at_byte [of bytes at quote_mark "b @ quote_mark # r"]
    by (simp add: value_end_def)
next
  case (JArr items tail)
  have r: "rest_at bytes at (CHR ''['' # render_items items @ tail @ CHR '']'' # r)" using assms(2) by (simp add: JArr)
  then show ?thesis
    using container_inside [of bytes items tail "CHR '']''" r 0 "CHR ''[''" at] container_items [of J False items bytes _ _ 0]
      rest_at_byte [OF r] assms(1)
    by (simp add: value_end_def container_end_def JArr)
next
  case (JObj items tail)
  have r: "rest_at bytes at (CHR ''{'' # render_items items @ tail @ CHR ''}'' # r)" using assms(2) by (simp add: JObj)
  then show ?thesis
    using container_inside [of bytes items tail "CHR ''}''" r 0 "CHR ''{''" at] container_items [of J True items bytes _ _ 0]
      rest_at_byte [OF r] assms(1)
    by (simp add: value_end_def container_end_def JObj)
qed

section \<open>Members\<close>

lemma items_induct [case_names JEnd JItem]:
  assumes "P JEnd" "\<And>lead key v post comma rest. P rest \<Longrightarrow> P (JItem lead key v post comma rest)"
  shows "P items"
  by (rule jitems.induct [of "\<lambda>_. True" P]) (simp_all add: assms)

text \<open>Where the members of an object are, for a document that has its items at a position.\<close>

fun spans :: "'j jsonc_api \<Rightarrow> string \<Rightarrow> nat \<Rightarrow> jitems \<Rightarrow> jc_member list" where
  "spans J key at JEnd = []"
| "spans J key at (JItem lead None v post comma rest) = []"
| "spans J key at (JItem lead (Some (k, before, behind)) v post comma rest) =
     (let start = at + length lead;
          val = start + length (render_key (Some (k, before, behind)));
          end = val + length (render v)
      in \<lparr>mb_start = start, mb_value = val, mb_end = end, mb_comma = (if comma then Some (end + length post) else None),
          mb_wanted = (key_name J k = Some key)\<rparr> #
         spans J key (end + length post + length (if comma then '','' else [])) rest)"

definition ascii_first :: "string \<Rightarrow> bool" where
  "ascii_first r = (case r of [] \<Rightarrow> True | c # _ \<Rightarrow> byte c < 128)"

lemma ascii_first_boundary: "rest_at bytes at r \<Longrightarrow> ascii_first r \<Longrightarrow> char_boundary bytes at"
proof (cases r)
  case (Cons c y)
  assume "rest_at bytes at r" "ascii_first r"
  then have "byte_at bytes at = Some c" "byte c < 128" using rest_at_byte Cons by (auto simp: ascii_first_def)
  then show ?thesis by (auto simp: char_boundary_def byte_at_def split: if_splits)
qed (auto simp: rest_at_def char_boundary_def)

lemma str_get_at:
  assumes "rest_at bytes at (x @ r)" "ascii_first (x @ r)" "ascii_first r"
  shows "str_get bytes at (at + length x) = Some x"
proof -
  have "char_boundary bytes at" "char_boundary bytes (at + length x)"
    using ascii_first_boundary [OF assms(1,2)] ascii_first_boundary [OF rest_at_append [OF assms(1)] assms(3)] by auto
  moreover have "take (length x) (drop at bytes) = x" "at + length x \<le> length bytes"
    using assms(1) rest_at_append [OF assms(1)] by (auto simp: rest_at_def)
  ultimately show ?thesis by (simp add: str_get_def)
qed

lemma trivia_first: "trivia t \<Longrightarrow> t = [] \<or> is_space (hd t) \<or> hd t = CHR ''/''"
  by (induction t rule: trivia.induct) auto

lemma trivia_ascii: "trivia t \<Longrightarrow> ascii_first r \<Longrightarrow> ascii_first (t @ r)"
  using trivia_first [of t] by (cases t) (auto simp: ascii_first_def is_space_def)

lemma trivia_ends: "trivia t \<Longrightarrow> ends_value r \<Longrightarrow> ends_value (t @ r)"
  using trivia_first [of t] by (cases t) (auto simp: ends_value_def is_space_def literal_byte_def ascii_defs)

lemma val_first: "wf_val J v \<Longrightarrow> render v \<noteq> [] \<and> solid (render v @ r) \<and> ascii_first (render v @ r)"
proof (cases v)
  case (JLit l)
  assume "wf_val J v"
  then have "l \<noteq> []" "literal_byte (hd l)" by (cases l; simp add: JLit)+
  then show ?thesis
    by (cases l) (auto simp: JLit solid_def ascii_first_def literal_byte_def ascii_defs is_space_def)
qed (auto simp: solid_def ascii_first_def is_space_def)

lemma object_members_step:
  assumes "byte_at bytes s = Some quote_mark" "string_end bytes s = ke"
    "foreign_json (jc_string J) (unwrap_str (str_get bytes s ke)) = Inr name"
    "skip_trivia bytes (skip_trivia bytes ke + 1) = v" "value_end bytes v = e" "skip_trivia bytes e = after"
    "comma = (byte_at bytes after = Some (CHR '',''))"
  shows "object_members J bytes key s =
    map_ok (\<lambda>(close, members). (close, \<lparr>mb_start = s, mb_value = v, mb_end = e,
      mb_comma = (if comma then Some after else None), mb_wanted = (name = key)\<rparr> # members))
      (object_members J bytes key (if comma then skip_trivia bytes (after + 1) else after))"
  using assms by (subst object_members.simps) (simp add: Let_def)

lemma object_members_items:
  assumes "wf_items J True items" "trivia tail" "rest_at bytes at (render_items items @ tail @ CHR ''}'' # r)"
  shows "object_members J bytes key (skip_trivia bytes at) =
    Inr (at + length (render_items items @ tail), spans J key at items)"
  using assms
proof (induction items arbitrary: at rule: items_induct)
  case JEnd
  have "rest_at bytes (at + length tail) (CHR ''}'' # r)" using rest_at_append [of bytes at tail] JEnd.prems(3) by simp
  moreover have "skip_trivia bytes at = at + length tail"
    using JEnd.prems by (intro skip_to [of _ _ _ "CHR ''}'' # r"]) (auto simp: solid_def is_space_def)
  ultimately show ?case by (subst object_members.simps) (simp add: rest_at_byte)
next
  case (JItem lead key' v post comma rest)
  obtain k before behind where key': "key' = Some (k, before, behind)"
    using JItem.prems(1) by (cases key') (auto simp: wf_key_def)
  have wf: "trivia lead" "str_body k" "trivia before" "trivia behind" "wf_val J v" "trivia post"
    "rest = JEnd \<or> comma" "wf_items J True rest" "key_name J k \<noteq> None"
    using JItem.prems(1) by (simp_all add: key' wf_key_def)
  let ?q = "quote_mark # k @ [quote_mark]" and ?c = "if comma then '','' else []"
  let ?close = "render_items rest @ tail @ CHR ''}'' # r"
  have r: "rest_at bytes at (lead @ ?q @ before @ '':'' @ behind @ render v @ post @ ?c @ ?close)"
    using JItem.prems(3) by (simp add: key' render_key_def)
  note r1 = rest_at_append [OF r]
  note r2 = rest_at_append [OF r1]
  note r3 = rest_at_append [OF r2]
  note r4 = rest_at_append [OF r3]
  note r5 = rest_at_append [OF r4]
  note r6 = rest_at_append [OF r5]
  note r7 = rest_at_append [OF r6]
  note r8 = rest_at_append [OF r7]
  let ?s = "at + length lead"
  let ?ke = "?s + length ?q"
  let ?v = "?ke + length before + length '':'' + length behind"
  let ?e = "?v + length (render v)"
  let ?n = "?e + length post + length ?c"
  have start: "skip_trivia bytes at = ?s" using skip_to [OF wf(1) r] by (simp add: solid_def is_space_def)
  have quote: "byte_at bytes ?s = Some quote_mark" using rest_at_byte [of bytes ?s] r1 by simp
  have ke: "string_end bytes ?s = ?ke" using string_end_body [OF wf(2)] r1 by simp
  have "ascii_first (before @ '':'' @ behind @ render v @ post @ ?c @ ?close)"
    by (rule trivia_ascii [OF wf(3)]) (simp add: ascii_first_def)
  then have "str_get bytes ?s ?ke = Some ?q" by (intro str_get_at [OF r1]) (simp_all add: ascii_first_def)
  then obtain name where name: "foreign_json (jc_string J) (unwrap_str (str_get bytes ?s ?ke)) = Inr name"
    "key_name J k = Some name"
    using wf(9) by (auto simp: key_name_def unwrap_str_def split: sum.splits)
  have colon: "skip_trivia bytes ?ke = ?ke + length before" using skip_to [OF wf(3) r2] by (simp add: solid_def is_space_def)
  have val: "skip_trivia bytes (?ke + length before + 1) = ?v"
    using skip_to [OF wf(4) r4] val_first [OF wf(5)] by simp
  have "ends_value (tail @ CHR ''}'' # r)"
    by (rule trivia_ends [OF JItem.prems(2)]) (simp add: ends_value_def literal_byte_def ascii_defs)
  then have "ends_value (?c @ ?close)"
    using wf(7) by (cases comma) (simp_all add: ends_value_def literal_byte_def ascii_defs)
  then have "ends_value (post @ ?c @ ?close)" by (rule trivia_ends [OF wf(6)])
  then have vend: "value_end bytes ?v = ?e" using value_end_val [OF wf(5) r5] by simp
  have after: "byte_at bytes (skip_trivia bytes ?e) = Some (CHR '','') \<and> skip_trivia bytes ?e = ?e + length post" if comma
    using skip_to [OF wf(6) r6] rest_at_byte [of bytes] r7 that by (auto simp: solid_def is_space_def)
  have last: "skip_trivia bytes ?e = skip_trivia bytes ?n \<and> byte_at bytes (skip_trivia bytes ?n) \<noteq> Some (CHR '','')"
    if "\<not> comma"
  proof -
    have rest: "rest = JEnd" using wf(7) that by simp
    have t: "rest_at bytes ?n (tail @ CHR ''}'' # r)" using r8 that rest by simp
    have "skip_trivia bytes ?n = ?n + length tail" using skip_to [OF JItem.prems(2) t] by (simp add: solid_def is_space_def)
    moreover have "byte_at bytes (?n + length tail) = Some (CHR ''}'')" using rest_at_byte [OF rest_at_append [OF t]] .
    moreover have "skip_trivia bytes ?e = skip_trivia bytes ?n" using skip_over [OF wf(6) r6] that by simp
    ultimately show ?thesis by simp
  qed
  note IH = JItem.IH [OF wf(8) JItem.prems(2) r8]
  have val': "skip_trivia bytes (skip_trivia bytes ?ke + 1) = ?v" using val colon by simp
  have comma: "comma = (byte_at bytes (skip_trivia bytes ?e) = Some (CHR '',''))" using after last by (cases comma) auto
  have "object_members J bytes key (skip_trivia bytes at) =
      map_ok (\<lambda>(close, members). (close, \<lparr>mb_start = ?s, mb_value = ?v, mb_end = ?e,
        mb_comma = (if comma then Some (skip_trivia bytes ?e) else None), mb_wanted = (name = key)\<rparr> # members))
      (object_members J bytes key (if comma then skip_trivia bytes (skip_trivia bytes ?e + 1) else skip_trivia bytes ?e))"
    unfolding start by (rule object_members_step [OF quote ke name(1) val' vend refl comma])
  also have "(if comma then skip_trivia bytes (skip_trivia bytes ?e + 1) else skip_trivia bytes ?e) = skip_trivia bytes ?n"
    using after last by (cases comma) simp_all
  finally show ?case
    using after unfolding IH by (cases comma) (simp_all add: key' render_key_def name(2) Let_def algebra_simps)
qed

section \<open>The member at a path\<close>

definition has_name :: "'j jsonc_api \<Rightarrow> string \<Rightarrow> (string \<times> string \<times> string) option \<Rightarrow> bool" where
  "has_name J name key = (case key of None \<Rightarrow> False | Some (k, _, _) \<Rightarrow> key_name J k = Some name)"

fun values_of :: "'j jsonc_api \<Rightarrow> string \<Rightarrow> jitems \<Rightarrow> jval list" where
  "values_of J name JEnd = []"
| "values_of J name (JItem lead key v post comma rest) =
     (if has_name J name key then [v] else []) @ values_of J name rest"

fun update_items :: "'j jsonc_api \<Rightarrow> string \<Rightarrow> (jval \<Rightarrow> jval) \<Rightarrow> jitems \<Rightarrow> jitems" where
  "update_items J name f JEnd = JEnd"
| "update_items J name f (JItem lead key v post comma rest) =
     JItem lead key (if has_name J name key then f v else v) post comma (update_items J name f rest)"

text \<open>A path leads to one member when every key of it names exactly one member of an object.\<close>

fun leads :: "'j jsonc_api \<Rightarrow> string list \<Rightarrow> jval \<Rightarrow> bool" where
  "leads J [] v = True"
| "leads J (name # path) (JObj items tail) =
     (case values_of J name items of [w] \<Rightarrow> leads J path w | _ \<Rightarrow> False)"
| "leads J (name # path) v = False"

fun put_path :: "'j jsonc_api \<Rightarrow> string list \<Rightarrow> jval \<Rightarrow> jval \<Rightarrow> jval" where
  "put_path J [] new v = new"
| "put_path J (name # path) new (JObj items tail) = JObj (update_items J name (put_path J path new) items) tail"
| "put_path J (name # path) new v = v"

lemma values_of_spans: "wf_items J True items \<Longrightarrow>
    length (filter (mb_wanted \<circ> snd) (enumerate n (spans J name at items))) = length (values_of J name items)"
proof (induction items arbitrary: n at rule: items_induct)
  case (JItem lead key v post comma rest)
  then obtain k before behind where "key = Some (k, before, behind)" by (cases key) (auto simp: wf_key_def)
  then show ?case using JItem by (simp add: Let_def has_name_def)
qed simp

text \<open>Where the value of the one member with a name is.\<close>

definition holds :: "jc_member \<Rightarrow> nat \<Rightarrow> string \<Rightarrow> string \<Rightarrow> bool" where
  "holds m at l old = (mb_value m = at + length l \<and> mb_end m = at + length l + length old)"

lemma update_none: "values_of J name items = [] \<Longrightarrow> update_items J name f items = items"
  by (induction items rule: items_induct) (auto split: if_splits)

lemma spans_none: "wf_items J True items \<Longrightarrow> values_of J name items = [] \<Longrightarrow>
    filter (mb_wanted \<circ> snd) (enumerate n (spans J name at items)) = []"
  using values_of_spans [of J items n name at] by simp

lemma spans_found:
  assumes "wf_items J True items" "values_of J name items = [w]" "trivia tail"
  shows "\<exists>i m l r. filter (mb_wanted \<circ> snd) (enumerate n (spans J name at items)) = [(i, m)] \<and>
    holds m at l (render w) \<and> wf_val J w \<and> ends_value (r @ tail @ CHR ''}'' # s) \<and>
    (\<forall>f. render_items (update_items J name f items) = l @ render (f w) @ r) \<and>
    render_items items = l @ render w @ r"
  using assms(1,2)
proof (induction items arbitrary: n at rule: items_induct)
  case (JItem lead key v post comma rest)
  then obtain k before behind where key: "key = Some (k, before, behind)" by (cases key) (auto simp: wf_key_def)
  have wf: "wf_items J True rest" "wf_val J v" "trivia post" "rest = JEnd \<or> comma" using JItem.prems(1) by simp_all
  let ?c = "if comma then '','' else []" and ?l = "lead @ render_key key"
  let ?n = "at + length ?l + length (render v) + length post + length ?c"
  show ?case
  proof (cases "has_name J name key")
    case True
    then have rest: "values_of J name rest = []" "w = v" using JItem.prems(2) by simp_all
    have "ends_value (tail @ CHR ''}'' # s)"
      by (rule trivia_ends [OF assms(3)]) (simp add: ends_value_def literal_byte_def ascii_defs)
    then have "ends_value (?c @ render_items rest @ tail @ CHR ''}'' # s)"
      using wf(4) by (cases comma) (simp_all add: ends_value_def literal_byte_def ascii_defs)
    then have "ends_value (post @ ?c @ render_items rest @ tail @ CHR ''}'' # s)" by (rule trivia_ends [OF wf(3)])
    moreover have "filter (mb_wanted \<circ> snd) (enumerate n (spans J name at (JItem lead key v post comma rest))) =
        [(n, spans J name at (JItem lead key v post comma rest) ! 0)]"
      using True spans_none [OF wf(1) rest(1)] by (simp add: key Let_def has_name_def)
    moreover have "holds (spans J name at (JItem lead key v post comma rest) ! 0) at ?l (render w)"
      by (simp add: key Let_def holds_def rest(2))
    moreover have "render_items (update_items J name f (JItem lead key v post comma rest)) =
        ?l @ render (f w) @ post @ ?c @ render_items rest" for f
      using True update_none [OF rest(1), of f] by (simp add: rest(2))
    ultimately show ?thesis using wf(2) rest(2) by (metis append.assoc render_items.simps(2))
  next
    case False
    then have "values_of J name rest = [w]" using JItem.prems(2) by simp
    from JItem.IH [OF wf(1) this, of "Suc n" ?n]
    obtain i m l r where m: "filter (mb_wanted \<circ> snd) (enumerate (Suc n) (spans J name ?n rest)) = [(i, m)]"
      "holds m ?n l (render w)" "wf_val J w" "ends_value (r @ tail @ CHR ''}'' # s)"
      "\<forall>f. render_items (update_items J name f rest) = l @ render (f w) @ r" "render_items rest = l @ render w @ r"
      by blast
    let ?l' = "?l @ render v @ post @ ?c @ l"
    have "filter (mb_wanted \<circ> snd) (enumerate n (spans J name at (JItem lead key v post comma rest))) = [(i, m)]"
      using False m(1) by (simp add: key Let_def has_name_def algebra_simps)
    moreover have "holds m at ?l' (render w)" using m(2) by (simp add: holds_def)
    moreover have "render_items (update_items J name f (JItem lead key v post comma rest)) = ?l' @ render (f w) @ r" for f
      using False m(5) by simp
    moreover have "render_items (JItem lead key v post comma rest) = ?l' @ render w @ r" using m(6) by simp
    ultimately show ?thesis using m(3,4) by blast
  qed
qed simp

lemma parse_object_at:
  assumes "wf_val J (JObj items tail)" "rest_at bytes at (render (JObj items tail) @ r)"
  shows "parse_object J bytes at key = Inr (Some \<lparr>ob_open = at,
    ob_close = Suc at + length (render_items items @ tail), ob_members = spans J key (Suc at) items\<rparr>)"
proof -
  have r: "rest_at bytes at (CHR ''{'' # render_items items @ tail @ CHR ''}'' # r)" using assms(2) by simp
  have "object_members J bytes key (skip_trivia bytes (Suc at)) =
      Inr (Suc at + length (render_items items @ tail), spans J key (Suc at) items)"
    using assms(1) rest_at_Cons [OF r] by (intro object_members_items) simp_all
  then show ?thesis using rest_at_byte [OF r] by (simp add: parse_object_def)
qed

lemma walk_found:
  assumes "leads J path v" "path \<noteq> []" "wf_val J v" "rest_at bytes at (render v @ r)"
    and "length full = depth + length path"
  shows "\<exists>previous m l old x. walk_keys J bytes full depth path at = Inr (TargetFound previous m) \<and>
    holds m at l (render old) \<and> wf_val J old \<and> ends_value (x @ r) \<and> x \<noteq> [] \<and>
    render v = l @ render old @ x \<and> (\<forall>new. render (put_path J path new v) = l @ render new @ x)"
  using assms
proof (induction path arbitrary: v at r depth)
  case (Cons name path)
  obtain items tail w where v: "v = JObj items tail" "values_of J name items = [w]" "leads J path w"
    using Cons.prems(1) by (cases v) (auto split: list.splits)
  have wf: "wf_items J True items" "trivia tail" using Cons.prems(3) by (simp_all add: v)
  obtain i m l x where m: "filter (mb_wanted \<circ> snd) (enumerate 0 (spans J name (Suc at) items)) = [(i, m)]"
    "holds m (Suc at) l (render w)" "wf_val J w" "ends_value (x @ tail @ CHR ''}'' # r)"
    "\<forall>f. render_items (update_items J name f items) = l @ render (f w) @ x"
    "render_items items = l @ render w @ x"
    using spans_found [OF wf(1) v(2) wf(2), of 0 "Suc at" r] by blast
  note obj = parse_object_at [OF Cons.prems(3) [unfolded v(1)] Cons.prems(4) [unfolded v(1)], of name]
  let ?l = "CHR ''{'' # l" and ?x = "x @ tail @ ''}''"
  have h: "holds m at ?l (render w)" using m(2) by (simp add: holds_def)
  have rv: "render v = ?l @ render w @ ?x" using m(6) by (simp add: v)
  have put: "render (put_path J (name # path) new v) = ?l @ render (put_path J path new w) @ ?x" for new
    using m(5) by (simp add: v)
  show ?case
  proof (cases "path = []")
    case True
    have "walk_keys J bytes full depth [name] at = Inr (TargetFound
        (if i = 0 then None else Some (spans J name (Suc at) items ! (i - 1))) m)"
      using obj m(1) Cons.prems(5) True by simp
    then show ?thesis using h m(3,4) rv put True by fastforce
  next
    case False
    have here: "rest_at bytes (mb_value m) (render w @ ?x @ r)"
      using rest_at_append [of bytes at ?l] Cons.prems(4) rv h by (simp add: holds_def)
    obtain previous m' l' old x' where w: "walk_keys J bytes full (Suc depth) path (mb_value m) = Inr (TargetFound previous m')"
      "holds m' (mb_value m) l' (render old)" "wf_val J old" "ends_value (x' @ ?x @ r)" "x' \<noteq> []"
      "render w = l' @ render old @ x'" "\<forall>new. render (put_path J path new w) = l' @ render new @ x'"
      using Cons.IH [OF v(3) False m(3) here, of "Suc depth"] Cons.prems(5) by auto
    have "walk_keys J bytes full depth (name # path) at = Inr (TargetFound previous m')"
      using obj m(1) w(1) Cons.prems(5) False by simp
    moreover have "holds m' at (?l @ l') (render old)" using w(2) h by (simp add: holds_def)
    moreover have "render v = (?l @ l') @ render old @ (x' @ ?x)" using rv w(6) by simp
    moreover have "render (put_path J (name # path) new v) = (?l @ l') @ render new @ (x' @ ?x)" for new
      using put w(7) by simp
    moreover have "ends_value ((x' @ ?x) @ r)" "x' @ ?x \<noteq> []" using w(4) by simp_all
    ultimately show ?thesis using w(3) by blast
  qed
qed simp

end
