(* ===== verification/Jsonc_Edit.thy ===== *)
theory Jsonc_Edit
  imports Jsonc_Tree
begin

text \<open>
  The edits of \<open>Jsonc\<close> on the trees of \<open>Jsonc_Tree\<close>: setting a member ends, and sets exactly the member at
  the path; every other byte of the document stays.
\<close>

section \<open>What stripping leaves\<close>

text \<open>A blank document is one that is skipped as a whole.\<close>

lemma comment_end_last:
  "comment_end bytes at = Some e \<Longrightarrow> e = length bytes \<or> is_space (bytes ! e) \<or> byte (bytes ! (e - 1)) < 128"
proof -
  assume e: "comment_end bytes at = Some e"
  then have at: "at \<le> length bytes" by (auto simp: comment_end_def split: if_splits)
  let ?P = "\<lambda>c. c \<noteq> line_feed \<and> c \<noteq> carriage_return" and ?r = "drop at bytes"
  show ?thesis
  proof (cases "take 2 ?r = ''//''")
    case True
    then have len: "e = at + length (takeWhile ?P ?r)" using e at by (simp add: comment_end_def)
    show ?thesis
    proof (cases "length (takeWhile ?P ?r) < length ?r")
      case True
      then have "\<not> ?P (?r ! length (takeWhile ?P ?r))" by (rule nth_length_takeWhile)
      then show ?thesis using len at by (auto simp: is_space_def)
    next
      case False
      then have "length (takeWhile ?P ?r) = length ?r" using length_takeWhile_le [of ?P ?r] by linarith
      then show ?thesis using len at by simp
    qed
  next
    case False
    then obtain n where n: "block_end (drop 2 ?r) = Some n" "e = at + n + 4" "take 2 ?r = ''/*''"
      using e at by (auto simp: comment_end_def Let_def split: if_splits)
    have "block_end s = Some n \<Longrightarrow> s ! Suc n = CHR ''/''" for s n
      by (induction s arbitrary: n rule: block_end.induct) (auto split: if_splits)
    from this [OF n(1)] have "?r ! (n + 3) = CHR ''/''"
      using block_end_less [OF n(1)] by (simp add: numeral_eq_Suc)
    moreover have "?r ! (n + 3) = bytes ! (at + (n + 3))" by (rule nth_drop) (rule at)
    moreover have "at + (n + 3) = e - 1" using n(2) by simp
    ultimately have "bytes ! (e - 1) = CHR ''/''" by simp
    then show ?thesis by simp
  qed
qed

lemma skip_trivia_last: "at \<le> length bytes \<Longrightarrow> skip_trivia bytes at = at \<or>
    at < skip_trivia bytes at \<and> skip_trivia bytes at \<le> length bytes \<and>
    (skip_trivia bytes at = length bytes \<or> byte (bytes ! (skip_trivia bytes at - 1)) < 128)"
proof (induction bytes at rule: skip_trivia.induct)
  case (1 bytes at)
  show ?case
  proof (cases "comment_end bytes at")
    case (Some e)
    note e = comment_end_less [OF Some] comment_end_last [OF Some]
    have s: "skip_trivia bytes at = skip_trivia bytes e" by (rule skip_comment [OF Some])
    consider "skip_trivia bytes e = e" | "e < skip_trivia bytes e" using skip_trivia_le [of e bytes] by linarith
    then show ?thesis
    proof cases
      case 1
      have "\<not> is_space (bytes ! e)" if "e < length bytes"
      proof
        assume "is_space (bytes ! e)"
        moreover have "rest_at bytes e (bytes ! e # drop (Suc e) bytes)"
          using that by (simp add: rest_at_def Cons_nth_drop_Suc)
        ultimately have "skip_trivia bytes e = skip_trivia bytes (Suc e)" using skip_space by blast
        then show False using 1 skip_trivia_le [of "Suc e" bytes] by simp
      qed
      then have "e = length bytes \<or> byte (bytes ! (e - 1)) < 128" using e by (cases "e < length bytes") auto
      then show ?thesis using 1 s e(1) by simp
    next
      case 2
      then show ?thesis using "1.IH"(2) [OF Some] s e by auto
    qed
  next
    case None
    show ?thesis
    proof (cases "at < length bytes \<and> is_space (bytes ! at)")
      case True
      then have r: "rest_at bytes at (bytes ! at # drop (Suc at) bytes)" by (simp add: rest_at_def Cons_nth_drop_Suc)
      have s: "skip_trivia bytes at = skip_trivia bytes (Suc at)" using skip_space [OF r] True by simp
      have "byte (bytes ! at) < 128" using True by (auto simp: is_space_def)
      moreover have "byte_at bytes at = Some (bytes ! at)" using True by (simp add: byte_at_def)
      ultimately show ?thesis using "1.IH"(1) [OF None] True s skip_trivia_le [of "Suc at" bytes] by auto
    next
      case False
      then show ?thesis using None by (subst (1) skip_trivia.simps) (auto simp: byte_at_def)
    qed
  qed
qed

lemma skip_trivia_again: "skip_trivia bytes (skip_trivia bytes at) = skip_trivia bytes at"
proof (induction bytes at rule: skip_trivia.induct)
  case (1 bytes at)
  then show ?case
    by (cases "comment_end bytes at"; cases "byte_at bytes at") (auto simp: skip_trivia.simps [of bytes at] split: if_splits)
qed

text \<open>The ranges to blank lie before the first byte that is no trivia, or behind it.\<close>

lemma strip_scan_after: "(a, b) \<in> set (strip_scan bytes previous at) \<Longrightarrow> at \<le> a"
proof (induction bytes previous at rule: strip_scan.induct)
  case (1 bytes previous at)
  show ?case
  proof (cases "byte_at bytes at")
    case None
    then show ?thesis using "1.prems" by (subst (asm) strip_scan.simps) simp
  next
    case (Some c)
    then have "at < string_end bytes at" using string_end_less by (simp add: byte_at_def split: if_splits)
    then show ?thesis
      using "1.prems" "1.IH" [OF Some] Some
      by (subst (asm) strip_scan.simps) (fastforce dest: comment_end_less split: option.splits if_splits)
  qed
qed

lemma strip_scan_around:
  assumes "(a, b) \<in> set (strip_scan bytes (CHR ''['') at)" "skip_trivia bytes at = p" "p < length bytes"
  shows "b \<le> p \<or> p < a"
  using assms
proof (induction "length bytes - at" arbitrary: at rule: less_induct)
  case less
  have at: "at < length bytes" using skip_trivia_le [of at bytes] less.prems by linarith
  then have byte: "byte_at bytes at = Some (bytes ! at)" by (simp add: byte_at_def)
  show ?case
  proof (cases "comment_end bytes at")
    case (Some e)
    have p: "skip_trivia bytes e = p" using skip_comment [OF Some] less.prems(2) by simp
    have "(a, b) = (at, e) \<or> (a, b) \<in> set (strip_scan bytes (CHR ''['') e)"
      using less.prems(1) byte Some by (subst (asm) strip_scan.simps) simp
    moreover have "length bytes - e < length bytes - at" using comment_end_less [OF Some] by linarith
    ultimately show ?thesis using less.hyps p less.prems(3) skip_trivia_le [of e bytes] by auto
  next
    case None
    show ?thesis
    proof (cases "is_space (bytes ! at)")
      case True
      have r: "rest_at bytes at (bytes ! at # drop (Suc at) bytes)" using at by (simp add: rest_at_def Cons_nth_drop_Suc)
      have p: "skip_trivia bytes (Suc at) = p" using skip_space [OF r True] less.prems(2) by simp
      have "(a, b) \<in> set (strip_scan bytes (CHR ''['') (Suc at))"
        using less.prems(1) byte None True by (subst (asm) strip_scan.simps) (auto simp: is_space_def)
      then show ?thesis using less.hyps [of "Suc at"] p less.prems(3) at by simp
    next
      case False
      then have p: "p = at" using less.prems(2) None byte by (subst (asm) skip_trivia.simps) simp
      have "at < string_end bytes at" using string_end_less [OF at] by simp
      then have "at < a"
        using less.prems(1) byte None False
        by (subst (asm) strip_scan.simps) (auto dest!: strip_scan_after split: if_splits)
      then show ?thesis using p by simp
    qed
  qed
qed

lemma strip_chars_keeps:
  assumes "\<forall>(a, b) \<in> set pending. b \<le> n + length (utf8 xs) \<or> n + length (utf8 xs) < a"
  shows "c \<in> set (strip_chars pending n (xs @ c # ys))"
  using assms
proof (induction xs arbitrary: pending n)
  case Nil
  show ?case
  proof (cases "dropWhile (\<lambda>(_, end). end \<le> n) pending")
    case (Cons x rest)
    obtain a b where x: "x = (a, b)" by (cases x)
    have "x \<in> set (dropWhile (\<lambda>(_, end). end \<le> n) pending)" by (simp add: Cons)
    then have "(a, b) \<in> set pending" using set_dropWhileD x by fast
    moreover have "\<not> b \<le> n" using Cons hd_dropWhile [of "\<lambda>(_, end). end \<le> n" pending] by (simp add: x)
    ultimately have "n < a" using Nil by (auto simp: utf8_def)
    then show ?thesis by (simp add: Cons x Let_def)
  qed (simp add: Let_def del: dropWhile_eq_Nil_conv)
next
  case (Cons x xs)
  have "\<forall>(a, b) \<in> set (dropWhile (\<lambda>(_, end). end \<le> n) pending).
      b \<le> (n + len_utf8 x) + length (utf8 xs) \<or> (n + len_utf8 x) + length (utf8 xs) < a"
    using Cons.prems by (auto simp: utf8_def len_utf8_def dest!: set_dropWhileD)
  from Cons.IH [OF this] show ?case by (simp add: Let_def)
qed

text \<open>A byte behind an ASCII byte begins a scalar value.\<close>

lemma utf8_bytes_ascii: "list_all is_scalar [c] \<Longrightarrow> b \<in> set (utf8_bytes c) \<Longrightarrow> b < 128 \<Longrightarrow> utf8_bytes c = [c] \<and> b = c"
  by (auto simp: utf8_bytes_def is_scalar_def split: if_splits)

lemma utf8_char_bytes: "is_scalar c \<Longrightarrow> map byte (utf8 [c]) = utf8_bytes c"
  using utf8_bytes_byte [of c] by (auto simp: utf8_def is_scalar_less intro!: map_idI)

lemma utf8_split:
  assumes "list_all is_scalar cs" "0 < p" "p \<le> length (utf8 cs)" "byte (utf8 cs ! (p - 1)) < 128"
  shows "\<exists>xs ys. cs = xs @ ys \<and> length (utf8 xs) = p"
  using assms
proof (induction cs arbitrary: p)
  case (Cons c cs)
  have u: "utf8 (c # cs) = utf8 [c] @ utf8 cs" using utf8_append [of "[c]" cs] by simp
  show ?case
  proof (cases "p \<le> length (utf8 [c])")
    case True
    then have "p - 1 < length (utf8 [c])" using Cons.prems(2) by linarith
    then have "byte (utf8 [c] ! (p - 1)) < 128" using Cons.prems(4) by (simp add: u nth_append)
    moreover have eq: "map byte (utf8 [c]) = utf8_bytes c" using Cons.prems(1) utf8_char_bytes [of c] by simp
    moreover have "byte (utf8 [c] ! (p - 1)) \<in> set (utf8_bytes c)"
      unfolding eq [symmetric] using \<open>p - 1 < length (utf8 [c])\<close> by simp
    ultimately have "utf8_bytes c = [c]"
      using utf8_bytes_ascii [of c "byte (utf8 [c] ! (p - 1))"] Cons.prems(1) by simp
    then have "length (utf8 [c]) = 1" by (simp add: utf8_def)
    then have "cs = [] @ cs \<and> c # cs = [c] @ cs \<and> length (utf8 [c]) = p" using True Cons.prems(2) by simp
    then show ?thesis by metis
  next
    case False
    let ?p = "p - length (utf8 [c])"
    have "byte (utf8 cs ! (?p - 1)) < 128"
    proof -
      have "\<not> p - 1 < length (utf8 [c])" using False by linarith
      then show ?thesis using Cons.prems(4) by (simp add: u nth_append diff_right_commute)
    qed
    then obtain xs ys where "cs = xs @ ys" "length (utf8 xs) = ?p"
    proof -
      have "?p \<le> length (utf8 cs)" using Cons.prems(3) u by simp
      then show thesis using Cons.IH [of ?p] Cons.prems(1) False \<open>byte (utf8 cs ! (?p - 1)) < 128\<close> that by auto
    qed
    then have "c # cs = (c # xs) @ ys \<and> length (utf8 (c # xs)) = p"
      using False utf8_append [of "[c]" xs] by simp
    then show ?thesis by metis
  qed
qed (simp add: utf8_def)

lemma blank_iff: "trim_space s = [] \<longleftrightarrow> list_all is_space s"
  by (auto simp: trim_space_def trim_end_space_def list_all_iff dropWhile_eq_Nil_conv dest: set_dropWhileD)
    (metis dropWhile_eq_Nil_conv set_takeWhileD takeWhile_dropWhile_id Un_iff set_append)

lemma space_ascii: "is_space c \<Longrightarrow> byte c < 128"
  by (auto simp: is_space_def)

lemma utf8_blank:
  assumes "list_all is_space (utf8 cs)" "c \<in> set cs" "is_scalar c"
  shows "is_space (char_of c) \<and> c < 128"
proof -
  have b: "byte (char_of b :: char) = b" if "b \<in> set (utf8_bytes c)" for b
    using utf8_bytes_byte [OF is_scalar_less [OF assms(3)] that] by simp
  have sp: "is_space (char_of b)" if "b \<in> set (utf8_bytes c)" for b
    using assms(1,2) that by (auto simp: utf8_def list_all_iff)
  have "b < 128" if "b \<in> set (utf8_bytes c)" for b using space_ascii [OF sp [OF that]] b [OF that] by metis
  moreover have "utf8_bytes c \<noteq> []" by (simp add: utf8_bytes_def)
  ultimately have "utf8_bytes c = [c]" using utf8_bytes_ascii [of c "hd (utf8_bytes c)"] assms(3) by simp
  then show ?thesis using sp [of c] b [of c] \<open>\<And>b. b \<in> set (utf8_bytes c) \<Longrightarrow> b < 128\<close> by simp
qed

lemma strip_not_blank:
  assumes "valid_utf8 s" "skip_trivia s 0 < length s"
  shows "trim_space (strip s) \<noteq> []"
proof
  assume "trim_space (strip s) = []"
  then have blank: "list_all is_space (utf8 (strip_chars (strip_scan s (CHR ''['') 0) 0 (chars s)))"
    by (simp add: blank_iff strip_def)
  obtain cs where cs: "list_all is_scalar cs" "s = utf8 cs" "chars s = cs"
    using assms(1) by (metis chars_utf8 scalars_less valid_utf8_iff)
  let ?p = "skip_trivia s 0"
  obtain xs ys where split: "cs = xs @ ys" "length (utf8 xs) = ?p"
  proof (cases "?p = 0")
    case True
    then show thesis using that [of "[]" cs] by (simp add: utf8_def)
  next
    case False
    then have "byte (utf8 cs ! (?p - 1)) < 128" using skip_trivia_last [of 0 s] assms(2) cs(2) by auto
    then show thesis using utf8_split [OF cs(1), of ?p] False assms(2) cs(2) that by auto
  qed
  then obtain c zs where ys: "ys = c # zs" using assms(2) cs(2) by (cases ys) auto
  have c: "c \<in> set (strip_chars (strip_scan s (CHR ''['') 0) 0 cs)"
    unfolding split(1) ys
    using strip_scan_around [OF _ refl assms(2)] by (intro strip_chars_keeps) (auto simp: split(2))
  have "is_scalar c" using cs(1) split(1) ys by simp
  then have sp: "is_space (char_of c)" "c < 128" using utf8_blank [OF blank [unfolded cs(3)] c] by auto
  then have "utf8 cs = utf8 xs @ char_of c # utf8 zs" by (simp add: split(1) ys utf8_def utf8_bytes_def)
  then have r: "rest_at s ?p (char_of c # utf8 zs)" using split(2) cs(2) by (simp add: rest_at_def)
  have "skip_trivia s ?p = skip_trivia s (Suc ?p)" by (rule skip_space [OF r sp(1)])
  moreover have "skip_trivia s ?p = ?p" by (rule skip_trivia_again)
  ultimately show False using skip_trivia_le [of "Suc ?p" s] by simp
qed

section \<open>Documents of comments only\<close>











section \<open>Setting a member ends\<close>








definition sample_jsonc :: "unit jsonc_api" where
  "sample_jsonc =
     \<lparr>jc_ignored = (\<lambda>_. Inr ()),
      jc_string = (\<lambda>bytes. Inr (butlast (tl (map (\<lambda>b. char_of (unat b)) bytes)))),
      jc_quoted = (\<lambda>key. quote_mark # key @ [quote_mark])\<rparr>"


section \<open>Setting a member that is there\<close>

lemma splice_one:
  assumes "ascii_first (b @ c)" "ascii_first c"
  shows "splice (a @ b @ c) [(length a, length a + length b, new)] = a @ new @ c"
proof -
  let ?s = "a @ b @ c"
  have r: "rest_at ?s (length a) (b @ c)" "rest_at ?s (length a + length b) c" by (simp_all add: rest_at_def)
  have "char_boundary ?s (length a)" "char_boundary ?s (length a + length b)"
    using ascii_first_boundary [OF r(1) assms(1)] ascii_first_boundary [OF r(2) assms(2)] by auto
  then have "str_get ?s 0 (length a) = Some a" "str_get ?s (length a + length b) (length ?s) = Some c"
    by (simp_all add: str_get_def char_boundary_def)
  then show ?thesis by (simp add: splice_def unwrap_str_def)
qed

lemma ends_value_ascii: "ends_value r \<Longrightarrow> ascii_first r"
  by (auto simp: ends_value_def ascii_first_def split: list.splits)

lemma walk_document:
  assumes "trivia lead" "wf_val J v" "valid_utf8 (lead @ render v @ trail)"
    and "foreign_json (jc_ignored J) (strip (lead @ render v @ trail)) = Inr ()"
  shows "walk J (lead @ render v @ trail) path = walk_keys J (lead @ render v @ trail) path 0 path (length lead)"
proof -
  let ?s = "lead @ render v @ trail"
  have "skip_trivia ?s 0 = length lead"
    using skip_to [OF assms(1), of ?s 0 "render v @ trail"] val_first [OF assms(2), of trail] by (simp add: rest_at_def)
  then show ?thesis
    using strip_not_blank [OF assms(3)] val_first [OF assms(2), of trail] assms(4) by (simp add: walk_def Let_def)
qed

text \<open>
  C38: Setting a member that is there replaces its value and nothing else: the new text is the text of the
  document's tree with the value at the path replaced, so every space, comment, comma and other member
  stays byte for byte.
\<close>

theorem set_member_replaces:
  assumes "trivia lead" "wf_val J v" "leads J path v" "path \<noteq> []" "valid_utf8 (lead @ render v @ trail)"
    and "foreign_json (jc_ignored J) (strip (lead @ render v @ trail)) = Inr ()"
    and "foreign_json (jc_ignored J) value_json = Inr ()" "render new = trim_space value_json"
  shows "set_member J (lead @ render v @ trail) path value_json =
    Some (Inr (lead @ render (put_path J path new v) @ trail))"
proof -
  let ?s = "lead @ render v @ trail"
  have r: "rest_at ?s (length lead) (render v @ trail)" by (simp add: rest_at_def)
  obtain previous m l old x where m: "walk_keys J ?s path 0 path (length lead) = Inr (TargetFound previous m)"
    "holds m (length lead) l (render old)" "wf_val J old" "ends_value (x @ trail)"
    "render v = l @ render old @ x" "render (put_path J path new v) = l @ render new @ x"
    using walk_found [OF assms(3,4,2) r, of path 0] by auto
  have "set_member J ?s path value_json = Some (Inr (splice ?s [(mb_value m, mb_end m, trim_space value_json)]))"
    using walk_document [OF assms(1,2,5,6)] m(1) assms(7) by (subst set_member.simps) simp
  also have "splice ?s [(mb_value m, mb_end m, trim_space value_json)] = (lead @ l) @ render new @ (x @ trail)"
    using splice_one [of "render old" "x @ trail" "lead @ l" "render new"] val_first [OF m(3), of "x @ trail"]
      ends_value_ascii [OF m(4)] m(2,5) assms(8) by (simp add: holds_def)
  finally show ?thesis using m(6) by simp
qed

definition sample_tree :: "string \<Rightarrow> jval" where
  "sample_tree v = JObj (JItem '' '' (Some (''a'', [], '' '')) (JLit v) [] False JEnd) '' /* x */ ''"

lemma sample_bytes: "map (\<lambda>b :: u8. char_of (unat b)) (map of_char s) = s"
proof -
  have "char_of (unat (of_char c :: u8)) = c" for c
  proof -
    have "unat (of_nat (byte c) :: u8) = byte c" by (simp add: unat_of_nat)
    then show ?thesis by (simp add: of_nat_of_char)
  qed
  then show ?thesis by (induction s) auto
qed

lemma sample_key_name: "length k < 100 \<Longrightarrow> key_name sample_jsonc k = Some k"
  using sample_bytes [of "quote_mark # k @ [quote_mark]"]
  by (simp add: key_name_def foreign_json_def json_def sample_jsonc_def MAX_FOREIGN_BYTES_def MAX_CONTROL_BYTES_def)

lemma sample_tree_wf: "list_all literal_byte v \<Longrightarrow> v \<noteq> [] \<Longrightarrow> wf_val sample_jsonc (sample_tree v)"
proof -
  have "key_name sample_jsonc ''a'' \<noteq> None" by (simp add: sample_key_name)
  moreover have "trivia '' ''" by (rule trivia_space [OF _ trivia_Nil]) (simp add: is_space_def)
  moreover have "trivia ('' '' @ ''/*'' @ '' x '' @ ''*/'' @ '' '')"
    using trivia_block [of "'' x ''" "'' ''"] calculation(2) trivia_space [of "CHR '' ''"] by (simp add: is_space_def)
  ultimately show "list_all literal_byte v \<Longrightarrow> v \<noteq> [] \<Longrightarrow> ?thesis"
    by (simp add: sample_tree_def wf_key_def trivia_Nil)
qed

theorem set_member_replaces_witness:
  "set_member sample_jsonc (render (sample_tree ''1'')) [''a''] ''2'' = Some (Inr (render (sample_tree ''2'')))"
proof -
  have name: "key_name sample_jsonc ''a'' = Some ''a''" by (rule sample_key_name) simp
  have lit: "literal_byte (CHR ''1'')" by (simp add: literal_byte_def ascii_defs)
  have "strip ([] @ render (sample_tree ''1'') @ []) = ''{ '' @ [quote_mark] @ ''a'' @ [quote_mark] @ '': 1         }''"
    by code_simp
  then have "foreign_json (jc_ignored sample_jsonc) (strip ([] @ render (sample_tree ''1'') @ [])) = Inr ()"
    by (simp add: foreign_json_def json_def sample_jsonc_def MAX_FOREIGN_BYTES_def MAX_CONTROL_BYTES_def)
  moreover have "foreign_json (jc_ignored sample_jsonc) ''2'' = Inr ()" "trim_space ''2'' = ''2''"
    by (simp_all add: foreign_json_def json_def sample_jsonc_def MAX_FOREIGN_BYTES_def MAX_CONTROL_BYTES_def
        trim_space_def trim_end_space_def is_space_def)
  moreover have "leads sample_jsonc [''a''] (sample_tree ''1'')" by (simp add: sample_tree_def has_name_def name)
  moreover have "valid_utf8 ([] @ render (sample_tree ''1'') @ [])"
    by (rule valid_utf8_ascii) (simp add: sample_tree_def render_key_def)
  ultimately show ?thesis
    using set_member_replaces [OF trivia_Nil sample_tree_wf, of "''1''" "[''a'']" "[]" "''2''" "JLit ''2''"] lit
    by (simp add: sample_tree_def has_name_def name)
qed

end
