(* ===== verification/Store_Tables.thy ===== *)
theory Store_Tables
  imports Chat_Policy Job_Wire
begin

text \<open>
  The tables of the chat store (\<open>crates/domyjob/src/chat/store/tables.rs\<close>) and the state of a
  transaction on them.

  The database is a library. Its tables are the type parameters \<open>'t\<close> (text rows), \<open>'n\<close> (numbers), \<open>'p\<close>
  (pairs) and \<open>'b\<close> (tombstones) of the record \<open>redb\<close> of its operations, and \<open>redb_laws\<close> is its documented
  behaviour: a table is an ordered map. A call of the library that fails ends the transaction without a
  commit, as every other error does; the operations of the record are the calls that succeed. The
  JSON form of the stored records and the codec of events are the remaining fields of \<open>store_lib\<close>.
\<close>

section \<open>The database\<close>

record ('t, 'n, 'p, 'b) redb =
  text_new :: 't
  text_get :: "'t \<Rightarrow> string \<Rightarrow> string option"
  text_insert :: "'t \<Rightarrow> string \<Rightarrow> string \<Rightarrow> 't"
  text_remove :: "'t \<Rightarrow> string \<Rightarrow> 't"
  text_rows :: "'t \<Rightarrow> (string \<times> string) list"
  num_new :: 'n
  num_get :: "'n \<Rightarrow> string \<Rightarrow> u64 option"
  num_insert :: "'n \<Rightarrow> string \<Rightarrow> u64 \<Rightarrow> 'n"
  pair_new :: 'p
  pair_get :: "'p \<Rightarrow> string \<Rightarrow> (u64 \<times> u64) option"
  pair_insert :: "'p \<Rightarrow> string \<Rightarrow> u64 \<times> u64 \<Rightarrow> 'p"
  tomb_new :: 'b
  tomb_get :: "'b \<Rightarrow> string \<Rightarrow> (u64 \<times> u8 list) option"
  tomb_insert :: "'b \<Rightarrow> string \<Rightarrow> u64 \<times> u8 list \<Rightarrow> 'b"

definition redb_laws :: "('t, 'n, 'p, 'b, 'z) redb_scheme \<Rightarrow> bool" where
  "redb_laws R \<longleftrightarrow>
     text_get R (text_new R) = Map.empty \<and>
     (\<forall>t k v. text_get R (text_insert R t k v) = (text_get R t)(k \<mapsto> v)) \<and>
     (\<forall>t k. text_get R (text_remove R t k) = (text_get R t)(k := None)) \<and>
     (\<forall>t. sorted_wrt (<) (map fst (text_rows R t)) \<and> map_of (text_rows R t) = text_get R t) \<and>
     num_get R (num_new R) = Map.empty \<and>
     (\<forall>t k v. num_get R (num_insert R t k v) = (num_get R t)(k \<mapsto> v)) \<and>
     pair_get R (pair_new R) = Map.empty \<and>
     (\<forall>t k v. pair_get R (pair_insert R t k v) = (pair_get R t)(k \<mapsto> v)) \<and>
     tomb_get R (tomb_new R) = Map.empty \<and>
     (\<forall>t k v. tomb_get R (tomb_insert R t k v) = (tomb_get R t)(k \<mapsto> v))"

lemma redb_lawsD:
  assumes "redb_laws R"
  shows "text_get R (text_new R) = Map.empty" "text_get R (text_insert R t k v) = (text_get R t)(k \<mapsto> v)"
    "text_get R (text_remove R t k) = (text_get R t)(k := None)"
    "sorted_wrt (<) (map fst (text_rows R t))" "map_of (text_rows R t) = text_get R t"
    "num_get R (num_new R) = Map.empty" "num_get R (num_insert R u k n) = (num_get R u)(k \<mapsto> n)"
    "pair_get R (pair_new R) = Map.empty" "pair_get R (pair_insert R w k p) = (pair_get R w)(k \<mapsto> p)"
    "tomb_get R (tomb_new R) = Map.empty" "tomb_get R (tomb_insert R b k z) = (tomb_get R b)(k \<mapsto> z)"
  using assms unfolding redb_laws_def by blast+

text \<open>\<open>range\<close>: the rows from a first key, and the rows from a first key to before another.\<close>

definition range_from :: "('t, 'n, 'p, 'b, 'z) redb_scheme \<Rightarrow> 't \<Rightarrow> string \<Rightarrow> (string \<times> string) list" where
  "range_from R t first = filter (\<lambda>(k, _). first \<le> k) (text_rows R t)"

definition range_between ::
  "('t, 'n, 'p, 'b, 'z) redb_scheme \<Rightarrow> 't \<Rightarrow> string \<Rightarrow> string \<Rightarrow> (string \<times> string) list" where
  "range_between R t first end = filter (\<lambda>(k, _). first \<le> k \<and> k < end) (text_rows R t)"

section \<open>Stored records\<close>

record local_agent =
  la_cwd :: string
  la_session :: "string option"

datatype link_state = LinkSynced | LinkDeferred | LinkFailed

record link =
  ln_state :: link_state
  ln_detail :: "string option"
  ln_at :: stamp

record ('j, 'x) record_codec =
  rec_encode :: "'x \<Rightarrow> ('j, string) result"
  rec_decode :: "u8 list \<Rightarrow> ('j, 'x) result"

record ('t, 'n, 'p, 'b, 'j) store_lib = "('t, 'n, 'p, 'b) redb" +
  lib_codec :: codec
  lib_event :: "u8 list \<Rightarrow> ('j, event) result"
  lib_card :: "('j, card) record_codec"
  lib_machine :: "('j, machine_card) record_codec"
  lib_room :: "('j, room) record_codec"
  lib_resolution :: "('j, resolution) record_codec"
  lib_delivery :: "('j, delivery) record_codec"
  lib_activity :: "('j, activity) record_codec"
  lib_descriptor :: "('j, descriptor) record_codec"
  lib_agent :: "('j, local_agent) record_codec"
  lib_link :: "('j, link) record_codec"

datatype 'j store_error =
    ErrHandoff read_refusal
  | ErrJson 'j
  | ErrRecord "'j json_error"
  | ErrCorrupt string
  | ErrIdentityChanged
  | ErrFormat string
  | ErrRejected rejection
  | ErrRefused refusal
  | ErrInvalid invalid
  | ErrUnknown string
  | ErrAmbiguous string

definition error_from :: "'j store_error failure \<Rightarrow> 'j store_error" where
  "error_from failure =
     (case failure of Store error \<Rightarrow> error | Rejected rejection \<Rightarrow> ErrRejected rejection | FInvalid invalid \<Rightarrow> ErrInvalid invalid)"

definition MAX_RECORD :: nat where
  "MAX_RECORD = 1024 * 1024"

definition decode_record :: "(u8 list \<Rightarrow> ('j, 'x) result) \<Rightarrow> string \<Rightarrow> ('j store_error, 'x) result" where
  "decode_record dec text = map_err ErrRecord (json dec (map of_char text) MAX_RECORD)"

definition encode_record :: "('x \<Rightarrow> ('j, string) result) \<Rightarrow> 'x \<Rightarrow> ('j store_error, string) result" where
  "encode_record enc x = map_err ErrJson (enc x)"

section \<open>The tables\<close>

record ('t, 'n, 'p, 'b) tables =
  db_events :: 't
  db_order :: 't
  db_threads :: 't
  db_joined :: 't
  db_cursors :: 'p
  db_acks :: 'n
  db_meta :: 't
  db_counters :: 'n
  db_resolutions :: 't
  db_open :: 't
  db_started :: 't
  db_profiles :: 't
  db_machines :: 't
  db_rooms :: 't
  db_tombstones :: 'b
  db_local_agents :: 't
  db_turns :: 't
  db_reads :: 't
  db_delivery :: 't
  db_activity :: 't
  db_escalations :: 't
  db_urgent :: 't
  db_handoff_headers :: 't
  db_handoff_readers :: 't
  db_handoff_reads :: 't
  db_peers :: 't
  db_links :: 't

definition create_all :: "('t, 'n, 'p, 'b, 'z) redb_scheme \<Rightarrow> ('t, 'n, 'p, 'b) tables" where
  "create_all R =
     (let t = text_new R in
      \<lparr>db_events = t, db_order = t, db_threads = t, db_joined = t, db_cursors = pair_new R, db_acks = num_new R,
       db_meta = t, db_counters = num_new R, db_resolutions = t, db_open = t, db_started = t, db_profiles = t,
       db_machines = t, db_rooms = t, db_tombstones = tomb_new R, db_local_agents = t, db_turns = t, db_reads = t,
       db_delivery = t, db_activity = t, db_escalations = t, db_urgent = t, db_handoff_headers = t,
       db_handoff_readers = t, db_handoff_reads = t, db_peers = t, db_links = t\<rparr>)"

definition get_json ::
  "('t, 'n, 'p, 'b, 'z) redb_scheme \<Rightarrow> (u8 list \<Rightarrow> ('j, 'x) result) \<Rightarrow> 't \<Rightarrow> string \<Rightarrow> ('j store_error, 'x option) result" where
  "get_json R dec table key =
     (case text_get R table key of None \<Rightarrow> Inr None | Some value \<Rightarrow> map_ok Some (decode_record dec value))"

definition get_number :: "('t, 'n, 'p, 'b, 'z) redb_scheme \<Rightarrow> 'n \<Rightarrow> string \<Rightarrow> u64" where
  "get_number R table key = (case num_get R table key of None \<Rightarrow> 0 | Some value \<Rightarrow> value)"

section \<open>Keys\<close>

abbreviation unit_separator :: char where
  "unit_separator \<equiv> CHR 0x1F"

definition order_key :: "event \<Rightarrow> string" where
  "order_key event =
     format_hex 16 (unat (ev_clock event)) @ '':'' @ origin_str (ev_origin event) @ '':'' @
     format_hex 16 (unat (event_seq (ev_id event)))"

definition thread_key :: "conversation \<Rightarrow> string \<Rightarrow> string" where
  "thread_key conversation order = conversation_to_string conversation @ unit_separator # order"

definition thread_bounds :: "conversation \<Rightarrow> string \<times> string" where
  "thread_bounds conversation =
     (conversation_to_string conversation @ [unit_separator],
      conversation_to_string conversation @ [unit_separator, CHR 0x7F])"

definition joined_key :: "agent_id \<Rightarrow> conversation \<Rightarrow> string" where
  "joined_key agent conversation = agent_id_to_string agent @ unit_separator # conversation_to_string conversation"

definition room_key :: "room_id \<Rightarrow> string" where
  "room_key room = conversation_to_string (InRoom room)"

definition event_key :: "event_id \<Rightarrow> string" where
  "event_key id' = event_id_to_string id'"

definition delivery_key :: "agent_id \<Rightarrow> event_id \<Rightarrow> string" where
  "delivery_key agent request = agent_id_to_string agent @ unit_separator # event_id_to_string request"

section \<open>Transactions\<close>

text \<open>
  A method on a transaction changes the tables and gives a result: \<open>tx_then\<close> is the question mark after
  such a call, \<open>tx_read\<close> a call that only reads, \<open>tx_update\<close> one that only writes.
\<close>

definition tx_then ::
  "('s \<Rightarrow> 's \<times> ('e, 'a) result) \<Rightarrow> ('a \<Rightarrow> 's \<Rightarrow> 's \<times> ('e, 'b) result) \<Rightarrow> 's \<Rightarrow> 's \<times> ('e, 'b) result" where
  "tx_then f g s = (case f s of (s', Inl e) \<Rightarrow> (s', Inl e) | (s', Inr a) \<Rightarrow> g a s')"

definition tx_read :: "('s \<Rightarrow> ('e, 'a) result) \<Rightarrow> 's \<Rightarrow> 's \<times> ('e, 'a) result" where
  "tx_read f s = (s, f s)"

definition tx_update :: "('s \<Rightarrow> 's) \<Rightarrow> 's \<Rightarrow> 's \<times> ('e, unit) result" where
  "tx_update f s = (f s, Inr ())"

fun tx_each :: "('a \<Rightarrow> 's \<Rightarrow> 's \<times> ('e, unit) result) \<Rightarrow> 'a list \<Rightarrow> 's \<Rightarrow> 's \<times> ('e, unit) result" where
  "tx_each f [] s = (s, Inr ())"
| "tx_each f (x # xs) s = tx_then (f x) (\<lambda>_. tx_each f xs) s"

lemma tx_then_Inr:
  "tx_then f g s = (s', Inr b) \<longleftrightarrow> (\<exists>s1 a. f s = (s1, Inr a) \<and> g a s1 = (s', Inr b))"
  by (auto simp: tx_then_def split: prod.splits sum.splits)

lemma tx_simps [simp]:
  "tx_then (tx_read f) g s = (case f s of Inl e \<Rightarrow> (s, Inl e) | Inr a \<Rightarrow> g a s)"
  "tx_then (tx_update h) g s = g () (h s)"
  by (auto simp: tx_then_def tx_read_def tx_update_def split: sum.splits)

section \<open>Keys identify what they are keys of\<close>

lemma event_key_inj: "wf_event_id i \<Longrightarrow> wf_event_id j \<Longrightarrow> event_key i = event_key j \<longleftrightarrow> i = j"
  by (metis Inr_inject event_id_try_from_iff event_key_def)

lemma agent_key_inj:
  "wf_agent_id a \<Longrightarrow> wf_agent_id b \<Longrightarrow> agent_id_to_string a = agent_id_to_string b \<longleftrightarrow> a = b"
  using agent_id_to_string_inj by blast

lemma room_key_inj: "wf_room_id a \<Longrightarrow> wf_room_id b \<Longrightarrow> room_key a = room_key b \<longleftrightarrow> a = b"
proof -
  have "wf_room_id r \<Longrightarrow> conversation_try_from (room_key r) = Inr (InRoom r)" for r
    by (simp add: room_key_def conversation_try_from_iff wf_conversation_def)
  then show "wf_room_id a \<Longrightarrow> wf_room_id b \<Longrightarrow> room_key a = room_key b \<longleftrightarrow> a = b"
    by (metis Inr_inject conversation.inject(2))
qed

lemma origin_key_inj: "origin_str a = origin_str b \<longleftrightarrow> a = b"
  using origin.expand by blast

lemma plain_no_separator:
  "wf_agent_id a \<Longrightarrow> unit_separator \<notin> set (agent_id_to_string a)"
  "wf_origin p \<Longrightarrow> unit_separator \<notin> set (origin_str p)"
  by (auto simp: agent_id_to_string_def wf_agent_id_def wf_agent_name_def wf_origin_def lower_hex_def valid_handle_def
      handle_lower_def list_all_iff ascii_defs)

lemma append_separator_eq:
  "c \<notin> set x \<Longrightarrow> c \<notin> set y \<Longrightarrow> x @ c # r = y @ c # s \<longleftrightarrow> x = y \<and> r = s"
proof (induction x arbitrary: y)
  case Nil
  then show ?case by (cases y) auto
next
  case (Cons a x)
  then show ?case by (cases y) auto
qed

lemma delivery_key_inj:
  "wf_agent_id a \<Longrightarrow> wf_agent_id b \<Longrightarrow> wf_event_id i \<Longrightarrow> wf_event_id j \<Longrightarrow>
     delivery_key a i = delivery_key b j \<longleftrightarrow> a = b \<and> i = j"
  using append_separator_eq [OF plain_no_separator(1) plain_no_separator(1), of a b] agent_key_inj [of a b]
    event_key_inj [of i j] by (auto simp: delivery_key_def event_key_def)

end
