(* ===== verification/Store_Views.thy ===== *)
theory Store_Views
  imports Store_Tables
begin

text \<open>
  What a transaction reads (\<open>chat/store/views.rs\<close>): the stored form of an event, the cursors and views of
  the ledger, the thread of a conversation, the inbox of an agent and the directory.
\<close>

section \<open>The order of conversations\<close>

instantiation room_name :: linorder
begin
definition less_eq_room_name :: "room_name \<Rightarrow> room_name \<Rightarrow> bool" where
  "less_eq_room_name a b = (room_name_str a \<le> room_name_str b)"
definition less_room_name :: "room_name \<Rightarrow> room_name \<Rightarrow> bool" where
  "less_room_name a b = (room_name_str a < room_name_str b)"
instance
  by standard (auto simp: less_eq_room_name_def less_room_name_def intro: room_name.expand)
end

definition conversation_rank :: "conversation \<Rightarrow> (agent_id \<times> agent_id) + (origin \<times> room_name)" where
  "conversation_rank c =
     (case c of Direct p \<Rightarrow> Inl (pair_first p, pair_second p) | InRoom r \<Rightarrow> Inr (room_origin r, room_name r))"

lemma conversation_rank_inj: "conversation_rank a = conversation_rank b \<Longrightarrow> a = b"
  by (auto simp: conversation_rank_def split: conversation.splits intro: direct_pair.expand room_id.expand)

instantiation conversation :: linorder
begin
definition less_eq_conversation :: "conversation \<Rightarrow> conversation \<Rightarrow> bool" where
  "less_eq_conversation a b =
     (case (conversation_rank a, conversation_rank b) of
        (Inl p, Inl q) \<Rightarrow> p \<le> q | (Inl _, Inr _) \<Rightarrow> True | (Inr _, Inl _) \<Rightarrow> False | (Inr r, Inr s) \<Rightarrow> r \<le> s)"
definition less_conversation :: "conversation \<Rightarrow> conversation \<Rightarrow> bool" where
  "less_conversation a b = (a \<le> b \<and> \<not> b \<le> (a :: conversation))"
instance
proof
  fix a b c :: conversation
  show "a < b \<longleftrightarrow> a \<le> b \<and> \<not> b \<le> a" by (simp add: less_conversation_def)
  show "a \<le> a" by (auto simp: less_eq_conversation_def split: sum.splits)
  show "a \<le> b \<Longrightarrow> b \<le> c \<Longrightarrow> a \<le> c" by (auto simp: less_eq_conversation_def split: sum.splits)
  show "a \<le> b \<Longrightarrow> b \<le> a \<Longrightarrow> a = b"
    by (auto simp: less_eq_conversation_def split: sum.splits intro: conversation_rank_inj)
  show "a \<le> b \<or> b \<le> a" by (auto simp: less_eq_conversation_def split: sum.splits)
qed
end

section \<open>Single reads\<close>

datatype stored = StoredEvent event string | StoredCleaned u64 digest

definition view_stored ::
  "('t, 'n, 'p, 'b, 'j, 'z) store_lib_scheme \<Rightarrow> ('t, 'n, 'p, 'b) tables \<Rightarrow> event_id \<Rightarrow> ('j store_error, stored option) result" where
  "view_stored R db id' =
     (let key = event_key id' in
      case text_get R (db_events db) key of
        Some encoded \<Rightarrow>
          and_then (decode_record (lib_event R) encoded) (\<lambda>event.
            if ev_id event \<noteq> id' then Inl (ErrCorrupt ''event identity'')
            else Inr (Some (StoredEvent event encoded)))
      | None \<Rightarrow>
          (case tomb_get R (db_tombstones db) key of
             None \<Rightarrow> Inr None
           | Some (clock, digest) \<Rightarrow>
               if length digest \<noteq> 32 then Inl (ErrCorrupt ''tombstone'')
               else Inr (Some (StoredCleaned clock (Digest digest)))))"

definition view_event ::
  "('t, 'n, 'p, 'b, 'j, 'z) store_lib_scheme \<Rightarrow> ('t, 'n, 'p, 'b) tables \<Rightarrow> event_id \<Rightarrow> ('j store_error, event option) result" where
  "view_event R db id' =
     map_ok (\<lambda>stored. case stored of Some (StoredEvent event _) \<Rightarrow> Some event | _ \<Rightarrow> None) (view_stored R db id')"

definition view_cursor :: "('t, 'n, 'p, 'b, 'z) redb_scheme \<Rightarrow> ('t, 'n, 'p, 'b) tables \<Rightarrow> origin \<Rightarrow> cursor" where
  "view_cursor R db origin =
     (case pair_get R (db_cursors db) (origin_str origin) of
        Some (seen, clock) \<Rightarrow> \<lparr>cur_seen = seen, cur_clock = clock\<rparr> | None \<Rightarrow> cursor_default)"

definition view_resolution ::
  "('t, 'n, 'p, 'b, 'j, 'z) store_lib_scheme \<Rightarrow> ('t, 'n, 'p, 'b) tables \<Rightarrow> event_id \<Rightarrow> ('j store_error, resolution option) result" where
  "view_resolution R db request = get_json R (rec_decode (lib_resolution R)) (db_resolutions db) (event_key request)"

definition view_delivery ::
  "('t, 'n, 'p, 'b, 'j, 'z) store_lib_scheme \<Rightarrow> ('t, 'n, 'p, 'b) tables \<Rightarrow> agent_id \<Rightarrow> event_id \<Rightarrow> ('j store_error, delivery) result" where
  "view_delivery R db agent request =
     map_ok (\<lambda>d. case d of Some d \<Rightarrow> d | None \<Rightarrow> Pending)
       (get_json R (rec_decode (lib_delivery R)) (db_delivery db) (delivery_key agent request))"

definition view_activity ::
  "('t, 'n, 'p, 'b, 'j, 'z) store_lib_scheme \<Rightarrow> ('t, 'n, 'p, 'b) tables \<Rightarrow> agent_id \<Rightarrow> ('j store_error, activity option) result" where
  "view_activity R db agent = get_json R (rec_decode (lib_activity R)) (db_activity db) (agent_id_to_string agent)"

definition view_profile ::
  "('t, 'n, 'p, 'b, 'j, 'z) store_lib_scheme \<Rightarrow> ('t, 'n, 'p, 'b) tables \<Rightarrow> agent_id \<Rightarrow> ('j store_error, card option) result" where
  "view_profile R db agent = get_json R (rec_decode (lib_card R)) (db_profiles db) (agent_id_to_string agent)"

definition view_room ::
  "('t, 'n, 'p, 'b, 'j, 'z) store_lib_scheme \<Rightarrow> ('t, 'n, 'p, 'b) tables \<Rightarrow> room_id \<Rightarrow> ('j store_error, room option) result" where
  "view_room R db room = get_json R (rec_decode (lib_room R)) (db_rooms db) (room_key room)"

definition view_usage :: "('t, 'n, 'p, 'b, 'z) redb_scheme \<Rightarrow> ('t, 'n, 'p, 'b) tables \<Rightarrow> usage" where
  "view_usage R db =
     \<lparr>us_events = get_number R (db_counters db) ''events'', us_bytes = get_number R (db_counters db) ''bytes''\<rparr>"

section \<open>Rows\<close>

definition entries ::
  "('t, 'n, 'p, 'b, 'z) redb_scheme \<Rightarrow> (u8 list \<Rightarrow> ('j, 'x) result) \<Rightarrow> 't \<Rightarrow> ('j store_error, (string \<times> 'x) list) result" where
  "entries R dec table = traverse (\<lambda>(key, value). map_ok (Pair key) (decode_record dec value)) (text_rows R table)"

definition parse_entries ::
  "('t, 'n, 'p, 'b, 'z) redb_scheme \<Rightarrow> (string \<Rightarrow> (invalid, 'k) result) \<Rightarrow> (u8 list \<Rightarrow> ('j, 'x) result) \<Rightarrow> 't
     \<Rightarrow> ('j store_error, ('k \<times> 'x) list) result" where
  "parse_entries R key_from dec table =
     and_then (entries R dec table)
       (traverse (\<lambda>(key, value).
          map_err (\<lambda>_. ErrCorrupt ''stored chat key'') (map_ok (\<lambda>key. (key, value)) (key_from key))))"

definition view_rooms ::
  "('t, 'n, 'p, 'b, 'j, 'z) store_lib_scheme \<Rightarrow> ('t, 'n, 'p, 'b) tables \<Rightarrow> ('j store_error, (conversation \<times> room) list) result" where
  "view_rooms R db = parse_entries R conversation_try_from (rec_decode (lib_room R)) (db_rooms db)"

definition agent_config ::
  "('t, 'n, 'p, 'b, 'j, 'z) store_lib_scheme \<Rightarrow> ('t, 'n, 'p, 'b) tables \<Rightarrow> agent_name \<Rightarrow> ('j store_error, local_agent option) result" where
  "agent_config R db name = get_json R (rec_decode (lib_agent R)) (db_local_agents db) (agent_name_str name)"

definition local_agents ::
  "('t, 'n, 'p, 'b, 'j, 'z) store_lib_scheme \<Rightarrow> ('t, 'n, 'p, 'b) tables \<Rightarrow> ('j store_error, (agent_name \<times> local_agent) list) result" where
  "local_agents R db = parse_entries R agent_name_try_from (rec_decode (lib_agent R)) (db_local_agents db)"

definition open_asks ::
  "('t, 'n, 'p, 'b, 'z) redb_scheme \<Rightarrow> ('t, 'n, 'p, 'b) tables \<Rightarrow> ('j store_error, (event_id \<times> agent_id) list) result" where
  "open_asks R db =
     traverse (\<lambda>(request, responder).
       and_then (map_err ErrInvalid (event_id_try_from request)) (\<lambda>request.
       and_then (map_err ErrInvalid (agent_id_try_from responder)) (\<lambda>responder. Inr (request, responder))))
       (text_rows R (db_open db))"

definition event_at ::
  "('t, 'n, 'p, 'b, 'j, 'z) store_lib_scheme \<Rightarrow> ('t, 'n, 'p, 'b) tables \<Rightarrow> string \<Rightarrow> ('j store_error, event option) result" where
  "event_at R db id' = and_then (map_err ErrInvalid (event_id_try_from id')) (view_event R db)"

section \<open>Threads\<close>

text \<open>The loop of \<open>thread\<close>, from the last row back; the events found so far are in the order of the loop.\<close>

fun thread_loop ::
  "('t, 'n, 'p, 'b, 'j, 'z) store_lib_scheme \<Rightarrow> ('t, 'n, 'p, 'b) tables \<Rightarrow> nat \<Rightarrow> (string \<times> string) list \<Rightarrow> event list
     \<Rightarrow> ('j store_error, event list) result" where
  "thread_loop R db limit [] events = Inr events"
| "thread_loop R db limit ((_, id') # rows) events =
     (if length events \<ge> limit then Inr events
      else and_then (event_at R db id') (\<lambda>event.
        thread_loop R db limit rows (case event of Some event \<Rightarrow> events @ [event] | None \<Rightarrow> events)))"

definition view_thread ::
  "('t, 'n, 'p, 'b, 'j, 'z) store_lib_scheme \<Rightarrow> ('t, 'n, 'p, 'b) tables \<Rightarrow> conversation \<Rightarrow> nat \<Rightarrow> event option
     \<Rightarrow> ('j store_error, event list) result" where
  "view_thread R db conversation limit before =
     (let (first, last) = thread_bounds conversation;
          end = (case before of None \<Rightarrow> last | Some event \<Rightarrow> thread_key conversation (order_key event))
      in map_ok rev (thread_loop R db limit (rev (range_between R (db_threads db) first end)) []))"

definition conversations_of ::
  "('t, 'n, 'p, 'b, 'j, 'z) store_lib_scheme \<Rightarrow> ('t, 'n, 'p, 'b) tables \<Rightarrow> agent_id \<Rightarrow> ('j store_error, conversation list) result" where
  "conversations_of R db agent =
     (let prefix = agent_id_to_string agent @ [unit_separator];
          keys = map (\<lambda>(key, _). strip_prefix prefix key) (range_from R (db_joined db) prefix)
      in and_then (traverse (\<lambda>key. map_err ErrInvalid (conversation_try_from (the key)))
           (takeWhile (\<lambda>key. key \<noteq> None) keys)) (\<lambda>joined.
         and_then (view_rooms R db) (\<lambda>rooms.
           Inr (remdups_adj (sort
             (joined @ map fst (filter (\<lambda>(_, room). members_contains (room_members room) agent) rooms)))))))"

datatype inbox_mode = InboxAll | InboxUnread | InboxPending

record inbox_query =
  iq_after :: string
  iq_limit :: nat
  iq_mode :: inbox_mode

definition message_rows ::
  "('t, 'n, 'p, 'b, 'j, 'z) store_lib_scheme \<Rightarrow> ('t, 'n, 'p, 'b) tables \<Rightarrow> string \<Rightarrow> conversation
     \<Rightarrow> ('j store_error, (string \<times> string) list) result" where
  "message_rows R db after conversation =
     map_ok (filter (\<lambda>(order, _). order > after))
       (traverse (\<lambda>(key, id').
          map_ok (\<lambda>(_, order). (order, id')) (ok_or (ErrCorrupt ''thread key'') (rsplit_once unit_separator key)))
          (range_between R (db_threads db) (thread_key conversation after) (snd (thread_bounds conversation))))"

definition addressed :: "agent_id \<Rightarrow> event \<Rightarrow> bool" where
  "addressed agent event =
     (case ev_body event of
        Message _ _ _ _ _ _ notice \<Rightarrow>
          ev_author event \<noteq> Some agent \<and>
          (case notice of None \<Rightarrow> True | Some notice \<Rightarrow> members_contains (n_recipients notice) agent)
      | Resolved _ _ _ _ _ \<Rightarrow> ev_author event \<noteq> Some agent
      | _ \<Rightarrow> False)"

definition is_message :: "event \<Rightarrow> bool" where
  "is_message event = (case ev_body event of Message _ _ _ _ _ _ _ \<Rightarrow> True | _ \<Rightarrow> False)"

definition read_through :: "('t, 'n, 'p, 'b, 'z) redb_scheme \<Rightarrow> ('t, 'n, 'p, 'b) tables \<Rightarrow> agent_id \<Rightarrow> string" where
  "read_through R db agent =
     (case text_get R (db_reads db) (agent_id_to_string agent) of Some order \<Rightarrow> order | None \<Rightarrow> [])"

definition inbox_selected ::
  "('t, 'n, 'p, 'b, 'j, 'z) store_lib_scheme \<Rightarrow> ('t, 'n, 'p, 'b) tables \<Rightarrow> agent_id \<Rightarrow> inbox_mode \<Rightarrow> event
     \<Rightarrow> ('j store_error, bool) result" where
  "inbox_selected R db agent mode event =
     (case mode of
        InboxAll \<Rightarrow> Inr True
      | InboxUnread \<Rightarrow>
          if is_message event then map_ok (\<lambda>d. d < Read) (view_delivery R db agent (ev_id event))
          else Inr (order_key event > read_through R db agent)
      | InboxPending \<Rightarrow>
          if is_message event then map_ok (\<lambda>d. d = Pending) (view_delivery R db agent (ev_id event)) else Inr False)"

fun inbox_loop ::
  "('t, 'n, 'p, 'b, 'j, 'z) store_lib_scheme \<Rightarrow> ('t, 'n, 'p, 'b) tables \<Rightarrow> agent_id \<Rightarrow> inbox_query
     \<Rightarrow> (string \<times> string) list \<Rightarrow> event list \<Rightarrow> ('j store_error, event list) result" where
  "inbox_loop R db agent query [] events = Inr events"
| "inbox_loop R db agent query ((_, id') # rows) events =
     (if length events \<ge> iq_limit query then Inr events
      else and_then (event_at R db id') (\<lambda>event.
        case event of
          None \<Rightarrow> inbox_loop R db agent query rows events
        | Some event \<Rightarrow>
            and_then (inbox_selected R db agent (iq_mode query) event) (\<lambda>selected.
              inbox_loop R db agent query rows
                (if addressed agent event \<and> selected then events @ [event] else events))))"

definition find_messages ::
  "('t, 'n, 'p, 'b, 'j, 'z) store_lib_scheme \<Rightarrow> ('t, 'n, 'p, 'b) tables \<Rightarrow> agent_id \<Rightarrow> inbox_query
     \<Rightarrow> ('j store_error, event list) result" where
  "find_messages R db agent query =
     and_then (conversations_of R db agent) (\<lambda>conversations.
     and_then (traverse (message_rows R db (iq_after query)) conversations) (\<lambda>found.
       inbox_loop R db agent query (sort (concat found)) []))"

definition view_inbox ::
  "('t, 'n, 'p, 'b, 'j, 'z) store_lib_scheme \<Rightarrow> ('t, 'n, 'p, 'b) tables \<Rightarrow> agent_id \<Rightarrow> string \<Rightarrow> nat
     \<Rightarrow> ('j store_error, event list) result" where
  "view_inbox R db agent after limit =
     find_messages R db agent \<lparr>iq_after = after, iq_limit = limit, iq_mode = InboxAll\<rparr>"

definition selected_inbox ::
  "('t, 'n, 'p, 'b, 'j, 'z) store_lib_scheme \<Rightarrow> ('t, 'n, 'p, 'b) tables \<Rightarrow> agent_id \<Rightarrow> nat \<Rightarrow> inbox_mode
     \<Rightarrow> ('j store_error, event list) result" where
  "selected_inbox R db agent limit mode =
     find_messages R db agent \<lparr>iq_after = [], iq_limit = limit, iq_mode = mode\<rparr>"

definition view_unread ::
  "('t, 'n, 'p, 'b, 'j, 'z) store_lib_scheme \<Rightarrow> ('t, 'n, 'p, 'b) tables \<Rightarrow> agent_id \<Rightarrow> nat \<Rightarrow> ('j store_error, event list) result" where
  "view_unread R db agent limit = selected_inbox R db agent limit InboxUnread"

definition view_pending ::
  "('t, 'n, 'p, 'b, 'j, 'z) store_lib_scheme \<Rightarrow> ('t, 'n, 'p, 'b) tables \<Rightarrow> agent_id \<Rightarrow> nat \<Rightarrow> ('j store_error, event list) result" where
  "view_pending R db agent limit = selected_inbox R db agent limit InboxPending"

section \<open>The directory\<close>

record presence =
  pr_queued :: nat
  pr_working_on :: "event_id option"
  pr_online :: bool
  pr_state :: activity_kind
  pr_latest_call :: "stamp option"
  pr_status :: "line option"

definition presence_default :: presence where
  "presence_default =
     \<lparr>pr_queued = 0, pr_working_on = None, pr_online = False, pr_state = ActStalled, pr_latest_call = None,
      pr_status = None\<rparr>"

record directory =
  dir_agents :: "(agent_id \<times> card \<times> presence) list"
  dir_machines :: "(origin \<times> machine_card) list"

text \<open>The presence of an agent from its last activity, at the time \<open>now\<close>.\<close>

definition presence_of :: "activity option \<Rightarrow> stamp \<Rightarrow> presence" where
  "presence_of current now =
     (let state = (case current of
            None \<Rightarrow> ActStalled
          | Some activity \<Rightarrow>
              activity_state (act_state activity) (stamp_millis (act_at activity)) (stamp_millis now) STALLED_MILLIS)
      in presence_default\<lparr>pr_online := (state \<noteq> ActStalled), pr_state := state,
           pr_latest_call := map_option act_at current, pr_status := Option.bind current act_status\<rparr>)"

text \<open>\<open>get_mut\<close> on the agents, and the change of the presence found.\<close>

definition update_presence ::
  "(presence \<Rightarrow> presence) \<Rightarrow> agent_id \<Rightarrow> (agent_id \<times> card \<times> presence) list \<Rightarrow> (agent_id \<times> card \<times> presence) list" where
  "update_presence f agent agents =
     map (\<lambda>(known, c, presence). (known, c, if known = agent then f presence else presence)) agents"

fun started_loop ::
  "(string \<times> string) list \<Rightarrow> (agent_id \<times> card \<times> presence) list
     \<Rightarrow> ('j store_error, (agent_id \<times> card \<times> presence) list) result" where
  "started_loop [] agents = Inr agents"
| "started_loop ((request, agent) # rows) agents =
     and_then (map_err ErrInvalid (agent_id_try_from agent)) (\<lambda>agent.
       if agent \<notin> fst ` set agents then started_loop rows agents
       else
         and_then (map_err ErrInvalid (event_id_try_from request)) (\<lambda>request.
           started_loop rows (update_presence (\<lambda>p. p\<lparr>pr_working_on := Some request\<rparr>) agent agents)))"

definition view_directory ::
  "('t, 'n, 'p, 'b, 'j, 'z) store_lib_scheme \<Rightarrow> ('t, 'n, 'p, 'b) tables \<Rightarrow> stamp \<Rightarrow> ('j store_error, directory) result" where
  "view_directory R db now =
     and_then (parse_entries R agent_id_try_from (rec_decode (lib_card R)) (db_profiles db)) (\<lambda>profiles.
     and_then (traverse (\<lambda>(agent, c).
       map_ok (\<lambda>current. (agent, (c, presence_of current now))) (view_activity R db agent)) profiles) (\<lambda>agents.
     and_then (open_asks R db) (\<lambda>asks.
     let queued = fold (\<lambda>(_, responder). update_presence (\<lambda>p. p\<lparr>pr_queued := usize_add (pr_queued p) 1\<rparr>) responder)
           asks (btree_collect agents) in
     and_then (started_loop (text_rows R (db_started db)) queued) (\<lambda>working.
     and_then (parse_entries R origin_try_from (rec_decode (lib_machine R)) (db_machines db)) (\<lambda>machines.
       Inr \<lparr>dir_agents = working, dir_machines = btree_collect machines\<rparr>)))))"

end
