(* ===== verification/Store_Tx.thy ===== *)
theory Store_Tx
  imports Store_Views Chat_Exchange
begin

text \<open>
  The write transaction of the chat store (\<open>chat/store/tx.rs\<close>, the recording half of
  \<open>chat/store/handoff.rs\<close>, and \<open>chat/store.rs\<close>): how an admitted event is written to the tables, the
  transaction as an implementation of the traits \<open>Ledger\<close> and \<open>Outbox\<close> (\<open>store_ops\<close>), and the store's
  \<open>read\<close> and \<open>write\<close>, which open a transaction, check the identity of the store and commit.
\<close>

record ('t, 'n, 'p, 'b) tx =
  tx_db :: "('t, 'n, 'p, 'b) tables"
  tx_origin :: origin
  tx_appended :: bool

definition tx_new :: "('t, 'n, 'p, 'b) tables \<Rightarrow> origin \<Rightarrow> ('t, 'n, 'p, 'b) tx" where
  "tx_new db origin = \<lparr>tx_db = db, tx_origin = origin, tx_appended = False\<rparr>"

definition tx_generation :: "('t, 'n, 'p, 'b, 'z) redb_scheme \<Rightarrow> ('t, 'n, 'p, 'b) tx \<Rightarrow> u64" where
  "tx_generation R t = get_number R (db_counters (tx_db t)) ''generation''"

text \<open>A function on the tables as a function on the transaction.\<close>

definition on_db ::
  "(('t, 'n, 'p, 'b) tables \<Rightarrow> ('t, 'n, 'p, 'b) tables \<times> ('e, 'a) result)
     \<Rightarrow> ('t, 'n, 'p, 'b) tx \<Rightarrow> ('t, 'n, 'p, 'b) tx \<times> ('e, 'a) result" where
  "on_db f t = (let (db, r) = f (tx_db t) in (t\<lparr>tx_db := db\<rparr>, r))"

section \<open>Recording an event\<close>

definition bump ::
  "('t, 'n, 'p, 'b, 'z) redb_scheme \<Rightarrow> string \<Rightarrow> u64 \<Rightarrow> ('t, 'n, 'p, 'b) tables
     \<Rightarrow> ('t, 'n, 'p, 'b) tables \<times> ('j store_error, u64) result" where
  "bump R key amount db =
     (case checked_add (get_number R (db_counters db) key) amount of
        None \<Rightarrow> (db, Inl (ErrCorrupt ''chat counter overflow''))
      | Some value \<Rightarrow> (db\<lparr>db_counters := num_insert R (db_counters db) key value\<rparr>, Inr value))"

definition handoff_prefix :: "agent_id \<Rightarrow> project \<Rightarrow> scope \<Rightarrow> string" where
  "handoff_prefix reader project scope =
     agent_id_to_string reader @ unit_separator # line_str (project_line project) @ unit_separator # line_str (scope_line scope) @ [unit_separator]"

definition handoff_record ::
  "('t, 'n, 'p, 'b, 'j, 'z) store_lib_scheme \<Rightarrow> event \<Rightarrow> ('t, 'n, 'p, 'b) tables
     \<Rightarrow> ('t, 'n, 'p, 'b) tables \<times> ('j store_error, unit) result" where
  "handoff_record R event db =
     (case ev_body event of
        Handoff metadata text _ \<Rightarrow>
          (case and_then (map_err ErrInvalid (descriptor_new (ev_id event) metadata text))
                  (encode_record (rec_encode (lib_descriptor R))) of
             Inl e \<Rightarrow> (db, Inl e)
           | Inr encoded \<Rightarrow>
               (let id' = event_key (ev_id event)
                in (db\<lparr>db_handoff_headers := text_insert R (db_handoff_headers db) id' encoded,
                       db_handoff_readers :=
                         fold (\<lambda>reader table.
                           text_insert R table
                             (handoff_prefix reader (md_project metadata) (md_scope metadata) @ order_key event) id')
                           (members_agents (md_permitted_readers metadata)) (db_handoff_readers db)\<rparr>, Inr ())))
      | _ \<Rightarrow> (db, Inr ()))"

definition record_read ::
  "('t, 'n, 'p, 'b, 'z) redb_scheme \<Rightarrow> agent_id \<Rightarrow> event_id \<Rightarrow> event_id \<Rightarrow> ('t, 'n, 'p, 'b) tables \<Rightarrow> ('t, 'n, 'p, 'b) tables" where
  "record_read R actor handoff observation db =
     db\<lparr>db_handoff_reads := text_insert R (db_handoff_reads db) (delivery_key actor handoff) (event_key observation)\<rparr>"

definition join_agents ::
  "('t, 'n, 'p, 'b, 'z) redb_scheme \<Rightarrow> conversation \<Rightarrow> agent_id list \<Rightarrow> ('t, 'n, 'p, 'b) tables \<Rightarrow> ('t, 'n, 'p, 'b) tables" where
  "join_agents R conversation agents db =
     db\<lparr>db_joined := fold (\<lambda>agent table. text_insert R table (joined_key agent conversation) []) agents (db_joined db)\<rparr>"

definition record_thread ::
  "('t, 'n, 'p, 'b, 'z) redb_scheme \<Rightarrow> event \<Rightarrow> ('t, 'n, 'p, 'b) tables \<Rightarrow> ('t, 'n, 'p, 'b) tables" where
  "record_thread R event db =
     (case body_conversation (ev_body event) of
        None \<Rightarrow> db
      | Some conversation \<Rightarrow>
          (let db = db\<lparr>db_threads := text_insert R (db_threads db)
                        (thread_key conversation (order_key event)) (event_key (ev_id event))\<rparr>
           in case conversation of
                Direct pair \<Rightarrow> join_agents R conversation [pair_first pair, pair_second pair] db
              | InRoom _ \<Rightarrow> db))"

definition record_notice ::
  "('t, 'n, 'p, 'b, 'z) redb_scheme \<Rightarrow> event \<Rightarrow> ('t, 'n, 'p, 'b) tables \<Rightarrow> ('t, 'n, 'p, 'b) tables" where
  "record_notice R event db =
     (case ev_body event of
        Message conversation _ _ _ _ _ (Some notice) \<Rightarrow>
          (let agents = members_agents (n_recipients notice);
               db = join_agents R conversation agents db
           in if n_urgent notice
              then db\<lparr>db_urgent := fold (\<lambda>agent table.
                     text_insert R table (delivery_key agent (ev_id event)) (event_key (ev_id event))) agents (db_urgent db)\<rparr>
              else db)
      | _ \<Rightarrow> db)"

definition upsert ::
  "('t, 'n, 'p, 'b, 'z) redb_scheme \<Rightarrow> ('x \<Rightarrow> ('j, string) result) \<Rightarrow> string \<Rightarrow> 'x option \<Rightarrow> 't
     \<Rightarrow> 't \<times> ('j store_error, unit) result" where
  "upsert R enc key value table =
     (case value of
        Some value \<Rightarrow>
          (case encode_record enc value of
             Inl e \<Rightarrow> (table, Inl e)
           | Inr text \<Rightarrow> (text_insert R table key text, Inr ()))
      | None \<Rightarrow> (text_remove R table key, Inr ()))"

definition record_receipt ::
  "('t, 'n, 'p, 'b, 'j, 'z) store_lib_scheme \<Rightarrow> agent_id \<Rightarrow> event_id \<Rightarrow> delivery \<Rightarrow> ('t, 'n, 'p, 'b) tables
     \<Rightarrow> ('t, 'n, 'p, 'b) tables \<times> ('j store_error, unit) result" where
  "record_receipt R agent request received db =
     (case view_delivery R db agent request of
        Inl e \<Rightarrow> (db, Inl e)
      | Inr current \<Rightarrow>
          (let delivery = observe current received; key = delivery_key agent request
           in case upsert R (rec_encode (lib_delivery R)) key (Some delivery) (db_delivery db) of
                (table, Inl e) \<Rightarrow> (db\<lparr>db_delivery := table\<rparr>, Inl e)
              | (table, Inr _) \<Rightarrow>
                  (let db = db\<lparr>db_delivery := table\<rparr>
                   in (if delivery = Acknowledged then db\<lparr>db_urgent := text_remove R (db_urgent db) key\<rparr> else db, Inr ()))))"

text \<open>A reply by an addressed agent acknowledges the message it answers.\<close>

definition reply_addressed :: "agent_id \<Rightarrow> event \<Rightarrow> bool" where
  "reply_addressed author parent =
     (case ev_body parent of
        Message _ _ _ _ _ _ notice \<Rightarrow>
          ev_author parent \<noteq> Some author \<and>
          (case notice of None \<Rightarrow> True | Some notice \<Rightarrow> members_contains (n_recipients notice) author)
      | _ \<Rightarrow> False)"

definition record_reply ::
  "('t, 'n, 'p, 'b, 'j, 'z) store_lib_scheme \<Rightarrow> event \<Rightarrow> ('t, 'n, 'p, 'b) tables
     \<Rightarrow> ('t, 'n, 'p, 'b) tables \<times> ('j store_error, unit) result" where
  "record_reply R event db =
     (case ev_body event of
        Message _ _ _ _ (Reply request) _ _ \<Rightarrow>
          (case view_event R db request of
             Inl e \<Rightarrow> (db, Inl e)
           | Inr parent \<Rightarrow>
               (case (ev_author event, parent) of
                  (Some author, Some parent) \<Rightarrow>
                    if reply_addressed author parent then record_receipt R author request Acknowledged db
                    else (db, Inr ())
                | _ \<Rightarrow> (db, Inr ())))
      | _ \<Rightarrow> (db, Inr ()))"

definition record_cursor ::
  "('t, 'n, 'p, 'b, 'z) redb_scheme \<Rightarrow> event \<Rightarrow> cursor \<Rightarrow> ('t, 'n, 'p, 'b) tables \<Rightarrow> ('t, 'n, 'p, 'b) tables" where
  "record_cursor R event cursor db =
     (let clock = max (get_number R (db_counters db) ''clock'') (ev_clock event)
      in db\<lparr>db_cursors := pair_insert R (db_cursors db) (origin_str (ev_origin event)) (cur_seen cursor, cur_clock cursor),
            db_counters := num_insert R (db_counters db) ''clock'' clock\<rparr>)"

definition record_size ::
  "('t, 'n, 'p, 'b, 'z) redb_scheme \<Rightarrow> sealed \<Rightarrow> ('t, 'n, 'p, 'b) tables \<Rightarrow> ('t, 'n, 'p, 'b) tables \<times> ('j store_error, unit) result" where
  "record_size R sealed =
     tx_then (bump R ''events'' 1) (\<lambda>_.
     tx_then
       (if length (sealed_encoded sealed) < 2 ^ 64
        then bump R ''bytes'' (word_of_nat (length (sealed_encoded sealed)))
        else tx_read (\<lambda>_. Inl (ErrCorrupt ''event size''))) (\<lambda>_.
     tx_then (bump R ''generation'' 1) (\<lambda>_. tx_update id)))"

definition record_event ::
  "('t, 'n, 'p, 'b, 'j, 'z) store_lib_scheme \<Rightarrow> sealed \<Rightarrow> cursor \<Rightarrow> ('t, 'n, 'p, 'b) tables
     \<Rightarrow> ('t, 'n, 'p, 'b) tables \<times> ('j store_error, unit) result" where
  "record_event R sealed cursor =
     (let event = sealed_event sealed; id' = event_key (ev_id event) in
      tx_then (handoff_record R event) (\<lambda>_.
      tx_then (tx_update (\<lambda>db.
        db\<lparr>db_events := text_insert R (db_events db) id' (sealed_encoded sealed),
           db_order := text_insert R (db_order db) (order_key event) id'\<rparr>)) (\<lambda>_.
      tx_then (tx_update (record_thread R event)) (\<lambda>_.
      tx_then (tx_update (record_notice R event)) (\<lambda>_.
      tx_then (record_reply R event) (\<lambda>_.
      tx_then (tx_update (record_cursor R event cursor)) (\<lambda>_.
      record_size R sealed)))))))"

definition project_change ::
  "('t, 'n, 'p, 'b, 'j, 'z) store_lib_scheme \<Rightarrow> event \<Rightarrow> view_change \<Rightarrow> ('t, 'n, 'p, 'b) tables
     \<Rightarrow> ('t, 'n, 'p, 'b) tables \<times> ('j store_error, unit) result" where
  "project_change R event ch db =
     (case ch of
        ChNothing \<Rightarrow> (db, Inr ())
      | ChProfile agent c \<Rightarrow>
          (let (table, r) = upsert R (rec_encode (lib_card R)) (agent_id_to_string agent) c (db_profiles db)
           in (db\<lparr>db_profiles := table\<rparr>, r))
      | ChMachine c \<Rightarrow>
          (let (table, r) = upsert R (rec_encode (lib_machine R)) (origin_str (ev_origin event)) (Some c) (db_machines db)
           in (db\<lparr>db_machines := table\<rparr>, r))
      | ChRoom id' room \<Rightarrow>
          (let (table, r) = upsert R (rec_encode (lib_room R)) (room_key id') room (db_rooms db)
           in (db\<lparr>db_rooms := table\<rparr>, r))
      | ChAsk responder \<Rightarrow>
          (db\<lparr>db_open := text_insert R (db_open db) (event_key (ev_id event)) (agent_id_to_string responder)\<rparr>, Inr ())
      | ChStarted request agent \<Rightarrow>
          (db\<lparr>db_started := text_insert R (db_started db) (event_key request) (agent_id_to_string agent)\<rparr>, Inr ())
      | ChResolution request resolution wins \<Rightarrow>
          if \<not> wins then (db, Inr ())
          else
            (let key = event_key request in
             case upsert R (rec_encode (lib_resolution R)) key (Some resolution) (db_resolutions db) of
               (table, Inl e) \<Rightarrow> (db\<lparr>db_resolutions := table\<rparr>, Inl e)
             | (table, Inr _) \<Rightarrow>
                 (db\<lparr>db_resolutions := table, db_open := text_remove R (db_open db) key,
                     db_started := text_remove R (db_started db) key\<rparr>, Inr ()))
      | ChReceipt request agent delivery \<Rightarrow> record_receipt R agent request delivery db
      | ChActivity agent activity \<Rightarrow>
          (let (table, r) = upsert R (rec_encode (lib_activity R)) (agent_id_to_string agent) (Some activity) (db_activity db)
           in (db\<lparr>db_activity := table\<rparr>, r))
      | ChHandoffRead request agent \<Rightarrow> (record_read R agent request (ev_id event) db, Inr ()))"

section \<open>The transaction as a ledger and an outbox\<close>

definition store_commit ::
  "('t, 'n, 'p, 'b, 'j, 'z) store_lib_scheme \<Rightarrow> ('t, 'n, 'p, 'b) tx \<Rightarrow> sealed \<Rightarrow> admitted
     \<Rightarrow> ('t, 'n, 'p, 'b) tx \<times> ('j store_error, unit) result" where
  "store_commit R t sealed admitted =
     tx_then (on_db (record_event R sealed (adm_cursor admitted))) (\<lambda>_.
     tx_then (on_db (project_change R (sealed_event sealed) (adm_change admitted))) (\<lambda>_.
     tx_update (\<lambda>t. t\<lparr>tx_appended := True\<rparr>))) t"

definition store_digest ::
  "('t, 'n, 'p, 'b, 'j, 'z) store_lib_scheme \<Rightarrow> ('t, 'n, 'p, 'b) tx \<Rightarrow> event_id \<Rightarrow> ('j store_error, digest option) result" where
  "store_digest R t id' =
     map_ok (map_option (\<lambda>stored.
       case stored of StoredEvent _ encoded \<Rightarrow> codec_hash (lib_codec R) encoded | StoredCleaned _ digest \<Rightarrow> digest))
       (view_stored R (tx_db t) id')"

definition store_parent ::
  "('t, 'n, 'p, 'b, 'j, 'z) store_lib_scheme \<Rightarrow> ('t, 'n, 'p, 'b) tx \<Rightarrow> event_id \<Rightarrow> ('j store_error, parent) result" where
  "store_parent R t id' =
     map_ok (\<lambda>stored.
       case stored of
         Some (StoredEvent event _) \<Rightarrow> if ev_body event \<noteq> Omitted then Present event else Opaque
       | Some (StoredCleaned _ _) \<Rightarrow> Opaque
       | None \<Rightarrow> Missing) (view_stored R (tx_db t) id')"

text \<open>
  The loop of \<open>outgoing\<close>, from the last sequence number handled. Every turn advances it, up to the
  number of own events.
\<close>

function outgoing_loop ::
  "('t, 'n, 'p, 'b, 'j, 'z) store_lib_scheme \<Rightarrow> ('t, 'n, 'p, 'b) tx \<Rightarrow> origin \<Rightarrow> u64 \<Rightarrow> u64 \<Rightarrow> outgoing_batch
     \<Rightarrow> outgoing_batch \<times> ('j store_error, unit) result" where
  "outgoing_loop R t peer seen seq batch =
     (if \<not> seq < seen then (batch, Inr ())
      else case checked_add seq 1 of
        None \<Rightarrow> (batch, Inl (ErrCorrupt ''sequence overflow''))
      | Some seq' \<Rightarrow>
          if seq' = 0 then (batch, Inl (ErrCorrupt ''zero sequence''))
          else
            (let id' = EventId (tx_origin t) seq' in
             case view_stored R (tx_db t) id' of
               Inl e \<Rightarrow> (batch, Inl e)
             | Inr None \<Rightarrow> (batch, Inl (ErrCorrupt ''local sequence has a gap''))
             | Inr (Some stored) \<Rightarrow>
                 (case (case stored of
                          StoredEvent event _ \<Rightarrow> offer_event (lib_codec R) batch event peer
                        | StoredCleaned clock _ \<Rightarrow>
                            (case and_then (event_new id' clock Omitted) (sealed_new (lib_codec R)) of
                               Inl i \<Rightarrow> (batch, Inl i)
                             | Inr sealed \<Rightarrow> (let (batch', taken) = outgoing_offer batch sealed in (batch', Inr taken)))) of
                    (batch', Inl i) \<Rightarrow> (batch', Inl (ErrInvalid i))
                  | (batch', Inr True) \<Rightarrow> outgoing_loop R t peer seen seq' batch'
                  | (batch', Inr False) \<Rightarrow> (batch', Inr ()))))"
  by pat_completeness auto

termination
  by (relation "measure (\<lambda>(R, t, peer, seen, seq, batch). unat seen - unat seq)")
    (auto simp: checked_succ unat_succ word_less_nat_alt split: if_splits)

declare outgoing_loop.simps [simp del]

definition store_record_ack ::
  "('t, 'n, 'p, 'b, 'z) redb_scheme \<Rightarrow> ('t, 'n, 'p, 'b) tx \<Rightarrow> origin \<Rightarrow> u64 \<Rightarrow> ('t, 'n, 'p, 'b) tx" where
  "store_record_ack R t peer seen =
     (let db = tx_db t;
          own = cur_seen (view_cursor R db (tx_origin t));
          current = get_number R (db_acks db) (origin_str peer);
          new = max current (min seen own)
      in if new \<noteq> current then t\<lparr>tx_db := db\<lparr>db_acks := num_insert R (db_acks db) (origin_str peer) new\<rparr>\<rparr> else t)"

definition store_ops ::
  "('t, 'n, 'p, 'b, 'j, 'z) store_lib_scheme \<Rightarrow> (('t, 'n, 'p, 'b) tx, 'j store_error) outbox_ops" where
  "store_ops R =
     \<lparr>l_local = tx_origin,
      l_cursor = (\<lambda>t origin. Inr (view_cursor R (tx_db t) origin)),
      l_digest = store_digest R,
      l_parent = store_parent R,
      l_resolution = (\<lambda>t. view_resolution R (tx_db t)),
      l_clock = (\<lambda>t. Inr (get_number R (db_counters (tx_db t)) ''clock'')),
      l_has_room = (\<lambda>t. Inr (fits_received (view_usage R (tx_db t)))),
      l_commit = store_commit R,
      o_outgoing = (\<lambda>t peer after batch.
        outgoing_loop R t peer (cur_seen (view_cursor R (tx_db t) (tx_origin t))) after batch),
      o_ack = (\<lambda>t peer. Inr (get_number R (db_acks (tx_db t)) (origin_str peer))),
      o_record_ack = (\<lambda>t peer seen. (store_record_ack R t peer seen, Inr ()))\<rparr>"

definition author ::
  "('t, 'n, 'p, 'b, 'j, 'z) store_lib_scheme \<Rightarrow> priority \<Rightarrow> body \<Rightarrow> ('t, 'n, 'p, 'b) tx
     \<Rightarrow> ('t, 'n, 'p, 'b) tx \<times> ('j store_error, event) result" where
  "author R priority body t =
     (case check_capacity (view_usage R (tx_db t)) priority of
        Inl refusal \<Rightarrow> (t, Inl (ErrRefused refusal))
      | Inr _ \<Rightarrow>
          (let (t', r) = append_event (lib_codec R) (store_ops R) t body in (t', map_err error_from r)))"

section \<open>The store\<close>

text \<open>\<open>formats.rs\<close>: the identities of the formats are hashes of files, and an argument here.\<close>

record formats =
  fmt_chat :: string
  fmt_previous :: string
  fmt_legacy :: string

definition compatible_chat :: "formats \<Rightarrow> string \<Rightarrow> bool" where
  "compatible_chat F format = (format = fmt_chat F \<or> format = fmt_previous F \<or> format = fmt_legacy F)"

text \<open>
  \<open>initialize\<close> opens the tables of \<open>database\<close>, or creates them when there are none; \<open>fresh\<close> is the
  result of \<open>new_origin\<close>. With an error nothing is committed.
\<close>

definition initialize ::
  "('t, 'n, 'p, 'b, 'z) redb_scheme \<Rightarrow> formats \<Rightarrow> origin \<Rightarrow> ('t, 'n, 'p, 'b) tables option
     \<Rightarrow> ('t, 'n, 'p, 'b) tables option \<times> ('j store_error, origin) result" where
  "initialize R F fresh database =
     (let db = (case database of None \<Rightarrow> create_all R | Some db \<Rightarrow> db);
          meta = db_meta db;
          known = (text_get R meta ''origin'' \<noteq> None)
      in case (case text_get R meta ''format'' of
                 Some found \<Rightarrow>
                   if \<not> compatible_chat F found then Inl (ErrFormat found)
                   else if found \<noteq> fmt_chat F then Inr (text_insert R meta ''format'' (fmt_chat F))
                   else Inr meta
               | None \<Rightarrow>
                   if known then Inl (ErrFormat ''unrecorded'')
                   else Inr (text_insert R meta ''format'' (fmt_chat F))) of
           Inl e \<Rightarrow> (database, Inl e)
         | Inr meta \<Rightarrow>
             (case text_get R meta ''origin'' of
                Some text \<Rightarrow>
                  (case origin_try_from text of
                     Inl i \<Rightarrow> (database, Inl (ErrInvalid i))
                   | Inr origin \<Rightarrow> (Some (db\<lparr>db_meta := meta\<rparr>), Inr origin))
              | None \<Rightarrow>
                  (Some (db\<lparr>db_meta := text_insert R meta ''origin'' (origin_str fresh)\<rparr>), Inr fresh)))"

definition verify ::
  "('t, 'n, 'p, 'b, 'z) redb_scheme \<Rightarrow> origin \<Rightarrow> ('t, 'n, 'p, 'b) tables \<Rightarrow> ('j store_error, unit) result" where
  "verify R origin db =
     (if text_get R (db_meta db) ''origin'' \<noteq> Some (origin_str origin) then Inl ErrIdentityChanged else Inr ())"

definition store_read ::
  "('t, 'n, 'p, 'b, 'z) redb_scheme \<Rightarrow> origin \<Rightarrow> (('t, 'n, 'p, 'b) tables \<Rightarrow> ('j store_error, 'a) result)
     \<Rightarrow> ('t, 'n, 'p, 'b) tables \<Rightarrow> ('j store_error, 'a) result" where
  "store_read R origin work db = and_then (verify R origin db) (\<lambda>_. work db)"

text \<open>
  \<open>Store::write\<close>: with an error nothing is committed. Beside the value it gives the generation that
  is rung when an event was appended; ringing is a write to a file the model does not have.
\<close>

definition store_write ::
  "('t, 'n, 'p, 'b, 'z) redb_scheme \<Rightarrow> origin
     \<Rightarrow> (('t, 'n, 'p, 'b) tx \<Rightarrow> ('t, 'n, 'p, 'b) tx \<times> ('j store_error, 'a) result)
     \<Rightarrow> ('t, 'n, 'p, 'b) tables \<Rightarrow> ('t, 'n, 'p, 'b) tables \<times> ('j store_error, 'a \<times> u64 option) result" where
  "store_write R origin work db =
     (case verify R origin db of
        Inl e \<Rightarrow> (db, Inl e)
      | Inr _ \<Rightarrow>
          (case work (tx_new db origin) of
             (_, Inl e) \<Rightarrow> (db, Inl e)
           | (t, Inr value) \<Rightarrow>
               (tx_db t, Inr (value, if tx_appended t then Some (tx_generation R t) else None))))"

definition store_offer ::
  "('t, 'n, 'p, 'b, 'j, 'z) store_lib_scheme \<Rightarrow> origin \<Rightarrow> origin \<Rightarrow> ('t, 'n, 'p, 'b) tables
     \<Rightarrow> ('t, 'n, 'p, 'b) tables \<times> ('j store_error, (rejection, offer) result \<times> u64 option) result" where
  "store_offer R origin peer = store_write R origin (\<lambda>t. (t, offer (store_ops R) t peer))"

definition store_respond ::
  "('t, 'n, 'p, 'b, 'j, 'z) store_lib_scheme \<Rightarrow> origin \<Rightarrow> offer \<Rightarrow> ('t, 'n, 'p, 'b) tables
     \<Rightarrow> ('t, 'n, 'p, 'b) tables \<times> ('j store_error, (rejection, answer) result \<times> u64 option) result" where
  "store_respond R origin off = store_write R origin (\<lambda>t. respond (lib_codec R) (store_ops R) t off)"

definition store_accept ::
  "('t, 'n, 'p, 'b, 'j, 'z) store_lib_scheme \<Rightarrow> origin \<Rightarrow> offer \<Rightarrow> answer \<Rightarrow> ('t, 'n, 'p, 'b) tables
     \<Rightarrow> ('t, 'n, 'p, 'b) tables \<times> ('j store_error, (rejection, progress) result \<times> u64 option) result" where
  "store_accept R origin off ans = store_write R origin (\<lambda>t. accept (lib_codec R) (store_ops R) t off ans)"

definition local_seen ::
  "('t, 'n, 'p, 'b, 'z) redb_scheme \<Rightarrow> origin \<Rightarrow> ('t, 'n, 'p, 'b) tables \<Rightarrow> ('j store_error, u64) result" where
  "local_seen R origin = store_read R origin (\<lambda>db. Inr (cur_seen (view_cursor R db origin)))"

end
