(* ===== verification/Store_Ops.thy ===== *)
theory Store_Ops
  imports Store_Tx
begin

text \<open>
  The operations of the chat store on top of a transaction: the turns of a managed agent
  (\<open>chat/store/turns.rs\<close>), receipts and escalations (\<open>chat/store/notifications.rs\<close>), the reading of
  handoffs (\<open>chat/store/handoff.rs\<close>), and peers, cleaning and local settings (\<open>chat/store/admin.rs\<close>).
  The time the platform's clock gives is an argument of the operations that ask for it.
\<close>

section \<open>Turns\<close>

record turn =
  turn_request :: event
  turn_agent :: agent_id
  turn_card :: card
  turn_config :: local_agent

datatype completion = CompletionAnswered msg_text string | CompletionFailed

definition ending_body :: "event \<Rightarrow> agent_id \<Rightarrow> outcome \<Rightarrow> ('j store_error, body) result" where
  "ending_body request agent outcome =
     map_ok (\<lambda>(conversation, audience). Resolved (ev_id request) conversation audience (agent_name agent) outcome)
       (ok_or (ErrCorrupt ''an ask is a message'') (body_thread (ev_body request)))"

definition worker_activity ::
  "('t, 'n, 'p, 'b, 'j, 'z) store_lib_scheme \<Rightarrow> stamp \<Rightarrow> agent_id \<Rightarrow> activity_kind \<Rightarrow> ('t, 'n, 'p, 'b) tx
     \<Rightarrow> ('t, 'n, 'p, 'b) tx \<times> ('j store_error, unit) result" where
  "worker_activity R now agent state =
     tx_then (tx_read (\<lambda>t. view_activity R (tx_db t) agent)) (\<lambda>current.
     tx_then (tx_read (\<lambda>t. view_profile R (tx_db t) agent)) (\<lambda>profile.
       let status = (case Option.bind current act_status of
             Some status \<Rightarrow> Some status | None \<Rightarrow> Option.bind profile card_status) in
       tx_then (author R Ending
           (Activity (agent_name agent) \<lparr>act_state = state, act_at = now, act_status = status\<rparr>))
         (\<lambda>_. tx_update id)))"

definition tx_end ::
  "('t, 'n, 'p, 'b, 'j, 'z) store_lib_scheme \<Rightarrow> event \<Rightarrow> agent_id \<Rightarrow> outcome \<Rightarrow> ('t, 'n, 'p, 'b) tx
     \<Rightarrow> ('t, 'n, 'p, 'b) tx \<times> ('j store_error, unit) result" where
  "tx_end R request agent outcome =
     tx_then (tx_read (\<lambda>t. view_resolution R (tx_db t) (ev_id request))) (\<lambda>known.
       if known \<noteq> None then tx_update id
       else
         tx_then (tx_read (\<lambda>_. ending_body request agent outcome)) (\<lambda>body.
         tx_then (author R Ending body) (\<lambda>_. tx_update id)))"

definition open_for ::
  "('t, 'n, 'p, 'b, 'j, 'z) store_lib_scheme \<Rightarrow> ('t, 'n, 'p, 'b) tables \<Rightarrow> agent_id \<Rightarrow> ('j store_error, event list) result" where
  "open_for R db agent =
     and_then (open_asks R db) (\<lambda>asks.
       map_ok (\<lambda>found. sort_key ev_order (List.map_filter id found))
         (traverse (\<lambda>(request, responder).
            if responder = agent \<and> text_get R (db_turns db) (event_key request) = None
            then view_event R db request else Inr None) asks))"

record triage =
  tri_ready :: "agent_id list"
  tri_unavailable :: "(event_id \<times> agent_id) list"

fun triage_loop ::
  "('t, 'n, 'p, 'b, 'j, 'z) store_lib_scheme \<Rightarrow> ('t, 'n, 'p, 'b) tables \<Rightarrow> origin \<Rightarrow> (event_id \<times> agent_id) list \<Rightarrow> triage
     \<Rightarrow> ('j store_error, triage) result" where
  "triage_loop R db origin [] found = Inr found"
| "triage_loop R db origin ((request, responder) # asks) found =
     (if agent_origin responder \<noteq> origin then triage_loop R db origin asks found
      else
        and_then (view_profile R db responder) (\<lambda>profile.
        and_then (agent_config R db (agent_name responder)) (\<lambda>config.
          triage_loop R db origin asks
            (case (profile, config) of
               (Some c, Some _) \<Rightarrow>
                 if card_mode c = Managed \<and> responder \<notin> set (tri_ready found)
                 then found\<lparr>tri_ready := tri_ready found @ [responder]\<rparr> else found
             | _ \<Rightarrow> found\<lparr>tri_unavailable := tri_unavailable found @ [(request, responder)]\<rparr>))))"

definition triage_asks ::
  "('t, 'n, 'p, 'b, 'j, 'z) store_lib_scheme \<Rightarrow> origin \<Rightarrow> ('t, 'n, 'p, 'b) tables \<Rightarrow> ('j store_error, triage) result" where
  "triage_asks R origin db =
     and_then (open_asks R db) (\<lambda>asks. triage_loop R db origin asks \<lparr>tri_ready = [], tri_unavailable = []\<rparr>)"

definition end_known ::
  "('t, 'n, 'p, 'b, 'j, 'z) store_lib_scheme \<Rightarrow> agent_id \<Rightarrow> outcome \<Rightarrow> event_id \<Rightarrow> ('t, 'n, 'p, 'b) tx
     \<Rightarrow> ('t, 'n, 'p, 'b) tx \<times> ('j store_error, unit) result" where
  "end_known R agent outcome request =
     tx_then (tx_read (\<lambda>t. view_event R (tx_db t) request)) (\<lambda>event.
       case event of None \<Rightarrow> tx_update id | Some event \<Rightarrow> tx_end R event agent outcome)"

definition tx_dispatchable ::
  "('t, 'n, 'p, 'b, 'j, 'z) store_lib_scheme \<Rightarrow> ('t, 'n, 'p, 'b) tx
     \<Rightarrow> ('t, 'n, 'p, 'b) tx \<times> ('j store_error, agent_id list) result" where
  "tx_dispatchable R =
     tx_then (tx_read (\<lambda>t. triage_asks R (tx_origin t) (tx_db t))) (\<lambda>current.
     tx_then (tx_each (\<lambda>(request, responder). end_known R responder Unavailable request) (tri_unavailable current)) (\<lambda>_.
       tx_read (\<lambda>_. Inr (tri_ready current))))"

definition dispatchable ::
  "('t, 'n, 'p, 'b, 'j, 'z) store_lib_scheme \<Rightarrow> origin \<Rightarrow> ('t, 'n, 'p, 'b) tables
     \<Rightarrow> ('t, 'n, 'p, 'b) tables \<times> ('j store_error, agent_id list \<times> u64 option) result" where
  "dispatchable R origin db =
     (case store_read R origin (triage_asks R origin) db of
        Inl e \<Rightarrow> (db, Inl e)
      | Inr seen \<Rightarrow>
          if tri_unavailable seen = [] then (db, Inr (tri_ready seen, None))
          else store_write R origin (tx_dispatchable R) db)"

definition remove_turn ::
  "('t, 'n, 'p, 'b, 'z) redb_scheme \<Rightarrow> event_id \<Rightarrow> ('t, 'n, 'p, 'b) tx \<Rightarrow> ('t, 'n, 'p, 'b) tx" where
  "remove_turn R request t =
     t\<lparr>tx_db := (tx_db t)\<lparr>db_turns := text_remove R (db_turns (tx_db t)) (event_key request)\<rparr>\<rparr>"

definition claimed_turns ::
  "('t, 'n, 'p, 'b, 'z) redb_scheme \<Rightarrow> ('t, 'n, 'p, 'b) tables \<Rightarrow> agent_id \<Rightarrow> ('j store_error, event_id list) result" where
  "claimed_turns R db agent =
     traverse (\<lambda>(request, _). map_err ErrInvalid (event_id_try_from request))
       (filter (\<lambda>(_, owner). owner = agent_id_to_string agent) (text_rows R (db_turns db)))"

definition tx_recover ::
  "('t, 'n, 'p, 'b, 'j, 'z) store_lib_scheme \<Rightarrow> stamp \<Rightarrow> agent_id \<Rightarrow> ('t, 'n, 'p, 'b) tx
     \<Rightarrow> ('t, 'n, 'p, 'b) tx \<times> ('j store_error, nat) result" where
  "tx_recover R now agent =
     tx_then (tx_read (\<lambda>t. claimed_turns R (tx_db t) agent)) (\<lambda>claimed.
     tx_then (tx_each (\<lambda>request.
       tx_then (end_known R agent Interrupted request) (\<lambda>_. tx_update (remove_turn R request))) claimed) (\<lambda>_.
     tx_then (if claimed \<noteq> [] then worker_activity R now agent ActWaiting else tx_update id) (\<lambda>_.
       tx_read (\<lambda>_. Inr (length claimed)))))"

definition recover where
  "recover R origin now agent = store_write R origin (tx_recover R now agent)"

definition claim_request ::
  "('t, 'n, 'p, 'b, 'j, 'z) store_lib_scheme \<Rightarrow> stamp \<Rightarrow> agent_id \<Rightarrow> event \<Rightarrow> ('t, 'n, 'p, 'b) tx
     \<Rightarrow> ('t, 'n, 'p, 'b) tx \<times> ('j store_error, turn option) result" where
  "claim_request R now agent request =
     (let unknown = ErrUnknown (agent_id_to_string agent) in
      tx_then (tx_read (\<lambda>t. and_then (view_profile R (tx_db t) agent) (ok_or unknown))) (\<lambda>profile.
      tx_then (tx_read (\<lambda>t. and_then (agent_config R (tx_db t) (agent_name agent)) (ok_or unknown))) (\<lambda>config.
      tx_then (tx_read (\<lambda>_. ok_or (ErrCorrupt ''an ask is a message'') (body_thread (ev_body request)))) (\<lambda>(conversation, audience).
      tx_then (author R Ending (TurnStarted (ev_id request) conversation audience (agent_name agent))) (\<lambda>_.
      tx_then (worker_activity R now agent ActWorking) (\<lambda>_.
      tx_then (tx_update (\<lambda>t. t\<lparr>tx_db := (tx_db t)\<lparr>db_turns :=
          text_insert R (db_turns (tx_db t)) (event_key (ev_id request)) (agent_id_to_string agent)\<rparr>\<rparr>)) (\<lambda>_.
        tx_read (\<lambda>_. Inr (Some \<lparr>turn_request = request, turn_agent = agent, turn_card = profile,
          turn_config = config\<rparr>)))))))))"

definition tx_claim ::
  "('t, 'n, 'p, 'b, 'j, 'z) store_lib_scheme \<Rightarrow> stamp \<Rightarrow> agent_id \<Rightarrow> ('t, 'n, 'p, 'b) tx
     \<Rightarrow> ('t, 'n, 'p, 'b) tx \<times> ('j store_error, turn option) result" where
  "tx_claim R now agent =
     tx_then (tx_read (\<lambda>t. open_for R (tx_db t) agent)) (\<lambda>asks.
       case asks of [] \<Rightarrow> tx_read (\<lambda>_. Inr None) | request # _ \<Rightarrow> claim_request R now agent request)"

definition claim where
  "claim R origin now agent = store_write R origin (tx_claim R now agent)"

text \<open>The answer of a turn is written at \<open>at\<close>, the activity after it at \<open>now\<close>.\<close>

definition finish_answer ::
  "('t, 'n, 'p, 'b, 'j, 'z) store_lib_scheme \<Rightarrow> stamp \<Rightarrow> turn \<Rightarrow> msg_text \<Rightarrow> string \<Rightarrow> ('t, 'n, 'p, 'b) tx
     \<Rightarrow> ('t, 'n, 'p, 'b) tx \<times> ('j store_error, unit) result" where
  "finish_answer R at turn answer session =
     tx_then (tx_read (\<lambda>_. ok_or (ErrCorrupt ''an ask is a message'') (body_thread (ev_body (turn_request turn))))) (\<lambda>(conversation, audience).
     tx_then (author R Ending
       (Message conversation (agent_name (turn_agent turn)) answer audience (Reply (ev_id (turn_request turn))) at None)) (\<lambda>_.
     tx_then (tx_read (\<lambda>_. encode_record (rec_encode (lib_agent R)) ((turn_config turn)\<lparr>la_session := Some session\<rparr>))) (\<lambda>config.
       tx_update (\<lambda>t. t\<lparr>tx_db := (tx_db t)\<lparr>db_local_agents :=
         text_insert R (db_local_agents (tx_db t)) (agent_name_str (agent_name (turn_agent turn))) config\<rparr>\<rparr>))))"

definition tx_finish ::
  "('t, 'n, 'p, 'b, 'j, 'z) store_lib_scheme \<Rightarrow> stamp \<Rightarrow> stamp \<Rightarrow> turn \<Rightarrow> completion \<Rightarrow> ('t, 'n, 'p, 'b) tx
     \<Rightarrow> ('t, 'n, 'p, 'b) tx \<times> ('j store_error, unit) result" where
  "tx_finish R at now turn completion =
     tx_then (case completion of
         CompletionAnswered answer session \<Rightarrow> finish_answer R at turn answer session
       | CompletionFailed \<Rightarrow> tx_end R (turn_request turn) (turn_agent turn) Failed) (\<lambda>_.
     tx_then (tx_update (remove_turn R (ev_id (turn_request turn)))) (\<lambda>_.
       worker_activity R now (turn_agent turn) ActWaiting))"

definition finish where
  "finish R origin at now turn completion = store_write R origin (tx_finish R at now turn completion)"

section \<open>Receipts and escalations\<close>

definition view_urgent ::
  "('t, 'n, 'p, 'b, 'z) redb_scheme \<Rightarrow> ('t, 'n, 'p, 'b) tables \<Rightarrow> agent_id \<Rightarrow> ('j store_error, event_id list) result" where
  "view_urgent R db agent =
     (let prefix = agent_id_to_string agent @ [unit_separator]
      in traverse (\<lambda>(_, id'). map_err ErrInvalid (event_id_try_from id'))
           (takeWhile (\<lambda>(key, _). strip_prefix prefix key \<noteq> None) (range_from R (db_urgent db) prefix)))"

fun delivered_loop ::
  "('t, 'n, 'p, 'b, 'j, 'z) store_lib_scheme \<Rightarrow> string \<Rightarrow> (string \<times> string) list \<Rightarrow> ('j store_error, event_id list) result" where
  "delivered_loop R prefix [] = Inr []"
| "delivered_loop R prefix ((key, stage) # rows) =
     (case strip_prefix prefix key of
        None \<Rightarrow> Inr []
      | Some request \<Rightarrow>
          and_then (decode_record (rec_decode (lib_delivery R)) stage) (\<lambda>stage.
            if stage = Delivered
            then and_then (map_err ErrInvalid (event_id_try_from request)) (\<lambda>request.
              map_ok (Cons request) (delivered_loop R prefix rows))
            else delivered_loop R prefix rows))"

definition delivered_to ::
  "('t, 'n, 'p, 'b, 'j, 'z) store_lib_scheme \<Rightarrow> ('t, 'n, 'p, 'b) tables \<Rightarrow> agent_id \<Rightarrow> ('j store_error, event_id list) result" where
  "delivered_to R db agent =
     (let prefix = agent_id_to_string agent @ [unit_separator]
      in delivered_loop R prefix (range_from R (db_delivery db) prefix))"

definition escalation ::
  "('t, 'n, 'p, 'b, 'z) redb_scheme \<Rightarrow> ('t, 'n, 'p, 'b) tables \<Rightarrow> event_id \<Rightarrow> ('j store_error, event_id option) result" where
  "escalation R db request =
     (case text_get R (db_escalations db) (event_key request) of
        None \<Rightarrow> Inr None
      | Some text \<Rightarrow> map_err ErrInvalid (map_ok Some (event_id_try_from text)))"

definition tx_receipt ::
  "('t, 'n, 'p, 'b, 'j, 'z) store_lib_scheme \<Rightarrow> agent_id \<Rightarrow> event \<Rightarrow> delivery \<Rightarrow> ('t, 'n, 'p, 'b) tx
     \<Rightarrow> ('t, 'n, 'p, 'b) tx \<times> ('j store_error, unit) result" where
  "tx_receipt R agent message received t =
     (if agent_origin agent \<noteq> tx_origin t
      then (t, Inl (ErrInvalid (Invalid ''only a local recipient may record a receipt'')))
      else
        tx_then (tx_read (\<lambda>t. view_delivery R (tx_db t) agent (ev_id message))) (\<lambda>current.
          if observe current received = current then tx_update id
          else
            tx_then (tx_read (\<lambda>_. ok_or (ErrCorrupt ''a receipt addresses a message'') (body_thread (ev_body message)))) (\<lambda>(conversation, audience).
            tx_then (author R Ending (Receipt (ev_id message) conversation audience (agent_name agent) received)) (\<lambda>_.
              tx_update id))) t)"

definition check_read_one ::
  "('t, 'n, 'p, 'b, 'j, 'z) store_lib_scheme \<Rightarrow> agent_id \<Rightarrow> event \<Rightarrow> ('t, 'n, 'p, 'b) tx
     \<Rightarrow> ('t, 'n, 'p, 'b) tx \<times> ('j store_error, unit) result" where
  "check_read_one R agent event =
     (case ev_body event of
        Message _ _ _ _ _ _ _ \<Rightarrow> tx_receipt R agent event Read
      | Resolved _ _ _ _ _ \<Rightarrow> tx_update id
      | _ \<Rightarrow> tx_read (\<lambda>_. Inl (ErrInvalid (Invalid ''a read addresses a message or ask ending''))))"

text \<open>The receipts are tried in a transaction that is aborted: only the result remains.\<close>

definition check_read_receipts ::
  "('t, 'n, 'p, 'b, 'j, 'z) store_lib_scheme \<Rightarrow> origin \<Rightarrow> agent_id \<Rightarrow> event list \<Rightarrow> ('t, 'n, 'p, 'b) tables
     \<Rightarrow> ('j store_error, unit) result" where
  "check_read_receipts R origin agent events db =
     and_then (verify R origin db) (\<lambda>_. snd (tx_each (check_read_one R agent) events (tx_new db origin)))"

definition question_state_of ::
  "('t, 'n, 'p, 'b, 'j, 'z) store_lib_scheme \<Rightarrow> ('t, 'n, 'p, 'b) tables \<Rightarrow> event_id \<Rightarrow> ('j store_error, question_state) result" where
  "question_state_of R db request =
     and_then (view_resolution R db request) (\<lambda>resolution.
       if resolution \<noteq> None then Inr QAnswered
       else map_ok (\<lambda>found. if found \<noteq> None then Escalated else Waiting) (escalation R db request))"

definition fallback_text :: "event_id \<Rightarrow> question \<Rightarrow> msg_text \<Rightarrow> (invalid, msg_text) result" where
  "fallback_text request question body_text =
     (let heading = ''Fallback for unanswered question '' @ event_id_to_string request @ ''.'' @
            CHR 0x0A # ''Expected: '' @ line_str (q_expected question) @ [CHR 0x0A];
          remaining = MAX_TEXT - length heading;
          excerpt = take (floor_char_boundary (text_str body_text) (min remaining (length (text_str body_text)))) (text_str body_text)
      in text_try_from (heading @ excerpt))"

definition fallback_body ::
  "stamp \<Rightarrow> event_id \<Rightarrow> agent_id \<Rightarrow> msg_text \<Rightarrow> chain \<Rightarrow> notice \<Rightarrow> question \<Rightarrow> (invalid, body) result" where
  "fallback_body now request sender body_text chain notice question =
     (let fallback = q_fallback question in
      and_then (members_try_from [fallback]) (\<lambda>recipients.
      and_then (fallback_text request question body_text) (\<lambda>answer.
      and_then (conversation_direct sender fallback) (\<lambda>conversation.
      and_then (audience_of [sender, fallback]) (\<lambda>audience.
        Inr (Message conversation (agent_name sender) answer audience (Ask fallback chain) now
          (Some \<lparr>n_recipients = recipients, n_urgent = True, n_subject = n_subject notice, n_question = None\<rparr>)))))))"

definition escalate_parent ::
  "('t, 'n, 'p, 'b, 'j, 'z) store_lib_scheme \<Rightarrow> stamp \<Rightarrow> event_id \<Rightarrow> event \<Rightarrow> ('t, 'n, 'p, 'b) tx
     \<Rightarrow> ('t, 'n, 'p, 'b) tx \<times> ('j store_error, bool) result" where
  "escalate_parent R now request parent =
     (case ev_body parent of
        Message _ _ body_text _ (Ask _ chain) at (Some notice) \<Rightarrow>
          (case n_question notice of
             None \<Rightarrow> tx_read (\<lambda>_. Inr False)
           | Some question \<Rightarrow>
               tx_then (tx_read (\<lambda>t. question_state_of R (tx_db t) request)) (\<lambda>state.
                 if \<not> escalation_due (stamp_millis at) (question_wait_millis question) (stamp_millis now) state
                 then tx_read (\<lambda>_. Inr False)
                 else
                   tx_then (tx_read (\<lambda>_. ok_or (ErrCorrupt ''a question has an author'') (ev_author parent))) (\<lambda>sender.
                   tx_then (tx_read (\<lambda>_. map_err ErrInvalid (fallback_body now request sender body_text chain notice question))) (\<lambda>body.
                   tx_then (author R Ending body) (\<lambda>event.
                   tx_then (tx_update (\<lambda>t. t\<lparr>tx_db := (tx_db t)\<lparr>db_escalations :=
                       text_insert R (db_escalations (tx_db t)) (event_key request) (event_key (ev_id event))\<rparr>\<rparr>)) (\<lambda>_.
                     tx_read (\<lambda>_. Inr True)))))))
      | _ \<Rightarrow> tx_read (\<lambda>_. Inr False))"

definition escalate_one ::
  "('t, 'n, 'p, 'b, 'j, 'z) store_lib_scheme \<Rightarrow> stamp \<Rightarrow> event_id \<Rightarrow> ('t, 'n, 'p, 'b) tx
     \<Rightarrow> ('t, 'n, 'p, 'b) tx \<times> ('j store_error, bool) result" where
  "escalate_one R now request t =
     (if event_origin request \<noteq> tx_origin t then (t, Inr False)
      else
        tx_then (tx_read (\<lambda>t. view_event R (tx_db t) request)) (\<lambda>parent.
          case parent of None \<Rightarrow> tx_read (\<lambda>_. Inr False) | Some parent \<Rightarrow> escalate_parent R now request parent) t)"

fun escalate_loop ::
  "('t, 'n, 'p, 'b, 'j, 'z) store_lib_scheme \<Rightarrow> stamp \<Rightarrow> (event_id \<times> agent_id) list \<Rightarrow> nat \<Rightarrow> ('t, 'n, 'p, 'b) tx
     \<Rightarrow> ('t, 'n, 'p, 'b) tx \<times> ('j store_error, nat) result" where
  "escalate_loop R now [] count t = (t, Inr count)"
| "escalate_loop R now ((request, _) # asks) count t =
     tx_then (escalate_one R now request) (\<lambda>escalated.
       escalate_loop R now asks (if escalated then usize_add count 1 else count)) t"

definition tx_escalate ::
  "('t, 'n, 'p, 'b, 'j, 'z) store_lib_scheme \<Rightarrow> stamp \<Rightarrow> ('t, 'n, 'p, 'b) tx
     \<Rightarrow> ('t, 'n, 'p, 'b) tx \<times> ('j store_error, nat) result" where
  "tx_escalate R now = tx_then (tx_read (\<lambda>t. open_asks R (tx_db t))) (\<lambda>asks. escalate_loop R now asks 0)"

definition escalate where
  "escalate R origin now = store_write R origin (tx_escalate R now)"

end
