(* ===== verification/Store_Admin.thy ===== *)
theory Store_Admin
  imports Store_Ops
begin

text \<open>
  The rest of the chat store's operations: finding and reading handoffs (\<open>chat/store/handoff.rs\<close>), and
  peers, links, cleaning a conversation and the settings of local agents (\<open>chat/store/admin.rs\<close>).
\<close>

section \<open>Handoffs\<close>

definition MAX_HANDOFFS :: nat where
  "MAX_HANDOFFS = 32"

definition READ_LIMIT_MAX :: read_limit where
  "READ_LIMIT_MAX = ReadLimit MAX_BODY_BYTES"

record pending_observation =
  po_descriptor :: descriptor
  po_observation :: observation

record read_body =
  rb_descriptor :: descriptor
  rb_reader :: agent_id
  rb_text :: msg_text
  rb_pending :: pending_observation

definition handoff_header ::
  "('t, 'n, 'p, 'b, 'j, 'z) store_lib_scheme \<Rightarrow> ('t, 'n, 'p, 'b) tables \<Rightarrow> event_id \<Rightarrow> ('j store_error, descriptor option) result" where
  "handoff_header R db id' =
     and_then (get_json R (rec_decode (lib_descriptor R)) (db_handoff_headers db) (event_key id')) (\<lambda>found.
       case found of
         Some descriptor \<Rightarrow> if desc_id descriptor \<noteq> id' then Inl (ErrCorrupt ''handoff header identity'') else Inr found
       | None \<Rightarrow> Inr found)"

definition discover_one ::
  "('t, 'n, 'p, 'b, 'j, 'z) store_lib_scheme \<Rightarrow> ('t, 'n, 'p, 'b) tables \<Rightarrow> agent_id \<Rightarrow> project \<times> scope \<Rightarrow> string
     \<Rightarrow> ('j store_error, descriptor) result" where
  "discover_one R db reader context value =
     and_then (map_err ErrInvalid (event_id_try_from value)) (\<lambda>id'.
     and_then (and_then (handoff_header R db id') (ok_or (ErrCorrupt ''handoff header missing''))) (\<lambda>descriptor.
     and_then (map_err ErrHandoff (descriptor_authorize descriptor reader descriptor READ_LIMIT_MAX)) (\<lambda>_.
       if md_project (desc_metadata descriptor) \<noteq> fst context \<or> md_scope (desc_metadata descriptor) \<noteq> snd context
       then Inl (ErrCorrupt ''handoff metadata index'') else Inr descriptor)))"

definition discover ::
  "('t, 'n, 'p, 'b, 'j, 'z) store_lib_scheme \<Rightarrow> ('t, 'n, 'p, 'b) tables \<Rightarrow> agent_id \<Rightarrow> project \<times> scope \<Rightarrow> nat
     \<Rightarrow> ('j store_error, descriptor list) result" where
  "discover R db reader context limit =
     (if limit = 0 \<or> limit > MAX_HANDOFFS then Inl (ErrCorrupt ''handoff metadata limit'')
      else
        (let start = handoff_prefix reader (fst context) (snd context)
         in traverse (\<lambda>(_, value). discover_one R db reader context value)
              (take limit (rev (range_between R (db_handoff_readers db) start (start @ [CHR 0x7F]))))))"

definition load_using ::
  "descriptor \<Rightarrow> agent_id \<Rightarrow> descriptor \<times> read_limit \<Rightarrow> (event_id \<Rightarrow> ('j store_error, event option) result)
     \<Rightarrow> ('j store_error, read_body) result" where
  "load_using descriptor actor request fetch_body =
     and_then (map_err ErrHandoff (descriptor_authorize descriptor actor (fst request) (snd request))) (\<lambda>permit.
     and_then (and_then (fetch_body (desc_id descriptor))
       (ok_or (ErrUnknown (event_id_to_string (desc_id descriptor))))) (\<lambda>event.
       case ev_body event of
         Handoff metadata body_text _ \<Rightarrow>
           and_then (map_err ErrHandoff (check_body permit (ev_id event) metadata body_text)) (\<lambda>_.
             Inr \<lparr>rb_descriptor = descriptor, rb_reader = actor, rb_text = body_text,
                  rb_pending = \<lparr>po_descriptor = descriptor, po_observation = permit_observation permit\<rparr>\<rparr>)
       | _ \<Rightarrow> Inl (ErrCorrupt ''handoff body kind'')))"

definition handoff_read_body ::
  "('t, 'n, 'p, 'b, 'j, 'z) store_lib_scheme \<Rightarrow> ('t, 'n, 'p, 'b) tables \<Rightarrow> agent_id \<Rightarrow> descriptor \<Rightarrow> read_limit
     \<Rightarrow> ('j store_error, read_body) result" where
  "handoff_read_body R db actor selected limit =
     and_then (and_then (handoff_header R db (desc_id selected))
       (ok_or (ErrUnknown (event_id_to_string (desc_id selected))))) (\<lambda>descriptor.
       load_using descriptor actor (selected, limit) (view_event R db))"

definition observed ::
  "('t, 'n, 'p, 'b, 'z) redb_scheme \<Rightarrow> ('t, 'n, 'p, 'b) tables \<Rightarrow> agent_id \<Rightarrow> event_id \<Rightarrow> bool" where
  "observed R db actor handoff = (text_get R (db_handoff_reads db) (delivery_key actor handoff) \<noteq> None)"

definition pending_commit ::
  "('t, 'n, 'p, 'b, 'j, 'z) store_lib_scheme \<Rightarrow> pending_observation \<Rightarrow> ('t, 'n, 'p, 'b) tx
     \<Rightarrow> ('t, 'n, 'p, 'b) tx \<times> ('j store_error, unit) result" where
  "pending_commit R pending =
     (let id' = desc_id (po_descriptor pending); reader = obs_reader (po_observation pending) in
      tx_then (tx_read (\<lambda>t. and_then (handoff_header R (tx_db t) id') (ok_or (ErrUnknown (event_id_to_string id'))))) (\<lambda>actual.
      tx_then (tx_read (\<lambda>_. map_err ErrHandoff (descriptor_authorize actual reader (po_descriptor pending) READ_LIMIT_MAX))) (\<lambda>_.
      tx_then (tx_read (\<lambda>t. Inr (observed R (tx_db t) reader id'))) (\<lambda>known.
        if known then tx_update id
        else
          tx_then (author R Ordinary
            (HandoffRead (po_observation pending) (md_audience (desc_metadata (po_descriptor pending)))))
            (\<lambda>_. tx_update id)))))"

section \<open>Peers and links\<close>

definition peers ::
  "('t, 'n, 'p, 'b, 'z) redb_scheme \<Rightarrow> origin \<Rightarrow> ('t, 'n, 'p, 'b) tables \<Rightarrow> ('j store_error, (string \<times> origin) list) result" where
  "peers R origin =
     store_read R origin (\<lambda>db.
       traverse (\<lambda>(alias, text). map_err ErrInvalid (map_ok (Pair alias) (origin_try_from text))) (text_rows R (db_peers db)))"

definition tx_pin ::
  "('t, 'n, 'p, 'b, 'z) redb_scheme \<Rightarrow> string \<Rightarrow> origin \<Rightarrow> bool \<Rightarrow> ('t, 'n, 'p, 'b) tx
     \<Rightarrow> ('t, 'n, 'p, 'b) tx \<times> ('j store_error, unit) result" where
  "tx_pin R alias origin replace t =
     (let pinned = (t\<lparr>tx_db := (tx_db t)\<lparr>db_peers := text_insert R (db_peers (tx_db t)) alias (origin_str origin)\<rparr>\<rparr>, Inr ())
      in case text_get R (db_peers (tx_db t)) alias of
           Some existing \<Rightarrow>
             if existing \<noteq> origin_str origin \<and> \<not> replace
             then (t, Inl (ErrRefused (RefInvalid (Invalid
               ''the peer's chat identity changed; confirm with `chat peer replace`''))))
             else pinned
         | None \<Rightarrow> pinned)"

definition pin ::
  "('t, 'n, 'p, 'b, 'z) redb_scheme \<Rightarrow> origin \<Rightarrow> string \<Rightarrow> origin \<Rightarrow> bool \<Rightarrow> ('t, 'n, 'p, 'b) tables
     \<Rightarrow> ('t, 'n, 'p, 'b) tables \<times> ('j store_error, unit \<times> u64 option) result" where
  "pin R self alias origin replace db =
     (if origin = self then (db, Inl (ErrCorrupt ''this machine cannot be its own peer''))
      else store_write R self (tx_pin R alias origin replace) db)"

definition unpin ::
  "('t, 'n, 'p, 'b, 'z) redb_scheme \<Rightarrow> origin \<Rightarrow> string \<Rightarrow> ('t, 'n, 'p, 'b) tables
     \<Rightarrow> ('t, 'n, 'p, 'b) tables \<times> ('j store_error, bool \<times> u64 option) result" where
  "unpin R self alias =
     store_write R self (\<lambda>t.
       let db = tx_db t
       in (t\<lparr>tx_db := db\<lparr>db_peers := text_remove R (db_peers db) alias, db_links := text_remove R (db_links db) alias\<rparr>\<rparr>,
           Inr (text_get R (db_peers db) alias \<noteq> None)))"

definition links ::
  "('t, 'n, 'p, 'b, 'j, 'z) store_lib_scheme \<Rightarrow> origin \<Rightarrow> ('t, 'n, 'p, 'b) tables \<Rightarrow> ('j store_error, (string \<times> link) list) result" where
  "links R origin = store_read R origin (\<lambda>db. entries R (rec_decode (lib_link R)) (db_links db))"

definition record_link ::
  "('t, 'n, 'p, 'b, 'j, 'z) store_lib_scheme \<Rightarrow> origin \<Rightarrow> string \<Rightarrow> link \<Rightarrow> ('t, 'n, 'p, 'b) tables
     \<Rightarrow> ('t, 'n, 'p, 'b) tables \<times> ('j store_error, unit \<times> u64 option) result" where
  "record_link R origin alias link =
     store_write R origin (\<lambda>t.
       case encode_record (rec_encode (lib_link R)) link of
         Inl e \<Rightarrow> (t, Inl e)
       | Inr text \<Rightarrow> (t\<lparr>tx_db := (tx_db t)\<lparr>db_links := text_insert R (db_links (tx_db t)) alias text\<rparr>\<rparr>, Inr ()))"

definition publish_machine ::
  "('t, 'n, 'p, 'b, 'j, 'z) store_lib_scheme \<Rightarrow> origin \<Rightarrow> stamp \<Rightarrow> machine_card \<Rightarrow> ('t, 'n, 'p, 'b) tables
     \<Rightarrow> ('t, 'n, 'p, 'b) tables \<times> ('j store_error, unit \<times> u64 option) result" where
  "publish_machine R origin now c =
     store_write R origin
       (tx_then (tx_read (\<lambda>t. view_directory R (tx_db t) now)) (\<lambda>directory.
          if map_of (dir_machines directory) origin \<noteq> Some c
          then tx_then (author R Ordinary (Machine c)) (\<lambda>_. tx_update id)
          else tx_update id))"

section \<open>Cleaning a conversation\<close>

definition acknowledged ::
  "('t, 'n, 'p, 'b, 'z) redb_scheme \<Rightarrow> ('t, 'n, 'p, 'b) tx \<Rightarrow> event \<Rightarrow> bool" where
  "acknowledged R t event =
     (if ev_origin event \<noteq> tx_origin t then True
      else case body_audience (ev_body event) of
        None \<Rightarrow> True
      | Some audience \<Rightarrow>
          \<not> list_ex (\<lambda>peer. get_number R (db_acks (tx_db t)) (origin_str peer) < event_seq (ev_id event))
            (filter (\<lambda>peer. peer \<noteq> tx_origin t) (audience_members audience)))"

fun urgent_unread ::
  "('t, 'n, 'p, 'b, 'j, 'z) store_lib_scheme \<Rightarrow> ('t, 'n, 'p, 'b) tables \<Rightarrow> event_id \<Rightarrow> agent_id list \<Rightarrow> ('j store_error, unit) result" where
  "urgent_unread R db id' [] = Inr ()"
| "urgent_unread R db id' (recipient # recipients) =
     and_then (view_delivery R db recipient id') (\<lambda>delivery.
       if delivery \<noteq> Acknowledged
       then Inl (ErrInvalid (Invalid ''urgent messages must be acknowledged before cleaning''))
       else urgent_unread R db id' recipients)"

definition clean_check ::
  "('t, 'n, 'p, 'b, 'j, 'z) store_lib_scheme \<Rightarrow> ('t, 'n, 'p, 'b) tx \<Rightarrow> event \<Rightarrow> ('j store_error, unit) result" where
  "clean_check R t event =
     and_then
       (case ev_body event of
          Message _ _ _ _ _ _ (Some notice) \<Rightarrow>
            if n_urgent notice then urgent_unread R (tx_db t) (ev_id event) (members_agents (n_recipients notice)) else Inr ()
        | _ \<Rightarrow> Inr ())
       (\<lambda>_. if text_get R (db_open (tx_db t)) (event_key (ev_id event)) \<noteq> None \<or> \<not> acknowledged R t event
            then Inl (ErrRefused (RefInvalid (Invalid
              ''the conversation has an open ask or content its peers have not stored yet'')))
            else Inr ())"

definition clean_events ::
  "('t, 'n, 'p, 'b, 'j, 'z) store_lib_scheme \<Rightarrow> ('t, 'n, 'p, 'b) tables \<Rightarrow> (string \<times> string) list
     \<Rightarrow> ('j store_error, (event \<times> string) list) result" where
  "clean_events R db rows =
     map_ok (List.map_filter id)
       (traverse (\<lambda>(_, id').
          and_then (map_err ErrInvalid (event_id_try_from id')) (\<lambda>id'.
            map_ok (\<lambda>stored. case stored of Some (StoredEvent event encoded) \<Rightarrow> Some (event, encoded) | _ \<Rightarrow> None)
              (view_stored R db id'))) rows)"

text \<open>An event becomes a tombstone: its clock and its digest stay.\<close>

definition clean_event ::
  "('t, 'n, 'p, 'b, 'j, 'z) store_lib_scheme \<Rightarrow> event \<times> string \<Rightarrow> ('t, 'n, 'p, 'b) tables \<Rightarrow> ('t, 'n, 'p, 'b) tables" where
  "clean_event R entry db =
     (let (event, encoded) = entry; id' = event_key (ev_id event)
      in db\<lparr>db_events := text_remove R (db_events db) id',
            db_order := text_remove R (db_order db) (order_key event),
            db_tombstones := tomb_insert R (db_tombstones db) id'
              (ev_clock event, digest_bytes (codec_hash (lib_codec R) encoded))\<rparr>)"

definition clean_counters ::
  "('t, 'n, 'p, 'b, 'z) redb_scheme \<Rightarrow> (event \<times> string) list \<Rightarrow> ('t, 'n, 'p, 'b) tables \<Rightarrow> ('t, 'n, 'p, 'b) tables" where
  "clean_counters R events db =
     (let bytes = fold (\<lambda>(_, encoded) bytes. saturating_add bytes (word_of_nat (length encoded))) events (0 :: u64);
          counters = db_counters db;
          remaining_events = saturating_sub (get_number R counters ''events'') (word_of_nat (length events));
          remaining_bytes = saturating_sub (get_number R counters ''bytes'') bytes
      in db\<lparr>db_counters := num_insert R (num_insert R counters ''events'' remaining_events) ''bytes'' remaining_bytes\<rparr>)"

definition clean_in ::
  "('t, 'n, 'p, 'b, 'j, 'z) store_lib_scheme \<Rightarrow> conversation \<Rightarrow> ('t, 'n, 'p, 'b) tx
     \<Rightarrow> ('t, 'n, 'p, 'b) tables \<times> ('j store_error, nat) result" where
  "clean_in R conversation t =
     (let db = tx_db t;
          rows = range_between R (db_threads db) (fst (thread_bounds conversation)) (snd (thread_bounds conversation))
      in case and_then (clean_events R db rows) (\<lambda>events.
             map_ok (\<lambda>_. events) (traverse (\<lambda>(event, _). clean_check R t event) events)) of
           Inl e \<Rightarrow> (db, Inl e)
         | Inr events \<Rightarrow>
             (let db = db\<lparr>db_threads := fold (\<lambda>(key, _) table. text_remove R table key) rows (db_threads db)\<rparr>;
                  db = fold (clean_event R) events db;
                  db = (case conversation of
                          Direct pair \<Rightarrow>
                            db\<lparr>db_joined := fold (\<lambda>agent table. text_remove R table (joined_key agent conversation))
                                 [pair_first pair, pair_second pair] (db_joined db)\<rparr>
                        | InRoom _ \<Rightarrow> db)
              in (clean_counters R events db, Inr (length events))))"

text \<open>\<open>Store::clean\<close> commits without checking the identity of the store; with an error nothing is committed.\<close>

definition clean ::
  "('t, 'n, 'p, 'b, 'j, 'z) store_lib_scheme \<Rightarrow> origin \<Rightarrow> conversation \<Rightarrow> ('t, 'n, 'p, 'b) tables
     \<Rightarrow> ('t, 'n, 'p, 'b) tables \<times> ('j store_error, nat) result" where
  "clean R origin conversation db =
     (case clean_in R conversation (tx_new db origin) of
        (_, Inl e) \<Rightarrow> (db, Inl e)
      | (db', Inr removed) \<Rightarrow> (db', Inr removed))"

text \<open>\<open>Store::reset\<close>: the database file is removed and the store opened anew.\<close>

definition reset ::
  "('t, 'n, 'p, 'b, 'z) redb_scheme \<Rightarrow> formats \<Rightarrow> origin \<Rightarrow> ('t, 'n, 'p, 'b) tables option \<times> ('j store_error, origin) result" where
  "reset R F fresh = initialize R F fresh None"

section \<open>Local settings\<close>

definition configure ::
  "('t, 'n, 'p, 'b, 'j, 'z) store_lib_scheme \<Rightarrow> agent_name \<Rightarrow> local_agent option \<Rightarrow> ('t, 'n, 'p, 'b) tx
     \<Rightarrow> ('t, 'n, 'p, 'b) tx \<times> ('j store_error, unit) result" where
  "configure R name config =
     on_db (\<lambda>db.
       let (table, r) = upsert R (rec_encode (lib_agent R)) (agent_name_str name) config (db_local_agents db)
       in (db\<lparr>db_local_agents := table\<rparr>, r))"

definition read_cursor :: "('t, 'n, 'p, 'b, 'z) redb_scheme \<Rightarrow> ('t, 'n, 'p, 'b) tx \<Rightarrow> agent_id \<Rightarrow> string" where
  "read_cursor R t agent =
     (case text_get R (db_reads (tx_db t)) (agent_id_to_string agent) of Some order \<Rightarrow> order | None \<Rightarrow> [])"

definition mark_read ::
  "('t, 'n, 'p, 'b, 'z) redb_scheme \<Rightarrow> agent_id \<Rightarrow> event \<Rightarrow> ('t, 'n, 'p, 'b) tx \<Rightarrow> ('t, 'n, 'p, 'b) tx" where
  "mark_read R agent through t =
     (let order = order_key through
      in if order > read_cursor R t agent
         then t\<lparr>tx_db := (tx_db t)\<lparr>db_reads := text_insert R (db_reads (tx_db t)) (agent_id_to_string agent) order\<rparr>\<rparr>
         else t)"

end
