(* ===== verification/Chat_Simulation.thy ===== *)
theory Chat_Simulation
  imports Chat_Exchange
begin

text \<open>
  What it means for one store to implement another, and that every operation of the core then does the
  same on both. The locale \<open>ledger_sim\<close> relates the states of a detailed ledger \<open>L\<close> and an abstract one
  \<open>M\<close>: related states read the same, up to the translation \<open>err\<close> of store errors, and a commit that \<open>L\<close>
  completes leads to related states. \<open>outbox_sim\<close> adds the methods of \<open>Outbox\<close>. Inside the locales,
  admission, appending, receiving and the three halves of an exchange are carried over; the only
  difference is that a store may run out of room and stop receiving a batch early.
\<close>

definition ids_ok :: "event \<Rightarrow> bool" where
  "ids_ok e \<longleftrightarrow> wf_event_id (ev_id e) \<and> (\<forall>r. body_request (ev_body e) = Some r \<longrightarrow> wf_event_id r)"

text \<open>How a translation of errors passes through a composed result.\<close>

named_theorems err_simps \<open>a translation of errors moves outwards\<close>

lemma map_err_err [err_simps]: "map_err f (map_err g r) = map_err (f \<circ> g) r"
  by (cases r) auto

lemma map_err_and_then [err_simps]: "map_err f (and_then r g) = and_then (map_err f r) (\<lambda>x. map_err f (g x))"
  by (cases r) auto

lemma map_err_ok_or [err_simps]: "map_err f (ok_or e x) = ok_or (f e) x"
  by (cases x) auto

lemma map_err_Store [err_simps]: "map_failure f \<circ> Store = Store \<circ> f" "map_failure f \<circ> Rejected = Rejected"
  "map_failure f \<circ> FInvalid = FInvalid"
  by auto

lemma plain_reply_err [err_simps]: "map_err (map_failure f) (plain_reply e en) = plain_reply e en"
  by (simp add: plain_reply_def split: ending.splits)

lemma resolve_candidate_err [err_simps]:
  "map_err (map_failure f) (resolve_candidate e r c k a) = resolve_candidate e r c k a"
  by (simp add: resolve_candidate_def Let_def split: prod.splits ending.splits)

lemma wf_id_origin: "wf_event_id i \<Longrightarrow> wf_origin (event_origin i)"
  by (simp add: wf_event_id_def)

locale ledger_sim =
  fixes L :: "('l, 'e, 'x) ledger_ops_scheme" and M :: "('m, 'd, 'y) ledger_ops_scheme"
    and rel :: "'l \<Rightarrow> 'm \<Rightarrow> bool" and err :: "'d \<Rightarrow> 'e" and typed :: "event \<Rightarrow> bool" and C :: codec
  assumes sim_local: "rel l m \<Longrightarrow> l_local L l = l_local M m \<and> wf_origin (l_local M m)"
    and sim_cursor: "rel l m \<Longrightarrow> wf_origin p \<Longrightarrow> l_cursor L l p = map_err err (l_cursor M m p)"
    and sim_digest: "rel l m \<Longrightarrow> wf_event_id i \<Longrightarrow> l_digest L l i = map_err err (l_digest M m i)"
    and sim_parent: "rel l m \<Longrightarrow> wf_event_id i \<Longrightarrow> l_parent L l i = map_err err (l_parent M m i)"
    and sim_resolution: "rel l m \<Longrightarrow> wf_event_id i \<Longrightarrow> l_resolution L l i = map_err err (l_resolution M m i)"
    and sim_clock: "rel l m \<Longrightarrow> l_clock L l = map_err err (l_clock M m)"
    and sim_room: "rel l m \<Longrightarrow> l_has_room M m = Inr True"
    and sim_commit: "rel l m \<Longrightarrow> typed (sealed_event s) \<Longrightarrow> sealed_new C (sealed_event s) = Inr s \<Longrightarrow>
      admit M m s = Inr (Append a) \<Longrightarrow> l_commit L l s a = (l', Inr ()) \<Longrightarrow>
      \<exists>m'. l_commit M m s a = (m', Inr ()) \<and> rel l' m'"
    and typed_ids: "typed e \<Longrightarrow> ids_ok e"
begin

lemma checked_parent_sim:
  assumes "rel l m" "wf_event_id r"
  shows "checked_parent L l e r = map_err (map_failure err) (checked_parent M m e r)"
  by (simp add: checked_parent_def sim_parent [OF assms] err_simps if_distrib cong: if_cong)

lemma thread_parent_sim:
  assumes "rel l m" "wf_event_id r"
  shows "thread_parent L l e r = map_err (map_failure err) (thread_parent M m e r)"
  unfolding thread_parent_def checked_parent_sim [OF assms]
  by (cases "checked_parent M m e r") (auto simp: err_simps split: option.splits parent.splits)

lemma resolve_sim:
  assumes "rel l m" "wf_event_id r"
  shows "resolve L l e r c = map_err (map_failure err) (resolve M m e r c)"
  unfolding resolve_def checked_parent_sim [OF assms] sim_resolution [OF assms]
  by (cases "checked_parent M m e r"; cases "l_resolution M m r")
    (auto simp: err_simps split: option.splits parent.splits)

lemma started_sim:
  assumes "rel l m" "wf_event_id r"
  shows "started L l e r = map_err (map_failure err) (started M m e r)"
  unfolding started_def thread_parent_sim [OF assms]
  by (cases "thread_parent M m e r") (auto split: option.splits)

lemma receipt_sim:
  assumes "rel l m" "wf_event_id r"
  shows "receipt L l e r d = map_err (map_failure err) (receipt M m e r d)"
  unfolding receipt_def thread_parent_sim [OF assms]
  by (cases "thread_parent M m e r") (auto simp: err_simps split: option.splits)

lemma handoff_read_sim:
  assumes "rel l m" "wf_event_id (obs_handoff ob)"
  shows "handoff_read L l e ob au = map_err (map_failure err) (handoff_read M m e ob au)"
  unfolding handoff_read_def checked_parent_sim [OF assms] Let_def
  by (cases "checked_parent M m e (obs_handoff ob)"; cases "ev_author e")
    (auto simp: err_simps comp_def split: parent.splits body.splits)

lemma change_sim:
  assumes "rel l m" "ids_ok e"
  shows "change L l e = map_err (map_failure err) (change M m e)"
  using assms(2)
  by (auto simp: change_def ids_ok_def resolve_sim [OF assms(1)] started_sim [OF assms(1)] receipt_sim [OF assms(1)]
      handoff_read_sim [OF assms(1)] split: body.splits intent.splits)

lemma admit_sim:
  assumes "rel l m" "ids_ok (sealed_event s)"
  shows "admit L l s = map_err (map_failure err) (admit M m s)"
proof -
  have i: "wf_event_id (ev_id (sealed_event s))" using assms(2) by (simp add: ids_ok_def)
  then have "wf_origin (ev_origin (sealed_event s))" by (simp add: wf_id_origin ev_origin_def)
  then show ?thesis
    unfolding admit_def Let_def sim_digest [OF assms(1) i] change_sim [OF assms]
    by (cases "l_cursor M m (ev_origin (sealed_event s))"; cases "l_digest M m (ev_id (sealed_event s))")
      (auto simp: sim_cursor [OF assms(1)] checked_succ err_simps)
qed

lemma commit_sim:
  assumes "rel l m" "typed (sealed_event s)" "sealed_new C (sealed_event s) = Inr s"
    and "commit L l s = (l', Inr b)"
  shows "\<exists>m'. commit M m s = (m', Inr b) \<and> rel l' m'"
proof (cases "admit M m s")
  case (Inl f)
  then show ?thesis using assms(4) by (simp add: commit_def admit_sim [OF assms(1) typed_ids [OF assms(2)]])
next
  case (Inr d)
  then have a: "admit L l s = Inr d" by (simp add: admit_sim [OF assms(1) typed_ids [OF assms(2)]])
  show ?thesis
  proof (cases d)
    case Duplicate
    then show ?thesis using a Inr assms(1,4) by (simp add: commit_def)
  next
    case (Append ad)
    then have "l_commit L l s ad = (l', Inr ())" and b: "b = True"
      using a assms(4) by (simp_all add: commit_def split: prod.splits sum.splits)
    then obtain m' where "l_commit M m s ad = (m', Inr ())" "rel l' m'"
      using sim_commit [OF assms(1-3), of ad l'] Inr Append by auto
    then show ?thesis using Inr Append b by (simp add: commit_def)
  qed
qed

lemma next_local_sim:
  assumes "rel l m"
  shows "next_local L l = map_err (map_failure err) (next_local M m)"
  using sim_local [OF assms]
  by (simp add: next_local_def Let_def sim_cursor [OF assms] sim_clock [OF assms] err_simps)

text \<open>What is appended to \<open>L\<close> is the same event as on \<open>M\<close>.\<close>

lemma append_sim:
  assumes "rel l m" "append_event C L l b = (l', Inr e)" "typed e"
  shows "\<exists>m'. append_event C M m b = (m', Inr e) \<and> rel l' m'"
proof -
  obtain i c s where n: "next_local M m = Inr (i, c)" and e: "event_new i c b = Inr e" and s: "sealed_new C e = Inr s"
    and com: "commit L l s = (l', Inr True)"
    using assms(2) by (auto simp: append_event_Inr next_local_sim [OF assms(1)] map_err_Inr_iff)
  have "sealed_event s = e" using s by (rule sealed_new_event)
  then show ?thesis
    using commit_sim [OF assms(1) _ _ com] assms(3) n e s unfolding append_event_Inr by blast
qed

lemma receive_one_sim:
  assumes "rel l m" "typed e" "receive_one C L l p e = (l', r)" "\<And>x. r \<noteq> Inl (Store x)"
  shows "\<exists>m'. rel l' m' \<and> ((\<exists>r'. receive_one C M m p e = (m', r') \<and> r = map_err (map_failure err) r') \<or>
    m' = m \<and> r = Inl (Rejected ResourceLimit) \<and> l_has_room L l' = Inr False)"
proof (cases "ev_origin e \<noteq> p \<or> p = l_local L l")
  case True
  then show ?thesis using assms(1,3) sim_local [OF assms(1)] by (auto simp: receive_one_def)
next
  case False
  show ?thesis
  proof (cases "sealed_new C e")
    case (Inl i)
    then show ?thesis using False assms(1,3) sim_local [OF assms(1)] by (auto simp: receive_one_def)
  next
    case (Inr s)
    then have s: "sealed_event s = e" by (rule sealed_new_event)
    have c: "\<exists>m'. l_commit M m s a = (m', Inr ()) \<and> rel l' m'"
      if "admit M m s = Inr (Append a)" "l_commit L l s a = (l', Inr ())" for a l'
      using sim_commit [OF assms(1) _ _ that] assms(2) Inr s by simp
    have a: "admit L l s = map_err (map_failure err) (admit M m s)"
      using admit_sim [OF assms(1)] typed_ids [OF assms(2)] s by simp
    show ?thesis
    proof (cases "admit M m s")
      case (Inl f)
      then show ?thesis using False Inr a assms(1,3) sim_local [OF assms(1)] by (auto simp: receive_one_def)
    next
      fix d assume d: "admit M m s = Inr d"
      show ?thesis
      proof (cases d)
        case Duplicate
        then show ?thesis using False Inr a d assms(1,3) sim_local [OF assms(1)] by (auto simp: receive_one_def)
      next
        case (Append ad)
        then show ?thesis
          using False Inr a d assms(1,3,4) sim_local [OF assms(1)] sim_room [OF assms(1)] c [of ad]
          by (auto simp: receive_one_def split: sum.splits bool.splits prod.splits)
      qed
    qed
  qed
qed

text \<open>
  A batch: \<open>L\<close> receives it as \<open>M\<close> does, or it is out of room after a proper part \<open>es1\<close> that \<open>M\<close> receives whole.
\<close>

lemma receive_loop_sim:
  assumes "rel l m" "\<forall>e \<in> set es. typed e" "receive_loop C L l p es n = (l', Inr (k, rj))"
  shows "\<exists>m'. rel l' m' \<and> (receive_loop C M m p es n = (m', Inr (k, rj)) \<or>
    rj = Some ResourceLimit \<and> l_has_room L l' = Inr False \<and>
      (\<exists>es1 e es2. es = es1 @ e # es2 \<and> receive_loop C M m p es1 n = (m', Inr (k, None))))"
  using assms
proof (induction es arbitrary: l m n)
  case Nil
  then show ?case by auto
next
  case (Cons e es)
  obtain k1 r where one: "receive_one C L l p e = (k1, r)" by fastforce
  have ns: "r \<noteq> Inl (Store x)" for x using Cons.prems(3) one by (auto split: sum.splits failure.splits)
  then obtain m1 where m1: "rel k1 m1"
    and d: "(\<exists>r'. receive_one C M m p e = (m1, r') \<and> r = map_err (map_failure err) r') \<or>
      m1 = m \<and> r = Inl (Rejected ResourceLimit) \<and> l_has_room L k1 = Inr False"
    using receive_one_sim [OF Cons.prems(1) _ one] Cons.prems(2) by auto
  show ?case
    using d
  proof
    assume "m1 = m \<and> r = Inl (Rejected ResourceLimit) \<and> l_has_room L k1 = Inr False"
    then have "rel l' m" "rj = Some ResourceLimit" "l_has_room L l' = Inr False"
      "receive_loop C M m p [] n = (m, Inr (k, None))" using m1 one Cons.prems(3) by auto
    then show ?thesis by (metis append_Nil)
  next
    assume "\<exists>r'. receive_one C M m p e = (m1, r') \<and> r = map_err (map_failure err) r'"
    then obtain r' where r': "receive_one C M m p e = (m1, r')" "r = map_err (map_failure err) r'" by blast
    show ?thesis
    proof (cases r')
      case (Inl f)
      then show ?thesis using r' m1 one ns Cons.prems(3) by (cases f) auto
    next
      case (Inr b)
      let ?n = "if b then usize_add n 1 else n"
      have rest: "receive_loop C L k1 p es ?n = (l', Inr (k, rj))" using Cons.prems(3) one r' Inr by (cases b) auto
      have step: "receive_loop C M m p (e # xs) n = receive_loop C M m1 p xs ?n" for xs using r' Inr by (cases b) auto
      from Cons.IH [OF m1 _ rest] Cons.prems(2) obtain m' where "rel l' m'"
        "receive_loop C M m1 p es ?n = (m', Inr (k, rj)) \<or> rj = Some ResourceLimit \<and> l_has_room L l' = Inr False \<and>
           (\<exists>es1 e es2. es = es1 @ e # es2 \<and> receive_loop C M m1 p es1 ?n = (m', Inr (k, None)))" by auto
      then show ?thesis unfolding step by (metis append_Cons step)
    qed
  qed
qed

lemma receive_sim:
  assumes "rel l m" "\<forall>e \<in> set es. typed e" "wf_origin p" "receive C L l p es = (l', Inr r)"
  shows "\<exists>m'. rel l' m' \<and> (receive C M m p es = (m', Inr r) \<or>
    (\<exists>es1 e es2. es = es1 @ e # es2 \<and> rcv_rejected r = Some ResourceLimit \<and> l_has_room L l' = Inr False \<and>
       receive C M m p es1 = (m', Inr (r\<lparr>rcv_rejected := None\<rparr>))))"
proof -
  from assms(4) obtain k rj c where loop: "receive_loop C L l p es 0 = (l', Inr (k, rj))"
    and c: "l_cursor L l' p = Inr c" "r = \<lparr>rcv_seen = cur_seen c, rcv_appended = k, rcv_rejected = rj\<rparr>"
    by (auto simp: receive_def result_simps split: prod.splits sum.splits)
  from receive_loop_sim [OF assms(1,2) loop] obtain m' where m': "rel l' m'"
    and d: "receive_loop C M m p es 0 = (m', Inr (k, rj)) \<or> rj = Some ResourceLimit \<and> l_has_room L l' = Inr False \<and>
      (\<exists>es1 e es2. es = es1 @ e # es2 \<and> receive_loop C M m p es1 0 = (m', Inr (k, None)))" by blast
  have "l_cursor M m' p = Inr c" using c(1) sim_cursor [OF m' assms(3)] by (simp add: map_err_Inr_iff)
  then have rc: "receive_loop C M m p xs 0 = (m', Inr (k, j)) \<Longrightarrow>
      receive C M m p xs = (m', Inr \<lparr>rcv_seen = cur_seen c, rcv_appended = k, rcv_rejected = j\<rparr>)" for xs j
    by (simp add: receive_def)
  from d show ?thesis
  proof
    assume "receive_loop C M m p es 0 = (m', Inr (k, rj))"
    from rc [OF this] m' c(2) show ?thesis by blast
  next
    assume "rj = Some ResourceLimit \<and> l_has_room L l' = Inr False \<and>
      (\<exists>es1 e es2. es = es1 @ e # es2 \<and> receive_loop C M m p es1 0 = (m', Inr (k, None)))"
    then obtain es1 e1 es2 where e: "rj = Some ResourceLimit" "es = es1 @ e1 # es2" "receive_loop C M m p es1 0 = (m', Inr (k, None))"
      "l_has_room L l' = Inr False" by blast
    have "receive C M m p es1 = (m', Inr (r\<lparr>rcv_rejected := None\<rparr>))" using rc [OF e(3)] c(2) by simp
    with e(1,2,4) m' c(2) show ?thesis by auto
  qed
qed

end

text \<open>An offer and an answer whose batches stop after \<open>es\<close>.\<close>

abbreviation offer_cut :: "offer \<Rightarrow> event list \<Rightarrow> offer" where
  "offer_cut off es \<equiv> off\<lparr>off_batch := (off_batch off)\<lparr>batch_events := es\<rparr>\<rparr>"

abbreviation answer_cut :: "answer \<Rightarrow> event list \<Rightarrow> answer" where
  "answer_cut ans es \<equiv> ans\<lparr>ans_batch := (ans_batch ans)\<lparr>batch_events := es\<rparr>\<rparr>"

locale outbox_sim = ledger_sim L M rel err typed C
  for L :: "('l, 'e, 'x) outbox_ops_scheme" and M :: "('m, 'd, 'y) outbox_ops_scheme"
    and rel :: "'l \<Rightarrow> 'm \<Rightarrow> bool" and err :: "'d \<Rightarrow> 'e" and typed :: "event \<Rightarrow> bool" and C :: codec +
  assumes sim_ack: "rel l m \<Longrightarrow> wf_origin p \<Longrightarrow> o_ack L l p = map_err err (o_ack M m p)"
    and sim_record_ack: "rel l m \<Longrightarrow> wf_origin p \<Longrightarrow> o_record_ack L l p k = (l', Inr ()) \<Longrightarrow>
      \<exists>m'. o_record_ack M m p k = (m', Inr ()) \<and> rel l' m'"
    and sim_outgoing: "rel l m \<Longrightarrow> wf_origin p \<Longrightarrow> o_outgoing L l p k outgoing_default = (b, Inr ()) \<Longrightarrow>
      o_outgoing M m p k outgoing_default = (b, Inr ())"
    and ack_room: "o_record_ack L l p k = (l', Inr ()) \<Longrightarrow> l_has_room L l' = l_has_room L l"
begin

lemma outgoing_sim:
  assumes "rel l m" "wf_origin p" "outgoing L l p k = Inr r"
  shows "outgoing M m p k = Inr r"
  using assms(3) sim_outgoing [OF assms(1,2)] by (auto simp: outgoing_def split: prod.splits sum.splits)

lemma offer_sim:
  assumes "rel l m" "wf_origin p" "offer L l p = Inr r"
  shows "offer M m p = Inr r"
  using assms(3) sim_local [OF assms(1)] outgoing_sim [OF assms(1,2)]
  by (auto simp: offer_def sim_ack [OF assms(1,2)] sim_cursor [OF assms(1,2)] result_simps)

text \<open>The part \<open>respond\<close> and \<open>accept\<close> share: receiving a batch and recording what the peer has seen.\<close>

definition cut_of :: "'l \<Rightarrow> event list \<Rightarrow> received \<Rightarrow> event list \<Rightarrow> received \<Rightarrow> bool" where
  "cut_of l es rc xs rc' \<longleftrightarrow> xs = es \<and> rc' = rc \<or>
     (\<exists>e es2. es = xs @ e # es2) \<and> l_has_room L l = Inr False \<and>
       rcv_rejected rc = Some ResourceLimit \<and> rc' = rc\<lparr>rcv_rejected := None\<rparr>"

lemma receive_ack_sim:
  assumes "rel l m" "\<forall>e \<in> set es. typed e" "wf_origin p" "receive C L l p es = (l1, Inr rc)"
    and "o_record_ack L l1 p k = (l2, Inr ())"
  obtains m1 m2 xs rc' where "receive C M m p xs = (m1, Inr rc')" "o_record_ack M m1 p k = (m2, Inr ())" "rel l2 m2"
    "cut_of l2 es rc xs rc'"
proof -
  from receive_sim [OF assms(1-4)] obtain m1 where m1: "rel l1 m1" and
    "\<exists>xs rc'. receive C M m p xs = (m1, Inr rc') \<and> cut_of l2 es rc xs rc'"
    unfolding cut_of_def ack_room [OF assms(5)] by blast
  with sim_record_ack [OF m1 assms(3,5)] that show ?thesis by blast
qed

lemma respond_sim:
  assumes "rel l m" "\<forall>e \<in> set (batch_events (off_batch off)). typed e" "wf_origin (off_from off)"
    and "respond C L l off = (l', Inr r)"
  shows "\<exists>m'. rel l' m' \<and> (respond C M m off = (m', Inr r) \<or>
    (\<exists>es e es2 r'. batch_events (off_batch off) = es @ e # es2 \<and> l_has_room L l' = Inr False \<and> respond C M m (offer_cut off es) = (m', Inr r') \<and>
       r = map_ok (ans_rejected_update (\<lambda>_. Some ResourceLimit)) r'))"
proof -
  have loc: "l_local L l = l_local M m" "wf_origin (l_local M m)" using sim_local [OF assms(1)] by auto
  consider (peer) "off_to off \<noteq> l_local L l \<or> off_from off = l_local L l"
    | (ahead) own where "off_to off = l_local L l" "off_from off \<noteq> l_local L l" "l_cursor L l (l_local L l) = Inr own"
        "off_seen off > cur_seen own"
    | (received) own l1 rc where "off_to off = l_local L l" "off_from off \<noteq> l_local L l" "l_cursor L l (l_local L l) = Inr own"
        "\<not> off_seen off > cur_seen own" "receive C L l (off_from off) (batch_events (off_batch off)) = (l1, Inr rc)"
        "o_record_ack L l1 (off_from off) (off_seen off) = (l', Inr ())"
        "and_then (outgoing L l' (off_from off) (off_seen off)) (\<lambda>batch.
          Inr (map_ok (\<lambda>batch. \<lparr>ans_from = l_local L l', ans_seen = rcv_seen rc, ans_batch = batch,
            ans_rejected = rcv_rejected rc\<rparr>) batch)) = Inr r"
    using assms(4) by (auto simp: respond_def split: sum.splits prod.splits if_splits)
  then show ?thesis
  proof cases
    case peer
    then show ?thesis using assms(1,4) loc by (auto simp: respond_def)
  next
    case ahead
    then show ?thesis using assms(1,4) loc sim_cursor [OF assms(1) loc(2)] by (auto simp: respond_def map_err_Inr_iff)
  next
    case received
    then have own: "l_cursor M m (l_local M m) = Inr own"
      using sim_cursor [OF assms(1) loc(2)] loc(1) by (simp add: map_err_Inr_iff)
    obtain m1 m2 xs rc' where m: "receive C M m (off_from off) xs = (m1, Inr rc')"
      "o_record_ack M m1 (off_from off) (off_seen off) = (m2, Inr ())" "rel l' m2"
      "cut_of l' (batch_events (off_batch off)) rc xs rc'"
      using receive_ack_sim [OF assms(1-3) received(5,6)] .
    obtain b where b: "outgoing M m2 (off_from off) (off_seen off) = Inr b"
      and rb: "r = map_ok (\<lambda>batch. \<lparr>ans_from = l_local M m2, ans_seen = rcv_seen rc, ans_batch = batch,
          ans_rejected = rcv_rejected rc\<rparr>) b"
      using outgoing_sim [OF m(3) assms(3)] sim_local [OF m(3)] received(7) by (auto simp: result_simps)
    have "respond C M m (offer_cut off xs) = (m2, Inr (map_ok (\<lambda>batch. \<lparr>ans_from = l_local M m2,
        ans_seen = rcv_seen rc', ans_batch = batch, ans_rejected = rcv_rejected rc'\<rparr>) b))"
      using received own loc m(1,2) b by (simp add: respond_def)
    then show ?thesis using m(3,4) rb by (cases b) (fastforce simp: cut_of_def)+
  qed
qed

lemma accept_sim:
  assumes "rel l m" "\<forall>e \<in> set (batch_events (ans_batch ans)). typed e" "wf_origin (ans_from ans)"
    and "accept C L l off ans = (l', Inr r)"
  shows "\<exists>m'. rel l' m' \<and> (accept C M m off ans = (m', Inr r) \<or>
    (\<exists>es e es2 r'. batch_events (ans_batch ans) = es @ e # es2 \<and> l_has_room L l' = Inr False \<and> accept C M m off (answer_cut ans es) = (m', Inr (Inr r')) \<and>
       r = Inr (r'\<lparr>prog_received := (prog_received r')\<lparr>rcv_rejected := Some ResourceLimit\<rparr>,
                  prog_more := (batch_more (off_batch off) \<and> ans_rejected ans = None)\<rparr>)))"
proof -
  have loc: "l_local L l = l_local M m" "wf_origin (l_local M m)" using sim_local [OF assms(1)] by auto
  consider (peer) "ans_from ans \<noteq> off_to off"
    | (ahead) own where "ans_from ans = off_to off" "l_cursor L l (l_local L l) = Inr own" "ans_seen ans > cur_seen own"
    | (received) own l1 rc where "ans_from ans = off_to off" "l_cursor L l (l_local L l) = Inr own"
        "\<not> ans_seen ans > cur_seen own" "receive C L l (ans_from ans) (batch_events (ans_batch ans)) = (l1, Inr rc)"
        "o_record_ack L l1 (ans_from ans) (ans_seen ans) = (l', Inr ())"
        "r = Inr \<lparr>prog_received = rc, prog_refused = ans_rejected ans,
          prog_more = ((batch_more (off_batch off) \<and> ans_rejected ans = None) \<or>
                       (batch_more (ans_batch ans) \<and> rcv_rejected rc = None))\<rparr>"
    using assms(4) by (auto simp: accept_def Let_def split: sum.splits prod.splits if_splits)
  then show ?thesis
  proof cases
    case peer
    then show ?thesis using assms(1,4) by (auto simp: accept_def)
  next
    case ahead
    then show ?thesis using assms(1,4) loc sim_cursor [OF assms(1) loc(2)] by (auto simp: accept_def map_err_Inr_iff)
  next
    case received
    then have own: "l_cursor M m (l_local M m) = Inr own"
      using sim_cursor [OF assms(1) loc(2)] loc(1) by (simp add: map_err_Inr_iff)
    obtain m1 m2 xs rc' where m: "receive C M m (ans_from ans) xs = (m1, Inr rc')"
      "o_record_ack M m1 (ans_from ans) (ans_seen ans) = (m2, Inr ())" "rel l' m2"
      "cut_of l' (batch_events (ans_batch ans)) rc xs rc'"
      using receive_ack_sim [OF assms(1-3) received(4,5)] .
    have "accept C M m off (answer_cut ans xs) = (m2, Inr (Inr \<lparr>prog_received = rc', prog_refused = ans_rejected ans,
        prog_more = ((batch_more (off_batch off) \<and> ans_rejected ans = None) \<or>
                     (batch_more (ans_batch ans) \<and> rcv_rejected rc' = None))\<rparr>))"
      using received own m(1,2) by (simp add: accept_def Let_def)
    then show ?thesis using m(3,4) received(6) by (fastforce simp: cut_of_def)
  qed
qed

end

end
