(* ===== verification/Store_Refine.thy ===== *)
theory Store_Refine
  imports Store_Admin Chat_Simulation Chat_Network
begin

text \<open>
  The store refines the reference model: the transaction of \<open>chat/store/tx.rs\<close> and the model of
  \<open>chat/model.rs\<close> implement the same ledger. \<open>store_rel\<close> relates the tables the ledger reads with a model,
  \<open>store_laws\<close> is what the database and the JSON codec promise, and the locale \<open>store_library\<close> collects both;
  in it the simulation of \<open>Chat_Simulation\<close> holds between \<open>store_ops\<close> and \<open>model_ops\<close>.
\<close>

section \<open>What the operations leave alone\<close>

text \<open>The tables the ledger and the outbox read.\<close>

definition core_tables :: "('t, 'n, 'p, 'b) tables \<Rightarrow> 't \<times> 'p \<times> 'n \<times> 'n \<times> 't \<times> 'b \<times> 't" where
  "core_tables db =
     (db_events db, db_cursors db, db_acks db, db_counters db, db_resolutions db, db_tombstones db, db_meta db)"

lemma core_tables_eq:
  "core_tables db' = core_tables db \<longleftrightarrow>
     db_events db' = db_events db \<and> db_cursors db' = db_cursors db \<and> db_acks db' = db_acks db \<and>
     db_counters db' = db_counters db \<and> db_resolutions db' = db_resolutions db \<and>
     db_tombstones db' = db_tombstones db \<and> db_meta db' = db_meta db"
  by (auto simp: core_tables_def)

lemma handoff_record_core: "handoff_record R e db = (db', r) \<Longrightarrow> core_tables db' = core_tables db"
  by (auto simp: handoff_record_def Let_def core_tables_def split: body.splits sum.splits)

lemma record_thread_core [simp]: "core_tables (record_thread R e db) = core_tables db"
  by (simp add: record_thread_def join_agents_def core_tables_def Let_def split: option.splits conversation.splits)

lemma record_notice_core [simp]: "core_tables (record_notice R e db) = core_tables db"
  by (simp add: record_notice_def join_agents_def core_tables_def Let_def split: body.splits option.splits)

lemma record_receipt_core: "record_receipt R a i d db = (db', r) \<Longrightarrow> core_tables db' = core_tables db"
  by (auto simp: record_receipt_def Let_def core_tables_def split: sum.splits prod.splits if_splits)

lemma record_reply_core: "record_reply R e db = (db', r) \<Longrightarrow> core_tables db' = core_tables db"
  by (auto simp: record_reply_def split: body.splits intent.splits sum.splits option.splits if_splits
      dest: record_receipt_core)

text \<open>The counters of \<open>record_size\<close> are not the clock.\<close>

lemma bump_Inr:
  "bump R key n db = (db', Inr v) \<Longrightarrow>
     \<exists>c. db' = db\<lparr>db_counters := c\<rparr> \<and> c = num_insert R (db_counters db) key v"
  by (auto simp: bump_def split: option.splits)

lemma record_size_core:
  assumes "redb_laws R" "record_size R s db = (db', Inr u)"
  shows "\<exists>c. db' = db\<lparr>db_counters := c\<rparr> \<and> get_number R c ''clock'' = get_number R (db_counters db) ''clock''"
  using assms(2)
  by (auto simp: record_size_def tx_then_Inr tx_update_def tx_read_def get_number_def redb_lawsD [OF assms(1)]
      dest!: bump_Inr split: if_splits)

text \<open>What \<open>record\<close> does to the tables of the ledger.\<close>

lemma record_event_core:
  fixes R :: "('t, 'n, 'p, 'b, 'j, 'z) store_lib_scheme"
  assumes "redb_laws R" "record_event R s cur db = (db', Inr u)"
  defines "e \<equiv> sealed_event s"
  shows "db_events db' = text_insert R (db_events db) (event_key (ev_id e)) (sealed_encoded s)"
    "db_cursors db' = pair_insert R (db_cursors db) (origin_str (ev_origin e)) (cur_seen cur, cur_clock cur)"
    "get_number R (db_counters db') ''clock'' = max (get_number R (db_counters db) ''clock'') (ev_clock e)"
    "db_acks db' = db_acks db" "db_resolutions db' = db_resolutions db" "db_tombstones db' = db_tombstones db"
    "db_meta db' = db_meta db"
proof -
  obtain d1 d2 where h: "handoff_record R e db = (d1, Inr ())"
    and r: "record_reply R e (record_notice R e (record_thread R e (d1
        \<lparr>db_events := text_insert R (db_events d1) (event_key (ev_id e)) (sealed_encoded s),
         db_order := text_insert R (db_order d1) (order_key e) (event_key (ev_id e))\<rparr>))) = (d2, Inr ())"
    and z: "record_size R s (record_cursor R e cur d2) = (db', Inr u :: ('j store_error, unit) result)"
    using assms(2) by (auto simp: record_event_def Let_def e_def tx_then_Inr tx_update_def)
  from record_size_core [OF assms(1) z] obtain c where c: "db' = (record_cursor R e cur d2)\<lparr>db_counters := c\<rparr>"
    "get_number R c ''clock'' = get_number R (db_counters (record_cursor R e cur d2)) ''clock''" by blast
  note d = handoff_record_core [OF h, unfolded core_tables_eq]
    record_reply_core [OF r, simplified, unfolded core_tables_eq, simplified]
  show "db_events db' = text_insert R (db_events db) (event_key (ev_id e)) (sealed_encoded s)"
    "db_cursors db' = pair_insert R (db_cursors db) (origin_str (ev_origin e)) (cur_seen cur, cur_clock cur)"
    "get_number R (db_counters db') ''clock'' = max (get_number R (db_counters db) ''clock'') (ev_clock e)"
    "db_acks db' = db_acks db" "db_resolutions db' = db_resolutions db" "db_tombstones db' = db_tombstones db"
    "db_meta db' = db_meta db"
    using d c by (simp_all add: core_tables_eq record_cursor_def Let_def get_number_def redb_lawsD [OF assms(1)])
qed

lemma project_change_core:
  assumes "project_change R e ch db = (db', Inr u)"
  shows "db_events db' = db_events db" "db_cursors db' = db_cursors db" "db_acks db' = db_acks db"
    "db_counters db' = db_counters db" "db_tombstones db' = db_tombstones db" "db_meta db' = db_meta db"
    "db_resolutions db' =
       (case ch of
          ChResolution r res True \<Rightarrow>
            text_insert R (db_resolutions db) (event_key r) (projr (rec_encode (lib_resolution R) res))
        | _ \<Rightarrow> db_resolutions db)"
    "ch = ChResolution r res True \<Longrightarrow> \<exists>text. rec_encode (lib_resolution R) res = Inr text"
  using assms
  by (auto simp: project_change_def upsert_def encode_record_def record_read_def Let_def result_simps
      split: view_change.splits option.splits sum.splits prod.splits if_splits bool.splits
      dest!: record_receipt_core simp: core_tables_eq)

section \<open>The laws of the libraries\<close>

text \<open>
  The database is a family of ordered maps, and the JSON codec reads back what it wrote: an event, and
  the record of a resolution, whose text is within the size limit of a record.
\<close>

definition store_laws :: "('t, 'n, 'p, 'b, 'j, 'z) store_lib_scheme \<Rightarrow> bool" where
  "store_laws R \<longleftrightarrow>
     redb_laws R \<and>
     (\<forall>e text. codec_encode (lib_codec R) e = Some text \<longrightarrow> lib_event R (map of_char text) = Inr e) \<and>
     (\<forall>x text. rec_encode (lib_resolution R) x = Inr text \<longrightarrow>
        length text \<le> MAX_RECORD \<and> rec_decode (lib_resolution R) (map of_char text) = Inr x)"

lemma store_lawsD:
  assumes "store_laws R"
  shows "redb_laws R" "codec_encode (lib_codec R) e = Some text \<Longrightarrow> lib_event R (map of_char text) = Inr e"
    "rec_encode (lib_resolution R) x = Inr text \<Longrightarrow> length text \<le> MAX_RECORD"
    "rec_encode (lib_resolution R) x = Inr text \<Longrightarrow> rec_decode (lib_resolution R) (map of_char text) = Inr x"
  using assms by (auto simp: store_laws_def)

section \<open>The relation\<close>

definition store_rel :: "('t, 'n, 'p, 'b, 'j, 'z) store_lib_scheme \<Rightarrow> ('t, 'n, 'p, 'b) tx \<Rightarrow> model \<Rightarrow> bool" where
  "store_rel R t m \<longleftrightarrow>
     (let db = tx_db t in
      tx_origin t = m_origin m \<and> wf_origin (m_origin m) \<and> history_ok m \<and> finite (dom (m_events m)) \<and>
      (\<forall>i s. m_events m i = Some s \<longrightarrow> ids_ok (sealed_event s) \<and> sealed_new (lib_codec R) (sealed_event s) = Inr s) \<and>
      (\<forall>i. wf_event_id i \<longrightarrow>
         text_get R (db_events db) (event_key i) = map_option sealed_encoded (m_events m i) \<and>
         tomb_get R (db_tombstones db) (event_key i) = None \<and>
         view_resolution R db i = Inr (m_resolutions m i)) \<and>
      (\<forall>p. view_cursor R db p = model_cursor m p) \<and>
      (\<forall>p. get_number R (db_acks db) (origin_str p) = model_ack m p) \<and>
      get_number R (db_counters db) ''clock'' = m_clock m)"

lemma store_relD:
  assumes "store_rel R t m"
  shows "tx_origin t = m_origin m" "wf_origin (m_origin m)" "history_ok m" "finite (dom (m_events m))"
    "m_events m i = Some s \<Longrightarrow> ids_ok (sealed_event s)"
    "m_events m i = Some s \<Longrightarrow> sealed_new (lib_codec R) (sealed_event s) = Inr s"
    "wf_event_id i \<Longrightarrow> text_get R (db_events (tx_db t)) (event_key i) = map_option sealed_encoded (m_events m i)"
    "wf_event_id i \<Longrightarrow> tomb_get R (db_tombstones (tx_db t)) (event_key i) = None"
    "wf_event_id i \<Longrightarrow> view_resolution R (tx_db t) i = Inr (m_resolutions m i)"
    "view_cursor R (tx_db t) p = model_cursor m p" "get_number R (db_acks (tx_db t)) (origin_str p) = model_ack m p"
    "get_number R (db_counters (tx_db t)) ''clock'' = m_clock m"
  using assms unfolding store_rel_def Let_def by blast+

text \<open>The relation depends on the tables of the ledger only.\<close>

lemma store_rel_core:
  assumes "store_rel R t m" "core_tables (tx_db t') = core_tables (tx_db t)" "tx_origin t' = tx_origin t"
  shows "store_rel R t' m"
  using assms by (simp add: store_rel_def Let_def core_tables_eq view_resolution_def view_cursor_def)

lemma sealed_short: "sealed_new C e = Inr s \<Longrightarrow> length (sealed_encoded s) \<le> MAX_RECORD"
  by (auto simp: sealed_new_Inr MAX_EVENT_BYTES_def MAX_RECORD_def)

lemma view_stored_rel:
  assumes "store_laws R" "store_rel R t m" "wf_event_id i"
  shows "view_stored R (tx_db t) i =
    Inr (map_option (\<lambda>s. StoredEvent (sealed_event s) (sealed_encoded s)) (m_events m i))"
proof (cases "m_events m i")
  case None
  then show ?thesis
    using store_relD(7,8) [OF assms(2,3)] by (simp add: view_stored_def)
next
  case (Some s)
  have s: "sealed_new (lib_codec R) (sealed_event s) = Inr s" using store_relD(6) [OF assms(2) Some] .
  then have "lib_event R (map of_char (sealed_encoded s)) = Inr (sealed_event s)"
    using store_lawsD(2) [OF assms(1)] by (metis sealed.select_convs(2) sealed_new_Inr)
  moreover have "ev_id (sealed_event s) = i" using history_okD(1) [OF store_relD(3) [OF assms(2)] Some] .
  ultimately show ?thesis
    using Some store_relD(7) [OF assms(2,3)] sealed_short [OF s]
    by (simp add: view_stored_def decode_record_def json_def)
qed

lemma resolve_id: "resolve L l e q c = Inr (ChResolution r res w) \<Longrightarrow> q = r"
proof -
  have c: "resolve_candidate e q c k a = Inr (ChResolution r res w) \<Longrightarrow> q = r" for k a
    by (auto simp: resolve_candidate_def Let_def split: prod.splits if_splits ending.splits)
  have p: "plain_reply e en \<noteq> Inr (ChResolution r res w)" for en
    by (simp add: plain_reply_def split: ending.splits)
  assume "resolve L l e q c = Inr (ChResolution r res w)"
  then show "q = r"
    by (cases "l_resolution L l q"; cases "checked_parent L l e q")
      (auto simp: resolve_def p split: option.split_asm parent.split_asm if_split_asm dest: c)
qed

lemma other_changes:
  "started L l e q \<noteq> Inr (ChResolution r res w)" "receipt L l e q d \<noteq> Inr (ChResolution r res w)"
  "handoff_read L l e ob au \<noteq> Inr (ChResolution r res w)"
  by (auto simp: started_def receipt_def receipt_change_def handoff_read_def Let_def result_simps
      split: option.split_asm if_split_asm parent.split_asm body.split_asm)

lemma change_resolution_id: "change L l e = Inr (ChResolution r res w) \<Longrightarrow> body_request (ev_body e) = Some r"
  by (auto simp: change_def other_changes split: body.split_asm intent.split_asm dest: resolve_id)

lemma origin_key: "wf_event_id i \<Longrightarrow> wf_event_id j \<Longrightarrow> i \<noteq> j \<Longrightarrow> event_key i \<noteq> event_key j"
  using event_key_inj by blast

lemma decode_resolution:
  assumes "store_laws R" "rec_encode (lib_resolution R) res = Inr z"
  shows "decode_record (rec_decode (lib_resolution R)) z = Inr res"
  using store_lawsD(3,4) [OF assms] by (simp add: decode_record_def json_def)

text \<open>A commit that completes on the store keeps the relation.\<close>

lemma store_commit_rel:
  assumes L: "store_laws R" and rel: "store_rel R t m" and ids: "ids_ok (sealed_event s)"
    and new: "sealed_new (lib_codec R) (sealed_event s) = Inr s"
    and adm: "admit (model_ops (lib_codec R)) m s = Inr (Append a)" and com: "store_commit R t s a = (t', Inr ())"
  shows "store_rel R t' (model_commit m s a)"
proof -
  let ?e = "sealed_event s" and ?m = "model_commit m s a"
  note laws = redb_lawsD [OF store_lawsD(1) [OF L]] and old = store_relD [OF rel]
  obtain d1 d2 where rec: "record_event R s (adm_cursor a) (tx_db t) = (d1, Inr ())"
    and pro: "project_change R ?e (adm_change a) d1 = (d2, Inr ())" and t': "t' = t\<lparr>tx_db := d2, tx_appended := True\<rparr>"
    using com by (auto simp: store_commit_def tx_then_Inr on_db_def tx_update_def Let_def split: prod.splits)
  note r = record_event_core [OF store_lawsD(1) [OF L] rec] and p = project_change_core [OF pro]
  have wf: "wf_event_id (ev_id ?e)" using ids by (simp add: ids_ok_def)
  have ev: "text_get R (db_events d2) (event_key i) = map_option sealed_encoded (m_events ?m i)" if "wf_event_id i" for i
    using that wf old(7) [OF that] origin_key [OF that wf] by (auto simp: p r laws)
  have res: "view_resolution R d2 i = Inr (m_resolutions ?m i)" if i: "wf_event_id i" for i
  proof (cases "\<exists>q res. adm_change a = ChResolution q res True")
    case True
    then obtain q res where q: "adm_change a = ChResolution q res True" by blast
    then obtain z where enc: "rec_encode (lib_resolution R) res = Inr z" using p(8) by blast
    have "wf_event_id q"
      using ids change_resolution_id admit_model(4) [OF adm] q by (force simp: ids_ok_def)
    then show ?thesis
      using old(9) [OF i] origin_key [OF i] decode_resolution [OF L enc] q enc
      by (auto simp: view_resolution_def get_json_def p r laws model_commit_def apply_change_def Let_def)
  next
    case False
    then have "db_resolutions d2 = db_resolutions (tx_db t)" "m_resolutions ?m = m_resolutions m"
      by (auto simp: p r model_commit_def apply_change_def Let_def split: view_change.splits bool.splits)
    then show ?thesis using old(9) [OF i] by (simp add: view_resolution_def)
  qed
  have cur: "view_cursor R d2 q = model_cursor ?m q" for q
    using old(10) [of q] by (simp add: view_cursor_def p r laws model_cursor_commit origin_key_inj)
  have held: "ids_ok (sealed_event z) \<and> sealed_new (lib_codec R) (sealed_event z) = Inr z" if "m_events ?m i = Some z" for i z
    using that old(5,6) ids new by (auto split: if_splits)
  have clk: "get_number R (db_counters d2) ''clock'' = m_clock ?m" by (simp add: p r old(12))
  have acks: "get_number R (db_acks d2) (origin_str q) = model_ack ?m q" for q
    using old(11) [of q] by (simp add: p r model_ack_def)
  show ?thesis
    unfolding store_rel_def Let_def
    using history_commit [OF old(3) adm] old(1,2,4,8) ev res cur held clk acks by (simp add: t') (simp add: p r)
qed

section \<open>What the store sends\<close>

text \<open>The model's own events after \<open>k\<close>: the next one, and those after it.\<close>

lemma own_events_step:
  assumes "history_ok m" "finite (dom (m_events m))" "k < cur_seen (model_cursor m (m_origin m))"
  obtains s where "m_events m (EventId (m_origin m) (k + 1)) = Some s" "k \<noteq> - 1"
    "own_events m k = sealed_event s # own_events m (k + 1)"
proof -
  let ?i = "EventId (m_origin m) (k + 1)"
  let ?ids = "\<lambda>k. filter (\<lambda>i. event_origin i = m_origin m \<and> k < event_seq i) (sorted_list_of_set (dom (m_events m)))"
  have k: "k \<noteq> - 1" using assms(3) using word_order.extremum_strict by blast
  then have u: "unat (k + 1) = Suc (unat k)" by (rule unat_succ)
  then have "m_events m ?i \<noteq> None"
    using history_okD(2) [OF assms(1), of ?i] assms(3) by (simp add: word_less_nat_alt word_le_nat_alt)
  then obtain s where s: "m_events m ?i = Some s" by blast
  have after: "k < j \<longleftrightarrow> j = k + 1 \<or> k + 1 < j" for j
    unfolding word_less_nat_alt word_unat_eq_iff u by linarith
  have mem: "j \<in> set (?ids q) \<longleftrightarrow> m_events m j \<noteq> None \<and> event_origin j = m_origin m \<and> q < event_seq j" for j q
    using assms(2) by (simp add: dom_def)
  have srt: "sorted_wrt (<) (?ids j)" for j
    by (intro sorted_wrt_filter) (simp add: strict_sorted_iff)
  have "?ids k = ?i # ?ids (k + 1)"
  proof (rule strict_sorted_equal)
    show "sorted_wrt (<) (?i # ?ids (k + 1))" using srt [of "k + 1"] mem [of _ "k + 1"] by (simp add: less_event_id_def)
    show "set (?ids k) = set (?i # ?ids (k + 1))"
    proof (rule set_eqI)
      fix j
      show "j \<in> set (?ids k) \<longleftrightarrow> j \<in> set (?i # ?ids (k + 1))"
        unfolding list.set insert_iff mem using after [of "event_seq j"] s by (cases j) auto
    qed
  qed (rule srt)
  then have "own_events m k = sealed_event s # own_events m (k + 1)" unfolding own_events_def using s by simp
  with that s k show ?thesis by blast
qed

lemma own_events_end:
  assumes "history_ok m" "\<not> k < cur_seen (model_cursor m (m_origin m))"
  shows "own_events m k = []"
proof -
  have "\<not> k < event_seq i" if "m_events m i \<noteq> None" "event_origin i = m_origin m" for i
    using history_okD(2) [OF assms(1), of i] that assms(2) by auto
  then show ?thesis
    by (cases "finite (dom (m_events m))") (auto simp: own_events_def filter_empty_conv)
qed

lemma outgoing_loop_rel:
  assumes "store_laws R" "store_rel R t m" "outgoing_loop R t p (cur_seen (model_cursor m (m_origin m))) k b = (b', Inr ())"
  shows "offer_all (lib_codec R) p (own_events m k) b = b'"
  using assms(3)
proof (induction "unat (cur_seen (model_cursor m (m_origin m))) - unat k" arbitrary: k b rule: less_induct)
  case less
  note old = store_relD [OF assms(2)]
  show ?case
  proof (cases "k < cur_seen (model_cursor m (m_origin m))")
    case False
    then show ?thesis using less.prems own_events_end [OF old(3)] by (simp add: outgoing_loop.simps)
  next
    case True
    from own_events_step [OF old(3,4) True] obtain s where s: "m_events m (EventId (m_origin m) (k + 1)) = Some s"
      and k: "k \<noteq> - 1" and own: "own_events m k = sealed_event s # own_events m (k + 1)" .
    have u: "unat (k + 1) = Suc (unat k)" using k by (rule unat_succ)
    then have nz: "k + 1 \<noteq> 0" by auto
    then have "wf_event_id (EventId (m_origin m) (k + 1))" using old(2) by (simp add: wf_event_id_def)
    from view_stored_rel [OF assms(1,2) this] s
    have v: "view_stored R (tx_db t) (EventId (tx_origin t) (k + 1)) = Inr (Some (StoredEvent (sealed_event s) (sealed_encoded s)))"
      by (simp add: old(1))
    obtain b1 r where o: "offer_event (lib_codec R) b (sealed_event s) p = (b1, r)" by fastforce
    have "r = Inr False \<and> b' = b1 \<or> r = Inr True \<and> outgoing_loop R t p (cur_seen (model_cursor m (m_origin m))) (k + 1) b1 = (b', Inr ())"
      using less.prems True k nz v o
      by (subst (asm) outgoing_loop.simps) (auto simp: checked_succ Let_def split: sum.splits bool.splits)
    then show ?thesis
      using less.hyps [of "k + 1" b1] True u o own by (auto simp: word_less_nat_alt)
  qed
qed

section \<open>The simulation\<close>

lemma store_ops_simps [simp]:
  "l_local (store_ops R) t = tx_origin t"
  "l_cursor (store_ops R) t p = Inr (view_cursor R (tx_db t) p)"
  "l_digest (store_ops R) t i = store_digest R t i"
  "l_parent (store_ops R) t i = store_parent R t i"
  "l_resolution (store_ops R) t i = view_resolution R (tx_db t) i"
  "l_clock (store_ops R) t = Inr (get_number R (db_counters (tx_db t)) ''clock'')"
  "l_commit (store_ops R) t s a = store_commit R t s a"
  "o_outgoing (store_ops R) t p k b = outgoing_loop R t p (cur_seen (view_cursor R (tx_db t) (tx_origin t))) k b"
  "o_ack (store_ops R) t p = Inr (get_number R (db_acks (tx_db t)) (origin_str p))"
  "o_record_ack (store_ops R) t p k = (store_record_ack R t p k, Inr ())"
  by (simp_all add: store_ops_def)

lemma store_digest_rel:
  assumes "store_laws R" "store_rel R t m" "wf_event_id i"
  shows "store_digest R t i = Inr (model_digest m i)"
proof -
  have "codec_hash (lib_codec R) (sealed_encoded s) = sealed_digest s" if "m_events m i = Some s" for s
    using store_relD(6) [OF assms(2) that] by (auto simp: sealed_new_Inr) (metis sealed.select_convs(2,3))
  then show ?thesis
    by (cases "m_events m i") (simp_all add: store_digest_def view_stored_rel [OF assms] model_digest_def)
qed

lemma store_parent_rel:
  assumes "store_laws R" "store_rel R t m" "wf_event_id i"
  shows "store_parent R t i = Inr (model_parent m i)"
  by (cases "m_events m i") (simp_all add: store_parent_def view_stored_rel [OF assms] model_parent_def)

lemma store_record_ack_rel:
  assumes "redb_laws R" "store_rel R t m"
  shows "store_rel R (store_record_ack R t p k) (model_record_ack m p k)"
proof -
  let ?t = "store_record_ack R t p k" and ?m = "model_record_ack m p k"
  note old = store_relD [OF assms(2)]
  have own: "(case m_cursors m (m_origin m) of Some c \<Rightarrow> cur_seen c | None \<Rightarrow> 0) = cur_seen (model_cursor m (m_origin m))"
    by (simp add: model_cursor_def cursor_default_def split: option.splits)
  have acks: "get_number R (db_acks (tx_db ?t)) (origin_str q) = model_ack ?m q" for q
    using old(11) [of q] old(11) [of p]
    by (auto simp: store_record_ack_def model_record_ack_def Let_def own old(1,10) model_ack_def get_number_def
        redb_lawsD [OF assms(1)] origin_key_inj)
  have frame: "tx_origin ?t = tx_origin t" "core_tables ((tx_db ?t)\<lparr>db_acks := db_acks (tx_db t)\<rparr>) = core_tables (tx_db t)"
    by (simp_all add: store_record_ack_def Let_def core_tables_def)
  then have db: "db_events (tx_db ?t) = db_events (tx_db t)" "db_cursors (tx_db ?t) = db_cursors (tx_db t)"
    "db_counters (tx_db ?t) = db_counters (tx_db t)" "db_resolutions (tx_db ?t) = db_resolutions (tx_db t)"
    "db_tombstones (tx_db ?t) = db_tombstones (tx_db t)"
    by (simp_all add: core_tables_eq)
  have m: "m_origin ?m = m_origin m" "m_events ?m = m_events m" "m_cursors ?m = m_cursors m" "m_clock ?m = m_clock m"
    "m_resolutions ?m = m_resolutions m"
    by (simp_all add: model_record_ack_def Let_def)
  show ?thesis
    using assms(2) history_ack [OF old(3), of p k] acks
    by (simp add: store_rel_def Let_def frame(1) db m view_resolution_def view_cursor_def model_cursor_def)
qed

locale store_library =
  fixes R :: "('t, 'n, 'p, 'b, 'j, 'z) store_lib_scheme"
  assumes laws: "store_laws R"

lemma store_record_ack_room: "l_has_room (store_ops R) (store_record_ack R t p k) = l_has_room (store_ops R) t"
  by (simp add: store_ops_def store_record_ack_def view_usage_def Let_def)

sublocale store_library \<subseteq> sim: outbox_sim "store_ops R" "model_ops (lib_codec R)" "store_rel R"
  "\<lambda>_. ErrIdentityChanged" ids_ok "lib_codec R"
  by unfold_locales
    (auto simp: store_record_ack_room store_relD store_digest_rel [OF laws] store_parent_rel [OF laws] store_lawsD(1) [OF laws]
      intro: store_commit_rel [OF laws] store_record_ack_rel outgoing_loop_rel [OF laws])

end
