(* ===== verification/Store_Steps.thy ===== *)
theory Store_Steps
  imports Store_Refine
begin

text \<open>
  Every operation of the chat store is a sequence of steps of the reference model: \<open>refines R work\<close> says
  so of one piece of work on a transaction, rules for its composition carry it to the operations of
  \<open>chat/store/turns.rs\<close>, \<open>notifications.rs\<close>, \<open>handoff.rs\<close> and \<open>admin.rs\<close>, and \<open>store_step\<close> is any operation that
  commits.
\<close>

definition refines ::
  "('t, 'n, 'p, 'b, 'j, 'z) store_lib_scheme \<Rightarrow> (('t, 'n, 'p, 'b) tx \<Rightarrow> ('t, 'n, 'p, 'b) tx \<times> ('e, 'a) result) \<Rightarrow> bool" where
  "refines R work \<longleftrightarrow>
     (\<forall>t t' v m. store_rel R t m \<longrightarrow> work t = (t', Inr v) \<longrightarrow>
        (\<exists>m'. model_steps (lib_codec R) m m' \<and> store_rel R t' m'))"

named_theorems refines_intros \<open>work that the model can follow\<close>

lemma refinesD:
  assumes "refines R work" "store_rel R t m" "work t = (t', Inr v)"
  obtains m' where "model_steps (lib_codec R) m m'" "store_rel R t' m'"
  using assms unfolding refines_def by blast

lemma refines_then:
  assumes "refines R f" "\<And>t t' a. f t = (t', Inr a) \<Longrightarrow> refines R (g a)"
  shows "refines R (tx_then f g)"
  unfolding refines_def
proof (intro allI impI)
  fix t t' v m assume rel: "store_rel R t m" and "tx_then f g t = (t', Inr v)"
  then obtain t1 a where f: "f t = (t1, Inr a)" and g: "g a t1 = (t', Inr v)" by (auto simp: tx_then_Inr)
  from refinesD [OF assms(1) rel f] obtain m1 where m1: "model_steps (lib_codec R) m m1" "store_rel R t1 m1" .
  from refinesD [OF assms(2) [OF f] m1(2) g] obtain m2 where "model_steps (lib_codec R) m1 m2" "store_rel R t' m2" .
  with m1(1) show "\<exists>m'. model_steps (lib_codec R) m m' \<and> store_rel R t' m'" by (meson rtranclp_trans)
qed

lemma refines_read [refines_intros]: "refines R (tx_read f)"
  by (auto simp: refines_def tx_read_def)

lemma refines_local:
  assumes "\<And>t t' v. f t = (t', Inr v) \<Longrightarrow> core_tables (tx_db t') = core_tables (tx_db t) \<and> tx_origin t' = tx_origin t"
  shows "refines R f"
  unfolding refines_def
proof (intro allI impI)
  fix t t' v m assume rel: "store_rel R t m" and "f t = (t', Inr v)"
  then have "store_rel R t' m" using assms by (blast intro: store_rel_core)
  then show "\<exists>m'. model_steps (lib_codec R) m m' \<and> store_rel R t' m'" by blast
qed

lemma refines_update:
  assumes "\<And>t. core_tables (tx_db (f t)) = core_tables (tx_db t) \<and> tx_origin (f t) = tx_origin t"
  shows "refines R (tx_update f)"
  by (rule refines_local) (use assms in \<open>auto simp: tx_update_def\<close>)

lemma refines_skip [refines_intros]: "refines R (tx_update id)"
  by (rule refines_update) simp

lemma refines_each:
  assumes "\<And>x. x \<in> set xs \<Longrightarrow> refines R (f x)"
  shows "refines R (tx_each f xs)"
  using assms
proof (induction xs)
  case Nil
  then show ?case by (auto simp: refines_def)
next
  case (Cons x xs)
  then have "refines R (tx_then (f x) (\<lambda>_. tx_each f xs))" by (intro refines_then) auto
  moreover have "tx_each f (x # xs) = tx_then (f x) (\<lambda>_. tx_each f xs)" by (rule ext) simp
  ultimately show ?case by simp
qed

text \<open>A body whose request, if it has one, is an event identity of the code.\<close>

definition request_ok :: "body \<Rightarrow> bool" where
  "request_ok b \<longleftrightarrow> (\<forall>r. body_request b = Some r \<longrightarrow> wf_event_id r)"

lemma append_ids:
  assumes "store_rel R t m" "request_ok b" "append_event C (store_ops R) t b = (t', Inr e)"
  shows "ids_ok e"
proof -
  from assms(3) obtain i c where n: "next_local (store_ops R) t = Inr (i, c)" "event_new i c b = Inr e"
    unfolding append_event_Inr by blast
  then obtain k where k: "i = EventId (tx_origin t) (k + 1)" "k \<noteq> - 1" by (auto simp: next_local_Inr)
  from unat_succ [OF k(2)] have "k + 1 \<noteq> 0" by auto
  then have "wf_event_id i" using k(1) store_relD(1,2) [OF assms(1)] by (simp add: wf_event_id_def)
  then show ?thesis using event_new_fields [OF n(2)] assms(2) by (auto simp: ids_ok_def request_ok_def)
qed

context store_library
begin

text \<open>What is written on the store is the event the model writes.\<close>

lemma author_rel:
  assumes "store_rel R t m" "request_ok b" "author R pr b t = (t', Inr e)"
  shows "\<exists>m'. model_write (lib_codec R) m b = (m', Inr e) \<and> store_rel R t' m'"
proof -
  have "append_event (lib_codec R) (store_ops R) t b = (t', Inr e)"
    using assms(3) by (auto simp: author_def Let_def map_err_Inr_iff split: sum.splits prod.splits)
  from sim.append_sim [OF assms(1) this append_ids [OF assms(1,2) this]] show ?thesis by (simp add: model_write_def)
qed

lemma refines_author: "request_ok b \<Longrightarrow> refines R (author R pr b)"
  unfolding refines_def using author_rel append_steps unfolding model_write_def by metis

lemmas offer_rel = sim.offer_sim and respond_rel = sim.respond_sim and accept_rel = sim.accept_sim

lemma refines_respond:
  assumes "\<forall>e \<in> set (batch_events (off_batch off)). ids_ok e" "wf_origin (off_from off)"
  shows "refines R (\<lambda>t. respond (lib_codec R) (store_ops R) t off)"
  unfolding refines_def using sim.respond_sim [OF _ assms] respond_steps by metis

lemma refines_accept:
  assumes "\<forall>e \<in> set (batch_events (ans_batch ans)). ids_ok e" "wf_origin (ans_from ans)"
  shows "refines R (\<lambda>t. accept (lib_codec R) (store_ops R) t off ans)"
  unfolding refines_def using sim.accept_sim [OF _ assms] accept_steps by metis

end

section \<open>What the views give\<close>

lemma view_stored_id: "view_stored R db i = Inr (Some (StoredEvent e x)) \<Longrightarrow> ev_id e = i"
  by (auto simp: view_stored_def Let_def result_simps split: option.split_asm if_split_asm prod.split_asm)

lemma view_event_id:
  assumes "view_event R db i = Inr (Some e)"
  shows "ev_id e = i"
proof -
  from assms obtain y where "view_stored R db i = Inr y" "(case y of Some (StoredEvent e _) \<Rightarrow> Some e | _ \<Rightarrow> None) = Some e"
    by (auto simp: view_event_def result_simps)
  then show ?thesis by (auto split: option.split_asm stored.split_asm dest: view_stored_id)
qed

lemma open_asks_wf: "open_asks R db = Inr asks \<Longrightarrow> (r, a) \<in> set asks \<Longrightarrow> wf_event_id r"
  unfolding open_asks_def by (drule (1) traverse_set) (auto simp: result_simps event_id_try_from_iff)

lemma open_for_wf:
  fixes R :: "('t, 'n, 'p, 'b, 'j, 'z) store_lib_scheme"
  assumes "open_for R db agent = Inr es" "e \<in> set es"
  shows "wf_event_id (ev_id e)"
proof -
  obtain asks found where a: "(open_asks R db :: ('j store_error, _) result) = Inr asks"
    and f: "traverse (\<lambda>(request, responder).
        if responder = agent \<and> text_get R (db_turns db) (event_key request) = None
        then view_event R db request else Inr None) asks = Inr found"
    and es: "es = sort_key ev_order (List.map_filter id found)"
    using assms(1) by (auto simp: open_for_def result_simps)
  have "Some e \<in> set found" using assms(2) es by (auto simp: map_filter_def)
  from traverse_set [OF f this] obtain r b where "(r, b) \<in> set asks" "view_event R db r = Inr (Some e)"
    by (auto split: if_splits)
  then show ?thesis using open_asks_wf [OF a] view_event_id by metis
qed

section \<open>The operations\<close>

context store_library
begin

lemmas then_read = refines_then [OF refines_read]

lemma refines_ending: "request_ok b \<Longrightarrow> refines R (tx_then (author R pr b) (\<lambda>_. tx_update id))"
  by (intro refines_then refines_author refines_skip)

lemma refines_activity: "refines R (worker_activity R now agent state)"
  unfolding worker_activity_def Let_def
  by (intro then_read refines_ending) (simp add: request_ok_def)

lemma refines_end: "wf_event_id (ev_id request) \<Longrightarrow> refines R (tx_end R request agent outcome)"
  unfolding tx_end_def
  by (intro then_read) (auto simp: ending_body_def tx_read_def result_simps request_ok_def intro!: refines_intros refines_ending then_read)

lemma refines_end_known: "wf_event_id request \<Longrightarrow> refines R (end_known R agent outcome request)"
  unfolding end_known_def
  by (intro then_read)
    (auto simp: tx_read_def split: option.splits intro!: refines_intros refines_end dest: view_event_id)

lemma refines_remove_turn: "refines R (tx_update (remove_turn R request))"
  by (rule refines_update) (simp add: remove_turn_def core_tables_def)

lemma triage_wf:
  "triage_loop R db origin asks found = Inr t \<Longrightarrow> (r, a) \<in> set (tri_unavailable t) \<Longrightarrow>
     (r, a) \<in> set (tri_unavailable found) \<or> (r, a) \<in> set asks"
proof (induction asks arbitrary: found)
  case Nil
  then show ?case by simp
next
  case (Cons x asks)
  obtain q b where x: "x = (q, b)" by fastforce
  let ?next = "\<lambda>found'. triage_loop R db origin asks found' = Inr t \<and>
    set (tri_unavailable found') \<subseteq> insert x (set (tri_unavailable found))"
  have "\<exists>found'. ?next found'"
  proof (cases "agent_origin b = origin")
    case True
    then obtain c l where "view_profile R db b = Inr c" "agent_config R db (agent_name b) = Inr l"
      using Cons.prems(1) x by (auto simp: result_simps)
    with True Cons.prems(1) x show ?thesis
      by (cases c; cases l) (auto split: if_split_asm intro: exI [of ?next found])
  qed (use Cons.prems(1) x in auto)
  with Cons.IH Cons.prems(2) show ?case by auto
qed

lemma refines_dispatchable: "refines R (tx_dispatchable R)"
  unfolding tx_dispatchable_def
proof (intro then_read refines_then refines_each refines_read)
  fix t t' :: "('t, 'n, 'p, 'b) tx" and tri x
  assume "tx_read (\<lambda>t. triage_asks R (tx_origin t) (tx_db t)) t = (t', Inr tri)" and x: "x \<in> set (tri_unavailable tri)"
  then have "wf_event_id (fst x)"
    by (cases x) (auto simp: tx_read_def triage_asks_def result_simps dest!: triage_wf dest: open_asks_wf)
  then show "refines R (case x of (request, responder) \<Rightarrow> end_known R responder Unavailable request)"
    by (cases x) (simp add: refines_end_known)
qed

lemma refines_recover: "refines R (tx_recover R now agent)"
  unfolding tx_recover_def
proof (intro then_read refines_then refines_each refines_read)
  fix t t' :: "('t, 'n, 'p, 'b) tx" and claimed x
  assume "tx_read (\<lambda>t. claimed_turns R (tx_db t) agent) t = (t', Inr claimed)" and x: "x \<in> set claimed"
  then show "refines R (end_known R agent Interrupted x)"
    by (auto simp: tx_read_def claimed_turns_def result_simps event_id_try_from_iff dest!: traverse_set
        intro!: refines_end_known)
qed (auto intro: refines_remove_turn refines_activity refines_skip)

lemma refines_claim_request: "wf_event_id (ev_id request) \<Longrightarrow> refines R (claim_request R now agent request)"
  unfolding claim_request_def Let_def
  by (auto split: prod.splits simp: request_ok_def core_tables_def
      intro!: then_read refines_then refines_author refines_activity refines_update refines_read)

lemma refines_claim: "refines R (tx_claim R now agent)"
  unfolding tx_claim_def
  by (intro then_read)
    (auto split: list.splits simp: tx_read_def [where f = "\<lambda>t. open_for R (tx_db t) agent"]
      intro!: refines_read refines_claim_request open_for_wf)

lemma refines_finish:
  assumes "wf_event_id (ev_id (turn_request turn))"
  shows "refines R (tx_finish R at now turn completion)"
proof -
  have "refines R (finish_answer R at turn answer session)" for answer session
    unfolding finish_answer_def using assms
    by (auto split: prod.splits simp: request_ok_def core_tables_def
        intro!: then_read refines_then refines_author refines_update refines_read)
  then show ?thesis
    unfolding tx_finish_def using refines_end [OF assms]
    by (auto split: completion.splits intro!: refines_then refines_remove_turn refines_activity)
qed

lemma refines_if: "refines R f \<Longrightarrow> refines R g \<Longrightarrow> refines R (\<lambda>t. if c t then f t else g t)"
  unfolding refines_def by (auto split: if_splits)

lemma refines_fail: "refines R (\<lambda>t. (t, Inl e))"
  by (simp add: refines_def)

lemma refines_receipt: "wf_event_id (ev_id message) \<Longrightarrow> refines R (tx_receipt R agent message received)"
  unfolding tx_receipt_def
  by (intro refines_if refines_fail then_read)
    (auto split: prod.splits simp: request_ok_def intro!: refines_intros then_read refines_ending)

lemma refines_escalate_one: "refines R (escalate_one R now request)"
proof -
  have "refines R (escalate_parent R now request parent)" for parent
    unfolding escalate_parent_def
    by (auto split: option.splits body.splits intent.splits
        simp: request_ok_def core_tables_def fallback_body_def Let_def result_simps tx_read_def [where s = "_ :: (_, _, _, _) tx"]
        intro!: then_read refines_then refines_author refines_update refines_read)
  then show ?thesis
    unfolding escalate_one_def
    by (intro refines_if then_read) (auto simp: refines_def [of R "\<lambda>t. (t, Inr False)"] split: option.splits intro: refines_read)
qed

lemma refines_escalate_loop: "refines R (escalate_loop R now asks count)"
proof (induction asks arbitrary: count)
  case Nil
  then show ?case by (auto simp: refines_def)
next
  case (Cons x asks)
  obtain q b where x: "x = (q, b)" by fastforce
  have "escalate_loop R now (x # asks) count = tx_then (escalate_one R now q) (\<lambda>escalated.
       escalate_loop R now asks (if escalated then usize_add count 1 else count))" by (rule ext) (simp add: x)
  with Cons.IH show ?case by (auto intro!: refines_then refines_escalate_one)
qed

lemma refines_escalate: "refines R (tx_escalate R now)"
  unfolding tx_escalate_def by (intro then_read refines_escalate_loop)

lemma refines_observation: "wf_event_id (obs_handoff (po_observation pending)) \<Longrightarrow> refines R (pending_commit R pending)"
  unfolding pending_commit_def Let_def
  by (intro then_read) (auto simp: request_ok_def intro!: refines_intros refines_ending)

lemma refines_settings:
  "refines R (tx_pin R alias peer replace)" "refines R (configure R name config)" "refines R (\<lambda>t. (mark_read R agent e t, Inr ()))"
  by (rule refines_local,
      auto simp: tx_pin_def configure_def on_db_def mark_read_def Let_def core_tables_def split: option.splits prod.splits if_splits)+

lemma refines_publish:
  "refines R (tx_then (tx_read (\<lambda>t. view_directory R (tx_db t) now)) (\<lambda>directory.
     if map_of (dir_machines directory) origin \<noteq> Some c then tx_then (author R Ordinary (Machine c)) (\<lambda>_. tx_update id)
     else tx_update id))"
  by (intro then_read) (auto simp: request_ok_def intro!: refines_ending refines_skip)

text \<open>A write that commits is followed by the model.\<close>

lemma store_write_rel:
  assumes "refines R work" "store_rel R (tx_new db p) m" "store_write R p work db = (db', Inr v)"
  shows "\<exists>m'. model_steps (lib_codec R) m m' \<and> store_rel R (tx_new db' p) m'"
proof -
  obtain t w where w: "work (tx_new db p) = (t, Inr w)" "db' = tx_db t"
    using assms(3) by (auto simp: store_write_def split: sum.splits prod.splits)
  from refinesD [OF assms(1,2) w(1)] obtain m' where m': "model_steps (lib_codec R) m m'" "store_rel R t m'" .
  have "tx_origin t = p"
    using model_steps_mono(2) [OF m'(1)] store_relD(1,3) [OF assms(2)] store_relD(1) [OF m'(2)] by (simp add: tx_new_def)
  then have "store_rel R (tx_new db' p) m'" using m'(2) w(2) by (intro store_rel_core [OF m'(2)]) (simp_all add: tx_new_def)
  with m'(1) show ?thesis by blast
qed

end

section \<open>Steps of the store\<close>

text \<open>
  Any operation of the store that commits, on the store of machine \<open>p\<close>. The side conditions say that
  the identities an operation is given are ones the types of the code allow.
\<close>

inductive store_step ::
  "('t, 'n, 'p, 'b, 'j, 'z) store_lib_scheme \<Rightarrow> origin \<Rightarrow> ('t, 'n, 'p, 'b) tables \<Rightarrow> ('t, 'n, 'p, 'b) tables \<Rightarrow> bool"
  for R p where
  step_author: "store_write R p (author R pr b) db = (db', Inr v) \<Longrightarrow> request_ok b \<Longrightarrow> store_step R p db db'"
| step_offer: "store_offer R p peer db = (db', Inr v) \<Longrightarrow> store_step R p db db'"
| step_respond: "store_respond R p off db = (db', Inr v) \<Longrightarrow> \<forall>e \<in> set (batch_events (off_batch off)). ids_ok e \<Longrightarrow>
    wf_origin (off_from off) \<Longrightarrow> store_step R p db db'"
| step_accept: "store_accept R p off ans db = (db', Inr v) \<Longrightarrow> \<forall>e \<in> set (batch_events (ans_batch ans)). ids_ok e \<Longrightarrow>
    wf_origin (ans_from ans) \<Longrightarrow> store_step R p db db'"
| step_dispatch: "dispatchable R p db = (db', Inr v) \<Longrightarrow> store_step R p db db'"
| step_recover: "recover R p now agent db = (db', Inr v) \<Longrightarrow> store_step R p db db'"
| step_claim: "claim R p now agent db = (db', Inr v) \<Longrightarrow> store_step R p db db'"
| step_finish: "finish R p at now turn completion db = (db', Inr v) \<Longrightarrow> wf_event_id (ev_id (turn_request turn)) \<Longrightarrow>
    store_step R p db db'"
| step_receipt: "store_write R p (tx_receipt R agent message received) db = (db', Inr v) \<Longrightarrow>
    wf_event_id (ev_id message) \<Longrightarrow> store_step R p db db'"
| step_escalate: "escalate R p now db = (db', Inr v) \<Longrightarrow> store_step R p db db'"
| step_observation: "store_write R p (pending_commit R pending) db = (db', Inr v) \<Longrightarrow>
    wf_event_id (obs_handoff (po_observation pending)) \<Longrightarrow> store_step R p db db'"
| step_publish: "publish_machine R p now c db = (db', Inr v) \<Longrightarrow> store_step R p db db'"
| step_pin: "pin R p alias peer replace db = (db', Inr v :: ('j store_error, unit \<times> u64 option) result) \<Longrightarrow> store_step R p db db'"
| step_unpin: "unpin R p alias db = (db', Inr v :: ('j store_error, bool \<times> u64 option) result) \<Longrightarrow> store_step R p db db'"
| step_link: "record_link R p alias link db = (db', Inr v) \<Longrightarrow> store_step R p db db'"
| step_configure: "store_write R p (configure R name config) db = (db', Inr v) \<Longrightarrow> store_step R p db db'"
| step_mark_read: "store_write R p (\<lambda>t. (mark_read R agent e t, Inr ())) db =
    (db', Inr v :: ('j store_error, unit \<times> u64 option) result) \<Longrightarrow> store_step R p db db'"

context store_library
begin

lemma refines_offer: "refines R (\<lambda>t. (t, offer (store_ops R) t peer))"
  by (auto simp: refines_def)

lemma refines_unpin: "refines R (\<lambda>t. let db = tx_db t
     in (t\<lparr>tx_db := db\<lparr>db_peers := text_remove R (db_peers db) alias, db_links := text_remove R (db_links db) alias\<rparr>\<rparr>,
         Inr (f db)))"
  by (rule refines_local) (auto simp: Let_def core_tables_def)

lemma refines_link: "refines R (\<lambda>t. case encode_record (rec_encode (lib_link R)) link of
     Inl e \<Rightarrow> (t, Inl e)
   | Inr text \<Rightarrow> (t\<lparr>tx_db := (tx_db t)\<lparr>db_links := text_insert R (db_links (tx_db t)) alias text\<rparr>\<rparr>, Inr ()))"
  by (rule refines_local) (auto simp: core_tables_def split: sum.splits)

lemma store_step_rel:
  assumes "store_step R p db db'" "store_rel R (tx_new db p) m"
  shows "\<exists>m'. model_steps (lib_codec R) m m' \<and> store_rel R (tx_new db' p) m'"
  using assms(1)
proof cases
  case (step_dispatch v)
  then consider "db' = db" | w where "store_write R p (tx_dispatchable R) db = (db', Inr w)"
    by (auto simp: dispatchable_def split: sum.splits if_splits)
  then show ?thesis using assms(2) store_write_rel [OF refines_dispatchable assms(2)] by cases auto
next
  case (step_pin al peer replace v)
  then show ?thesis using store_write_rel [OF refines_settings(1) assms(2)] by (cases v) (auto simp: pin_def split: if_splits)
qed (auto simp: store_offer_def store_respond_def store_accept_def recover_def claim_def finish_def escalate_def
    publish_machine_def unpin_def record_link_def elim!: store_write_rel [rotated 2, OF _ _ assms(2)]
    intro: refines_author refines_offer refines_respond refines_accept refines_recover refines_claim refines_finish
      refines_receipt refines_escalate refines_observation refines_publish refines_unpin refines_link refines_settings)

lemma store_steps_rel:
  assumes "(store_step R p)\<^sup>*\<^sup>* db db'" "store_rel R (tx_new db p) m"
  shows "\<exists>m'. model_steps (lib_codec R) m m' \<and> store_rel R (tx_new db' p) m'"
  using assms
proof (induction rule: rtranclp_induct)
  case base
  then show ?case by blast
next
  case (step y z)
  then obtain m1 where "model_steps (lib_codec R) m m1" "store_rel R (tx_new y p) m1" by blast
  with store_step_rel [OF step(2)] show ?case by (meson rtranclp_trans)
qed

text \<open>A new store is the empty model.\<close>

lemma initialize_rel:
  assumes "wf_origin p" "initialize R F p None = (Some db, Inr q)"
  shows "q = p \<and> verify R p db = Inr () \<and> store_rel R (tx_new db p) (model_new p)"
proof -
  note l = redb_lawsD [OF store_lawsD(1) [OF laws]]
  have q: "q = p" and db: "db = (create_all R)\<lparr>db_meta :=
      text_insert R (text_insert R (text_new R) ''format'' (fmt_chat F)) ''origin'' (origin_str p)\<rparr>"
    using assms(2) by (auto simp: initialize_def Let_def create_all_def l)
  show ?thesis
    using assms(1) history_new [of p]
    by (simp add: q db verify_def l store_rel_def Let_def create_all_def tx_new_def model_new_def view_resolution_def
        get_json_def view_cursor_def model_cursor_def get_number_def model_ack_def)
qed

end

end
