(* ===== verification/Store_Samples.thy ===== *)
theory Store_Samples
  imports Store_Steps Chat_Samples "HOL-Library.RBT"
begin

text \<open>
  A concrete library for the chat store, for the instances of the theorems about it: the tables are
  red-black trees, and the codec writes the question of \<open>Chat_Samples\<close> (and nothing else). Alice's machine
  opens a new store and writes the question.
\<close>

definition no_codec :: "(unit, 'x) record_codec" where
  "no_codec = \<lparr>rec_encode = (\<lambda>_. Inl ()), rec_decode = (\<lambda>_. Inl ())\<rparr>"

definition ask_codec :: codec where
  "ask_codec =
     \<lparr>codec_encode = (\<lambda>e. if e = ask_event then Some ''ask'' else None),
      codec_hash = (\<lambda>_. Digest (replicate 32 0))\<rparr>"

type_synonym 'v rows = "(string, 'v) rbt"

definition tree_lib :: "(string rows, u64 rows, (u64 \<times> u64) rows, (u64 \<times> u8 list) rows, unit) store_lib" where
  "tree_lib =
     \<lparr>text_new = RBT.empty, text_get = RBT.lookup, text_insert = (\<lambda>t k v. RBT.insert k v t),
      text_remove = (\<lambda>t k. RBT.delete k t), text_rows = RBT.entries,
      num_new = RBT.empty, num_get = RBT.lookup, num_insert = (\<lambda>t k v. RBT.insert k v t),
      pair_new = RBT.empty, pair_get = RBT.lookup, pair_insert = (\<lambda>t k v. RBT.insert k v t),
      tomb_new = RBT.empty, tomb_get = RBT.lookup, tomb_insert = (\<lambda>t k v. RBT.insert k v t),
      lib_codec = ask_codec, lib_event = (\<lambda>bytes. if bytes = map of_char ''ask'' then Inr ask_event else Inl ()),
      lib_card = no_codec, lib_machine = no_codec, lib_room = no_codec, lib_resolution = no_codec,
      lib_delivery = no_codec, lib_activity = no_codec, lib_descriptor = no_codec, lib_agent = no_codec,
      lib_link = \<lparr>rec_encode = (\<lambda>_. Inr ''link''), rec_decode = (\<lambda>_. Inl ())\<rparr>\<rparr>"

lemma tree_redb: "redb_laws tree_lib"
  by (simp add: redb_laws_def tree_lib_def strict_sorted_iff RBT.sorted_entries RBT.distinct_entries)

lemma tree_laws: "store_laws tree_lib"
  using tree_redb by (simp add: store_laws_def) (simp add: tree_lib_def ask_codec_def no_codec_def)

interpretation tree_store: store_library tree_lib
  by unfold_locales (rule tree_laws)

definition sample_formats :: formats where
  "sample_formats = \<lparr>fmt_chat = ''new'', fmt_previous = ''previous'', fmt_legacy = ''legacy''\<rparr>"

definition opened where
  "opened p = (create_all tree_lib)\<lparr>db_meta := text_insert tree_lib (text_insert tree_lib (text_new tree_lib)
     ''format'' ''new'') ''origin'' (origin_str p)\<rparr>"

lemma sample_open: "initialize tree_lib sample_formats p None = (Some (opened p), Inr p)"
  by (simp add: initialize_def Let_def create_all_def redb_lawsD [OF tree_redb] sample_formats_def opened_def)

lemma wf_machines: "wf_origin machine_a" "wf_origin machine_b"
  by code_simp+

lemma opened_rel:
  assumes "wf_origin p"
  shows "store_rel tree_lib (tx_new (opened p) p) (model_new p)" "verify tree_lib p (opened p) = Inr ()"
  using tree_store.initialize_rel [OF assms, of sample_formats] sample_open by auto

section \<open>Alice writes her question\<close>

definition stored_ask :: sealed where
  "stored_ask = \<lparr>sealed_event = ask_event, sealed_encoded = ''ask'', sealed_digest = Digest (replicate 32 0)\<rparr>"

lemma stored_ask_new: "sealed_new (lib_codec tree_lib) ask_event = Inr stored_ask"
  by (simp add: sealed_new_def tree_lib_def ask_codec_def stored_ask_def MAX_EVENT_BYTES_def)

lemma stored_ask_event [simp]: "sealed_event stored_ask = ask_event"
  by (simp add: stored_ask_def)

lemma sample_numbers [simp]:
  "get_number tree_lib (db_counters (opened p)) key = 0" "view_cursor tree_lib (opened p) q = cursor_default"
  "get_number tree_lib (db_acks (opened p)) key = 0"
  by (simp_all add: opened_def get_number_def view_cursor_def create_all_def Let_def redb_lawsD [OF tree_redb])

abbreviation sample_tx where
  "sample_tx p \<equiv> tx_new (opened p) p"

lemma sample_tx_simps [simp]: "tx_db (sample_tx p) = opened p" "tx_origin (sample_tx p) = p"
  by (simp_all add: tx_new_def)

lemma sample_admit: "admit (store_ops tree_lib) (sample_tx p) stored_ask = Inr (Append ask_admitted)"
  by (simp add: admit_Append ask_admitted_def cursor_default_def change_def) (simp add: ask_body_def)

lemma get_number_insert:
  "redb_laws R \<Longrightarrow> get_number R (num_insert R c key n) k = (if k = key then n else get_number R c k)"
  by (simp add: get_number_def redb_lawsD)

lemma bump_small:
  assumes "unat (get_number R (db_counters db) key) + unat n < 2 ^ 64"
  shows "\<exists>v. bump R key n db = (db\<lparr>db_counters := num_insert R (db_counters db) key v\<rparr>, Inr v)"
  using assms by (simp add: bump_def checked_add_def)

lemma record_size_total:
  fixes R :: "('t, 'n, 'p, 'b, 'j, 'z) store_lib_scheme"
  assumes "redb_laws R" "unat (get_number R (db_counters db) ''events'') + 1 < 2 ^ 64"
    "unat (get_number R (db_counters db) ''bytes'') + length (sealed_encoded s) < 2 ^ 64"
    "unat (get_number R (db_counters db) ''generation'') + 1 < 2 ^ 64"
  shows "\<exists>db'. record_size R s db = (db', Inr () :: ('j store_error, unit) result)"
proof -
  let ?len = "word_of_nat (length (sealed_encoded s)) :: u64"
  have len: "unat ?len = length (sealed_encoded s)" using assms(3) by (simp add: unat_of_nat)
  obtain v1 where b1: "bump R ''events'' 1 db = (db\<lparr>db_counters := num_insert R (db_counters db) ''events'' v1\<rparr>, Inr v1 :: ('j store_error, u64) result)"
    (is "_ = (?d1, _)") using bump_small [of R db "''events''" 1] assms(2) by auto
  obtain v2 where b2: "bump R ''bytes'' ?len ?d1 = (?d1\<lparr>db_counters := num_insert R (db_counters ?d1) ''bytes'' v2\<rparr>, Inr v2 :: ('j store_error, u64) result)"
    (is "_ = (?d2, _)") using bump_small [of R ?d1 "''bytes''" ?len] assms(3) len by (auto simp: get_number_insert [OF assms(1)])
  obtain v3 where b3: "bump R ''generation'' 1 ?d2 = (?d2\<lparr>db_counters := num_insert R (db_counters ?d2) ''generation'' v3\<rparr>, Inr v3 :: ('j store_error, u64) result)"
    using bump_small [of R ?d2 "''generation''" 1] assms(4) by (auto simp: get_number_insert [OF assms(1)])
  show ?thesis
    unfolding record_size_def tx_then_def [of "bump R ''events'' 1"] b1
    using assms(3) by (simp add: tx_then_def b2 b3 [simplified] tx_update_def)
qed

text \<open>An event that is neither a handoff nor a reply is recorded as soon as the counters have room.\<close>

lemma record_event_total:
  fixes R :: "('t, 'n, 'p, 'b, 'j, 'z) store_lib_scheme"
  assumes "redb_laws R" "unat (get_number R (db_counters db) ''events'') + 1 < 2 ^ 64"
    "unat (get_number R (db_counters db) ''bytes'') + length (sealed_encoded s) < 2 ^ 64"
    "unat (get_number R (db_counters db) ''generation'') + 1 < 2 ^ 64"
    and plain: "\<And>db. handoff_record R (sealed_event s) db = (db, Inr ())" "\<And>db. record_reply R (sealed_event s) db = (db, Inr ())"
  shows "\<exists>db'. record_event R s cur db = (db', Inr ())"
proof -
  let ?e = "sealed_event s"
  let ?db = "record_notice R ?e (record_thread R ?e (db
      \<lparr>db_events := text_insert R (db_events db) (event_key (ev_id ?e)) (sealed_encoded s),
       db_order := text_insert R (db_order db) (order_key ?e) (event_key (ev_id ?e))\<rparr>))"
  have "core_tables ?db = core_tables (db
      \<lparr>db_events := text_insert R (db_events db) (event_key (ev_id ?e)) (sealed_encoded s),
       db_order := text_insert R (db_order db) (order_key ?e) (event_key (ev_id ?e))\<rparr>)" by simp
  then have "db_counters ?db = db_counters db" unfolding core_tables_eq by simp
  then have "get_number R (db_counters (record_cursor R ?e cur ?db)) k = get_number R (db_counters db) k" if "k \<noteq> ''clock''" for k
    using that by (simp add: record_cursor_def Let_def get_number_insert [OF assms(1)])
  then have "\<exists>db'. record_size R s (record_cursor R ?e cur ?db) = (db', Inr () :: ('j store_error, unit) result)"
    using assms(2-4) by (intro record_size_total [OF assms(1)]) simp_all
  then show ?thesis by (simp add: record_event_def Let_def tx_then_def plain tx_update_def)
qed

lemma fresh_tables:
  assumes "core_tables db = core_tables (opened p)"
  shows "get_number tree_lib (db_counters db) key = 0" "view_cursor tree_lib db q = cursor_default"
    "get_number tree_lib (db_acks db) key = 0" "verify tree_lib p db = verify tree_lib p (opened p)"
    "view_usage tree_lib db = \<lparr>us_events = 0, us_bytes = 0\<rparr>"
  using assms sample_numbers [of p]
  by (simp_all add: core_tables_eq verify_def view_usage_def view_cursor_def)

lemma fresh_commit:
  assumes "core_tables db = core_tables (opened p)"
  shows "\<exists>t. store_commit tree_lib (tx_new db p) stored_ask ask_admitted = (t, Inr ()) \<and> db_meta (tx_db t) = db_meta db"
proof -
  have "\<exists>db'. record_event tree_lib stored_ask (adm_cursor ask_admitted) db = (db', Inr ())"
    by (rule record_event_total [OF tree_redb])
      (simp_all add: stored_ask_def fresh_tables [OF assms], simp_all add: handoff_record_def record_reply_def ask_body_def)
  then obtain db1 where r: "record_event tree_lib stored_ask (adm_cursor ask_admitted) db = (db1, Inr ())" by blast
  then obtain t where "store_commit tree_lib (tx_new db p) stored_ask ask_admitted = (t, Inr ())" "db_meta (tx_db t) = db_meta db1"
    by (auto simp: store_commit_def tx_then_def on_db_def Let_def tx_update_def project_change_def ask_admitted_def tx_new_def)
  then show ?thesis using record_event_core(7) [OF tree_redb r] by simp
qed

lemma sample_commit: "\<exists>t. store_commit tree_lib (sample_tx p) stored_ask ask_admitted = (t, Inr ())"
  using fresh_commit [OF refl] by blast

lemma sample_usage: "view_usage tree_lib (opened p) = \<lparr>us_events = 0, us_bytes = 0\<rparr>"
  by (simp add: view_usage_def)

lemma sample_author: "\<exists>t. author tree_lib Ordinary ask_body (sample_tx machine_a) = (t, Inr ask_event)"
proof -
  obtain t where t: "store_commit tree_lib (sample_tx machine_a) stored_ask ask_admitted = (t, Inr ())"
    using sample_commit by blast
  have "next_local (store_ops tree_lib) (sample_tx machine_a) = Inr (EventId machine_a 1, 1)"
    by (simp add: next_local_Inr cursor_default_def word_less_nat_alt unat_max_word)
  then have "append_event (lib_codec tree_lib) (store_ops tree_lib) (sample_tx machine_a) ask_body = (t, Inr ask_event)"
    unfolding append_event_Inr commit_Inr_True
    using sample_event stored_ask_new sample_admit t by (intro exI conjI) auto
  then show ?thesis
    by (simp add: author_def sample_usage check_capacity_def below_def ORDINARY_LIMIT_def word_less_nat_alt)
qed

definition sample_db where
  "sample_db = fst (store_write tree_lib machine_a (author tree_lib Ordinary ask_body) (opened machine_a))"

lemma sample_written:
  "\<exists>g. store_write tree_lib machine_a (author tree_lib Ordinary ask_body) (opened machine_a) = (sample_db, Inr (ask_event, g))"
proof -
  obtain t where "author tree_lib Ordinary ask_body (sample_tx machine_a) = (t, Inr ask_event)" using sample_author by blast
  then show ?thesis by (simp add: sample_db_def store_write_def opened_rel [OF wf_machines(1)])
qed

section \<open>Bob's machine answers the offer of the question\<close>

lemma fresh_received:
  assumes fresh: "core_tables db = core_tables (opened machine_b)"
  shows "\<exists>t. receive (lib_codec tree_lib) (store_ops tree_lib) (tx_new db machine_b) machine_a [ask_event] =
      (t, Inr \<lparr>rcv_seen = 1, rcv_appended = 1, rcv_rejected = None\<rparr>) \<and> tx_origin t = machine_b \<and>
    cur_seen (view_cursor tree_lib (tx_db t) machine_b) = 0 \<and> db_meta (tx_db t) = db_meta db"
proof -
  let ?L = "store_ops tree_lib" and ?C = "lib_codec tree_lib"
  have wf: "wf_event_id (EventId machine_a 1)" by (simp add: wf_event_id_def wf_machines)
  have ids: "ids_ok ask_event" using wf by (simp add: ids_ok_def ask_body_def)
  obtain t where t: "store_commit tree_lib (tx_new db machine_b) stored_ask ask_admitted = (t, Inr ())" "db_meta (tx_db t) = db_meta db"
    using fresh_commit [OF fresh] by blast
  have room: "l_has_room ?L (tx_new db machine_b) = Inr True"
    by (simp add: store_ops_def tx_new_def fresh_tables [OF fresh] fits_received_def below_def RECEIVED_LIMIT_def word_less_nat_alt)
  have "admit ?L (tx_new db machine_b) stored_ask = Inr (Append ask_admitted)"
    by (simp add: admit_Append ask_admitted_def cursor_default_def change_def tx_new_def fresh_tables [OF fresh]) (simp add: ask_body_def)
  then have "receive_one ?C ?L (tx_new db machine_b) machine_a ask_event = (t, Inr True)"
    unfolding receive_one_True using stored_ask_new room t by (auto simp: tx_new_def)
  then have loop: "receive_loop ?C ?L (tx_new db machine_b) machine_a [ask_event] 0 = (t, Inr (1, None))"
    by (simp add: usize_add_def usize_max_def)
  have adm: "admit (model_ops ?C) (model_new machine_b) stored_ask = Inr (Append ask_admitted)"
    by (simp add: admit_Append ask_admitted_def cursor_default_def model_cursor_def model_new_def change_def) (simp add: ask_body_def)
  have "store_rel tree_lib (tx_new db machine_b) (model_new machine_b)"
    using fresh by (intro store_rel_core [OF opened_rel(1) [OF wf_machines(2)]]) (simp_all add: tx_new_def)
  from store_commit_rel [OF tree_laws this _ _ adm t(1)] ids stored_ask_new
  have rel: "store_rel tree_lib t (model_commit (model_new machine_b) stored_ask ask_admitted)" by simp
  have "tx_origin t = machine_b" using store_relD(1) [OF rel] by (simp add: model_new_def)
  moreover have "cur_seen (view_cursor tree_lib (tx_db t) machine_b) = 0" "cur_seen (view_cursor tree_lib (tx_db t) machine_a) = 1"
    using store_relD(10) [OF rel, of machine_b] store_relD(10) [OF rel, of machine_a]
    by (simp_all add: model_cursor_commit model_cursor_def model_new_def cursor_default_def ask_admitted_def)
  ultimately show ?thesis using loop t(2) by (simp add: receive_def)
qed

lemma sample_answered: "\<exists>db' r g. store_respond tree_lib machine_b ask_offer (opened machine_b) = (db', Inr (r, g))"
proof -
  let ?L = "store_ops tree_lib" and ?C = "lib_codec tree_lib"
  obtain t where t: "receive ?C ?L (sample_tx machine_b) machine_a [ask_event] =
      (t, Inr \<lparr>rcv_seen = 1, rcv_appended = 1, rcv_rejected = None\<rparr>)" "tx_origin t = machine_b"
    "cur_seen (view_cursor tree_lib (tx_db t) machine_b) = 0"
    using fresh_received [OF refl] by blast
  moreover have "store_record_ack tree_lib t machine_a 0 = t" by (simp add: store_record_ack_def Let_def)
  ultimately have "\<exists>t' r. respond ?C ?L (sample_tx machine_b) ask_offer = (t', Inr r)"
    by (simp add: respond_def ask_offer_def cursor_default_def outgoing_def outgoing_loop.simps
        outgoing_into_batch_def outgoing_default_def)
  then show ?thesis
    by (auto simp: store_respond_def store_write_def opened_rel [OF wf_machines(2)] split: sum.splits)
qed

end
