(* ===== verification/Store_Guarantees.thy ===== *)
theory Store_Guarantees
  imports Store_Samples
begin

text \<open>
  What the chat store guarantees: it refines the reference model, operation by operation and as a
  whole.
\<close>

section \<open>The store refines the model\<close>

text \<open>
  C3: Whatever sequence of operations a new store goes through (writing, exchanging with peers, claiming
  and finishing turns, receipts, escalations, handoff readings, settings), its tables represent a
  state that the reference model can reach: the same events, cursors, acknowledgments, clock and
  resolutions.
\<close>

theorem store_refines_model:
  assumes "store_laws R" "wf_origin p" "initialize R F p None = (Some db0, Inr q)" "(store_step R p)\<^sup>*\<^sup>* db0 db"
  shows "\<exists>m. reachable (lib_codec R) p m \<and> store_rel R (tx_new db p) m"
proof -
  have lib: "store_library R" using assms(1) by (rule store_library.intro)
  from store_library.initialize_rel [OF lib assms(2,3)] have "store_rel R (tx_new db0 p) (model_new p)" by blast
  from store_library.store_steps_rel [OF lib assms(4) this] show ?thesis by (auto simp: reachable_def)
qed

theorem store_refines_model_witness:
  "\<exists>m. reachable ask_codec machine_a m \<and> store_rel tree_lib (tx_new sample_db machine_a) m"
proof -
  obtain g where "store_write tree_lib machine_a (author tree_lib Ordinary ask_body) (opened machine_a) = (sample_db, Inr (ask_event, g))"
    using sample_written by blast
  then have "store_step tree_lib machine_a (opened machine_a) sample_db"
    by (rule step_author) (simp add: request_ok_def ask_body_def)
  then have "(store_step tree_lib machine_a)\<^sup>*\<^sup>* (opened machine_a) sample_db" by blast
  from store_refines_model [OF tree_laws wf_machines(1) sample_open this] show ?thesis by (simp add: tree_lib_def)
qed

text \<open>
  A body written to the store becomes exactly the event the reference model makes of it, with the same
  identity and clock, and the tables then represent the model after that write.
\<close>

theorem store_writes_as_model:
  assumes "store_laws R" "store_rel R (tx_new db p) m" "request_ok b"
    and "store_write R p (author R pr b) db = (db', Inr (e, g))"
  shows "\<exists>m'. model_write (lib_codec R) m b = (m', Inr e) \<and> store_rel R (tx_new db' p) m'"
proof -
  have lib: "store_library R" using assms(1) by (rule store_library.intro)
  obtain t where t: "author R pr b (tx_new db p) = (t, Inr e)" "db' = tx_db t"
    using assms(4) by (auto simp: store_write_def split: sum.splits prod.splits)
  from store_library.author_rel [OF lib assms(2,3) t(1)] obtain m' where m': "model_write (lib_codec R) m b = (m', Inr e)"
    "store_rel R t m'" by blast
  have "m_origin m' = m_origin m"
    using model_steps_mono(2) [OF append_steps] m'(1) store_relD(3) [OF assms(2)] by (auto simp: model_write_def)
  then have "tx_origin t = p" using store_relD(1) [OF m'(2)] store_relD(1) [OF assms(2)] by (simp add: tx_new_def)
  then show ?thesis using m' t(2) store_rel_core [OF m'(2), of "tx_new db' p"] by (auto simp: tx_new_def)
qed

theorem store_writes_as_model_witness:
  "\<exists>m'. model_write ask_codec (model_new machine_a) ask_body = (m', Inr ask_event) \<and>
     store_rel tree_lib (tx_new sample_db machine_a) m'"
proof -
  obtain g where "store_write tree_lib machine_a (author tree_lib Ordinary ask_body) (opened machine_a) = (sample_db, Inr (ask_event, g))"
    using sample_written by blast
  from store_writes_as_model [OF tree_laws opened_rel(1) [OF wf_machines(1)] _ this] show ?thesis
    by (simp add: tree_lib_def request_ok_def ask_body_def)
qed

text \<open>The origin of a store does not change in an exchange.\<close>

lemma exchange_rel:
  assumes "store_rel R (tx_new db p) m" "store_rel R t m'" "model_steps C m m'"
  shows "store_rel R (tx_new (tx_db t) p) m'"
proof -
  have "m_origin m' = m_origin m" using model_steps_mono(2) [OF assms(3)] store_relD(3) [OF assms(1)] by blast
  then have "tx_origin t = p" using store_relD(1) [OF assms(2)] store_relD(1) [OF assms(1)] by (simp add: tx_new_def)
  then show ?thesis by (intro store_rel_core [OF assms(2)]) (simp_all add: tx_new_def)
qed

lemma no_room: "l_has_room (store_ops R) t = Inr False \<longleftrightarrow> \<not> fits_received (view_usage R (tx_db t))"
  by (simp add: store_ops_def)

text \<open>
  C13: The exchange of a store with a peer is the model's. What it offers is what the model offers. It answers an
  offer, and takes in an answer, as the model does; or, when its tables have reached the storage limit
  before the end of the batch, as the model does with the batch cut there, with \<open>ResourceLimit\<close> as the reason.
\<close>

theorem store_exchanges_as_model:
  fixes R :: "('t, 'n, 'p, 'b, 'j, 'z) store_lib_scheme"
  assumes "store_laws R" "store_rel R (tx_new db p) m"
  shows "(wf_origin peer \<and> store_offer R p peer db = (db', Inr (o', g)) \<longrightarrow>
      db' = db \<and> offer (model_ops (lib_codec R)) m peer = Inr o') \<and>
    (wf_origin (off_from off) \<and> list_all ids_ok (batch_events (off_batch off)) \<and>
     store_respond R p off db = (db', Inr (r, g)) \<longrightarrow>
      (\<exists>m'. store_rel R (tx_new db' p) m' \<and>
        (respond (lib_codec R) (model_ops (lib_codec R)) m off = (m', Inr r) \<or>
         (\<exists>es e rest r'. batch_events (off_batch off) = es @ e # rest \<and> \<not> fits_received (view_usage R db') \<and>
            respond (lib_codec R) (model_ops (lib_codec R)) m (offer_cut off es) = (m', Inr r') \<and>
            r = map_ok (ans_rejected_update (\<lambda>_. Some ResourceLimit)) r')))) \<and>
    (wf_origin (ans_from ans) \<and> list_all ids_ok (batch_events (ans_batch ans)) \<and>
     store_accept R p off ans db = (db', Inr (pr, g)) \<longrightarrow>
      (\<exists>m'. store_rel R (tx_new db' p) m' \<and>
        (accept (lib_codec R) (model_ops (lib_codec R)) m off ans = (m', Inr pr) \<or>
         (\<exists>es e rest pr'. batch_events (ans_batch ans) = es @ e # rest \<and> \<not> fits_received (view_usage R db') \<and>
            accept (lib_codec R) (model_ops (lib_codec R)) m off (answer_cut ans es) = (m', Inr (Inr pr')) \<and>
            pr = Inr (pr'\<lparr>prog_received := (prog_received pr')\<lparr>rcv_rejected := Some ResourceLimit\<rparr>,
              prog_more := (batch_more (off_batch off) \<and> ans_rejected ans = None)\<rparr>)))))"
proof (intro conjI impI; elim conjE)
  have lib: "store_library R" using assms(1) by (rule store_library.intro)
  { assume "wf_origin peer" "store_offer R p peer db = (db', Inr (o', g))"
    moreover from this have "offer (store_ops R) (tx_new db p) peer = Inr o'" "db' = db"
      by (auto simp: store_offer_def store_write_def tx_new_def split: sum.splits prod.splits)
    ultimately show "db' = db" "offer (model_ops (lib_codec R)) m peer = Inr o'"
      using store_library.offer_rel [OF lib assms(2)] by auto }
  { assume w: "wf_origin (off_from off)" "list_all ids_ok (batch_events (off_batch off))"
      and run: "store_respond R p off db = (db', Inr (r, g))"
    obtain t where t: "respond (lib_codec R) (store_ops R) (tx_new db p) off = (t, Inr r)" "db' = tx_db t"
      using run by (auto simp: store_respond_def store_write_def split: sum.splits prod.splits)
    have "\<forall>e \<in> set (batch_events (off_batch off)). ids_ok e" using w(2) by (simp add: list_all_iff)
    from store_library.respond_rel [OF lib assms(2) this w(1) t(1)] show "\<exists>m'. store_rel R (tx_new db' p) m' \<and>
        (respond (lib_codec R) (model_ops (lib_codec R)) m off = (m', Inr r) \<or>
         (\<exists>es e rest r'. batch_events (off_batch off) = es @ e # rest \<and> \<not> fits_received (view_usage R db') \<and>
            respond (lib_codec R) (model_ops (lib_codec R)) m (offer_cut off es) = (m', Inr r') \<and>
            r = map_ok (ans_rejected_update (\<lambda>_. Some ResourceLimit)) r'))"
      unfolding no_room t(2) using exchange_rel [OF assms(2)] respond_steps by metis }
  { assume w: "wf_origin (ans_from ans)" "list_all ids_ok (batch_events (ans_batch ans))"
      and run: "store_accept R p off ans db = (db', Inr (pr, g))"
    obtain t where t: "accept (lib_codec R) (store_ops R) (tx_new db p) off ans = (t, Inr pr)" "db' = tx_db t"
      using run by (auto simp: store_accept_def store_write_def split: sum.splits prod.splits)
    have "\<forall>e \<in> set (batch_events (ans_batch ans)). ids_ok e" using w(2) by (simp add: list_all_iff)
    from store_library.accept_rel [OF lib assms(2) this w(1) t(1)] show "\<exists>m'. store_rel R (tx_new db' p) m' \<and>
        (accept (lib_codec R) (model_ops (lib_codec R)) m off ans = (m', Inr pr) \<or>
         (\<exists>es e rest pr'. batch_events (ans_batch ans) = es @ e # rest \<and> \<not> fits_received (view_usage R db') \<and>
            accept (lib_codec R) (model_ops (lib_codec R)) m off (answer_cut ans es) = (m', Inr (Inr pr')) \<and>
            pr = Inr (pr'\<lparr>prog_received := (prog_received pr')\<lparr>rcv_rejected := Some ResourceLimit\<rparr>,
              prog_more := (batch_more (off_batch off) \<and> ans_rejected ans = None)\<rparr>)))"
      unfolding no_room t(2) using exchange_rel [OF assms(2)] accept_steps by metis }
qed

lemma sample_offered: "\<exists>off g. store_offer tree_lib machine_b machine_a (opened machine_b) = (opened machine_b, Inr (Inr off, g))"
  by (simp add: store_offer_def store_write_def opened_rel [OF wf_machines(2)] offer_def outgoing_def outgoing_loop.simps
      cursor_default_def outgoing_into_batch_def outgoing_default_def batch_new_def)

theorem store_exchanges_as_model_witness:
  "(\<exists>off. offer (model_ops ask_codec) (model_new machine_b) machine_a = Inr (Inr off)) \<and>
   (\<exists>db' r g m'. store_respond tree_lib machine_b ask_offer (opened machine_b) = (db', Inr (r, g)) \<and>
     store_rel tree_lib (tx_new db' machine_b) m' \<and>
     (respond ask_codec (model_ops ask_codec) (model_new machine_b) ask_offer = (m', Inr r) \<or> \<not> fits_received (view_usage tree_lib db')))"
proof -
  obtain off g0 where o: "store_offer tree_lib machine_b machine_a (opened machine_b) = (opened machine_b, Inr (Inr off, g0))"
    using sample_offered by blast
  obtain db' r g where r: "store_respond tree_lib machine_b ask_offer (opened machine_b) = (db', Inr (r, g))"
    using sample_answered by blast
  have w: "wf_origin (off_from ask_offer)" "list_all ids_ok (batch_events (off_batch ask_offer))"
    by (simp_all add: ask_offer_def wf_machines ids_ok_def wf_event_id_def, simp add: ask_body_def)
  have codec: "lib_codec tree_lib = ask_codec" by (simp add: tree_lib_def)
  have "offer (model_ops ask_codec) (model_new machine_b) machine_a = Inr (Inr off)"
    using store_exchanges_as_model [OF tree_laws opened_rel(1) [OF wf_machines(2)], of machine_a "opened machine_b" "Inr off" g0]
      o wf_machines(1) codec by metis
  with codec store_exchanges_as_model [OF tree_laws opened_rel(1) [OF wf_machines(2)], of _ db' _ g ask_offer r] w r show ?thesis
    by metis
qed

end
