(* ===== verification/Store_Clean.thy ===== *)
theory Store_Clean
  imports Store_Samples
begin

text \<open>
  Cleaning a conversation (\<open>clean\<close> of \<open>chat/store/admin.rs\<close>): the bodies of its events go, and what the
  ledger decides by stays: every digest, every cursor, the clock, the acknowledgments and the resolutions.
\<close>

section \<open>What cleaning writes\<close>

lemma view_stored_text:
  "view_stored R db i = Inr (Some (StoredEvent e x)) \<Longrightarrow> text_get R (db_events db) (event_key i) = Some x"
  by (auto simp: view_stored_def Let_def result_simps split: option.split_asm if_split_asm prod.split_asm)

lemma clean_events_found:
  assumes "clean_events R db rows = Inr es" "(e, x) \<in> set es"
  shows "wf_event_id (ev_id e)" "view_stored R db (ev_id e) = Inr (Some (StoredEvent e x))"
proof -
  obtain ys where ys: "traverse (\<lambda>(_, id').
      and_then (map_err ErrInvalid (event_id_try_from id')) (\<lambda>id'.
        map_ok (\<lambda>stored. case stored of Some (StoredEvent event encoded) \<Rightarrow> Some (event, encoded) | _ \<Rightarrow> None)
          (view_stored R db id'))) rows = Inr ys" and es: "es = List.map_filter id ys"
    using assms(1) by (auto simp: clean_events_def result_simps)
  have "Some (e, x) \<in> set ys" using assms(2) es by (auto simp: map_filter_def)
  from traverse_set [OF ys this] obtain i y where y: "wf_event_id i" "view_stored R db i = Inr y"
    "(case y of Some (StoredEvent event encoded) \<Rightarrow> Some (event, encoded) | _ \<Rightarrow> None) = Some (e, x)"
    by (auto simp: result_simps event_id_try_from_iff)
  then have i: "wf_event_id i" "view_stored R db i = Inr (Some (StoredEvent e x))"
    by (auto split: option.split_asm stored.split_asm)
  moreover have "ev_id e = i" using view_stored_id [OF i(2)] .
  ultimately show "wf_event_id (ev_id e)" "view_stored R db (ev_id e) = Inr (Some (StoredEvent e x))" by auto
qed

definition cleaned_key :: "(event \<times> string) list \<Rightarrow> string \<Rightarrow> bool" where
  "cleaned_key es k \<longleftrightarrow> (\<exists>(e, x) \<in> set es. event_key (ev_id e) = k)"

lemma cleaned_key_simps [simp]:
  "\<not> cleaned_key [] k" "cleaned_key (a # es) k \<longleftrightarrow> event_key (ev_id (fst a)) = k \<or> cleaned_key es k"
  by (auto simp: cleaned_key_def split: prod.splits)

lemma clean_event_tables:
  assumes "redb_laws R"
  shows "text_get R (db_events (clean_event R a db)) = (text_get R (db_events db))(event_key (ev_id (fst a)) := None)"
    and "tomb_get R (db_tombstones (clean_event R a db)) = (tomb_get R (db_tombstones db))
      (event_key (ev_id (fst a)) \<mapsto> (ev_clock (fst a), digest_bytes (codec_hash (lib_codec R) (snd a))))"
    and "db_cursors (clean_event R a db) = db_cursors db" "db_acks (clean_event R a db) = db_acks db"
      "db_counters (clean_event R a db) = db_counters db" "db_resolutions (clean_event R a db) = db_resolutions db"
  by (simp_all add: clean_event_def Let_def redb_lawsD [OF assms] split: prod.splits)

lemma fold_clean_frame:
  assumes "redb_laws R"
  shows "db_cursors (fold (clean_event R) es db) = db_cursors db" "db_acks (fold (clean_event R) es db) = db_acks db"
    "db_counters (fold (clean_event R) es db) = db_counters db" "db_resolutions (fold (clean_event R) es db) = db_resolutions db"
  by (induction es arbitrary: db; simp add: clean_event_tables [OF assms])+

lemma fold_clean_events:
  assumes "redb_laws R"
  shows "text_get R (db_events (fold (clean_event R) es db)) k = (if cleaned_key es k then None else text_get R (db_events db) k)"
  by (induction es arbitrary: db) (auto simp: clean_event_tables [OF assms])

lemma fold_clean_other:
  assumes "redb_laws R"
  shows "\<not> cleaned_key es k \<Longrightarrow> tomb_get R (db_tombstones (fold (clean_event R) es db)) k = tomb_get R (db_tombstones db) k"
  by (induction es arbitrary: db) (auto simp: clean_event_tables [OF assms])

lemma fold_clean_tomb:
  assumes "redb_laws R" "cleaned_key es k"
  shows "\<exists>e x. (e, x) \<in> set es \<and> event_key (ev_id e) = k \<and>
    tomb_get R (db_tombstones (fold (clean_event R) es db)) k = Some (ev_clock e, digest_bytes (codec_hash (lib_codec R) x))"
  using assms(2)
proof (induction es arbitrary: db)
  case Nil
  then show ?case by simp
next
  case (Cons a es)
  show ?case
  proof (cases "cleaned_key es k")
    case True
    from Cons.IH [OF this, of "clean_event R a db"] show ?thesis by auto
  next
    case False
    then show ?thesis
      using Cons.prems fold_clean_other [OF assms(1) False, of "clean_event R a db"]
      by (cases a) (auto simp: clean_event_tables [OF assms(1)])
  qed
qed

lemma clean_Inr:
  assumes "clean R p c db = (db', Inr n)"
  obtains es rows where "clean_events R db rows = Inr es" "\<forall>(e, x) \<in> set es. clean_check R (tx_new db p) e = Inr ()"
    "\<exists>th jo. db' = clean_counters R es ((fold (clean_event R) es (db\<lparr>db_threads := th\<rparr>))\<lparr>db_joined := jo\<rparr>)"
proof -
  define rows where "rows = range_between R (db_threads db) (fst (thread_bounds c)) (snd (thread_bounds c))"
  obtain es us where es: "clean_events R db rows = Inr es"
    and us: "traverse (\<lambda>(event, _). clean_check R (tx_new db p) event) es = Inr us"
    and db': "db' = fst (clean_in R c (tx_new db p))"
    using assms by (auto simp: clean_def clean_in_def Let_def tx_new_def rows_def result_simps split: sum.splits prod.splits)
  have "\<forall>(e, x) \<in> set es. clean_check R (tx_new db p) e = Inr ()"
    using us unfolding traverse_Inr by (induction rule: list_all2_induct) auto
  moreover have "\<exists>th jo. db' = clean_counters R es ((fold (clean_event R) es (db\<lparr>db_threads := th\<rparr>))\<lparr>db_joined := jo\<rparr>)"
  proof -
    have k: "\<exists>jo. (case c of Direct pair \<Rightarrow> d\<lparr>db_joined := f pair\<rparr> | InRoom _ \<Rightarrow> d) = d\<lparr>db_joined := jo\<rparr>"
      for d :: "('a, 'b, 'c, 'd) tables" and f by (cases c) (auto intro: exI [of _ "db_joined d"])
    show ?thesis
      using es us k by (simp add: db' clean_in_def Let_def rows_def [symmetric] tx_new_def) metis
  qed
  ultimately show ?thesis using that es by blast
qed

section \<open>What cleaning keeps\<close>

lemma clean_stored:
  assumes "redb_laws R" "\<forall>x. length (digest_bytes (codec_hash (lib_codec R) x)) = 32"
    and "clean R p c db = (db', Inr n)" "wf_event_id i"
  shows "view_stored R db' i = view_stored R db i \<or>
    (\<exists>e x. view_stored R db i = Inr (Some (StoredEvent e x)) \<and> clean_check R (tx_new db p) e = Inr () \<and>
       view_stored R db' i = Inr (Some (StoredCleaned (ev_clock e) (codec_hash (lib_codec R) x))))"
proof -
  obtain es rows th jo where es: "clean_events R db rows = Inr es" "\<forall>(e, x) \<in> set es. clean_check R (tx_new db p) e = Inr ()"
    and db': "db' = clean_counters R es ((fold (clean_event R) es (db\<lparr>db_threads := th\<rparr>))\<lparr>db_joined := jo\<rparr>)"
    using clean_Inr [OF assms(3)] by metis
  let ?db = "fold (clean_event R) es (db\<lparr>db_threads := th\<rparr>)" and ?k = "event_key i"
  have tabs: "db_events db' = db_events ?db" "db_tombstones db' = db_tombstones ?db"
    by (simp_all add: db' clean_counters_def Let_def)
  show ?thesis
  proof (cases "cleaned_key es ?k")
    case False
    then have "text_get R (db_events db') ?k = text_get R (db_events db) ?k" "tomb_get R (db_tombstones db') ?k = tomb_get R (db_tombstones db) ?k"
      by (simp_all add: tabs fold_clean_events [OF assms(1)] fold_clean_other [OF assms(1)])
    then have "view_stored R db' i = view_stored R db i" 
      by (cases "text_get R (db_events db) ?k") (simp_all add: view_stored_def Let_def)
    then show ?thesis ..
  next
    case True
    from fold_clean_tomb [OF assms(1) this, of "db\<lparr>db_threads := th\<rparr>"] obtain e x where ex: "(e, x) \<in> set es"
      "event_key (ev_id e) = ?k" "tomb_get R (db_tombstones ?db) ?k = Some (ev_clock e, digest_bytes (codec_hash (lib_codec R) x))" by blast
    note f = clean_events_found [OF es(1) ex(1)]
    have "ev_id e = i" using event_key_inj [OF f(1) assms(4)] ex(2) by simp
    moreover have "view_stored R db' i = Inr (Some (StoredCleaned (ev_clock e) (codec_hash (lib_codec R) x)))"
      using ex(3) True assms(2) by (simp add: view_stored_def tabs fold_clean_events [OF assms(1)])
    ultimately show ?thesis using f(2) es(2) ex(1) by blast
  qed
qed

text \<open>What the ledger decides about an event depends on few reads.\<close>

lemma admit_cong:
  assumes "l_cursor L l = l_cursor L l'" "l_digest L l (ev_id (sealed_event s)) = l_digest L l' (ev_id (sealed_event s))"
    "l_resolution L l = l_resolution L l'"
    "\<And>r. body_request (ev_body (sealed_event s)) = Some r \<Longrightarrow> l_parent L l r = l_parent L l' r"
  shows "admit L l s = admit L l' s"
proof -
  have reads: "resolve L l e r = resolve L l' e r" "started L l e r = started L l' e r" "receipt L l e r = receipt L l' e r"
    if "l_parent L l r = l_parent L l' r" for e r
  proof -
    have parent: "checked_parent L l e r = checked_parent L l' e r" for e unfolding checked_parent_def that by (rule refl)
    show "resolve L l e r = resolve L l' e r" "started L l e r = started L l' e r" "receipt L l e r = receipt L l' e r"
      unfolding fun_eq_iff resolve_def started_def receipt_def thread_parent_def parent assms(3) by simp_all
  qed
  have handoff: "handoff_read L l e ob = handoff_read L l' e ob" if "l_parent L l (obs_handoff ob) = l_parent L l' (obs_handoff ob)" for e ob
    unfolding fun_eq_iff handoff_read_def checked_parent_def that by simp
  have same: "change L l (sealed_event s) = change L l' (sealed_event s)"
    using assms(4) unfolding change_def by (auto simp: reads handoff split: body.splits intent.splits)
  show ?thesis unfolding admit_def Let_def assms(1,2) same by (rule refl)
qed

text \<open>
  C14: Cleaning a conversation keeps what the ledger of this machine and its peers rely on: every stored digest, the
  cursors, the clock, the acknowledgments and the resolutions are as before, and the decision about any event that
  refers to no cleaned event is the same. An event is either stored as before or reduced to its clock and the digest
  of its encoding; one that was reduced is from then on opaque to the events that refer to it, was not itself an
  open question and, if this machine wrote it, every other machine of its audience has acknowledged it.
\<close>

theorem clean_keeps_history:
  assumes "redb_laws R" "\<forall>x. length (digest_bytes (codec_hash (lib_codec R) x)) = 32"
    and "clean R p c db = (db', Inr n)" "wf_event_id i"
  shows "store_digest R (tx_new db' p) i = store_digest R (tx_new db p) i \<and>
    view_cursor R db' = view_cursor R db \<and> db_acks db' = db_acks db \<and>
    get_number R (db_counters db') ''clock'' = get_number R (db_counters db) ''clock'' \<and>
    view_resolution R db' = view_resolution R db \<and>
    (view_stored R db' i = view_stored R db i \<or>
     (\<exists>e x. view_stored R db i = Inr (Some (StoredEvent e x)) \<and>
        view_stored R db' i = Inr (Some (StoredCleaned (ev_clock e) (codec_hash (lib_codec R) x))) \<and>
        store_parent R (tx_new db' p) i = Inr Opaque \<and>
        text_get R (db_open db) (event_key i) = None \<and> acknowledged R (tx_new db p) e)) \<and>
    (ids_ok (sealed_event s) \<and> (\<forall>r. body_request (ev_body (sealed_event s)) = Some r \<longrightarrow> view_stored R db' r = view_stored R db r) \<longrightarrow>
       admit (store_ops R) (tx_new db' p) s = admit (store_ops R) (tx_new db p) s)"
proof -
  obtain es rows th jo where
    db': "db' = clean_counters R es ((fold (clean_event R) es (db\<lparr>db_threads := th\<rparr>))\<lparr>db_joined := jo\<rparr>)"
    using clean_Inr [OF assms(3)] by metis
  have "view_cursor R db' = view_cursor R db" "db_acks db' = db_acks db" "view_resolution R db' = view_resolution R db"
    "get_number R (db_counters db') ''clock'' = get_number R (db_counters db) ''clock''"
    by (simp_all add: fun_eq_iff db' clean_counters_def Let_def view_cursor_def view_resolution_def get_number_def
        fold_clean_frame [OF assms(1)] redb_lawsD [OF assms(1)])
  moreover have digest: "store_digest R (tx_new db' p) j = store_digest R (tx_new db p) j" if "wf_event_id j" for j
    using clean_stored [OF assms(1-3) that] by (auto simp: store_digest_def tx_new_def)
  moreover have "admit (store_ops R) (tx_new db' p) s = admit (store_ops R) (tx_new db p) s"
    if "ids_ok (sealed_event s)" "\<forall>r. body_request (ev_body (sealed_event s)) = Some r \<longrightarrow> view_stored R db' r = view_stored R db r"
    using that calculation by (intro admit_cong) (auto simp: store_ops_def tx_new_def ids_ok_def store_parent_def fun_eq_iff)
  moreover from clean_stored [OF assms] have "view_stored R db' i = view_stored R db i \<or>
     (\<exists>e x. view_stored R db i = Inr (Some (StoredEvent e x)) \<and>
        view_stored R db' i = Inr (Some (StoredCleaned (ev_clock e) (codec_hash (lib_codec R) x))) \<and>
        store_parent R (tx_new db' p) i = Inr Opaque \<and>
        text_get R (db_open db) (event_key i) = None \<and> acknowledged R (tx_new db p) e)"
  proof
    assume "\<exists>e x. view_stored R db i = Inr (Some (StoredEvent e x)) \<and> clean_check R (tx_new db p) e = Inr () \<and>
       view_stored R db' i = Inr (Some (StoredCleaned (ev_clock e) (codec_hash (lib_codec R) x)))"
    then obtain e x where e: "view_stored R db i = Inr (Some (StoredEvent e x))" "clean_check R (tx_new db p) e = Inr ()"
      "view_stored R db' i = Inr (Some (StoredCleaned (ev_clock e) (codec_hash (lib_codec R) x)))" by blast
    then have "text_get R (db_open db) (event_key i) = None" "acknowledged R (tx_new db p) e"
      using view_stored_id [OF e(1)] by (auto simp: clean_check_def result_simps tx_new_def split: if_split_asm)
    with e show ?thesis by (auto simp: store_parent_def tx_new_def)
  qed simp
  ultimately show ?thesis using assms(4) by blast
qed

section \<open>An instance\<close>

lemma append_less_eq: "xs @ ys \<le> xs @ zs \<longleftrightarrow> ys \<le> zs" "xs @ ys < xs @ zs \<longleftrightarrow> ys < zs" for xs :: string
  by (induction xs) auto

text \<open>A key of a thread lies within the bounds of the thread.\<close>

lemma thread_key_bounds:
  "fst (thread_bounds c) \<le> thread_key c (order_key e) \<and> thread_key c (order_key e) < snd (thread_bounds c)"
proof -
  have "format_hex 16 (unat (ev_clock e)) \<noteq> []" by (simp add: format_hex_def Let_def)
  then obtain d ds where d: "order_key e = d # ds" "hex_lower d"
    using format_hex_lower [of 16 "unat (ev_clock e)"]
    by (cases "format_hex 16 (unat (ev_clock e))") (auto simp: order_key_def)
  then have "d < CHR 0x7F" by (auto simp: ascii_defs less_char_def)
  then show ?thesis using d(1) by (simp add: thread_bounds_def thread_key_def append_less_eq)
qed

lemma single_row:
  assumes "redb_laws R"
  shows "text_rows R (text_insert R (text_new R) k v) = [(k, v)]"
proof -
  let ?rows = "text_rows R (text_insert R (text_new R) k v)"
  have m: "map_of ?rows = [k \<mapsto> v]" and d: "distinct (map fst ?rows)"
    using redb_lawsD(4) [OF assms, of "text_insert R (text_new R) k v"]
    by (simp_all add: redb_lawsD [OF assms] strict_sorted_iff)
  have "x \<in> set ?rows \<longleftrightarrow> x = (k, v)" for x
    using map_of_eq_Some_iff [OF d, of "fst x" "snd x"] m by (cases x) (auto split: if_splits)
  then have set: "set ?rows = {(k, v)}" by blast
  moreover have "length ?rows = 1" using distinct_card [of ?rows] d by (simp add: set distinct_map)
  ultimately show ?thesis by (auto simp: length_Suc_conv)
qed

lemma no_rows: "redb_laws R \<Longrightarrow> text_rows R (text_new R) = []"
  using redb_lawsD(1,5) [of R] by (metis map_of_eq_empty_iff)

lemma single_range_from:
  assumes "redb_laws R"
  shows "range_from R (text_insert R (text_new R) (first @ rest) v) first = [(first @ rest, v)]"
  using append_less_eq(1) [of first "[]" rest] by (simp add: range_from_def single_row [OF assms])

definition bobs_store where
  "bobs_store = (opened machine_b)
     \<lparr>db_events := text_insert tree_lib (text_new tree_lib) (event_key (EventId machine_a 1)) ''ask'',
      db_threads := text_insert tree_lib (text_new tree_lib)
        (thread_key (Direct (DirectPair alice bob)) (order_key ask_event)) (event_key (EventId machine_a 1))\<rparr>"

lemma bobs_stored: "view_stored tree_lib bobs_store (EventId machine_a 1) = Inr (Some (StoredEvent ask_event ''ask''))"
  by (simp add: view_stored_def bobs_store_def redb_lawsD [OF tree_redb] decode_record_def json_def MAX_RECORD_def)
    (simp add: tree_lib_def)

lemma bobs_clean: "\<exists>db'. clean tree_lib machine_b (Direct (DirectPair alice bob)) bobs_store = (db', Inr 1)"
proof -
  have rows: "range_between tree_lib (db_threads bobs_store) (fst (thread_bounds (Direct (DirectPair alice bob))))
      (snd (thread_bounds (Direct (DirectPair alice bob)))) =
    [(thread_key (Direct (DirectPair alice bob)) (order_key ask_event), event_key (EventId machine_a 1))]"
    using thread_key_bounds [of "Direct (DirectPair alice bob)" ask_event]
    by (simp add: range_between_def bobs_store_def single_row [OF tree_redb])
  have "event_id_try_from (event_key (EventId machine_a 1)) = Inr (EventId machine_a 1)"
    by (simp add: event_id_try_from_iff event_key_def wf_event_id_def wf_machines)
  then have ev: "clean_events tree_lib bobs_store [(k, event_key (EventId machine_a 1))] = Inr [(ask_event, ''ask'')]" for k
    by (simp add: clean_events_def bobs_stored map_filter_def)
  have "clean_check tree_lib (tx_new bobs_store machine_b) ask_event = Inr ()"
    by (simp add: clean_check_def tx_new_def acknowledged_def bobs_store_def opened_def create_all_def Let_def
        redb_lawsD [OF tree_redb]) (simp add: ask_body_def)
  then show ?thesis by (simp add: clean_def clean_in_def Let_def tx_new_def rows ev)
qed

theorem clean_keeps_history_witness:
  "\<exists>db'. clean tree_lib machine_b (Direct (DirectPair alice bob)) bobs_store = (db', Inr 1) \<and>
     store_digest tree_lib (tx_new db' machine_b) (EventId machine_a 1) =
       store_digest tree_lib (tx_new bobs_store machine_b) (EventId machine_a 1)"
proof -
  obtain db' where c: "clean tree_lib machine_b (Direct (DirectPair alice bob)) bobs_store = (db', Inr 1)"
    using bobs_clean by blast
  have "\<forall>x. length (digest_bytes (codec_hash (lib_codec tree_lib) x)) = 32" by (simp add: tree_lib_def ask_codec_def)
  from clean_keeps_history [OF tree_redb this c, of "EventId machine_a 1"] c show ?thesis
    by (auto simp: wf_event_id_def wf_machines)
qed

end
