(* ===== verification/Chat_Address.thy ===== *)
theory Chat_Address
  imports Store_Admin
begin

text \<open>
  How a user names agents and rooms (\<open>chat/address.rs\<close>): the address book of a machine, the machines a
  text may name, and the agent, the room or the conversation it resolves to.
\<close>

record book =
  bk_local :: "origin option"
  bk_peers :: "(string \<times> origin) list"
  bk_machines :: "(origin \<times> machine_card) list"
  bk_agents :: "agent_id list"
  bk_rooms :: "room_id list"

definition unique :: "('a \<Rightarrow> string) \<Rightarrow> 'a list \<Rightarrow> string \<Rightarrow> ('j store_error, 'a) result" where
  "unique to_string found text =
     (case found of
        [] \<Rightarrow> Inl (ErrUnknown text)
      | [only] \<Rightarrow> Inr only
      | _ \<Rightarrow> Inl (ErrAmbiguous (text @ '' ('' @ join '', '' (map to_string found) @ '')'')))"

definition eq_ignore_ascii_case :: "string \<Rightarrow> string \<Rightarrow> bool" where
  "eq_ignore_ascii_case a b = (to_ascii_uppercase a = to_ascii_uppercase b)"

definition add_machine :: "origin \<Rightarrow> origin list \<Rightarrow> origin list" where
  "add_machine origin found = (if origin \<in> set found then found else found @ [origin])"

definition machines_named :: "book \<Rightarrow> string \<Rightarrow> origin list" where
  "machines_named book text =
     fold add_machine
       ((if text = ''local'' then case bk_local book of Some local \<Rightarrow> [local] | None \<Rightarrow> [] else []) @
        (case map_of (bk_peers book) text of Some origin \<Rightarrow> [origin] | None \<Rightarrow> []) @
        map fst (filter (\<lambda>(origin, c).
          eq_ignore_ascii_case (line_str (machine_label c)) text \<or> origin_str origin = text) (bk_machines book)) @
        (case origin_try_from text of Inr origin \<Rightarrow> [origin] | Inl _ \<Rightarrow> []))
       []"

definition book_agent :: "book \<Rightarrow> string \<Rightarrow> ('j store_error, agent_id) result" where
  "book_agent book text =
     unique agent_id_to_string
       (case rsplit_once (CHR ''@'') text of
          Some (name, machine) \<Rightarrow>
            (let origins = machines_named book machine
             in filter (\<lambda>agent. agent_name_str (agent_name agent) = name \<and> agent_origin agent \<in> set origins) (bk_agents book))
        | None \<Rightarrow> filter (\<lambda>agent. agent_name_str (agent_name agent) = text) (bk_agents book))
       text"

definition book_room :: "book \<Rightarrow> string \<Rightarrow> ('j store_error, room_id) result" where
  "book_room book text =
     (case conversation_try_from text of
        Inr (InRoom room) \<Rightarrow> unique room_id_to_string (filter (\<lambda>known. known = room) (bk_rooms book)) text
      | _ \<Rightarrow>
          (let (name, origins) =
             (case rsplit_once (CHR ''@'') text of
                Some (name, machine) \<Rightarrow> (name, Some (machines_named book machine))
              | None \<Rightarrow> (text, None))
           in unique room_id_to_string
                (filter (\<lambda>room. room_name_str (room_name room) = name \<and>
                   (case origins of None \<Rightarrow> True | Some origins \<Rightarrow> room_origin room \<in> set origins)) (bk_rooms book))
                text))"

definition book_conversation :: "book \<Rightarrow> agent_id \<Rightarrow> string \<Rightarrow> ('j store_error, conversation) result" where
  "book_conversation book me target =
     (case conversation_try_from target of
        Inr conversation \<Rightarrow> Inr conversation
      | Inl _ \<Rightarrow>
          (case (book_agent book target, book_room book target) of
             (Inr agent, Inl _) \<Rightarrow> map_err ErrInvalid (conversation_direct me agent)
           | (Inl _, Inr room) \<Rightarrow> Inr (InRoom room)
           | (Inr agent, Inr room) \<Rightarrow>
               Inl (ErrAmbiguous (target @ '' (agent '' @ agent_id_to_string agent @ '', room '' @
                 conversation_to_string (InRoom room) @ '')''))
           | (Inl agent, Inl (ErrUnknown _)) \<Rightarrow> Inl agent
           | (Inl _, Inl room) \<Rightarrow> Inl room))"

definition book_machine_label :: "book \<Rightarrow> origin \<Rightarrow> string" where
  "book_machine_label book origin =
     (if bk_local book = Some origin then ''local''
      else case find (\<lambda>(_, known). known = origin) (bk_peers book) of
        Some (alias, _) \<Rightarrow> alias
      | None \<Rightarrow>
          (case map_of (bk_machines book) origin of
             None \<Rightarrow> take 8 (origin_str origin)
           | Some c \<Rightarrow> line_str (machine_label c)))"

definition book_agent_label :: "book \<Rightarrow> agent_id \<Rightarrow> string" where
  "book_agent_label book agent =
     agent_name_str (agent_name agent) @ CHR ''@'' # book_machine_label book (agent_origin agent)"

definition local_agent_name :: "origin \<Rightarrow> string \<Rightarrow> string" where
  "local_agent_name local text =
     (case strip_suffix text ''@local'' of
        Some name \<Rightarrow> name
      | None \<Rightarrow> (case strip_suffix text (CHR ''@'' # origin_str local) of Some name \<Rightarrow> name | None \<Rightarrow> text))"

definition local_agent_of :: "book \<Rightarrow> string \<Rightarrow> ('j store_error, agent_id) result" where
  "local_agent_of book text =
     and_then (ok_or (ErrCorrupt ''the local machine is unknown'') (bk_local book)) (\<lambda>local.
       map_ok (\<lambda>name. AgentId name local) (map_err ErrInvalid (agent_name_try_from (local_agent_name local text))))"

definition local_room_of :: "book \<Rightarrow> string \<Rightarrow> ('j store_error, room_id) result" where
  "local_room_of book text =
     and_then (ok_or (ErrCorrupt ''the local machine is unknown'') (bk_local book)) (\<lambda>local.
       map_ok (RoomId local) (map_err ErrInvalid (room_name_try_from text)))"

section \<open>What an address resolves to\<close>

lemma unique_Inr: "unique f found text = Inr x \<longleftrightarrow> found = [x]"
  by (auto simp: unique_def split: list.splits)

lemma agent_name_eq: "agent_name_str a = agent_name_str b \<longleftrightarrow> a = b"
  by (auto intro: agent_name.expand)

lemma distinct_filter_single:
  "distinct xs \<Longrightarrow> filter P xs = [x] \<longleftrightarrow> x \<in> set xs \<and> P x \<and> (\<forall>y \<in> set xs. P y \<longrightarrow> y = x)"
  by (induction xs) (auto simp: filter_empty_conv)

lemma add_machines_set: "set (fold add_machine xs found) = set xs \<union> set found"
  by (induction xs arbitrary: found) (auto simp: add_machine_def)

lemma filter_keys: "x \<in> set (map fst (filter P xs)) \<longleftrightarrow> (\<exists>c. (x, c) \<in> set xs \<and> P (x, c))"
  by force

lemma machines_named_iff:
  "origin \<in> set (machines_named book text) \<longleftrightarrow>
     text = ''local'' \<and> bk_local book = Some origin \<or> map_of (bk_peers book) text = Some origin \<or>
     (\<exists>c. (origin, c) \<in> set (bk_machines book) \<and>
        (eq_ignore_ascii_case (line_str (machine_label c)) text \<or> origin_str origin = text)) \<or>
     origin_try_from text = Inr origin"
proof -
  have picks: "x \<in> set (case y of Some z \<Rightarrow> [z] | None \<Rightarrow> []) \<longleftrightarrow> y = Some x"
    "x \<in> set (case w of Inr z \<Rightarrow> [z] | Inl _ \<Rightarrow> []) \<longleftrightarrow> w = Inr x"
    "x \<in> set (if c then l else []) \<longleftrightarrow> c \<and> x \<in> set l"
    for x :: origin and y and w :: "invalid + origin" and c l
    by (auto split: option.splits sum.splits)
  show ?thesis
    unfolding machines_named_def add_machines_set set_append Un_iff picks filter_keys prod.case list.set by blast
qed

text \<open>A machine that is this one, a peer, or known by its card.\<close>

definition machine_known :: "book \<Rightarrow> origin \<Rightarrow> bool" where
  "machine_known book origin =
     (bk_local book = Some origin \<or> origin \<in> snd ` set (bk_peers book) \<or> origin \<in> fst ` set (bk_machines book))"

lemma label_names_machine:
  assumes "distinct (map fst (bk_peers book))" "machine_known book origin"
  shows "origin \<in> set (machines_named book (book_machine_label book origin))"
proof -
  consider (local) "bk_local book = Some origin"
    | (peer) a where "bk_local book \<noteq> Some origin" "find (\<lambda>(_, known). known = origin) (bk_peers book) = Some (a, origin)"
    | (card) c where "bk_local book \<noteq> Some origin" "find (\<lambda>(_, known). known = origin) (bk_peers book) = None"
        "map_of (bk_machines book) origin = Some c"
  proof (cases "find (\<lambda>(_, known). known = origin) (bk_peers book)")
    case None
    then have "origin \<notin> snd ` set (bk_peers book)" by (auto simp: find_None_iff)
    then have "bk_local book = Some origin \<or> (\<exists>c. map_of (bk_machines book) origin = Some c)"
      using assms(2) map_of_eq_None_iff [of "bk_machines book" origin] by (auto simp: machine_known_def)
    then show thesis using that None by blast
  next
    case (Some e)
    then have "e = (fst e, origin)" by (cases e) (auto simp: find_Some_iff)
    then show thesis using that(1,2) Some by metis
  qed
  then show ?thesis
  proof cases
    case local
    then show ?thesis by (simp add: machines_named_iff book_machine_label_def)
  next
    case peer
    then have "(a, origin) \<in> set (bk_peers book)" by (auto simp: find_Some_iff in_set_conv_nth)
    then have "map_of (bk_peers book) a = Some origin" using assms(1) by simp
    then show ?thesis using peer by (simp add: machines_named_iff book_machine_label_def)
  next
    case card
    then show ?thesis
      by (auto simp: machines_named_iff book_machine_label_def eq_ignore_ascii_case_def dest: map_of_SomeD)
  qed
qed

lemma agent_label_single:
  assumes "distinct (bk_agents book)" "distinct (map fst (bk_peers book))"
    "a \<in> set (bk_agents book)" "machine_known book (agent_origin a)"
    "CHR ''@'' \<notin> set (book_machine_label book (agent_origin a))"
  shows "book_agent book (book_agent_label book a) = Inr b \<longleftrightarrow>
    b = a \<and> (\<forall>c \<in> set (bk_agents book).
      agent_name c = agent_name a \<and> agent_origin c \<in> set (machines_named book (book_machine_label book (agent_origin a))) \<longrightarrow> c = a)"
proof -
  have "rsplit_once (CHR ''@'') (book_agent_label book a) = Some (agent_name_str (agent_name a), book_machine_label book (agent_origin a))"
    using assms(5) by (simp add: book_agent_label_def)
  then have "book_agent book (book_agent_label book a) = Inr b \<longleftrightarrow>
      filter (\<lambda>c. agent_name_str (agent_name c) = agent_name_str (agent_name a) \<and>
        agent_origin c \<in> set (machines_named book (book_machine_label book (agent_origin a)))) (bk_agents book) = [b]"
    by (simp add: book_agent_def unique_Inr)
  also have "\<dots> \<longleftrightarrow> b = a \<and> (\<forall>c \<in> set (bk_agents book). agent_name_str (agent_name c) = agent_name_str (agent_name a) \<and>
      agent_origin c \<in> set (machines_named book (book_machine_label book (agent_origin a))) \<longrightarrow> c = a)"
    unfolding distinct_filter_single [OF assms(1)] using label_names_machine [OF assms(2,4)] assms(3) by blast
  finally show ?thesis by (simp add: agent_name_eq)
qed

lemma plain_handle: "wf_agent_id a \<Longrightarrow> CHR ''@'' \<notin> set (agent_name_str (agent_name a))"
  by (auto simp: wf_agent_id_def wf_agent_name_def valid_handle_def handle_lower_def list_all_iff ascii_defs)

text \<open>A label with another \<open>@\<close> in its machine, as an SSH alias \<open>user@host\<close> has it, names nobody.\<close>

lemma agent_label_unknown:
  assumes "list_all wf_agent_id (bk_agents book)" "CHR ''@'' \<in> set (book_machine_label book (agent_origin a))"
  shows "book_agent book (book_agent_label book a) = Inl (ErrUnknown (book_agent_label book a))"
proof -
  obtain n m where nm: "rsplit_once (CHR ''@'') (book_agent_label book a) = Some (n, m)"
    by (cases "rsplit_once (CHR ''@'') (book_agent_label book a)") (auto simp: rsplit_once_None book_agent_label_def)
  then have "CHR ''@'' \<in> set n"
    using assms(2) by (auto simp: rsplit_once_Some book_agent_label_def append_eq_append_conv2 append_eq_Cons_conv Cons_eq_append_conv)
  then have "filter (\<lambda>c. agent_name_str (agent_name c) = n \<and> agent_origin c \<in> set (machines_named book m)) (bk_agents book) = []"
    using assms(1) plain_handle by (fastforce simp: filter_empty_conv list_all_iff)
  then show ?thesis by (simp add: book_agent_def nm unique_def)
qed

text \<open>
  C29: The label under which an agent is shown is an address of that agent: on a machine this one knows it
  resolves to the agent itself or, when another known agent of that name lives on a machine the label
  also names, to nobody. The exception is a machine whose label contains an \<open>@\<close>, as the alias \<open>user@host\<close> of a
  peer does: the agents there are shown under a label that is no address at all.
\<close>

theorem agent_label_resolves:
  assumes "distinct (bk_agents book)" "distinct (map fst (bk_peers book))" "list_all wf_agent_id (bk_agents book)"
    "a \<in> set (bk_agents book)" "machine_known book (agent_origin a)"
  shows "(\<forall>b. book_agent book (book_agent_label book a) = (Inr b :: ('j store_error, agent_id) result) \<longrightarrow> b = a) \<and>
    (CHR ''@'' \<notin> set (book_machine_label book (agent_origin a)) \<longrightarrow>
      (book_agent book (book_agent_label book a) = (Inr a :: ('j store_error, agent_id) result) \<longleftrightarrow>
       list_all (\<lambda>c. agent_name c = agent_name a \<and>
         agent_origin c \<in> set (machines_named book (book_machine_label book (agent_origin a))) \<longrightarrow> c = a) (bk_agents book))) \<and>
    (CHR ''@'' \<in> set (book_machine_label book (agent_origin a)) \<longrightarrow>
      book_agent book (book_agent_label book a) =
        (Inl (ErrUnknown (book_agent_label book a)) :: ('j store_error, agent_id) result))"
proof (cases "CHR ''@'' \<in> set (book_machine_label book (agent_origin a))")
  case True
  then show ?thesis using agent_label_unknown [OF assms(3) True, where ?'a = 'j] by simp
next
  case False
  then show ?thesis
    using agent_label_single [OF assms(1,2,4,5) False, where ?'a = 'j] unfolding list_all_iff by blast
qed

text \<open>Two reviewers, one on this machine and one on the peer \<open>linux\<close>.\<close>

definition sample_origin :: "char \<Rightarrow> origin" where
  "sample_origin c = Origin (replicate 32 c)"

definition sample_reviewer :: "char \<Rightarrow> agent_id" where
  "sample_reviewer c = AgentId (AgentName ''reviewer'') (sample_origin c)"

definition sample_book :: book where
  "sample_book =
     \<lparr>bk_local = Some (sample_origin CHR ''a''), bk_peers = [(''linux'', sample_origin CHR ''b'')], bk_machines = [],
      bk_agents = [sample_reviewer CHR ''a'', sample_reviewer CHR ''b''], bk_rooms = []\<rparr>"

theorem agent_label_resolves_witness:
  "book_agent_label sample_book (sample_reviewer CHR ''b'') = ''reviewer@linux'' \<and>
   book_agent sample_book ''reviewer@linux'' = (Inr (sample_reviewer CHR ''b'') :: (unit store_error, agent_id) result)"
proof -
  have label: "book_agent_label sample_book (sample_reviewer CHR ''b'') = ''reviewer@linux''"
    "book_machine_label sample_book (agent_origin (sample_reviewer CHR ''b'')) = ''linux''" by code_simp+
  have known: "distinct (bk_agents sample_book)" "distinct (map fst (bk_peers sample_book))"
    "list_all wf_agent_id (bk_agents sample_book)" "sample_reviewer CHR ''b'' \<in> set (bk_agents sample_book)"
    "machine_known sample_book (agent_origin (sample_reviewer CHR ''b''))"
    by code_simp+
  have single: "CHR ''@'' \<notin> set ''linux''" "list_all (\<lambda>c. agent_name c = agent_name (sample_reviewer CHR ''b'') \<and>
       agent_origin c \<in> set (machines_named sample_book ''linux'') \<longrightarrow> c = sample_reviewer CHR ''b'') (bk_agents sample_book)"
    by code_simp+
  from agent_label_resolves [OF known, where ?'j = unit] single show ?thesis unfolding label by blast
qed

end
