(* ===== verification/Chat_Provider.thy ===== *)
theory Chat_Provider
  imports Hook_Clients Chat_Policy
begin

text \<open>
  The AI clients a managed agent runs on: the command line of a turn (\<open>process/chat.rs\<close>) and the reading
  of a client's output as one answer of one session (\<open>chat/provider.rs\<close>). JSON belongs to a library, the
  parameter \<open>json_api\<close> of \<open>Hook_Clients\<close>.

  The theorem compares the reading of a Codex stream, a fold over its lines with a small state, with what a
  complete stream is: its events as a whole, without a state.
\<close>

section \<open>Sessions\<close>

definition MAX_OUTPUT :: nat where
  "MAX_OUTPUT = 4 * 1024 * 1024"

definition valid_session :: "string \<Rightarrow> bool" where
  "valid_session session =
     (1 \<le> length session \<and> length session \<le> 256 \<and>
      (case session of [] \<Rightarrow> False | b # _ \<Rightarrow> is_ascii_alphanumeric b) \<and>
      list_all (\<lambda>b. is_ascii_alphanumeric b \<or> b = CHR ''-'' \<or> b = CHR ''_'') session)"

definition UUID_GROUP_LENGTHS :: "nat list" where
  "UUID_GROUP_LENGTHS = [8, 4, 4, 4, 12]"

definition is_ascii_hexdigit :: "char \<Rightarrow> bool" where
  "is_ascii_hexdigit b = (is_ascii_digit b \<or> in_range b 65 70 \<or> in_range b 97 102)"

definition resumable :: "tool \<Rightarrow> string \<Rightarrow> bool" where
  "resumable tool session =
     (let groups = split_at (CHR ''-'') session;
          uuid = (map length groups = UUID_GROUP_LENGTHS \<and> list_all (list_all is_ascii_hexdigit) groups)
      in valid_session session \<and> (case tool of Codex \<Rightarrow> uuid | Claude \<Rightarrow> True | Opencode \<Rightarrow> True))"

section \<open>The command line of a turn\<close>

record invocation =
  inv_tool :: tool
  inv_access :: access
  inv_cwd :: string
  inv_session :: "string option"
  inv_prompt :: string
  inv_agent :: agent_id
  inv_turn :: event_id

datatype session_error = SessionError

definition bound_mcp :: "invocation \<Rightarrow> string list" where
  "bound_mcp i =
     [''mcp'', ''--as'', agent_id_to_string (inv_agent i), ''--turn'', event_id_to_string (inv_turn i)]"

definition OPENCODE_READ_AGENT :: string where
  "OPENCODE_READ_AGENT = ''domyjob-read''"

definition claude_words :: "('v, 'j) json_api \<Rightarrow> invocation \<Rightarrow> string \<Rightarrow> string list" where
  "claude_words J i domyjob =
     [''-p'', ''--output-format'', ''json'', ''--strict-mcp-config'',
      ''--mcp-config='' @ js_to_string J (js_object J [''mcpServers'' \<mapsto> js_object J [''domyjob'' \<mapsto> js_object J
        [''type'' \<mapsto> js_str J ''stdio'', ''command'' \<mapsto> js_str J domyjob,
         ''args'' \<mapsto> js_array J (map (js_str J) (bound_mcp i))]]]),
      ''--settings='' @ js_to_string J (claude_settings J domyjob),
      ''--allowedTools=mcp__domyjob''] @
     (case inv_access i of
        AccessRead \<Rightarrow> [''--permission-mode'', ''dontAsk'', ''--tools=Read,Grep,Glob'']
      | AccessWrite \<Rightarrow> [''--permission-mode'', ''auto'', ''--permission-prompts'', ''none''])"

definition codex_words :: "('v, 'j) json_api \<Rightarrow> invocation \<Rightarrow> string \<Rightarrow> string list" where
  "codex_words J i domyjob =
     [''exec'', ''--json'', ''--skip-git-repo-check'', ''--sandbox'',
      (case inv_access i of AccessRead \<Rightarrow> ''read-only'' | AccessWrite \<Rightarrow> ''workspace-write'')] @
     concat (map (\<lambda>setting. [''-c'', setting])
       [''mcp_servers.domyjob.command='' @ js_to_string J (js_str J domyjob),
        ''mcp_servers.domyjob.args='' @ js_to_string J (js_array J (map (js_str J) (bound_mcp i))),
        ''mcp_servers.domyjob.default_tools_approval_mode='' @ [CHR 0x22] @ ''approve'' @ [CHR 0x22]])"

definition opencode_words :: "invocation \<Rightarrow> string list" where
  "opencode_words i =
     [''run'', ''--format'', ''json''] @
     (if inv_access i = AccessRead then [''--agent'', OPENCODE_READ_AGENT] else [])"

definition arguments :: "('v, 'j) json_api \<Rightarrow> invocation \<Rightarrow> string \<Rightarrow> (session_error, string list) result" where
  "arguments J i domyjob =
     (if (case inv_session i of None \<Rightarrow> False | Some session \<Rightarrow> \<not> resumable (inv_tool i) session)
      then Inl SessionError
      else Inr
        ((case inv_tool i of
            Claude \<Rightarrow> claude_words J i domyjob | Codex \<Rightarrow> codex_words J i domyjob | Opencode \<Rightarrow> opencode_words i) @
         (case inv_session i of
            None \<Rightarrow> []
          | Some session \<Rightarrow>
              [case inv_tool i of Claude \<Rightarrow> ''--resume'' | Codex \<Rightarrow> ''resume'' | Opencode \<Rightarrow> ''--session'', session]) @
         (if inv_tool i = Codex then [''-''] else [])))"

definition environment :: "('v, 'j) json_api \<Rightarrow> invocation \<Rightarrow> string \<Rightarrow> (string \<times> string) list" where
  "environment J i domyjob =
     (case inv_tool i of
        Claude \<Rightarrow> []
      | Codex \<Rightarrow> []
      | Opencode \<Rightarrow>
          (let deny = js_object J (map_of (map (\<lambda>k. (k, js_str J ''deny'')) [''edit'', ''bash'', ''task'', ''webfetch'']))
           in [(''OPENCODE_CONFIG_CONTENT'', js_to_string J (js_object J
                [''mcp'' \<mapsto> js_object J [''domyjob'' \<mapsto> js_object J
                   [''type'' \<mapsto> js_str J ''local'', ''command'' \<mapsto> js_array J (map (js_str J) (domyjob # bound_mcp i)),
                    ''enabled'' \<mapsto> js_bool J True]],
                 ''agent'' \<mapsto> js_object J [OPENCODE_READ_AGENT \<mapsto> js_object J
                   [''mode'' \<mapsto> js_str J ''primary'', ''permission'' \<mapsto> deny]]]))]))"

section \<open>The answer of a client\<close>

record client_answer =
  ca_text :: string
  ca_session :: string

datatype incomplete = IncompleteAnswer

definition provider_json :: "('v, 'j) json_api \<Rightarrow> u8 list \<Rightarrow> (incomplete, 'v) result" where
  "provider_json J bytes = map_err (\<lambda>_. IncompleteAnswer) (json (js_from_slice J) bytes MAX_OUTPUT)"

definition provider_text :: "('v, 'j) json_api \<Rightarrow> 'v \<Rightarrow> string \<Rightarrow> (incomplete, string) result" where
  "provider_text J value key = ok_or IncompleteAnswer (Option.bind (js_get J value key) (js_as_str J))"

definition provider_answer :: "string \<Rightarrow> string \<Rightarrow> (incomplete, client_answer) result" where
  "provider_answer answer session =
     (if trim answer = [] \<or> \<not> valid_session session then Inl IncompleteAnswer
      else Inr \<lparr>ca_text = answer, ca_session = session\<rparr>)"

definition claude_result :: "('v, 'j) json_api \<Rightarrow> 'v \<Rightarrow> (incomplete, 'v) result" where
  "claude_result J value =
     (if js_as_object J value \<noteq> None then Inr value
      else case js_as_array J value of
        Some events \<Rightarrow>
          (case filter (\<lambda>event. Option.bind (js_get J event ''type'') (js_as_str J) = Some ''result'') events of
             [result] \<Rightarrow> Inr result
           | _ \<Rightarrow> Inl IncompleteAnswer)
      | None \<Rightarrow> Inl IncompleteAnswer)"

definition claude_answer :: "('v, 'j) json_api \<Rightarrow> u8 list \<Rightarrow> (incomplete, client_answer) result" where
  "claude_answer J output =
     and_then (provider_json J output) (\<lambda>value.
     and_then (claude_result J value) (\<lambda>result.
     and_then (provider_text J result ''type'') (\<lambda>kind.
       if kind \<noteq> ''result'' \<or> js_get J result ''is_error'' \<noteq> Some (js_bool J False) then Inl IncompleteAnswer
       else
         and_then (provider_text J result ''result'') (\<lambda>answer.
         and_then (provider_text J result ''session_id'') (provider_answer answer)))))"

record stream =
  st_session :: "string option"
  st_answer :: string
  st_complete :: bool

definition stream_default :: stream where
  "stream_default = \<lparr>st_session = None, st_answer = [], st_complete = False\<rparr>"

definition stream_session :: "string \<Rightarrow> stream \<Rightarrow> (incomplete, stream) result" where
  "stream_session session st =
     (if \<not> valid_session session \<or> (case st_session st of None \<Rightarrow> False | Some previous \<Rightarrow> previous \<noteq> session)
      then Inl IncompleteAnswer
      else Inr (st\<lparr>st_session := Some session\<rparr>))"

definition stream_codex :: "('v, 'j) json_api \<Rightarrow> 'v \<Rightarrow> stream \<Rightarrow> (incomplete, stream) result" where
  "stream_codex J event st =
     and_then (provider_text J event ''type'') (\<lambda>kind.
       if kind = ''thread.started'' then
         and_then (provider_text J event ''thread_id'') (\<lambda>session. stream_session session st)
       else if kind = ''turn.started'' then Inr (st\<lparr>st_complete := False, st_answer := []\<rparr>)
       else if kind = ''item.completed'' then
         and_then (ok_or IncompleteAnswer (js_get J event ''item'')) (\<lambda>item.
         and_then (provider_text J item ''type'') (\<lambda>item_kind.
           if item_kind = ''agent_message''
           then map_ok (\<lambda>text. st\<lparr>st_answer := text\<rparr>) (provider_text J item ''text'')
           else Inr st))
       else if kind = ''turn.completed'' then Inr (st\<lparr>st_complete := True\<rparr>)
       else if kind = ''turn.failed'' \<or> kind = ''error'' then Inl IncompleteAnswer
       else Inr st)"

definition stream_opencode :: "('v, 'j) json_api \<Rightarrow> 'v \<Rightarrow> stream \<Rightarrow> (incomplete, stream) result" where
  "stream_opencode J event st =
     and_then (provider_text J event ''sessionID'') (\<lambda>session.
     and_then (stream_session session st) (\<lambda>st.
     and_then (provider_text J event ''type'') (\<lambda>kind.
       if kind = ''step_start'' then Inr (st\<lparr>st_complete := False, st_answer := []\<rparr>)
       else if kind = ''text'' then
         and_then (ok_or IncompleteAnswer (js_get J event ''part'')) (\<lambda>part.
           map_ok (\<lambda>text. st\<lparr>st_answer := st_answer st @ text\<rparr>) (provider_text J part ''text''))
       else if kind = ''step_finish'' then
         and_then (ok_or IncompleteAnswer (js_get J event ''part'')) (\<lambda>part.
           map_ok (\<lambda>reason. st\<lparr>st_complete := (reason = ''stop'')\<rparr>) (provider_text J part ''reason''))
       else if kind = ''error'' then Inl IncompleteAnswer
       else Inr st)))"

text \<open>The lines of the output that are not blank.\<close>

definition is_ascii_whitespace :: "u8 \<Rightarrow> bool" where
  "is_ascii_whitespace b = (b \<in> {0x20, 0x09, 0x0A, 0x0C, 0x0D})"

fun split_lines :: "u8 list \<Rightarrow> u8 list list" where
  "split_lines [] = [[]]"
| "split_lines (b # bs) =
     (if b = 0x0A then [] # split_lines bs
      else case split_lines bs of w # ws \<Rightarrow> (b # w) # ws | [] \<Rightarrow> [[b]])"

definition stream_lines :: "u8 list \<Rightarrow> u8 list list" where
  "stream_lines output = filter (\<lambda>line. \<not> list_all is_ascii_whitespace line) (split_lines output)"

fun stream_fold ::
  "('v, 'j) json_api \<Rightarrow> ('v \<Rightarrow> stream \<Rightarrow> (incomplete, stream) result) \<Rightarrow> u8 list list \<Rightarrow> stream \<Rightarrow> (incomplete, stream) result" where
  "stream_fold J step [] st = Inr st"
| "stream_fold J step (line # lines) st =
     and_then (provider_json J line) (\<lambda>event. and_then (step event st) (stream_fold J step lines))"

definition parse_output :: "('v, 'j) json_api \<Rightarrow> tool \<Rightarrow> u8 list \<Rightarrow> (incomplete, client_answer) result" where
  "parse_output J tool output =
     (if tool = Claude then claude_answer J output
      else
        and_then (stream_fold J
          (\<lambda>event st. case tool of
              Codex \<Rightarrow> stream_codex J event st | Opencode \<Rightarrow> stream_opencode J event st | Claude \<Rightarrow> Inl IncompleteAnswer)
          (stream_lines output) stream_default) (\<lambda>st.
          if \<not> st_complete st then Inl IncompleteAnswer
          else and_then (ok_or IncompleteAnswer (st_session st)) (provider_answer (st_answer st))))"

section \<open>What a complete Codex stream is\<close>

definition event_text :: "('v, 'j) json_api \<Rightarrow> 'v \<Rightarrow> string \<Rightarrow> string option" where
  "event_text J event key = Option.bind (js_get J event key) (js_as_str J)"

abbreviation codex_kind :: "('v, 'j) json_api \<Rightarrow> 'v \<Rightarrow> string option" where
  "codex_kind J event \<equiv> event_text J event ''type''"

definition agent_message :: "('v, 'j) json_api \<Rightarrow> 'v \<Rightarrow> string option" where
  "agent_message J event =
     (if codex_kind J event = Some ''item.completed''
      then Option.bind (js_get J event ''item'') (\<lambda>item.
        if event_text J item ''type'' = Some ''agent_message'' then event_text J item ''text'' else None)
      else None)"

definition codex_thread :: "('v, 'j) json_api \<Rightarrow> 'v \<Rightarrow> string option" where
  "codex_thread J event =
     (if codex_kind J event = Some ''thread.started'' then event_text J event ''thread_id'' else None)"

text \<open>An event that reports no failure and has the members its kind has.\<close>

definition codex_readable :: "('v, 'j) json_api \<Rightarrow> 'v \<Rightarrow> bool" where
  "codex_readable J event =
     (case codex_kind J event of
        None \<Rightarrow> False
      | Some kind \<Rightarrow>
          kind \<noteq> ''turn.failed'' \<and> kind \<noteq> ''error'' \<and>
          (kind = ''thread.started'' \<longrightarrow>
             (case event_text J event ''thread_id'' of None \<Rightarrow> False | Some session \<Rightarrow> valid_session session)) \<and>
          (kind = ''item.completed'' \<longrightarrow>
             (case js_get J event ''item'' of
                None \<Rightarrow> False
              | Some item \<Rightarrow> event_text J item ''type'' \<noteq> None \<and>
                  (event_text J item ''type'' = Some ''agent_message'' \<longrightarrow> event_text J item ''text'' \<noteq> None))))"

definition current_turn :: "('v, 'j) json_api \<Rightarrow> 'v list \<Rightarrow> 'v list" where
  "current_turn J events = rev (takeWhile (\<lambda>event. codex_kind J event \<noteq> Some ''turn.started'') (rev events))"

definition last_message :: "('v, 'j) json_api \<Rightarrow> 'v list \<Rightarrow> string" where
  "last_message J events = last ([] # List.map_filter (agent_message J) events)"

fun stream_steps ::
  "('v \<Rightarrow> stream \<Rightarrow> (incomplete, stream) result) \<Rightarrow> 'v list \<Rightarrow> stream \<Rightarrow> (incomplete, stream) result" where
  "stream_steps step [] st = Inr st"
| "stream_steps step (event # events) st = and_then (step event st) (stream_steps step events)"

lemma stream_fold_Inr:
  "stream_fold J step lines st = Inr st' \<longleftrightarrow>
     (\<exists>events. traverse (provider_json J) lines = Inr events \<and> stream_steps step events st = Inr st')"
  by (induction lines arbitrary: st) (fastforce simp: result_simps)+

lemma stream_steps_snoc:
  "stream_steps step (events @ [event]) st = and_then (stream_steps step events st) (step event)"
proof (induction events arbitrary: st)
  case Nil
  then show ?case by (cases "step event st") auto
next
  case (Cons first events)
  then show ?case by (cases "step first st") auto
qed

lemma provider_text_Inr: "provider_text J event key = Inr text \<longleftrightarrow> event_text J event key = Some text"
  by (simp add: provider_text_def event_text_def result_simps)

lemma provider_text_cases:
  "provider_text J event key = (case event_text J event key of None \<Rightarrow> Inl IncompleteAnswer | Some text \<Rightarrow> Inr text)"
  by (auto simp: provider_text_def event_text_def split: option.splits)

lemma set_option_single: "{s} = set_option x \<longleftrightarrow> x = Some s" "set_option x = {s} \<longleftrightarrow> x = Some s"
  by (cases x; auto)+

lemma option_part: "T \<union> set_option x = set_option y \<Longrightarrow> \<exists>ses. T = set_option ses"
proof -
  assume "T \<union> set_option x = set_option y"
  then have "T \<subseteq> set_option y" by blast
  then have "T = set_option None \<or> T = set_option y" by (cases y) (simp_all add: subset_singleton_iff)
  then show ?thesis by blast
qed

lemma stream_session_Inr:
  "stream_session s st = Inr st' \<longleftrightarrow>
     valid_session s \<and> set_option (st_session st) \<subseteq> {s} \<and> st' = st\<lparr>st_session := Some s\<rparr>"
  by (auto simp: stream_session_def split: option.splits)

text \<open>One event: what it does to the state is what it adds to the session, the turn and the answer.\<close>

lemma stream_codex_Inr:
  "stream_codex J event st = Inr st' \<longleftrightarrow>
     codex_readable J event \<and>
     set_option (st_session st) \<union> set_option (codex_thread J event) = set_option (st_session st') \<and>
     st_answer st' =
       (if codex_kind J event = Some ''turn.started'' then []
        else case agent_message J event of Some text \<Rightarrow> text | None \<Rightarrow> st_answer st) \<and>
     st_complete st' =
       (codex_kind J event \<noteq> Some ''turn.started'' \<and> (st_complete st \<or> codex_kind J event = Some ''turn.completed''))"
proof (cases "codex_kind J event")
  case None
  then show ?thesis by (simp add: stream_codex_def provider_text_cases codex_readable_def)
next
  case (Some kind)
  note defs = stream_codex_def provider_text_cases codex_readable_def codex_thread_def agent_message_def
  obtain ses ans c where st: "st = \<lparr>st_session = ses, st_answer = ans, st_complete = c\<rparr>" by (cases st) auto
  obtain ses' ans' c' where st': "st' = \<lparr>st_session = ses', st_answer = ans', st_complete = c'\<rparr>" by (cases st') auto
  consider (thread) "kind = ''thread.started''" | (start) "kind = ''turn.started''" | (item) "kind = ''item.completed''"
    | (finish) "kind = ''turn.completed''" | (failed) "kind = ''turn.failed'' \<or> kind = ''error''"
    | (other) "kind \<notin> {''thread.started'', ''turn.started'', ''item.completed'', ''turn.completed'', ''turn.failed'', ''error''}"
    by auto
  then show ?thesis
  proof cases
    case thread
    then show ?thesis
      using Some by (cases "event_text J event ''thread_id''"; cases ses)
        (auto simp: defs st st' stream_session_Inr set_option_single)
  next
    case item
    then show ?thesis
      using Some by (cases "js_get J event ''item''"; cases ses; cases ses')
        (auto simp: defs st st' split: option.splits)
  next
    case other
    then show ?thesis using Some by (cases ses; cases ses') (simp_all add: defs st st', auto)
  qed (use Some in \<open>cases ses; cases ses'; auto simp: defs st st'\<close>)+
qed

lemma stream_codex_steps:
  "stream_steps (stream_codex J) events stream_default = Inr st \<longleftrightarrow>
     list_all (codex_readable J) events \<and>
     set (List.map_filter (codex_thread J) events) = set_option (st_session st) \<and>
     st_answer st = last_message J (current_turn J events) \<and>
     st_complete st = list_ex (\<lambda>event. codex_kind J event = Some ''turn.completed'') (current_turn J events)"
proof (induction events arbitrary: st rule: rev_induct)
  case Nil
  then show ?case
    by (cases st; cases "st_session st")
      (auto simp: stream_default_def last_message_def current_turn_def map_filter_simps)
next
  case (snoc event events)
  have sessions: "set (List.map_filter (codex_thread J) (events @ [event])) =
      set (List.map_filter (codex_thread J) events) \<union> set_option (codex_thread J event)"
    by (auto simp: List.map_filter_def)
  have turn: "current_turn J (events @ [event]) =
      (if codex_kind J event = Some ''turn.started'' then [] else current_turn J events @ [event])"
    by (simp add: current_turn_def)
  have empty: "last_message J [] = []" by (simp add: last_message_def map_filter_simps)
  have message: "last_message J (es @ [event]) =
      (case agent_message J event of Some text \<Rightarrow> text | None \<Rightarrow> last_message J es)" for es
    by (auto simp: last_message_def List.map_filter_def split: option.splits)
  show ?case (is "?L \<longleftrightarrow> ?R")
  proof
    assume ?L
    then obtain x where x: "stream_steps (stream_codex J) events stream_default = Inr x" "stream_codex J event x = Inr st"
      by (auto simp: stream_steps_snoc and_then_Inr_iff)
    show ?R
      using x unfolding snoc.IH stream_codex_Inr turn sessions
      by (cases "codex_kind J event = Some ''turn.started''"; cases "agent_message J event") (simp_all add: message empty)
  next
    assume R: ?R
    then obtain ses where ses: "set (List.map_filter (codex_thread J) events) = set_option ses"
      unfolding sessions by (blast dest: option_part)
    define x where "x = \<lparr>st_session = ses, st_answer = last_message J (current_turn J events),
      st_complete = list_ex (\<lambda>event. codex_kind J event = Some ''turn.completed'') (current_turn J events)\<rparr>"
    have "stream_steps (stream_codex J) events stream_default = Inr x" unfolding snoc.IH using R ses by (simp add: x_def)
    moreover have "stream_codex J event x = Inr st"
      using R ses unfolding stream_codex_Inr turn sessions
      by (cases "codex_kind J event = Some ''turn.started''"; cases "agent_message J event") (simp_all add: x_def message empty)
    ultimately show ?L by (simp add: stream_steps_snoc)
  qed
qed

text \<open>
  C28: A Codex turn gives an answer exactly for a complete stream: every line is an event that can be read and
  none reports a failure, the sessions named are one and the same, the last turn that was started was also
  completed, and the answer is the last message of that turn, which is not blank.
\<close>

theorem codex_answer_exact:
  "parse_output J Codex output = Inr a \<longleftrightarrow>
     (\<exists>events. traverse (provider_json J) (stream_lines output) = Inr events \<and>
        list_all (codex_readable J) events \<and>
        set (List.map_filter (codex_thread J) events) = {ca_session a} \<and>
        list_ex (\<lambda>event. codex_kind J event = Some ''turn.completed'') (current_turn J events) \<and>
        ca_text a = last_message J (current_turn J events) \<and> trim (ca_text a) \<noteq> [] \<and> valid_session (ca_session a))"
proof -
  have "parse_output J Codex output = Inr a \<longleftrightarrow>
     (\<exists>events st. traverse (provider_json J) (stream_lines output) = Inr events \<and>
        stream_steps (stream_codex J) events stream_default = Inr st \<and>
        st_complete st \<and> st_session st = Some (ca_session a) \<and> st_answer st = ca_text a \<and>
        trim (ca_text a) \<noteq> [] \<and> valid_session (ca_session a))"
    by (cases a) (auto simp: parse_output_def stream_fold_Inr result_simps provider_answer_def)
  also have "\<dots> \<longleftrightarrow>
     (\<exists>events. traverse (provider_json J) (stream_lines output) = Inr events \<and>
        list_all (codex_readable J) events \<and>
        set (List.map_filter (codex_thread J) events) = {ca_session a} \<and>
        list_ex (\<lambda>event. codex_kind J event = Some ''turn.completed'') (current_turn J events) \<and>
        ca_text a = last_message J (current_turn J events) \<and> trim (ca_text a) \<noteq> [] \<and> valid_session (ca_session a))"
    unfolding stream_codex_steps
    by (auto intro!: exI [of _ "\<lparr>st_session = Some (ca_session a), st_answer = ca_text a, st_complete = True\<rparr>"])
  finally show ?thesis .
qed

end
