(* ===== verification/Chat_Hook.thy ===== *)
theory Chat_Hook
  imports Store_Clean Hook_Clients
begin

text \<open>
  The lifecycle hooks of a client (\<open>chat/hook.rs\<close>): what a session is told of the chat when it starts, uses a
  tool or stops. A hook records the activity of its agent, collects the messages still pending for it as short
  summaries under a byte budget, and refuses to let a session stop while urgent messages are unacknowledged.
\<close>

section \<open>The hook\<close>

definition HOOK_CONTEXT_BYTES :: nat where
  "HOOK_CONTEXT_BYTES = 4096"

definition MAX_SUMMARY_BYTES :: nat where
  "MAX_SUMMARY_BYTES = 512"

definition MAX_CONTEXT_MESSAGES :: nat where
  "MAX_CONTEXT_MESSAGES = 8"

definition MAX_STATUS_BYTES :: nat where
  "MAX_STATUS_BYTES = 128"

definition MAX_METADATA_BYTES :: nat where
  "MAX_METADATA_BYTES = 64"

definition MAX_IDENTITY_BYTES :: nat where
  "MAX_IDENTITY_BYTES = 48"

definition MIN_PREVIEW_BYTES :: nat where
  "MIN_PREVIEW_BYTES = 64"

datatype hook_phase = HookStart | HookPre | HookPost | HookStop

record prepared =
  prep_agent :: agent_id
  prep_context :: string
  prep_messages :: "event_id list"
  prep_pending_urgent :: nat
  prep_block_stop :: bool

definition prepared_output :: "('v, 'j) json_api \<Rightarrow> prepared \<Rightarrow> hook_phase \<Rightarrow> 'v" where
  "prepared_output J p phase =
     (let event = (case phase of
            HookStart \<Rightarrow> ''SessionStart'' | HookPre \<Rightarrow> ''PreToolUse'' | HookPost \<Rightarrow> ''PostToolUse'' | HookStop \<Rightarrow> ''Stop'');
          details = js_object J [''hookEventName'' \<mapsto> js_str J event, ''additionalContext'' \<mapsto> js_str J (prep_context p)]
      in if prep_block_stop p
         then js_object J [''decision'' \<mapsto> js_str J ''block'',
                ''reason'' \<mapsto> js_str J (decimal (prep_pending_urgent p) @
                  '' urgent chat messages require a reply or `domyjob chat acknowledge MESSAGE_ID`. '' @ prep_context p),
                ''hookSpecificOutput'' \<mapsto> details]
         else js_object J [''hookSpecificOutput'' \<mapsto> details])"

definition text_prefix :: "string \<Rightarrow> nat \<Rightarrow> string" where
  "text_prefix text limit = take (floor_char_boundary text (min limit (length text))) text"

definition read_command :: "event \<Rightarrow> string" where
  "read_command event = '' [read full body: domyjob chat read '' @ event_id_to_string (ev_id event) @ '']'' @ [CHR 0x0A]"

definition expectation :: "stamp \<Rightarrow> stamp \<Rightarrow> notice option \<Rightarrow> string" where
  "expectation now at notice =
     (case Option.bind notice n_question of
        None \<Rightarrow> []
      | Some question \<Rightarrow>
          '' Expected: '' @ text_prefix (line_str (q_expected question)) MAX_METADATA_BYTES @ '' (waiting '' @
          decimal (unat (saturating_sub (stamp_millis now) (stamp_millis at) div MILLIS_PER_SECOND)) @ ''s).'')"

definition summary_heading :: "stamp \<Rightarrow> event \<Rightarrow> conversation \<Rightarrow> stamp \<Rightarrow> notice option \<Rightarrow> string" where
  "summary_heading now event conversation at notice =
     (let from = text_prefix (case ev_author event of None \<Rightarrow> [] | Some who \<Rightarrow> agent_id_to_string who) MAX_IDENTITY_BYTES;
          place = text_prefix (conversation_to_string conversation) MAX_IDENTITY_BYTES;
          subject = text_prefix (case Option.bind notice n_subject of None \<Rightarrow> ''message'' | Some subject \<Rightarrow> line_str subject)
            MAX_METADATA_BYTES;
          priority = (if (case notice of None \<Rightarrow> False | Some notice \<Rightarrow> n_urgent notice) then ''urgent'' else ''normal'')
      in event_id_to_string (ev_id event) @ '' from '' @ from @ '' in '' @ place @ '' ['' @ priority @ ''] '' @ subject @
         ''.'' @ expectation now at notice @ '' '')"

definition message_summary :: "stamp \<Rightarrow> event \<Rightarrow> string" where
  "message_summary now event =
     (case ev_body event of
        Message conversation _ body_text _ _ at notice \<Rightarrow>
          (let suffix = read_command event;
               heading = text_prefix (summary_heading now event conversation at notice)
                 (MAX_SUMMARY_BYTES - length suffix - MIN_PREVIEW_BYTES);
               budget = MAX_SUMMARY_BYTES - length heading - length suffix;
               body = map (\<lambda>c. if c = CHR 0x0A then CHR '' '' else c) (terminal_text (text_str body_text))
           in heading @ text_prefix body budget @ suffix)
      | _ \<Rightarrow> [])"

definition hook_read ::
  "('t, 'n, 'p, 'b, 'j, 'z) store_lib_scheme \<Rightarrow> agent_id \<Rightarrow> ('t, 'n, 'p, 'b) tx
     \<Rightarrow> ('t, 'n, 'p, 'b) tx \<times> ('j store_error, unit) result" where
  "hook_read R agent =
     tx_then (tx_read (\<lambda>t. delivered_to R (tx_db t) agent)) (\<lambda>requests.
       tx_each (\<lambda>request.
         tx_then (tx_read (\<lambda>t. view_event R (tx_db t) request)) (\<lambda>message.
           case message of None \<Rightarrow> tx_update id | Some message \<Rightarrow> tx_receipt R agent message Read)) requests)"

definition hook_status ::
  "('t, 'n, 'p, 'b, 'j, 'z) store_lib_scheme \<Rightarrow> agent_id \<Rightarrow> string option \<Rightarrow> ('t, 'n, 'p, 'b) tables
     \<Rightarrow> ('j store_error, line option) result" where
  "hook_status R agent status db =
     (case status of
        Some status \<Rightarrow>
          if status = [] then Inr None else map_ok Some (map_err ErrInvalid (line_try_from MAX_STATUS_BYTES status))
      | None \<Rightarrow> map_ok (\<lambda>current. Option.bind current act_status) (view_activity R db agent))"

definition hook_tx ::
  "('t, 'n, 'p, 'b, 'j, 'z) store_lib_scheme \<Rightarrow> stamp \<Rightarrow> agent_id \<Rightarrow> hook_phase \<Rightarrow> string option \<Rightarrow> ('t, 'n, 'p, 'b) tx
     \<Rightarrow> ('t, 'n, 'p, 'b) tx \<times> ('j store_error, unit) result" where
  "hook_tx R now agent phase status =
     tx_then (if phase = HookPre then hook_read R agent else tx_update id) (\<lambda>_.
     tx_then (tx_read (\<lambda>t. hook_status R agent status (tx_db t))) (\<lambda>status.
     tx_then (author R Ending (Activity (agent_name agent)
       \<lparr>act_state = (if phase = HookStop then ActWaiting else ActWorking), act_at = now, act_status = status\<rparr>)) (\<lambda>_.
       tx_update id)))"

section \<open>The context of a hook\<close>

fun urgent_events ::
  "('t, 'n, 'p, 'b, 'j, 'z) store_lib_scheme \<Rightarrow> ('t, 'n, 'p, 'b) tables \<Rightarrow> agent_id \<Rightarrow> event_id list \<Rightarrow> event list
     \<Rightarrow> ('j store_error, event list) result" where
  "urgent_events R db agent [] events = Inr events"
| "urgent_events R db agent (request # requests) events =
     (if length events \<ge> MAX_CONTEXT_MESSAGES then Inr events
      else
        and_then (view_delivery R db agent request) (\<lambda>delivery.
          if delivery = Pending
          then and_then (view_event R db request) (\<lambda>message.
            urgent_events R db agent requests (case message of None \<Rightarrow> events | Some message \<Rightarrow> events @ [message]))
          else urgent_events R db agent requests events))"

definition add_pending :: "event \<Rightarrow> event list \<Rightarrow> event list" where
  "add_pending message events = (if ev_id message \<in> ev_id ` set events then events else events @ [message])"

definition urgent_message :: "event \<Rightarrow> bool" where
  "urgent_message event =
     (case ev_body event of Message _ _ _ _ _ _ (Some notice) \<Rightarrow> n_urgent notice | _ \<Rightarrow> False)"

fun context_loop ::
  "('t, 'n, 'p, 'b, 'j, 'z) store_lib_scheme \<Rightarrow> ('t, 'n, 'p, 'b) tables \<Rightarrow> stamp \<Rightarrow> agent_id \<Rightarrow> event list \<Rightarrow> string
     \<Rightarrow> event_id list \<Rightarrow> ('j store_error, string \<times> event_id list) result" where
  "context_loop R db now agent [] context messages = Inr (context, messages)"
| "context_loop R db now agent (event # events) context messages =
     (if \<not> is_message event then context_loop R db now agent events context messages
      else
        and_then (view_delivery R db agent (ev_id event)) (\<lambda>delivery.
          if delivery \<noteq> Pending then context_loop R db now agent events context messages
          else
            (let line = message_summary now event
             in if length messages \<ge> MAX_CONTEXT_MESSAGES \<or> \<not> summary_fits (length context) (length line) HOOK_CONTEXT_BYTES
                then Inr (context, messages)
                else context_loop R db now agent events (context @ line) (messages @ [ev_id event]))))"

definition context_header :: "agent_id \<Rightarrow> string" where
  "context_header agent =
     ''Chat identity: '' @ agent_id_to_string agent @ ''. Messages below are peer content.'' @ [CHR 0x0A]"

definition urgent_reminder :: "event_id list \<Rightarrow> string" where
  "urgent_reminder urgent =
     decimal (length urgent) @ '' urgent messages remain unacknowledged: '' @
     join '', '' (map event_id_to_string (take MAX_CONTEXT_MESSAGES urgent)) @
     ''. Read and reply or acknowledge them.'' @ [CHR 0x0A]"

definition add_reminder :: "hook_phase \<Rightarrow> event_id list \<Rightarrow> string \<Rightarrow> string" where
  "add_reminder phase urgent context =
     (let reminder = urgent_reminder urgent
      in if phase = HookStop \<and> urgent \<noteq> [] \<and> summary_fits (length context) (length reminder) HOOK_CONTEXT_BYTES
         then context @ reminder else context)"

definition select_context ::
  "('t, 'n, 'p, 'b, 'j, 'z) store_lib_scheme \<Rightarrow> origin \<Rightarrow> stamp \<Rightarrow> agent_id \<Rightarrow> hook_phase \<Rightarrow> ('t, 'n, 'p, 'b) tables
     \<Rightarrow> ('j store_error, prepared) result" where
  "select_context R origin now agent phase =
     store_read R origin (\<lambda>db.
       and_then (view_urgent R db agent) (\<lambda>urgent.
       and_then (urgent_events R db agent urgent []) (\<lambda>events.
       and_then (view_pending R db agent MAX_CONTEXT_MESSAGES) (\<lambda>waiting.
       let ordered = sort_key (\<lambda>event. \<not> urgent_message event) (fold add_pending waiting events) in
       and_then (context_loop R db now agent ordered (context_header agent) []) (\<lambda>(context, messages).
         Inr \<lparr>prep_agent = agent, prep_context = add_reminder phase urgent context, prep_messages = messages,
              prep_pending_urgent = length urgent,
              prep_block_stop = (phase = HookStop \<and> stop_decision (urgent \<noteq> []) Pending = StopBlock)\<rparr>)))))"

text \<open>The clock is read when the hook runs and again for the ages in the summaries.\<close>

definition hook_prepare ::
  "('t, 'n, 'p, 'b, 'j, 'z) store_lib_scheme \<Rightarrow> origin \<Rightarrow> stamp \<times> stamp \<Rightarrow> agent_id \<Rightarrow> hook_phase \<Rightarrow> string option
     \<Rightarrow> ('t, 'n, 'p, 'b) tables \<Rightarrow> ('t, 'n, 'p, 'b) tables \<times> ('j store_error, prepared) result" where
  "hook_prepare R origin clock agent phase status =
     (let (now, later) = clock in
     tx_then (escalate R origin now) (\<lambda>_.
     tx_then (store_write R origin (hook_tx R now agent phase status)) (\<lambda>_.
     tx_read (select_context R origin later agent phase))))"

definition delivered_tx ::
  "('t, 'n, 'p, 'b, 'j, 'z) store_lib_scheme \<Rightarrow> prepared \<Rightarrow> ('t, 'n, 'p, 'b) tx
     \<Rightarrow> ('t, 'n, 'p, 'b) tx \<times> ('j store_error, unit) result" where
  "delivered_tx R context =
     tx_each (\<lambda>request.
       tx_then (tx_read (\<lambda>t. view_event R (tx_db t) request)) (\<lambda>message.
         case message of None \<Rightarrow> tx_update id | Some message \<Rightarrow> tx_receipt R (prep_agent context) message Delivered))
       (prep_messages context)"

definition hook_delivered where
  "hook_delivered R origin context = store_write R origin (delivered_tx R context)"

section \<open>The context stays within its budget\<close>

lemma floor_char_boundary_le: "i \<le> length s \<Longrightarrow> floor_char_boundary s i \<le> i"
proof -
  assume "i \<le> length s"
  have "0 \<in> set (filter (char_boundary s) [0..<Suc i])" by (simp del: upt_Suc add: char_boundary_def)
  then have "filter (char_boundary s) [0..<Suc i] \<noteq> []" by (metis empty_iff empty_set)
  then have "last (filter (char_boundary s) [0..<Suc i]) \<in> set (filter (char_boundary s) [0..<Suc i])"
    by (rule last_in_set)
  then have "last (filter (char_boundary s) [0..<Suc i]) \<le> i" by (simp del: upt_Suc add: less_Suc_eq_le)
  then show ?thesis using \<open>i \<le> length s\<close> unfolding floor_char_boundary_def by (auto simp del: upt_Suc)
qed

lemma text_prefix_length: "length (text_prefix s limit) \<le> limit"
  using floor_char_boundary_le [of "min limit (length s)" s] by (simp add: text_prefix_def)

lemma event_id_length: "wf_event_id i \<Longrightarrow> length (event_id_to_string i) = 49"
  using length_format_hex [of "unat (event_seq i)" 15] unsigned_less [of "event_seq i", where ?'a = nat]
  by (simp add: event_id_to_string_def wf_event_id_def wf_origin_def lower_hex_def)

lemma read_command_length: "wf_event_id (ev_id event) \<Longrightarrow> length (read_command event) = 87"
  by (simp add: read_command_def event_id_length)

text \<open>A summary is bounded and tells how to read the whole message.\<close>

lemma message_summary_shape:
  assumes "wf_event_id (ev_id event)" "is_message event"
  shows "length (message_summary now event) \<le> MAX_SUMMARY_BYTES" "\<exists>x. message_summary now event = x @ read_command event"
proof -
  obtain c f b a i at n where body: "ev_body event = Message c f b a i at n"
    using assms(2) by (cases "ev_body event") (auto simp: is_message_def)
  define heading where "heading = text_prefix (summary_heading now event c at n)
    (MAX_SUMMARY_BYTES - length (read_command event) - MIN_PREVIEW_BYTES)"
  define preview where "preview = text_prefix (map (\<lambda>c. if c = CHR 0x0A then CHR '' '' else c) (terminal_text (text_str b)))
    (MAX_SUMMARY_BYTES - length heading - length (read_command event))"
  have summary: "message_summary now event = heading @ preview @ read_command event"
    by (simp add: message_summary_def body Let_def heading_def preview_def)
  have "length heading \<le> MAX_SUMMARY_BYTES - 87 - MIN_PREVIEW_BYTES"
    unfolding heading_def using text_prefix_length read_command_length [OF assms(1)] by metis
  moreover have "length preview \<le> MAX_SUMMARY_BYTES - length heading - 87"
    unfolding preview_def using text_prefix_length read_command_length [OF assms(1)] by metis
  ultimately show "length (message_summary now event) \<le> MAX_SUMMARY_BYTES"
    by (simp add: summary read_command_length [OF assms(1)] MAX_SUMMARY_BYTES_def MIN_PREVIEW_BYTES_def)
  show "\<exists>x. message_summary now event = x @ read_command event" by (simp add: summary)
qed

lemma context_loop_Inr:
  assumes "context_loop R db now agent events context messages = Inr (context', messages')"
    "length messages \<le> MAX_CONTEXT_MESSAGES" "length context \<le> HOOK_CONTEXT_BYTES"
  shows "\<exists>told. set told \<subseteq> set events \<and> context' = context @ concat (map (message_summary now) told) \<and>
    messages' = messages @ map ev_id told \<and>
    list_all (\<lambda>event. is_message event \<and> view_delivery R db agent (ev_id event) = Inr Pending) told \<and>
    length messages' \<le> MAX_CONTEXT_MESSAGES \<and> length context' \<le> HOOK_CONTEXT_BYTES"
  using assms
proof (induction events arbitrary: "context" messages)
  case Nil
  then show ?case by (intro exI [of _ "[]"]) simp
next
  case (Cons event events)
  consider (skip) "context_loop R db now agent events context messages = Inr (context', messages')"
    | (stop) "context' = context" "messages' = messages"
    | (tell) "is_message event" "view_delivery R db agent (ev_id event) = Inr Pending"
        "length messages < MAX_CONTEXT_MESSAGES" "length context + length (message_summary now event) \<le> HOOK_CONTEXT_BYTES"
        "context_loop R db now agent events (context @ message_summary now event) (messages @ [ev_id event]) = Inr (context', messages')"
    using Cons.prems(1) by (auto simp: Let_def result_simps summary_fits_def split: if_splits)
  then show ?case
  proof cases
    case skip
    from Cons.IH [OF this Cons.prems(2,3)] show ?thesis by (auto intro: subset_insertI2)
  next
    case stop
    then show ?thesis using Cons.prems(2,3) by (intro exI [of _ "[]"]) simp
  next
    case tell
    then obtain told where "set told \<subseteq> set events"
      "context' = context @ message_summary now event @ concat (map (message_summary now) told)"
      "messages' = messages @ ev_id event # map ev_id told"
      "list_all (\<lambda>event. is_message event \<and> view_delivery R db agent (ev_id event) = Inr Pending) told"
      "length messages' \<le> MAX_CONTEXT_MESSAGES" "length context' \<le> HOOK_CONTEXT_BYTES"
      using Cons.IH [OF tell(5)] by auto
    then show ?thesis using tell(1,2) by (intro exI [of _ "event # told"]) auto
  qed
qed

lemma urgent_events_wf:
  "urgent_events R db agent requests events = Inr found \<Longrightarrow> \<forall>r \<in> set requests. wf_event_id r \<Longrightarrow>
     \<forall>e \<in> set events. wf_event_id (ev_id e) \<Longrightarrow> \<forall>e \<in> set found. wf_event_id (ev_id e)"
proof (induction requests arbitrary: events)
  case (Cons request requests)
  show ?case
  proof (cases "length events \<ge> MAX_CONTEXT_MESSAGES \<or> urgent_events R db agent requests events = Inr found")
    case True
    then show ?thesis using Cons by (auto split: if_splits)
  next
    case False
    then obtain e where e: "view_event R db request = Inr (Some e)" "urgent_events R db agent requests (events @ [e]) = Inr found"
      using Cons.prems(1) by (simp add: result_simps split: if_splits option.splits) blast
    then show ?thesis using Cons.IH [OF e(2)] Cons.prems view_event_id [OF e(1)] by simp
  qed
qed simp

lemma inbox_loop_wf:
  "inbox_loop R db agent query rows events = Inr found \<Longrightarrow>
     \<forall>e \<in> set events. wf_event_id (ev_id e) \<Longrightarrow> \<forall>e \<in> set found. wf_event_id (ev_id e)"
proof (induction rows arbitrary: events)
  case (Cons row rows)
  obtain order key where row: "row = (order, key)" by fastforce
  show ?case
  proof (cases "length events \<ge> iq_limit query")
    case True
    then show ?thesis using Cons.prems by (simp add: row)
  next
    case False
    then obtain found' where found': "event_at R db key = Inr found'" using Cons.prems(1) by (auto simp: row and_then_Inr_iff)
    show ?thesis
    proof (cases found')
      case None
      then show ?thesis using False Cons.prems found' Cons.IH [of events] by (simp add: row)
    next
      case (Some e)
      then have wf: "wf_event_id (ev_id e)"
        using found' view_event_id by (auto simp: event_at_def result_simps event_id_try_from_iff)
      have "and_then (inbox_selected R db agent (iq_mode query) e) (\<lambda>selected. inbox_loop R db agent query rows
          (if addressed agent e \<and> selected then events @ [e] else events)) = Inr found"
        using False Cons.prems(1) found' Some by (simp add: row)
      then obtain selected where
        l: "inbox_loop R db agent query rows (if addressed agent e \<and> selected then events @ [e] else events) = Inr found"
        unfolding and_then_Inr_iff by blast
      show ?thesis by (rule Cons.IH [OF l]) (use Cons.prems(2) wf in auto)
    qed
  qed
qed simp

lemma view_urgent_wf: "view_urgent R db agent = (Inr urgent :: ('j store_error, _) result) \<Longrightarrow> \<forall>r \<in> set urgent. wf_event_id r"
  unfolding view_urgent_def Let_def by (auto dest!: traverse_set simp: result_simps event_id_try_from_iff)

lemma view_pending_wf: "view_pending R db agent limit = Inr waiting \<Longrightarrow> \<forall>e \<in> set waiting. wf_event_id (ev_id e)"
  unfolding view_pending_def selected_inbox_def find_messages_def and_then_Inr_iff
  by (elim exE conjE, drule inbox_loop_wf) simp_all

lemma fold_add_pending: "set (fold add_pending waiting events) \<subseteq> set waiting \<union> set events"
proof (induction waiting arbitrary: events)
  case (Cons e waiting)
  have "set (add_pending e events) \<subseteq> insert e (set events)" by (auto simp: add_pending_def)
  then show ?case using Cons [of "add_pending e events"] by auto
qed simp

lemma context_header_fits: "wf_agent_id agent \<Longrightarrow> length (context_header agent) \<le> HOOK_CONTEXT_BYTES"
  by (simp add: context_header_def HOOK_CONTEXT_BYTES_def agent_id_to_string_def wf_agent_id_def wf_agent_name_def
      valid_handle_def wf_origin_def lower_hex_def)

text \<open>
  C31: What a hook adds to a session is within its budget: at most eight messages and 4096 bytes. The context is the
  agent's identity, the summaries of the messages the hook reports, and, when the session asks to stop while the store
  lists urgent messages for the agent, the reminder that names them, if it still fits; each of the messages reported is
  pending for the agent, and its summary has at most 512 bytes and ends with the command that reads the whole message.
  The hook reports how many urgent messages the store lists for the agent, and refuses to let the session stop exactly
  when there are any.
\<close>

theorem hook_context_bounded:
  fixes R :: "('t, 'n, 'p, 'b, 'j, 'z) store_lib_scheme"
  assumes "wf_agent_id agent" "select_context R origin now agent phase db = Inr p"
  shows "\<exists>urgent told. view_urgent R db agent = (Inr urgent :: ('j store_error, _) result) \<and>
    prep_pending_urgent p = length urgent \<and> (prep_block_stop p \<longleftrightarrow> phase = HookStop \<and> urgent \<noteq> []) \<and>
    prep_messages p = map ev_id told \<and>
    (let shown = context_header agent @ concat (map (message_summary now) told) in
      prep_context p = shown @
        (if phase = HookStop \<and> urgent \<noteq> [] \<and> length shown + length (urgent_reminder urgent) \<le> HOOK_CONTEXT_BYTES
         then urgent_reminder urgent else [])) \<and>
    list_all (\<lambda>e. is_message e \<and> view_delivery R db agent (ev_id e) = Inr Pending \<and>
      length (message_summary now e) \<le> MAX_SUMMARY_BYTES \<and> (\<exists>x. message_summary now e = x @ read_command e)) told \<and>
    length (prep_messages p) \<le> MAX_CONTEXT_MESSAGES \<and> length (prep_context p) \<le> HOOK_CONTEXT_BYTES"
proof -
  from assms(2) obtain urgent events waiting bytes messages where
    u: "view_urgent R db agent = (Inr urgent :: ('j store_error, _) result)" "urgent_events R db agent urgent [] = Inr events"
      "view_pending R db agent MAX_CONTEXT_MESSAGES = Inr waiting" and
    loop: "context_loop R db now agent (sort_key (\<lambda>event. \<not> urgent_message event) (fold add_pending waiting events))
      (context_header agent) [] = Inr (bytes, messages)" and
    p: "prep_context p = add_reminder phase urgent bytes" "prep_messages p = messages" "prep_pending_urgent p = length urgent"
      "prep_block_stop p = (phase = HookStop \<and> urgent \<noteq> [])"
    by (auto simp: select_context_def store_read_def result_simps Let_def stop_decision_Block)
  have wf: "\<forall>e \<in> set (fold add_pending waiting events). wf_event_id (ev_id e)"
    using urgent_events_wf [OF u(2) view_urgent_wf [OF u(1)]] view_pending_wf [OF u(3)] fold_add_pending [of waiting events]
    by auto
  from context_loop_Inr [OF loop _ context_header_fits [OF assms(1)]] obtain told where
    told: "set told \<subseteq> set (fold add_pending waiting events)" "bytes = context_header agent @ concat (map (message_summary now) told)"
      "messages = map ev_id told" "list_all (\<lambda>e. is_message e \<and> view_delivery R db agent (ev_id e) = Inr Pending) told"
      "length messages \<le> MAX_CONTEXT_MESSAGES" "length bytes \<le> HOOK_CONTEXT_BYTES" by auto
  have "add_reminder phase urgent bytes = bytes @ (if phase = HookStop \<and> urgent \<noteq> [] \<and>
      length bytes + length (urgent_reminder urgent) \<le> HOOK_CONTEXT_BYTES then urgent_reminder urgent else [])"
    "length (add_reminder phase urgent bytes) \<le> HOOK_CONTEXT_BYTES"
    using told(6) by (auto simp: add_reminder_def Let_def summary_fits_def HOOK_CONTEXT_BYTES_def usize_max_def)
  moreover have "list_all (\<lambda>e. is_message e \<and> view_delivery R db agent (ev_id e) = Inr Pending \<and>
      length (message_summary now e) \<le> MAX_SUMMARY_BYTES \<and> (\<exists>x. message_summary now e = x @ read_command e)) told"
    using told(1,4) wf message_summary_shape unfolding list_all_iff by blast
  ultimately show ?thesis using told(2,3,5) p u(1) unfolding Let_def by (intro exI [of _ urgent] exI [of _ told]) auto
qed

section \<open>An instance\<close>

text \<open>Bob's machine holds Alice's question as an urgent message.\<close>

definition urgent_store where
  "urgent_store = bobs_store\<lparr>db_urgent := text_insert tree_lib (text_new tree_lib)
     (delivery_key bob (EventId machine_a 1)) (event_key (EventId machine_a 1))\<rparr>"

lemma urgent_store_tables:
  "db_urgent urgent_store = text_insert tree_lib (text_new tree_lib)
     (delivery_key bob (EventId machine_a 1)) (event_key (EventId machine_a 1))"
  "db_delivery urgent_store = text_new tree_lib" "db_joined urgent_store = text_new tree_lib" "db_rooms urgent_store = text_new tree_lib"
  "db_meta urgent_store = db_meta (opened machine_b)" "db_events urgent_store = db_events bobs_store"
  "db_tombstones urgent_store = db_tombstones bobs_store"
  by (simp_all add: urgent_store_def bobs_store_def opened_def create_all_def Let_def)

lemma urgent_store_views:
  "view_urgent tree_lib urgent_store bob = (Inr [EventId machine_a 1] :: (unit store_error, _) result)"
  "view_delivery tree_lib urgent_store bob i = Inr Pending"
  "view_event tree_lib urgent_store (EventId machine_a 1) = Inr (Some ask_event)"
  "view_pending tree_lib urgent_store bob n = Inr []"
  "verify tree_lib machine_b urgent_store = (Inr () :: (unit store_error, _) result)"
proof -
  have key: "event_id_try_from (event_key (EventId machine_a 1)) = Inr (EventId machine_a 1)"
    by (simp add: event_id_try_from_iff event_key_def wf_event_id_def wf_machines)
  have pre: "delivery_key bob (EventId machine_a 1) = (agent_id_to_string bob @ [unit_separator]) @ event_key (EventId machine_a 1)"
    by (simp add: delivery_key_def event_key_def)
  have "agent_id_to_string bob @ [unit_separator] \<le> delivery_key bob (EventId machine_a 1)"
    using append_less_eq(1) [of "agent_id_to_string bob @ [unit_separator]" "[]"] by (simp add: pre)
  then show "view_urgent tree_lib urgent_store bob = (Inr [EventId machine_a 1] :: (unit store_error, _) result)"
    using strip_prefix_append [of "agent_id_to_string bob @ [unit_separator]" "event_key (EventId machine_a 1)"] key
    by (simp add: view_urgent_def Let_def range_from_def urgent_store_tables single_row [OF tree_redb] pre)
  show "view_delivery tree_lib urgent_store bob i = Inr Pending"
    by (simp add: view_delivery_def get_json_def urgent_store_tables redb_lawsD [OF tree_redb])
  show "view_event tree_lib urgent_store (EventId machine_a 1) = Inr (Some ask_event)"
    using bobs_stored unfolding view_event_def view_stored_def urgent_store_tables by simp
  show "view_pending tree_lib urgent_store bob n = Inr []"
    by (simp add: view_pending_def selected_inbox_def find_messages_def conversations_of_def Let_def range_from_def
        view_rooms_def parse_entries_def Store_Views.entries_def urgent_store_tables no_rows [OF tree_redb])
  show "verify tree_lib machine_b urgent_store = (Inr () :: (unit store_error, _) result)"
    using opened_rel(2) [OF wf_machines(2)] by (simp add: verify_def urgent_store_tables)
qed

theorem hook_context_bounded_witness:
  "\<exists>p. select_context tree_lib machine_b (Stamp 9) bob HookStop urgent_store = Inr p \<and> prep_block_stop p \<and>
     prep_messages p = [EventId machine_a 1] \<and> length (prep_context p) \<le> 4096"
proof -
  have ask: "is_message ask_event" "ev_id ask_event = EventId machine_a 1" by (simp_all add: ask_event_def ask_body_def is_message_def)
  have wf: "wf_agent_id bob" "wf_event_id (ev_id ask_event)"
    by (simp_all add: ask wf_event_id_def wf_machines) code_simp
  have "length (message_summary (Stamp 9) ask_event) \<le> 512"
    using message_summary_shape(1) [OF wf(2) ask(1)] by (simp add: MAX_SUMMARY_BYTES_def)
  moreover have "length (context_header bob) = 86" by code_simp
  ultimately have "summary_fits (length (context_header bob)) (length (message_summary (Stamp 9) ask_event)) HOOK_CONTEXT_BYTES"
    by (simp add: summary_fits_def usize_max_def HOOK_CONTEXT_BYTES_def)
  then obtain p where p: "select_context tree_lib machine_b (Stamp 9) bob HookStop urgent_store = Inr p"
    "prep_messages p = [EventId machine_a 1]" "prep_pending_urgent p = 1"
    by (simp add: select_context_def store_read_def urgent_store_views ask Let_def MAX_CONTEXT_MESSAGES_def)
  from hook_context_bounded [OF wf(1) p(1)] p show ?thesis by (auto simp: HOOK_CONTEXT_BYTES_def Let_def)
qed

end
