(* ===== verification/Chat_Sync.thy ===== *)
theory Chat_Sync
  imports Store_Clean "HOL-Library.Multiset"
begin

text \<open>
  Synchronization with peers (\<open>chat/sync.rs\<close>): the rounds of an exchange with one peer, the passes over the
  peers that were deferred for a missing event, the report and the serving side.

  The channel to a peer, the launch of workers and the clock belong to other parts; they are the fields of
  \<open>sync_env\<close>, which act on the tables and on a state \<open>'w\<close> of their own: while a call is under way, other
  processes may write to the same store.

  The theorem says exactly which peers the report lists: all but those that the last pass allowed, having stored
  something, deferred once more.
\<close>

section \<open>Results\<close>

datatype ('j, 'x) sync_error =
    SyStore "'j store_error"
  | SyEnv 'x
  | SyMachine domain_invalid
  | SyRejected rejection
  | SyUnexpected
  | SyUnknownPeer string





section \<open>An exchange\<close>

record ('s, 'j, 'x) sync_env =
  env_connect :: "string \<Rightarrow> 's \<Rightarrow> 's \<times> (('j, 'x) sync_error, unit) result"
  env_call :: "string \<Rightarrow> chat_request \<Rightarrow> 's \<Rightarrow> 's \<times> (('j, 'x) sync_error, chat_reply) result"
  env_dispatch :: "'s \<Rightarrow> 's \<times> (('j, 'x) sync_error, unit) result"
  env_stamp :: "'s \<Rightarrow> stamp"
  env_pulse :: "'s \<Rightarrow> 's \<times> (('j, 'x) sync_error, unit) result"
  env_over :: "'s \<Rightarrow> bool"
  env_error :: "('j, 'x) sync_error \<Rightarrow> string"

definition on_store ::
  "('d \<Rightarrow> 'd \<times> ('j store_error, 'a) result) \<Rightarrow> 'd \<times> 'w \<Rightarrow> ('d \<times> 'w) \<times> (('j, 'x) sync_error, 'a) result" where
  "on_store f s = (let (db, r) = f (fst s) in ((db, snd s), map_err SyStore r))"




section \<open>Passes over the peers\<close>




record peer_report =
  rep_machine :: string
  rep_state :: link_state
  rep_detail :: "string option"

definition report_complete :: "peer_report list \<Rightarrow> bool" where
  "report_complete report = list_all (\<lambda>peer. rep_state peer = LinkSynced) report"







section \<open>The serving side\<close>

text \<open>
  A wait ends when the machine has written since, or when its time is over or the caller has gone (\<open>env_over\<close>);
  in between it sleeps until the doorbell rings or a tick passes (\<open>env_pulse\<close>).
\<close>

partial_function (option) serve_wait ::
  "('t, 'n, 'p, 'b, 'j, 'z) store_lib_scheme \<Rightarrow> (('t, 'n, 'p, 'b) tables \<times> 'w, 'j, 'x) sync_env \<Rightarrow> origin \<Rightarrow> u64
     \<Rightarrow> ('t, 'n, 'p, 'b) tables \<times> 'w \<Rightarrow> ((('t, 'n, 'p, 'b) tables \<times> 'w) \<times> (('j, 'x) sync_error, chat_reply) result) option" where
  "serve_wait R E self seen s =
     (case local_seen R self (fst s) of
        Inl e \<Rightarrow> Some (s, Inl (SyStore e))
      | Inr own \<Rightarrow>
          if own > seen then Some (s, Inr RepChanged)
          else if env_over E s then Some (s, Inr RepHeartbeat)
          else case env_pulse E s of
            (s, Inl e) \<Rightarrow> Some (s, Inl e)
          | (s, Inr _) \<Rightarrow> serve_wait R E self seen s)"

definition serve_request ::
  "('t, 'n, 'p, 'b, 'j, 'z) store_lib_scheme \<Rightarrow> (('t, 'n, 'p, 'b) tables \<times> 'w, 'j, 'x) sync_env \<Rightarrow> origin \<Rightarrow> machine_card
     \<Rightarrow> chat_request \<Rightarrow> ('t, 'n, 'p, 'b) tables \<times> 'w
     \<Rightarrow> ((('t, 'n, 'p, 'b) tables \<times> 'w) \<times> (('j, 'x) sync_error, chat_reply) result) option" where
  "serve_request R E self c request s =
     (case request of
        ReqIdentity \<Rightarrow>
          Some (tx_then (on_store (publish_machine R self (env_stamp E s) c)) (\<lambda>_.
            tx_read (\<lambda>_. Inr (RepIdentity self))) s)
      | ReqExchange off \<Rightarrow>
          Some (tx_then (on_store (store_respond R self off)) (\<lambda>(r, _).
            tx_then (env_dispatch E) (\<lambda>_.
            tx_read (\<lambda>_. Inr (case r of Inr answer \<Rightarrow> RepExchanged answer | Inl rejection \<Rightarrow> RepRejected rejection)))) s)
      | ReqWait _ to seen \<Rightarrow>
          if to = self then serve_wait R E self seen s else Some (s, Inr (RepRejected WrongPeer)))"

definition identify ::
  "('s, 'j, 'x) sync_env \<Rightarrow> string \<Rightarrow> 's \<Rightarrow> 's \<times> (('j, 'x) sync_error, origin) result" where
  "identify E alias =
     tx_then (env_call E alias ReqIdentity) (\<lambda>reply.
       tx_read (\<lambda>_. case reply of RepIdentity origin \<Rightarrow> Inr origin | _ \<Rightarrow> Inl SyUnexpected))"

section \<open>What a report lists\<close>










lemma sorted_btree: "sort (map fst (btree_collect m)) = map fst (btree_collect m)"
  using btree_collect_sorted [of m] by (simp add: sorted_sort_id strict_sorted_iff)




section \<open>An instance\<close>














end
