(* ===== verification/Chat_Observer.thy ===== *)
theory Chat_Observer
  imports Store_Clean Dashboard
begin

text \<open>
  The read-only snapshot of the chat store the dashboard shows (\<open>chat/store/observer.rs\<close>): the machines and
  agents known, the conversations of the agent whose view it is, and the last messages of one of them.

  The lock file, the database file and the opening of the two tables that a store of the oldest format may
  lack are the record \<open>observed\<close>, with errors \<open>'q\<close> of their own.
\<close>

section \<open>The snapshot\<close>

definition MAX_MESSAGES :: nat where
  "MAX_MESSAGES = 32"

definition MAX_THREAD_ROWS :: nat where
  "MAX_THREAD_ROWS = 1024"

datatype history_scan = WithinBudget | Limited

record observer_request =
  or_actor :: "agent_id option"
  or_conversation :: "conversation option"
  or_initial_actor :: "string option"

record observed_machine =
  om_id :: origin
  om_label :: string
  om_card :: machine_card
  om_local :: bool
  om_link :: "link option"

record observed_agent =
  oa_id :: agent_id
  oa_card :: card
  oa_activity :: "activity option"

record observed_chat =
  oc_id :: conversation
  oc_label :: string

record observed_message =
  og_id :: event_id
  og_from :: string
  og_text :: string
  og_at :: stamp
  og_recipients :: "(agent_id \<times> delivery) list"

record snapshot =
  sn_observed :: "u64 option"
  sn_actor :: "agent_id option"
  sn_machines :: "observed_machine list"
  sn_agents :: "observed_agent list"
  sn_chats :: "observed_chat list"
  sn_messages :: "observed_message list"
  sn_history_scan :: history_scan
  sn_local_agents :: "agent_id list"

definition snapshot_default :: snapshot where
  "snapshot_default =
     \<lparr>sn_observed = None, sn_actor = None, sn_machines = [], sn_agents = [], sn_chats = [], sn_messages = [],
      sn_history_scan = WithinBudget, sn_local_agents = []\<rparr>"

datatype 'q table_error = TableDoesNotExist | OtherTableError 'q

datatype ('j, 'q) observe_error = ObsStore "'j store_error" | ObsTable "'q table_error" | ObsFile 'q

record ('t, 'd, 'q) observed =
  ob_lock :: "('q, bool option) result"
  ob_database :: "('q, 'd option) result"
  ob_activity :: "('q table_error, 't) result"
  ob_delivery :: "('q table_error, 't) result"

definition notification_table ::
  "formats \<Rightarrow> string \<Rightarrow> ('q table_error, 't) result \<Rightarrow> (('j, 'q) observe_error, 't option) result" where
  "notification_table F format table =
     (case table of
        Inr opened_table \<Rightarrow> Inr (Some opened_table)
      | Inl TableDoesNotExist \<Rightarrow> if format = fmt_legacy F then Inr None else Inl (ObsTable TableDoesNotExist)
      | Inl e \<Rightarrow> Inl (ObsTable e))"

definition observe_absent :: "observer_request \<Rightarrow> (('j, 'q) observe_error, snapshot) result" where
  "observe_absent request =
     (if or_actor request \<noteq> None \<or> or_initial_actor request \<noteq> None \<or> or_conversation request \<noteq> None
      then Inl (ObsStore (ErrCorrupt ''the requested viewing state is absent'')) else Inr snapshot_default)"

definition observe_agents ::
  "('t, 'n, 'p, 'b, 'j, 'z) store_lib_scheme \<Rightarrow> ('t, 'n, 'p, 'b) tables \<Rightarrow> 't option
     \<Rightarrow> ('j store_error, observed_agent list) result" where
  "observe_agents R db activities =
     traverse (\<lambda>(id', c).
       and_then (map_err ErrInvalid (agent_id_try_from id')) (\<lambda>id'.
       and_then (case activities of None \<Rightarrow> Inr None
         | Some table \<Rightarrow> get_json R (rec_decode (lib_activity R)) table (agent_id_to_string id')) (\<lambda>activity.
       and_then (decode_record (rec_decode (lib_card R)) c) (\<lambda>c.
         Inr \<lparr>oa_id = id', oa_card = c, oa_activity = activity\<rparr>))))
       (take MAX_ROWS (text_rows R (db_profiles db)))"

definition viewing_actor ::
  "('t, 'n, 'p, 'b, 'j, 'z) store_lib_scheme \<Rightarrow> ('t, 'n, 'p, 'b) tables \<Rightarrow> origin \<Rightarrow> observer_request
     \<Rightarrow> ('j store_error, agent_id option) result" where
  "viewing_actor R db origin request =
     and_then
       (case (or_actor request, or_initial_actor request) of
          (Some actor, _) \<Rightarrow> Inr (Some actor)
        | (None, Some name) \<Rightarrow>
            map_err ErrInvalid
              (if CHR ''@'' \<in> set name then map_ok Some (agent_id_try_from name)
               else map_ok (\<lambda>name. Some (AgentId name origin)) (agent_name_try_from name))
        | (None, None) \<Rightarrow> Inr None)
       (\<lambda>actor. case actor of
          None \<Rightarrow> Inr None
        | Some actor \<Rightarrow>
            (let identity = (if agent_origin actor = origin then IdExact else IdDifferent)
             in and_then (view_profile R db actor) (\<lambda>profile.
                  if \<not> viewing_identity identity (profile \<noteq> None)
                  then Inl (ErrCorrupt ''the viewing identity is not a current local agent'')
                  else Inr (Some actor))))"

definition machine_link ::
  "('t, 'n, 'p, 'b, 'j, 'z) store_lib_scheme \<Rightarrow> ('t, 'n, 'p, 'b) tables \<Rightarrow> origin \<Rightarrow> string
     \<Rightarrow> ('j store_error, string \<times> link option) result" where
  "machine_link R db id' label =
     (case find (\<lambda>(_, peer). peer = origin_str id') (take MAX_ROWS (text_rows R (db_peers db))) of
        None \<Rightarrow> Inr (label, None)
      | Some (alias, _) \<Rightarrow> map_ok (Pair alias) (get_json R (rec_decode (lib_link R)) (db_links db) alias))"

definition observe_machines ::
  "('t, 'n, 'p, 'b, 'j, 'z) store_lib_scheme \<Rightarrow> ('t, 'n, 'p, 'b) tables \<Rightarrow> origin
     \<Rightarrow> ('j store_error, observed_machine list) result" where
  "observe_machines R db origin =
     traverse (\<lambda>(id', c).
       and_then (map_err ErrInvalid (origin_try_from id')) (\<lambda>id'.
       and_then (decode_record (rec_decode (lib_machine R)) c) (\<lambda>c.
       and_then (machine_link R db id' (line_str (machine_label c))) (\<lambda>(label, link).
         Inr \<lparr>om_id = id', om_label = label, om_card = c, om_local = (id' = origin), om_link = link\<rparr>))))
       (take MAX_ROWS (text_rows R (db_machines db)))"

definition direct_chat ::
  "('t, 'n, 'p, 'b, 'j, 'z) store_lib_scheme \<Rightarrow> ('t, 'n, 'p, 'b) tables \<Rightarrow> agent_id \<Rightarrow> string
     \<Rightarrow> ('j store_error, observed_chat option) result" where
  "direct_chat R db actor key =
     and_then (map_err ErrInvalid (conversation_try_from key)) (\<lambda>id'.
       case (case id' of Direct pair \<Rightarrow> pair_other pair actor | InRoom _ \<Rightarrow> None) of
         None \<Rightarrow> Inr None
       | Some other \<Rightarrow>
           map_ok (\<lambda>profile. Some \<lparr>oc_id = id', oc_label = (case profile of
               None \<Rightarrow> agent_name_str (agent_name other) | Some c \<Rightarrow> line_str (card_display_name c))\<rparr>)
             (view_profile R db other))"

fun room_chats ::
  "('t, 'n, 'p, 'b, 'j, 'z) store_lib_scheme \<Rightarrow> agent_id \<Rightarrow> (string \<times> string) list \<Rightarrow> observed_chat list
     \<Rightarrow> ('j store_error, observed_chat list) result" where
  "room_chats R actor [] chats = Inr chats"
| "room_chats R actor ((id', room) # rows) chats =
     (if length chats \<ge> MAX_ROWS then Inr chats
      else
        and_then (decode_record (rec_decode (lib_room R)) room) (\<lambda>room.
          if members_contains (room_members room) actor
          then and_then (map_err ErrInvalid (conversation_try_from id')) (\<lambda>conversation.
            room_chats R actor rows (chats @ [\<lparr>oc_id = conversation,
              oc_label = (case room_topic room of None \<Rightarrow> id' | Some topic \<Rightarrow> line_str topic)\<rparr>]))
          else room_chats R actor rows chats))"

definition observe_conversations ::
  "('t, 'n, 'p, 'b, 'j, 'z) store_lib_scheme \<Rightarrow> ('t, 'n, 'p, 'b) tables \<Rightarrow> agent_id
     \<Rightarrow> ('j store_error, observed_chat list) result" where
  "observe_conversations R db actor =
     (let prefix = agent_id_to_string actor @ [unit_separator];
          keys = map (\<lambda>(key, _). strip_prefix prefix key) (take MAX_ROWS (range_from R (db_joined db) prefix))
      in and_then (traverse (\<lambda>key. direct_chat R db actor (the key)) (takeWhile (\<lambda>key. key \<noteq> None) keys)) (\<lambda>direct.
           room_chats R actor (take MAX_ROWS (text_rows R (db_rooms db))) (List.map_filter id direct)))"

definition observe_recipient ::
  "('t, 'n, 'p, 'b, 'j, 'z) store_lib_scheme \<Rightarrow> 't option \<Rightarrow> event \<Rightarrow> agent_id
     \<Rightarrow> ('j store_error, agent_id \<times> delivery) result" where
  "observe_recipient R deliveries event recipient =
     and_then (ok_or (ErrCorrupt ''notification receipt table is absent'') deliveries) (\<lambda>table.
       map_ok (\<lambda>d. (recipient, case d of Some d \<Rightarrow> d | None \<Rightarrow> Pending))
         (get_json R (rec_decode (lib_delivery R)) table (delivery_key recipient (ev_id event))))"

text \<open>The message of an event, when it is one of the conversation and the audience includes the actor's machine.\<close>

definition observe_message ::
  "('t, 'n, 'p, 'b, 'j, 'z) store_lib_scheme \<Rightarrow> 't option \<Rightarrow> conversation \<Rightarrow> agent_id \<Rightarrow> event_id \<Rightarrow> event
     \<Rightarrow> ('j store_error, observed_message option) result" where
  "observe_message R deliveries conversation actor id' event =
     (case ev_body event of
        Message _ from words audience _ at notice \<Rightarrow>
          if body_conversation (ev_body event) \<noteq> Some conversation \<or> \<not> audience_includes audience (agent_origin actor)
          then Inr None
          else
            map_ok (\<lambda>recipients. Some \<lparr>og_id = id', og_from = agent_name_str from, og_text = text_str words,
                og_at = at, og_recipients = recipients\<rparr>)
              (traverse (observe_recipient R deliveries event)
                 (case notice of None \<Rightarrow> [] | Some notice \<Rightarrow> members_agents (n_recipients notice)))
      | _ \<Rightarrow> Inr None)"

fun message_loop ::
  "('t, 'n, 'p, 'b, 'j, 'z) store_lib_scheme \<Rightarrow> ('t, 'n, 'p, 'b) tables \<Rightarrow> 't option \<Rightarrow> conversation \<Rightarrow> agent_id
     \<Rightarrow> (string \<times> string) list \<Rightarrow> observed_message list \<Rightarrow> ('j store_error, observed_message list) result" where
  "message_loop R db deliveries conversation actor [] found = Inr found"
| "message_loop R db deliveries conversation actor ((_, id') # rows) found =
     and_then (map_err ErrInvalid (event_id_try_from id')) (\<lambda>id'.
     and_then (view_event R db id') (\<lambda>event.
     and_then (case event of None \<Rightarrow> Inr None | Some event \<Rightarrow> observe_message R deliveries conversation actor id' event)
       (\<lambda>message. case message of
         None \<Rightarrow> message_loop R db deliveries conversation actor rows found
       | Some message \<Rightarrow>
           if length (found @ [message]) = MAX_MESSAGES then Inr (found @ [message])
           else message_loop R db deliveries conversation actor rows (found @ [message]))))"

definition observe_messages ::
  "('t, 'n, 'p, 'b, 'j, 'z) store_lib_scheme \<Rightarrow> ('t, 'n, 'p, 'b) tables \<Rightarrow> 't option \<Rightarrow> conversation \<Rightarrow> agent_id
     \<Rightarrow> ('j store_error, observed_message list \<times> history_scan) result" where
  "observe_messages R db deliveries conversation actor =
     (let (first, last) = thread_bounds conversation;
          rows = rev (range_between R (db_threads db) first last)
      in map_ok (\<lambda>found. (rev found,
             if length found < MAX_MESSAGES \<and> drop MAX_THREAD_ROWS rows \<noteq> [] then Limited else WithinBudget))
           (message_loop R db deliveries conversation actor (take MAX_THREAD_ROWS rows) []))"

definition observe_thread ::
  "('t, 'n, 'p, 'b, 'j, 'z) store_lib_scheme \<Rightarrow> ('t, 'n, 'p, 'b) tables \<Rightarrow> 't option \<Rightarrow> observer_request \<Rightarrow> agent_id
     \<Rightarrow> ('j store_error, observed_chat list \<times> observed_message list \<times> history_scan) result" where
  "observe_thread R db deliveries request actor =
     and_then (observe_conversations R db actor) (\<lambda>chats.
       case or_conversation request of
         None \<Rightarrow> Inr (chats, [], WithinBudget)
       | Some conversation \<Rightarrow>
           if conversation \<notin> oc_id ` set chats
           then Inl (ErrCorrupt ''the viewing identity cannot access this conversation'')
           else map_ok (Pair chats) (observe_messages R db deliveries conversation actor))"

definition take_snapshot ::
  "('t, 'n, 'p, 'b, 'j, 'z) store_lib_scheme \<Rightarrow> ('t, 'n, 'p, 'b) tables \<Rightarrow> 't option \<Rightarrow> 't option \<Rightarrow> u64 option \<Rightarrow> origin
     \<Rightarrow> observer_request \<Rightarrow> ('j store_error, snapshot) result" where
  "take_snapshot R db activities deliveries now origin request =
     and_then (observe_agents R db activities) (\<lambda>agents.
     and_then (viewing_actor R db origin request) (\<lambda>actor.
     and_then (observe_machines R db origin) (\<lambda>machines.
     and_then (case actor of None \<Rightarrow> Inr ([], [], WithinBudget)
       | Some actor \<Rightarrow> observe_thread R db deliveries request actor) (\<lambda>(chats, messages, scan).
       Inr \<lparr>sn_observed = now, sn_actor = actor, sn_machines = machines, sn_agents = agents, sn_chats = chats,
            sn_messages = messages, sn_history_scan = scan,
            sn_local_agents = filter (\<lambda>id'. agent_origin id' = origin) (map oa_id agents)\<rparr>))))"

definition observe_database ::
  "('t, 'n, 'p, 'b, 'j, 'z) store_lib_scheme \<Rightarrow> formats \<Rightarrow> ('t, ('t, 'n, 'p, 'b) tables, 'q) observed \<Rightarrow> u64 option
     \<Rightarrow> observer_request \<Rightarrow> ('t, 'n, 'p, 'b) tables \<Rightarrow> (('j, 'q) observe_error, snapshot) result" where
  "observe_database R F files now request db =
     and_then (map_err ObsStore (ok_or (ErrCorrupt ''chat format'') (text_get R (db_meta db) ''format''))) (\<lambda>format.
     if \<not> compatible_chat F format then Inl (ObsStore (ErrFormat format))
     else
       and_then (map_err ObsStore (ok_or (ErrCorrupt ''chat origin'') (text_get R (db_meta db) ''origin''))) (\<lambda>origin.
       and_then (map_err (\<lambda>i. ObsStore (ErrInvalid i)) (origin_try_from origin)) (\<lambda>origin.
       and_then (notification_table F format (ob_activity files)) (\<lambda>activities.
       and_then (notification_table F format (ob_delivery files)) (\<lambda>deliveries.
         map_err ObsStore (take_snapshot R db activities deliveries now origin request))))))"

definition observe_store ::
  "('t, 'n, 'p, 'b, 'j, 'z) store_lib_scheme \<Rightarrow> formats \<Rightarrow> ('t, ('t, 'n, 'p, 'b) tables, 'q) observed \<Rightarrow> u64 option
     \<Rightarrow> observer_request \<Rightarrow> (('j, 'q) observe_error, snapshot) result" where
  "observe_store R F files now request =
     and_then (map_err ObsFile (ob_lock files)) (\<lambda>lock.
       case lock of
         None \<Rightarrow> observe_absent request
       | Some taken \<Rightarrow>
           if \<not> taken then Inl (ObsStore (ErrCorrupt ''chat store busy; retry refresh''))
           else and_then (map_err ObsFile (ob_database files)) (\<lambda>database.
             case database of None \<Rightarrow> observe_absent request | Some db \<Rightarrow> observe_database R F files now request db))"

section \<open>What a snapshot shows\<close>

definition visible :: "conversation \<Rightarrow> agent_id \<Rightarrow> event \<Rightarrow> bool" where
  "visible conversation actor event =
     (case ev_body event of
        Message place _ _ audience _ _ _ \<Rightarrow> place = conversation \<and> audience_includes audience (agent_origin actor)
      | _ \<Rightarrow> False)"

definition shows_event :: "observed_message \<Rightarrow> event \<Rightarrow> bool" where
  "shows_event m event =
     (og_id m = ev_id event \<and>
      (case ev_body event of
         Message _ from words _ _ at notice \<Rightarrow>
           og_from m = agent_name_str from \<and> og_text m = text_str words \<and> og_at m = at \<and>
           map fst (og_recipients m) = (case notice of None \<Rightarrow> [] | Some notice \<Rightarrow> members_agents (n_recipients notice))
       | _ \<Rightarrow> False))"

definition row_event ::
  "('t, 'n, 'p, 'b, 'j, 'z) store_lib_scheme \<Rightarrow> ('t, 'n, 'p, 'b) tables \<Rightarrow> string \<times> string \<Rightarrow> event option" where
  "row_event R db row = (case event_at R db (snd row) of Inr (Some event) \<Rightarrow> Some event | _ \<Rightarrow> None)"

lemma observe_recipients: "traverse (observe_recipient R deliveries e) xs = Inr ys \<Longrightarrow> map fst ys = xs"
  unfolding traverse_Inr by (induction rule: list_all2_induct) (auto simp: observe_recipient_def result_simps)

lemma observe_message_shows:
  assumes "observe_message R deliveries conversation actor (ev_id e) e = Inr m"
  shows "case m of None \<Rightarrow> \<not> visible conversation actor e | Some m \<Rightarrow> visible conversation actor e \<and> shows_event m e"
proof (cases "ev_body e")
  case (Message place who words readers intent time notice)
  show ?thesis
    using assms Message
    by (auto simp: observe_message_def visible_def shows_event_def body_conversation_def result_simps split: if_splits
        dest: observe_recipients)
qed (use assms in \<open>auto simp: observe_message_def visible_def\<close>)


lemma message_loop_shows:
  assumes "message_loop R db deliveries conversation actor rows found = Inr found'" "length found < MAX_MESSAGES"
  shows "\<exists>new. found' = found @ new \<and> list_all2 shows_event new
    (take (MAX_MESSAGES - length found) (filter (visible conversation actor) (List.map_filter (row_event R db) rows)))"
  using assms
proof (induction rows arbitrary: found)
  case (Cons row rows)
  obtain k i where row: "row = (k, i)" by fastforce
  from Cons.prems(1) obtain i' event message where
    p: "event_id_try_from i = Inr i'" "view_event R db i' = Inr event"
       "(case event of None \<Rightarrow> Inr None | Some event \<Rightarrow> observe_message R deliveries conversation actor i' event) = Inr message"
       "(case message of None \<Rightarrow> message_loop R db deliveries conversation actor rows found
        | Some message \<Rightarrow> if length (found @ [message]) = MAX_MESSAGES then Inr (found @ [message])
           else message_loop R db deliveries conversation actor rows (found @ [message])) = Inr found'"
    unfolding row message_loop.simps and_then_Inr_iff map_err_Inr_iff by blast
  have ev: "row_event R db row = event" using p(1,2) by (simp add: row row_event_def event_at_def split: option.splits)
  let ?rest = "filter (visible conversation actor) (List.map_filter (row_event R db) rows)"
  show ?case
  proof (cases message)
    case None
    then have "filter (visible conversation actor) (List.map_filter (row_event R db) (row # rows)) = ?rest"
      using p(2,3) ev by (auto simp: map_filter_simps split: option.splits dest!: view_event_id dest: observe_message_shows)
    then show ?thesis using Cons.IH [of found] Cons.prems(2) p(4) None by simp
  next
    case (Some m)
    then obtain e where e: "event = Some e" "observe_message R deliveries conversation actor (ev_id e) e = Inr (Some m)"
      using p(2,3) by (auto split: option.splits dest: view_event_id)
    from observe_message_shows [OF e(2)] have m: "visible conversation actor e" "shows_event m e" by simp_all
    then have all: "filter (visible conversation actor) (List.map_filter (row_event R db) (row # rows)) = e # ?rest"
      using ev e(1) by (simp add: map_filter_simps)
    show ?thesis
    proof (cases "length (found @ [m]) = MAX_MESSAGES")
      case True
      then show ?thesis using p(4) Some m all by (auto simp: take_Cons')
    next
      case False
      then have "length (found @ [m]) < MAX_MESSAGES" using Cons.prems(2) by simp
      from Cons.IH [OF _ this] False p(4) Some obtain new where "found' = (found @ [m]) @ new"
        "list_all2 shows_event new (take (MAX_MESSAGES - length (found @ [m])) ?rest)" by auto
      then show ?thesis using all m Cons.prems(2) by (intro exI [of _ "m # new"]) (auto simp: take_Cons' Suc_diff_Suc)
    qed
  qed
qed simp


text \<open>A conversation of the agent: a direct one with it, or one with a stored room it is a member of.\<close>

definition own_conversation ::
  "('t, 'n, 'p, 'b, 'j, 'z) store_lib_scheme \<Rightarrow> ('t, 'n, 'p, 'b) tables \<Rightarrow> agent_id \<Rightarrow> conversation \<Rightarrow> bool" where
  "own_conversation R db actor conversation =
     ((case conversation of Direct pair \<Rightarrow> pair_includes pair actor | InRoom _ \<Rightarrow> False) \<or>
      (case get_json R (rec_decode (lib_room R)) (db_rooms db) (conversation_to_string conversation) of
         Inr (Some room) \<Rightarrow> members_contains (room_members room) actor | _ \<Rightarrow> False))"

lemma direct_chat_own: "direct_chat R db actor key = Inr (Some chat) \<Longrightarrow> own_conversation R db actor (oc_id chat)"
  by (auto simp: direct_chat_def own_conversation_def result_simps split: option.splits conversation.splits
      dest: pair_other_includes)

lemma room_chats_own:
  assumes "redb_laws R" "set rows \<subseteq> set (text_rows R (db_rooms db))"
    and "list_all (own_conversation R db actor) (map oc_id chats)" "room_chats R actor rows chats = Inr chats'"
  shows "list_all (own_conversation R db actor) (map oc_id chats')"
  using assms(2-4)
proof (induction rows arbitrary: chats)
  case (Cons row rows)
  obtain k v where row: "row = (k, v)" by fastforce
  then have get: "text_get R (db_rooms db) k = Some v"
    using Cons.prems(1) redb_lawsD(4) [OF assms(1), of "db_rooms db"]
    by (simp add: strict_sorted_iff flip: redb_lawsD(5) [OF assms(1)])
  show ?case
  proof (cases "length chats \<ge> MAX_ROWS")
    case False
    with Cons.prems(3) obtain room where room: "decode_record (rec_decode (lib_room R)) v = Inr room"
      "(if members_contains (room_members room) actor
        then and_then (map_err ErrInvalid (conversation_try_from k)) (\<lambda>conversation.
          room_chats R actor rows (chats @ [\<lparr>oc_id = conversation,
            oc_label = (case room_topic room of None \<Rightarrow> k | Some topic \<Rightarrow> line_str topic)\<rparr>]))
        else room_chats R actor rows chats) = Inr chats'"
      unfolding row room_chats.simps if_not_P [OF False] and_then_Inr_iff by blast
    show ?thesis
    proof (cases "members_contains (room_members room) actor")
      case True
      with room(2) obtain c where c: "conversation_try_from k = Inr c"
        "room_chats R actor rows (chats @ [\<lparr>oc_id = c,
            oc_label = (case room_topic room of None \<Rightarrow> k | Some topic \<Rightarrow> line_str topic)\<rparr>]) = Inr chats'"
        by (auto simp: result_simps)
      have "own_conversation R db actor c"
        using c(1) get room(1) True by (simp add: own_conversation_def conversation_try_from_iff get_json_def)
      then show ?thesis using Cons.IH [OF _ _ c(2)] Cons.prems(1,2) by simp
    qed (use Cons.IH [OF _ Cons.prems(2)] Cons.prems(1) room(2) in simp)
  qed (use Cons.prems row in auto)
qed simp

lemma observe_conversations_own:
  assumes "redb_laws R" "observe_conversations R db actor = Inr chats"
  shows "list_all (own_conversation R db actor) (map oc_id chats)"
proof -
  from assms(2) obtain keys direct where
    d: "traverse (\<lambda>key. direct_chat R db actor (the key)) keys = Inr direct"
       "room_chats R actor (take MAX_ROWS (text_rows R (db_rooms db))) (List.map_filter id direct) = Inr chats"
    by (auto simp: observe_conversations_def Let_def result_simps)
  have "list_all (own_conversation R db actor) (map oc_id (List.map_filter id direct))"
    by (auto simp: list_all_iff map_filter_def dest!: traverse_set [OF d(1)] direct_chat_own)
  from room_chats_own [OF assms(1) _ this d(2)] show ?thesis by (meson set_take_subset)
qed

lemma viewing_actor_local:
  assumes "viewing_actor R db origin request = Inr (Some actor)"
  shows "agent_origin actor = origin \<and> (\<exists>c. view_profile R db actor = Inr (Some c))"
  using assms by (auto simp: viewing_actor_def viewing_identity_def Let_def result_simps split: option.splits if_splits)

lemma observe_messages_shows:
  assumes "observe_messages R db deliveries conversation actor = Inr (messages, scan)"
    and "rows = rev (range_between R (db_threads db) (fst (thread_bounds conversation)) (snd (thread_bounds conversation)))"
    and "seen = filter (visible conversation actor) (List.map_filter (row_event R db) (take MAX_THREAD_ROWS rows))"
  shows "list_all2 shows_event messages (rev (take MAX_MESSAGES seen)) \<and>
    (scan = Limited \<longleftrightarrow> length seen < MAX_MESSAGES \<and> MAX_THREAD_ROWS < length rows)"
proof -
  from assms(1) obtain found where
    f: "message_loop R db deliveries conversation actor (take MAX_THREAD_ROWS rows) [] = Inr found" "messages = rev found"
      "scan = (if length found < MAX_MESSAGES \<and> drop MAX_THREAD_ROWS rows \<noteq> [] then Limited else WithinBudget)"
    unfolding observe_messages_def Let_def case_prod_unfold map_ok_Inr_iff assms(2) by blast
  have l: "list_all2 shows_event found (take MAX_MESSAGES seen)"
    using message_loop_shows [OF f(1)] by (simp add: MAX_MESSAGES_def assms(3))
  then have "length found = min MAX_MESSAGES (length seen)" by (simp add: list_all2_lengthD min.commute)
  then have "length found < MAX_MESSAGES \<longleftrightarrow> length seen < MAX_MESSAGES" by linarith
  then show ?thesis using l f(2,3) by (auto simp: list_all2_rev)
qed

lemma observe_thread_own:
  assumes "redb_laws R" "observe_thread R db deliveries request actor = Inr (chats, messages, scan)"
  shows "list_all (own_conversation R db actor) (map oc_id chats) \<and>
    (case or_conversation request of
         None \<Rightarrow> messages = []
       | Some conversation \<Rightarrow>
           conversation \<in> oc_id ` set chats \<and>
           (\<exists>rows seen. rows = rev (range_between R (db_threads db) (fst (thread_bounds conversation)) (snd (thread_bounds conversation))) \<and>
              seen = filter (visible conversation actor) (List.map_filter (row_event R db) (take MAX_THREAD_ROWS rows)) \<and>
              list_all2 shows_event messages (rev (take MAX_MESSAGES seen)) \<and>
              (scan = Limited \<longleftrightarrow> length seen < MAX_MESSAGES \<and> MAX_THREAD_ROWS < length rows)))"
proof -
  from assms(2) obtain found where
    f: "observe_conversations R db actor = Inr found"
      "(case or_conversation request of
         None \<Rightarrow> Inr (found, [], WithinBudget)
       | Some conversation \<Rightarrow>
           if conversation \<notin> oc_id ` set found
           then Inl (ErrCorrupt ''the viewing identity cannot access this conversation'')
           else map_ok (Pair found) (observe_messages R db deliveries conversation actor)) = Inr (chats, messages, scan)"
    unfolding observe_thread_def and_then_Inr_iff by blast
  show ?thesis
  proof (cases "or_conversation request")
    case None
    then show ?thesis using f observe_conversations_own [OF assms(1) f(1)] by simp
  next
    case (Some conversation)
    with f(2) have c: "conversation \<in> oc_id ` set chats" "chats = found"
      and m: "observe_messages R db deliveries conversation actor = Inr (messages, scan)"
      by (auto simp: result_simps split: if_splits)
    from observe_messages_shows [OF m refl refl] show ?thesis
      using c observe_conversations_own [OF assms(1) f(1)] unfolding Some option.case by blast
  qed
qed

lemma take_snapshot_parts:
  assumes "take_snapshot R db activities deliveries now origin request = Inr s"
  obtains (nobody) "sn_actor s = None" "sn_chats s = []" "sn_messages s = []"
  | (agent) actor where "sn_actor s = Some actor" "viewing_actor R db origin request = Inr (Some actor)"
      "observe_thread R db deliveries request actor = Inr (sn_chats s, sn_messages s, sn_history_scan s)"
proof -
  from assms obtain agents actor machines chats messages scan where
    p: "viewing_actor R db origin request = Inr actor"
      "(case actor of None \<Rightarrow> Inr ([], [], WithinBudget) | Some actor \<Rightarrow> observe_thread R db deliveries request actor) =
        Inr (chats, messages, scan)"
      "s = \<lparr>sn_observed = now, sn_actor = actor, sn_machines = machines, sn_agents = agents, sn_chats = chats,
        sn_messages = messages, sn_history_scan = scan,
        sn_local_agents = filter (\<lambda>id'. agent_origin id' = origin) (map oa_id agents)\<rparr>"
    unfolding take_snapshot_def and_then_Inr_iff case_prod_unfold by (metis Inr_inject prod.collapse)
  show thesis
  proof (cases actor)
    case None
    show ?thesis by (rule nobody) (use p(2,3) None in simp_all)
  next
    case (Some a)
    show ?thesis by (rule agent [of a]) (use p Some in simp_all)
  qed
qed

lemma observe_store_parts:
  fixes R :: "('t, 'n, 'p, 'b, 'j, 'z) store_lib_scheme" and files :: "('t, ('t, 'n, 'p, 'b) tables, 'q) observed"
  assumes "observe_store R F files now request = Inr s"
  obtains (absent) "s = snapshot_default"
  | (snapshot) db origin activities deliveries where "ob_database files = Inr (Some db)"
      "text_get R (db_meta db) ''origin'' = Some (origin_str origin)"
      "take_snapshot R db activities deliveries now origin request = Inr s"
proof -
  from assms consider "observe_absent request = (Inr s :: (('j, 'q) observe_error, _) result)"
    | db where "ob_database files = Inr (Some db)" "observe_database R F files now request db = Inr s"
    by (auto simp: observe_store_def result_simps observe_absent_def split: option.splits if_splits)
  then show thesis
  proof cases
    case 1
    then show ?thesis by (intro absent) (simp add: observe_absent_def split: if_splits)
  next
    case 2
    from 2(2) obtain x a d where "text_get R (db_meta db) ''origin'' = Some x"
      "take_snapshot R db a d now (Origin x) request = Inr s"
      by (auto simp: observe_database_def result_simps origin_try_from_iff split: if_splits)
    with snapshot [OF 2(1), of "Origin x" a d] show ?thesis by simp
  qed
qed

text \<open>
  C15: What the dashboard shows of a conversation is the view of one agent of this machine. The agent is registered
  here, every conversation listed is its own, and the conversation shown is one of them. The messages are exactly
  the last 32 (in the last 1024 rows of the thread) that were sent in this conversation to an audience with the
  agent's machine, each as it is stored, in their order; older rows are left out with a note exactly when fewer
  messages were found and there are more rows. Without an agent nothing of a conversation is shown.
\<close>

theorem observer_shows_own_thread:
  fixes R :: "('t, 'n, 'p, 'b, 'j, 'z) store_lib_scheme"
  assumes "redb_laws R" "observe_store R F files now request = Inr s"
  shows "case sn_actor s of
      None \<Rightarrow> sn_chats s = [] \<and> sn_messages s = []
    | Some actor \<Rightarrow> \<exists>db. ob_database files = Inr (Some db) \<and> verify R (agent_origin actor) db = (Inr () :: ('j store_error, unit) result) \<and>
        (\<exists>c. view_profile R db actor = Inr (Some c)) \<and> list_all (own_conversation R db actor) (map oc_id (sn_chats s)) \<and>
        (case or_conversation request of
           None \<Rightarrow> sn_messages s = []
         | Some conversation \<Rightarrow>
             conversation \<in> oc_id ` set (sn_chats s) \<and>
             (\<exists>rows seen. rows = rev (range_between R (db_threads db) (fst (thread_bounds conversation)) (snd (thread_bounds conversation))) \<and>
                seen = filter (visible conversation actor) (List.map_filter (row_event R db) (take MAX_THREAD_ROWS rows)) \<and>
                list_all2 shows_event (sn_messages s) (rev (take MAX_MESSAGES seen)) \<and>
                (sn_history_scan s = Limited \<longleftrightarrow> length seen < MAX_MESSAGES \<and> MAX_THREAD_ROWS < length rows)))"
  using assms(2)
proof (cases rule: observe_store_parts)
  case absent
  then show ?thesis by (simp add: snapshot_default_def)
next
  case (snapshot db origin activities deliveries)
  from snapshot(3) show ?thesis
  proof (cases rule: take_snapshot_parts)
    case nobody
    then show ?thesis by simp
  next
    case (agent actor)
    have "agent_origin actor = origin" "\<exists>c. view_profile R db actor = Inr (Some c)"
      using viewing_actor_local [OF agent(2)] by blast+
    moreover from this(1) have "verify R (agent_origin actor) db = (Inr () :: ('j store_error, unit) result)"
      using snapshot(2) by (simp add: verify_def)
    ultimately show ?thesis
      using snapshot(1) observe_thread_own [OF assms(1) agent(3)] unfolding agent(1) option.case by blast
  qed
qed


text \<open>Bob looks at his conversation with Alice.\<close>

definition bobs_card :: card where
  "bobs_card =
     \<lparr>card_display_name = Line ''Bob'', card_role = None, card_description = None, card_skills = Skills [],
      card_project = None, card_status = None, card_tool = Claude, card_mode = Interactive, card_access = AccessRead\<rparr>"

definition view_lib where
  "view_lib = tree_lib\<lparr>lib_card := \<lparr>rec_encode = (\<lambda>_. Inr ''bob''), rec_decode = (\<lambda>_. Inr bobs_card)\<rparr>\<rparr>"

definition viewed_store where
  "viewed_store = bobs_store
     \<lparr>db_profiles := text_insert tree_lib (text_new tree_lib) (agent_id_to_string bob) ''bob'',
      db_joined := text_insert tree_lib (text_new tree_lib) (joined_key bob (Direct (DirectPair alice bob))) []\<rparr>"

definition viewed_files where
  "viewed_files = \<lparr>ob_lock = Inr (Some True), ob_database = Inr (Some viewed_store), ob_activity = Inr (text_new tree_lib),
     ob_delivery = (Inr (text_new tree_lib) :: (unit table_error, _) result)\<rparr>"

definition bobs_request :: observer_request where
  "bobs_request = \<lparr>or_actor = Some bob, or_conversation = Some (Direct (DirectPair alice bob)), or_initial_actor = None\<rparr>"

lemma view_lib_sel:
  "text_get view_lib = text_get tree_lib" "text_rows view_lib = text_rows tree_lib" "text_insert view_lib = text_insert tree_lib"
  "text_new view_lib = text_new tree_lib" "lib_event view_lib = lib_event tree_lib" "tomb_get view_lib = tomb_get tree_lib"
  "rec_decode (lib_card view_lib) x = Inr bobs_card"
  by (simp_all add: view_lib_def tree_lib_def)

lemma view_redb: "redb_laws view_lib"
  using tree_redb by (simp add: redb_laws_def view_lib_def tree_lib_def)

lemma viewed_store_tables:
  "db_machines viewed_store = text_new view_lib" "db_rooms viewed_store = text_new view_lib"
  "db_events viewed_store = db_events bobs_store" "db_tombstones viewed_store = db_tombstones bobs_store"
  "db_meta viewed_store = db_meta (opened machine_b)" "db_threads viewed_store = db_threads bobs_store"
  "db_profiles viewed_store = text_insert view_lib (text_new view_lib) (agent_id_to_string bob) ''bob''"
  "db_joined viewed_store = text_insert view_lib (text_new view_lib)
     ((agent_id_to_string bob @ [unit_separator]) @ conversation_to_string (Direct (DirectPair alice bob))) []"
  by (simp_all add: viewed_store_def bobs_store_def opened_def create_all_def Let_def joined_key_def view_lib_sel)

lemma viewed_event: "view_event view_lib viewed_store (EventId machine_a 1) = Inr (Some ask_event)"
  using bobs_stored unfolding view_event_def view_stored_def viewed_store_tables view_lib_sel by simp

lemma viewed_chats:
  "observe_conversations view_lib viewed_store bob = Inr [\<lparr>oc_id = Direct (DirectPair alice bob), oc_label = ''alice''\<rparr>]"
proof -
  have names: "conversation_try_from (conversation_to_string (Direct (DirectPair alice bob))) = Inr (Direct (DirectPair alice bob))"
    "pair_other (DirectPair alice bob) bob = Some alice" "agent_id_to_string alice \<noteq> agent_id_to_string bob"
    "agent_name_str (agent_name alice) = ''alice''" by code_simp+
  have "direct_chat view_lib viewed_store bob (conversation_to_string (Direct (DirectPair alice bob))) =
      Inr (Some \<lparr>oc_id = Direct (DirectPair alice bob), oc_label = ''alice''\<rparr>)"
    unfolding direct_chat_def names(1)
    by (simp add: names(2) view_profile_def get_json_def viewed_store_tables redb_lawsD [OF view_redb] names(3,4))
  moreover have "range_from view_lib (db_joined viewed_store) (agent_id_to_string bob @ [unit_separator]) =
      [((agent_id_to_string bob @ [unit_separator]) @ conversation_to_string (Direct (DirectPair alice bob)), [])]"
    unfolding viewed_store_tables by (rule single_range_from [OF view_redb])
  moreover note strip_prefix_append [of "agent_id_to_string bob @ [unit_separator]" "conversation_to_string (Direct (DirectPair alice bob))"]
  ultimately show ?thesis
    by (simp add: observe_conversations_def Let_def viewed_store_tables(2) no_rows [OF view_redb] MAX_ROWS_def map_filter_simps)
qed


lemma viewed_messages:
  "\<exists>m. observe_messages view_lib viewed_store (Some (text_new tree_lib)) (Direct (DirectPair alice bob)) bob = Inr ([m], WithinBudget)"
proof -
  have rows: "range_between view_lib (db_threads viewed_store) (fst (thread_bounds (Direct (DirectPair alice bob))))
      (snd (thread_bounds (Direct (DirectPair alice bob)))) =
    [(thread_key (Direct (DirectPair alice bob)) (order_key ask_event), event_key (EventId machine_a 1))]"
    using thread_key_bounds [of "Direct (DirectPair alice bob)" ask_event]
    by (simp add: range_between_def viewed_store_tables view_lib_sel) (simp add: bobs_store_def single_row [OF tree_redb])
  have "event_id_try_from (event_key (EventId machine_a 1)) = Inr (EventId machine_a 1)"
    by (simp add: event_id_try_from_iff event_key_def wf_event_id_def wf_machines)
  moreover have "audience_includes (Audience [machine_a, machine_b]) (agent_origin bob)" by code_simp
  then have "\<exists>m. observe_message view_lib (Some (text_new tree_lib)) (Direct (DirectPair alice bob)) bob (EventId machine_a 1) ask_event =
      Inr (Some m)"
    by (simp add: observe_message_def ask_event_def ask_body_def body_conversation_def)
  ultimately show ?thesis
    by (auto simp: observe_messages_def rows viewed_event MAX_MESSAGES_def MAX_THREAD_ROWS_def case_prod_unfold)
qed

theorem observer_shows_own_thread_witness:
  "\<exists>s m e. observe_store view_lib sample_formats viewed_files (Some 9) bobs_request = Inr s \<and> sn_actor s = Some bob \<and>
     sn_messages s = [m] \<and> shows_event m e \<and> visible (Direct (DirectPair alice bob)) bob e"
proof -
  have names: "agent_id_try_from (agent_id_to_string bob) = Inr bob" "agent_origin bob = machine_b"
    "origin_try_from (origin_str machine_b) = Inr machine_b" by code_simp+
  obtain m where m: "observe_messages view_lib viewed_store (Some (text_new tree_lib)) (Direct (DirectPair alice bob)) bob =
      Inr ([m], WithinBudget)" using viewed_messages by blast
  have profile: "view_profile view_lib viewed_store bob = Inr (Some bobs_card)"
    by (simp add: view_profile_def get_json_def viewed_store_tables view_lib_sel redb_lawsD [OF tree_redb] decode_record_def json_def
        MAX_RECORD_def)
  have meta: "text_get view_lib (db_meta viewed_store) ''format'' = Some ''new''"
    "text_get view_lib (db_meta viewed_store) ''origin'' = Some (origin_str machine_b)"
    by (simp_all add: viewed_store_tables view_lib_sel opened_def redb_lawsD [OF tree_redb])
  obtain agents where agents: "observe_agents view_lib viewed_store (Some (text_new tree_lib)) = Inr agents"
    by (simp add: observe_agents_def viewed_store_tables single_row [OF tree_redb] names MAX_ROWS_def get_json_def
        redb_lawsD [OF tree_redb] view_lib_sel decode_record_def json_def MAX_RECORD_def)
  obtain s where s: "observe_store view_lib sample_formats viewed_files (Some 9) bobs_request = Inr s"
    "sn_actor s = Some bob" "sn_messages s = [m]"
    by (simp add: observe_store_def viewed_files_def observe_database_def meta names sample_formats_def compatible_chat_def
        notification_table_def take_snapshot_def agents viewing_actor_def bobs_request_def profile viewing_identity_def
        observe_machines_def viewed_store_tables(1) no_rows [OF view_redb] observe_thread_def viewed_chats m)
  from observer_shows_own_thread [OF view_redb s(1)] s(2,3) obtain db rows where
    shown: "list_all2 shows_event [m] (rev (take MAX_MESSAGES (filter (visible (Direct (DirectPair alice bob)) bob)
      (List.map_filter (row_event view_lib db) (take MAX_THREAD_ROWS rows)))))"
    by (auto simp: bobs_request_def)
  then obtain e where e: "shows_event m e" "rev (take MAX_MESSAGES (filter (visible (Direct (DirectPair alice bob)) bob)
      (List.map_filter (row_event view_lib db) (take MAX_THREAD_ROWS rows)))) = [e]"
    by (auto simp: list_all2_Cons1)
  have "e \<in> set (filter (visible (Direct (DirectPair alice bob)) bob)
      (List.map_filter (row_event view_lib db) (take MAX_THREAD_ROWS rows)))"
    using e(2) by (metis in_set_takeD list.set_intros(1) set_rev)
  then show ?thesis using s e(1) by auto
qed

end
