(* ===== verification/Chat_View.thy ===== *)
theory Chat_View
  imports Chat_Address Job_Domain
begin

text \<open>
  What the chat commands show (\<open>chat/view.rs\<close>): agents, rooms, messages and the state of a question as views,
  and the text of an outcome as it is printed. \<open>now\<close> is the clock, \<open>lower\<close> stands for \<open>str::to_lowercase\<close> and the
  record \<open>handoff_json\<close> for the JSON of handoff descriptors.

  The theorem is about the text: whatever other machines put into names, topics, statuses and messages, what is
  printed holds no control character but the newline and no directional formatting character.
\<close>

section \<open>Views\<close>

definition WAITING_EXIT :: nat where
  "WAITING_EXIT = 3"

record agent_view =
  av_agent :: string
  av_id :: agent_id
  av_machine :: string
  av_os :: "os option"
  av_card :: card
  av_presence :: presence
  av_reachability :: string

record room_view =
  rv_room :: string
  rv_id :: conversation
  rv_topic :: "string option"
  rv_members :: "string list"

record directory_view =
  dv_agents :: "agent_view list"
  dv_rooms :: "room_view list"

record message_view =
  mv_id :: event_id
  mv_conversation :: conversation
  mv_from :: string
  mv_kind :: string
  mv_text :: "string option"
  mv_responder :: "string option"
  mv_request :: "event_id option"
  mv_at :: "stamp option"
  mv_delivery :: "(agent_id \<times> delivery) list"

record ask_state =
  as_message_id :: event_id
  as_state :: string
  as_responder :: string
  as_answer :: "message_view option"
  as_ended_by :: "event_id option"
  as_waited_seconds :: u64
  as_expected :: "string option"
  as_escalated_to :: "event_id option"

definition ask_waiting :: "ask_state \<Rightarrow> bool" where
  "ask_waiting s = (as_state s = ''pending'' \<or> as_state s = ''working'')"

definition ask_ended :: "ask_state \<Rightarrow> bool" where
  "ask_ended s = (\<not> ask_waiting s)"

definition ask_exit_code :: "ask_state \<Rightarrow> nat" where
  "ask_exit_code s = (if as_state s = ''answered'' then 0 else if ask_waiting s then WAITING_EXIT else 1)"

record pending_read =
  pd_reader :: agent_id
  pd_events :: "event list"
  pd_advance_cursor :: bool

datatype chat_outcome =
    OutAgent agent_id card presence
  | OutRemoved agent_id nat
  | OutDirectory directory_view
  | OutRooms "room_view list"
  | OutPosted event
  | OutHandoffCreated descriptor
  | OutHandoffMetadata agent_id "descriptor list"
  | OutHandoffBody read_body
  | OutAsked ask_state
  | OutEvents "message_view list" "nat option" "pending_read option"

definition author_label :: "book \<Rightarrow> event \<Rightarrow> string" where
  "author_label book event =
     (case ev_author event of
        None \<Rightarrow> book_machine_label book (ev_origin event) | Some agent \<Rightarrow> book_agent_label book agent)"

definition message_view_of ::
  "book \<Rightarrow> event \<Rightarrow> conversation \<Rightarrow> string \<Rightarrow> string option \<Rightarrow> string option \<Rightarrow> event_id option \<Rightarrow> stamp option \<Rightarrow> message_view" where
  "message_view_of book event conversation kind words responder request at =
     \<lparr>mv_id = ev_id event, mv_conversation = conversation, mv_from = author_label book event, mv_kind = kind,
      mv_text = words, mv_responder = responder, mv_request = request, mv_at = at, mv_delivery = []\<rparr>"

definition view_message :: "book \<Rightarrow> event \<Rightarrow> message_view option" where
  "view_message book event =
     Option.bind (body_conversation (ev_body event)) (\<lambda>conversation.
       case ev_body event of
         Message _ _ words _ intent at _ \<Rightarrow>
           (let (kind, responder, request) =
              (case intent of
                 Send \<Rightarrow> (''send'', None, None)
               | Ask responder _ \<Rightarrow> (''ask'', Some (book_agent_label book responder), None)
               | Reply request \<Rightarrow> (''reply'', None, Some request))
            in Some (message_view_of book event conversation kind (Some (text_str words)) responder request (Some at)))
       | TurnStarted request _ _ _ \<Rightarrow> Some (message_view_of book event conversation ''working'' None None (Some request) None)
       | Resolved request _ _ _ outcome \<Rightarrow>
           Some (message_view_of book event conversation (outcome_as_str outcome) None None (Some request) None)
       | _ \<Rightarrow> None)"

definition view_messages :: "book \<Rightarrow> event list \<Rightarrow> message_view list" where
  "view_messages book events = List.map_filter (view_message book) events"

record ask_facts =
  af_request :: event
  af_resolution :: "resolution option"
  af_answer :: "event option"
  af_working :: bool

definition view_ask_state :: "book \<Rightarrow> stamp \<Rightarrow> ask_facts \<Rightarrow> ask_state" where
  "view_ask_state book now facts =
     (let request = af_request facts;
          responder = (case ask_of request of None \<Rightarrow> [] | Some (_, responder) \<Rightarrow> book_agent_label book responder);
          state = (case (map_option res_ending (af_resolution facts), af_working facts) of
              (Some Answered, _) \<Rightarrow> ''answered''
            | (Some (Ended outcome), _) \<Rightarrow> outcome_as_str outcome
            | (None, True) \<Rightarrow> ''working''
            | (None, False) \<Rightarrow> ''pending'');
          (waited, expected) = (case ev_body request of
              Message _ _ _ _ _ at notice \<Rightarrow>
                (saturating_sub (stamp_millis now) (stamp_millis at) div MILLIS_PER_SECOND,
                 map_option (\<lambda>question. line_str (q_expected question)) (Option.bind notice n_question))
            | _ \<Rightarrow> (0, None))
      in \<lparr>as_message_id = ev_id request, as_state = state, as_responder = responder,
          as_answer = Option.bind (af_answer facts) (view_message book),
          as_ended_by = map_option res_event (af_resolution facts), as_waited_seconds = waited,
          as_expected = expected, as_escalated_to = None\<rparr>)"

definition view_room_of :: "book \<Rightarrow> conversation \<times> room \<Rightarrow> room_view" where
  "view_room_of book entry =
     (let (id', room) = entry;
          label = (case id' of
              InRoom place \<Rightarrow> room_name_str (room_name place) @ CHR ''@'' # book_machine_label book (room_origin place)
            | Direct _ \<Rightarrow> conversation_to_string id')
      in \<lparr>rv_room = label, rv_id = id', rv_topic = map_option line_str (room_topic room),
          rv_members = map (book_agent_label book) (members_agents (room_members room))\<rparr>)"

definition view_room_list :: "book \<Rightarrow> (conversation \<times> room) list \<Rightarrow> room_view list" where
  "view_room_list book rooms = map (view_room_of book) rooms"

definition view_age :: "stamp \<Rightarrow> stamp \<Rightarrow> string" where
  "view_age now at = age_display (stamp_age at now)"

definition reachability :: "book \<Rightarrow> (string \<times> link) list \<Rightarrow> stamp \<Rightarrow> agent_id \<Rightarrow> string" where
  "reachability book known now agent =
     (if bk_local book = Some (agent_origin agent) then ''this machine''
      else case Option.bind (find (\<lambda>(_, origin). origin = agent_origin agent) (bk_peers book)) (\<lambda>(alias, _). map_of known alias) of
        Some link \<Rightarrow>
          if ln_state link = LinkFailed then ''unreachable since '' @ view_age now (ln_at link)
          else ''reached '' @ view_age now (ln_at link)
      | None \<Rightarrow> ''no direct link from here'')"

text \<open>The order of \<open>Relevance\<close> is the order of its constructors.\<close>

definition relevance_rank :: "relevance \<Rightarrow> nat" where
  "relevance_rank r = (case r of RelSkill \<Rightarrow> 0 | RelName \<Rightarrow> 1 | RelRole \<Rightarrow> 2 | RelText \<Rightarrow> 3)"

definition view_agent ::
  "(string \<Rightarrow> string) \<Rightarrow> book \<Rightarrow> (string \<times> link) list \<Rightarrow> stamp \<Rightarrow> (origin \<times> machine_card) list \<Rightarrow> string
     \<Rightarrow> agent_id \<times> card \<times> presence \<Rightarrow> (relevance \<times> agent_view) option" where
  "view_agent lower book known now machines query entry =
     (let (agent, c, presence) = entry
      in map_option (\<lambda>relevance. (relevance,
           \<lparr>av_agent = book_agent_label book agent, av_id = agent, av_machine = book_machine_label book (agent_origin agent),
            av_os = map_option machine_os (map_of machines (agent_origin agent)), av_card = c, av_presence = presence,
            av_reachability = reachability book known now agent\<rparr>))
         (card_relevance lower c (agent_name agent) query))"

definition directory_room :: "(string \<Rightarrow> string) \<Rightarrow> string \<Rightarrow> room_view \<Rightarrow> bool" where
  "directory_room lower query room =
     (query = [] \<or> str_contains query (lower (rv_room room)) \<or>
      (case rv_topic room of None \<Rightarrow> False | Some topic \<Rightarrow> str_contains query (lower topic)))"

definition directory_view_of ::
  "(string \<Rightarrow> string) \<Rightarrow> book \<Rightarrow> (string \<times> link) list \<Rightarrow> stamp \<Rightarrow> directory \<Rightarrow> (conversation \<times> room) list \<Rightarrow> string
     \<Rightarrow> directory_view" where
  "directory_view_of lower book known now directory rooms query =
     (let ranked = List.map_filter (view_agent lower book known now (dir_machines directory) query) (dir_agents directory);
          ordered = sort_key (\<lambda>(relevance, agent). (relevance_rank relevance, av_agent agent)) ranked
      in \<lparr>dv_agents = map snd ordered,
          dv_rooms = filter (directory_room lower (lower (trim query))) (view_room_list book rooms)\<rparr>)"

section \<open>Text\<close>

definition safe_text :: "string \<Rightarrow> string" where
  "safe_text s = terminal_text s"

definition replace_newline :: "string \<Rightarrow> string \<Rightarrow> string" where
  "replace_newline by' s = concat (map (\<lambda>c. if c = CHR 0x0A then by' else [c]) s)"

definition indent :: string where
  "indent = CHR 0x0A # ''    ''"

definition opt_text :: "('a \<Rightarrow> string) \<Rightarrow> 'a option \<Rightarrow> string" where
  "opt_text f x = (case x of None \<Rightarrow> [] | Some x \<Rightarrow> f x)"

definition describe_card :: "card \<Rightarrow> presence \<Rightarrow> string" where
  "describe_card c presence =
     safe_text (line_str (card_display_name c)) @
     opt_text (\<lambda>role. utf8 [0x20, 0x2014, 0x20] @ safe_text (line_str role)) (card_role c) @
     '' ['' @ tool_as_str (card_tool c) @ utf8 [0x20, 0xB7, 0x20] @
     (case card_mode c of Managed \<Rightarrow> ''managed'' | Interactive \<Rightarrow> ''interactive'') @ utf8 [0x20, 0xB7, 0x20] @
     (case card_access c of AccessRead \<Rightarrow> ''read-only'' | AccessWrite \<Rightarrow> ''can write'') @ '']'' @
     '' ['' @ (case pr_state presence of ActWorking \<Rightarrow> ''working'' | ActWaiting \<Rightarrow> ''waiting'' | ActStalled \<Rightarrow> ''stalled'') @
     utf8 [0x20, 0xB7, 0x20] @ (if pr_online presence then ''online'' else ''offline'') @ '']'' @
     (let skills = map tag_str (skill_tags (card_skills c))
      in if skills = [] then [] else indent @ ''skills: '' @ join '', '' skills) @
     opt_text (\<lambda>project. indent @ ''project: '' @ safe_text (line_str project)) (card_project c) @
     opt_text (\<lambda>description. indent @ replace_newline indent (safe_text (paragraph_str description))) (card_description c) @
     opt_text (\<lambda>status. indent @ ''status: '' @ safe_text (line_str status))
       (case pr_status presence of Some status \<Rightarrow> Some status | None \<Rightarrow> card_status c) @
     (case pr_working_on presence of
        Some request \<Rightarrow> indent @ ''working on '' @ event_id_to_string request @ '' ('' @ decimal (pr_queued presence) @ '' waiting)''
      | None \<Rightarrow> if pr_queued presence = 0 then [] else indent @ decimal (pr_queued presence) @ '' waiting'')"

definition delivery_text :: "agent_id \<times> delivery \<Rightarrow> string" where
  "delivery_text entry =
     (let (agent, delivery) = entry
      in agent_id_to_string agent @ '': '' @
         (case delivery of Pending \<Rightarrow> ''pending'' | Delivered \<Rightarrow> ''delivered'' | Read \<Rightarrow> ''read'' | Acknowledged \<Rightarrow> ''acknowledged''))"

definition message_line :: "stamp \<Rightarrow> message_view \<Rightarrow> string" where
  "message_line now message =
     (let when = opt_text (\<lambda>at. ''['' @ view_age now at @ ''] '') (mv_at message);
          body = (case (mv_text message, mv_responder message, mv_request message) of
              (Some words, Some responder, _) \<Rightarrow> ''asks '' @ safe_text responder @ '': '' @ safe_text words
            | (Some words, None, Some request) \<Rightarrow> ''replies to '' @ event_id_to_string request @ '': '' @ safe_text words
            | (Some words, None, None) \<Rightarrow> safe_text words
            | (None, _, Some request) \<Rightarrow> mv_kind message @ '' '' @ event_id_to_string request
            | (None, _, None) \<Rightarrow> mv_kind message);
          states = join '', '' (map delivery_text (mv_delivery message))
      in when @ event_id_to_string (mv_id message) @ '' '' @ safe_text (mv_from message) @ '': '' @ body @
         (if states = [] then [] else '' ['' @ states @ '']''))"

definition room_line :: "room_view \<Rightarrow> string" where
  "room_line room =
     CHR ''#'' # safe_text (rv_room room) @ opt_text (\<lambda>topic. utf8 [0x20, 0x2014, 0x20] @ safe_text topic) (rv_topic room) @
     indent @ ''members: '' @ join '', '' (map safe_text (rv_members room))"

definition trim_end :: "string \<Rightarrow> string" where
  "trim_end s = utf8 (rev (dropWhile is_whitespace (rev (chars s))))"

record handoff_json =
  hj_descriptor :: "descriptor \<Rightarrow> string"
  hj_listing :: "agent_id \<Rightarrow> descriptor list \<Rightarrow> string"

definition agent_text :: "agent_view \<Rightarrow> string" where
  "agent_text agent =
     safe_text (av_agent agent) @ '' ('' @ av_reachability agent @ '')'' @ indent @
     describe_card (av_card agent) (av_presence agent) @ [CHR 0x0A]"

definition outcome_text :: "handoff_json \<Rightarrow> stamp \<Rightarrow> chat_outcome \<Rightarrow> string" where
  "outcome_text J now outcome =
     (case outcome of
        OutAgent agent c presence \<Rightarrow>
          agent_name_str (agent_name agent) @ ''@local'' @ indent @ describe_card c presence
      | OutRemoved agent ended \<Rightarrow>
          ''removed '' @ agent_name_str (agent_name agent) @ ''@local; ended '' @ decimal ended @ '' waiting asks''
      | OutDirectory directory \<Rightarrow>
          trim_end (concat (map agent_text (dv_agents directory)) @
            concat (map (\<lambda>room. room_line room @ [CHR 0x0A]) (dv_rooms directory)))
      | OutRooms rooms \<Rightarrow> join [CHR 0x0A] (map room_line rooms)
      | OutPosted event \<Rightarrow> event_id_to_string (ev_id event)
      | OutHandoffCreated descriptor \<Rightarrow> hj_descriptor J descriptor
      | OutHandoffMetadata reader descriptors \<Rightarrow> hj_listing J reader descriptors
      | OutHandoffBody body \<Rightarrow>
          event_id_to_string (desc_id (rb_descriptor body)) @ CHR 0x0A # ''reader: '' @ agent_id_to_string (rb_reader body) @
          CHR 0x0A # safe_text (text_str (rb_text body))
      | OutAsked state \<Rightarrow>
          (case as_answer state of
             Some answer \<Rightarrow> message_line now answer
           | None \<Rightarrow> event_id_to_string (as_message_id state) @ '' '' @ as_state state)
      | OutEvents events unread _ \<Rightarrow>
          join [CHR 0x0A] (map (message_line now) events @
            (case unread of Some count \<Rightarrow> if count > 0 then [decimal count @ '' more unread''] else [] | None \<Rightarrow> [])))"

definition outcome_exit_code :: "chat_outcome \<Rightarrow> nat" where
  "outcome_exit_code outcome = (case outcome of OutAsked state \<Rightarrow> ask_exit_code state | _ \<Rightarrow> 0)"

definition pending_read_of :: "chat_outcome \<Rightarrow> pending_read option" where
  "pending_read_of outcome = (case outcome of OutEvents _ _ pending \<Rightarrow> pending | _ \<Rightarrow> None)"

definition pending_handoff_of :: "chat_outcome \<Rightarrow> pending_observation option" where
  "pending_handoff_of outcome = (case outcome of OutHandoffBody body \<Rightarrow> Some (rb_pending body) | _ \<Rightarrow> None)"

section \<open>What is printed\<close>

text \<open>Text a terminal shows as it is: newlines, and characters that neither control it nor turn its direction.\<close>

definition printable :: "string \<Rightarrow> bool" where
  "printable s \<longleftrightarrow> (\<exists>cs. list_all (\<lambda>c. \<not> terminal_unsafe c \<and> c < 1114112) cs \<and> s = utf8 cs)"

named_theorems printable_intros \<open>parts of printable text\<close>

lemma printable_chars: "printable s \<Longrightarrow> list_all (\<lambda>c. \<not> terminal_unsafe c) (chars s)"
  by (auto simp: printable_def list_all_iff)

lemma printable_append [printable_intros]: "printable a \<Longrightarrow> printable b \<Longrightarrow> printable (a @ b)"
proof -
  assume "printable a" "printable b"
  then obtain x y where "list_all (\<lambda>c. \<not> terminal_unsafe c \<and> c < 1114112) x" "a = utf8 x"
    "list_all (\<lambda>c. \<not> terminal_unsafe c \<and> c < 1114112) y" "b = utf8 y" unfolding printable_def by blast
  then show ?thesis unfolding printable_def by (intro exI [of _ "x @ y"]) (simp add: utf8_append)
qed

lemma printable_ascii:
  assumes "list_all (\<lambda>c. 32 \<le> byte c \<and> byte c < 127 \<or> byte c = 10) s"
  shows "printable s"
proof -
  have ascii: "list_all (\<lambda>c. byte c < 128) s" using assms by (rule list.pred_mono_strong) linarith
  then have "utf8 (map of_char s) = s" using valid_utf8_ascii [OF ascii] chars_ascii [OF ascii] by (simp add: valid_utf8_def)
  moreover have "list_all (\<lambda>c. \<not> terminal_unsafe c \<and> c < 1114112) (map of_char s)"
    unfolding list.pred_map comp_def
    using assms by (rule list.pred_mono_strong) (auto simp: terminal_unsafe_def is_control_def bidi_control_def)
  ultimately show ?thesis unfolding printable_def by metis
qed

lemma printable_Nil [printable_intros]: "printable []"
  by (rule printable_ascii) simp

lemma printable_Cons [printable_intros]:
  "32 \<le> byte c \<and> byte c < 127 \<or> byte c = 10 \<Longrightarrow> printable s \<Longrightarrow> printable (c # s)"
  using printable_append [OF printable_ascii [of "[c]"]] by simp

lemma printable_concat [printable_intros]: "list_all printable xs \<Longrightarrow> printable (concat xs)"
  by (induction xs) (auto intro: printable_intros)

lemma printable_join [printable_intros]: "printable sep \<Longrightarrow> list_all printable xs \<Longrightarrow> printable (join sep xs)"
  by (cases xs) (auto simp: join_def list_all_iff intro!: printable_intros)

lemma printable_safe [printable_intros]: "is_str s \<Longrightarrow> printable (safe_text s)"
  unfolding safe_text_def terminal_text_def printable_def is_str_def shown_def [symmetric]
  using shown_safe by fastforce

lemma printable_opt [printable_intros]: "(\<And>y. x = Some y \<Longrightarrow> printable (f y)) \<Longrightarrow> printable (opt_text f x)"
  by (auto simp: opt_text_def intro: printable_intros split: option.splits)

lemma printable_mark [printable_intros]: "printable (utf8 [0x20, 0x2014, 0x20])" "printable (utf8 [0x20, 0xB7, 0x20])"
  unfolding printable_def
  by (rule exI [of _ "[0x20, 0x2014, 0x20]"], simp add: terminal_unsafe_def is_control_def bidi_control_def)
    (rule exI [of _ "[0x20, 0xB7, 0x20]"], simp add: terminal_unsafe_def is_control_def bidi_control_def)

lemma printable_digits: "list_all is_ascii_digit s \<Longrightarrow> printable s" "list_all hex_lower s \<Longrightarrow> printable s"
  by (rule printable_ascii, erule list.pred_mono_strong, auto simp: ascii_defs)+

lemma printable_decimal [printable_intros]: "printable (decimal n)"
  by (rule printable_digits(1)) (rule decimal_digits)

lemma printable_origin [printable_intros]: "wf_origin p \<Longrightarrow> printable (origin_str p)"
  by (auto simp: wf_origin_def lower_hex_def intro: printable_digits)

lemma printable_event_id [printable_intros]: "wf_event_id i \<Longrightarrow> printable (event_id_to_string i)"
  by (auto simp: event_id_to_string_def wf_event_id_def intro!: printable_intros printable_digits(2) [OF format_hex_lower])

lemma printable_handle [printable_intros]: "wf_agent_name n \<Longrightarrow> printable (agent_name_str n)"
  unfolding wf_agent_name_def valid_handle_def
  by (intro printable_ascii, elim conjE, erule list.pred_mono_strong) (auto simp: handle_lower_def ascii_defs)

lemma printable_agent [printable_intros]: "wf_agent_id a \<Longrightarrow> printable (agent_id_to_string a)"
  by (auto simp: agent_id_to_string_def wf_agent_id_def intro!: printable_intros)

lemma printable_tag: "valid_tag t \<Longrightarrow> printable t"
  unfolding valid_tag_def
  by (intro printable_ascii, elim conjE, erule list.pred_mono_strong) (auto simp: tag_plain_def ascii_defs)

lemma printable_age [printable_intros]: "printable (view_age now at)"
  by (auto simp: view_age_def age_display_def Let_def intro!: printable_intros)

lemma printable_indent [printable_intros]: "printable indent"
  by (auto simp: indent_def intro!: printable_intros)

lemma newline_byte: "b < 256 \<Longrightarrow> char_of b = CHR 0x0A \<longleftrightarrow> b = 10" for b :: nat
proof -
  assume b: "b < 256"
  have "char_of b = CHR 0x0A \<longleftrightarrow> of_char (char_of b :: char) = (of_char (CHR 0x0A) :: nat)"
    by (simp only: of_char_eq_iff)
  also have "\<dots> \<longleftrightarrow> b = 10" using b by simp
  finally show ?thesis .
qed

lemma replace_newline_one:
  assumes "c < 1114112"
  shows "replace_newline by' (utf8 [c]) = (if c = 10 then by' else utf8 [c])"
proof (cases "c < 128")
  case True
  then have "char_of c = CHR 0x0A \<longleftrightarrow> c = 10" by (simp add: newline_byte)
  then show ?thesis using True by (simp add: replace_newline_def utf8_def utf8_bytes_def)
next
  case False
  then have high: "\<forall>b \<in> set (utf8_bytes c). 128 \<le> b \<and> b < 256" using assms by (auto simp: utf8_bytes_def)
  have "\<forall>b \<in> set (utf8_bytes c). char_of b \<noteq> CHR 0x0A"
  proof
    fix b assume "b \<in> set (utf8_bytes c)"
    then have "128 \<le> b" "b < 256" using high by auto
    then show "char_of b \<noteq> CHR 0x0A" using newline_byte [of b] by linarith
  qed
  then have plain: "\<forall>x \<in> set (utf8 [c]). x \<noteq> CHR 0x0A" by (auto simp: utf8_def)
  have "map (\<lambda>x. if x = CHR 0x0A then by' else [x]) (utf8 [c]) = map (\<lambda>x. [x]) (utf8 [c])"
    by (rule map_cong [OF refl]) (use plain in simp)
  then have "replace_newline by' (utf8 [c]) = utf8 [c]" by (simp only: replace_newline_def concat_map_singleton map_ident)
  then show ?thesis using False by simp
qed

lemma printable_replace [printable_intros]:
  assumes "printable s" "printable by'"
  shows "printable (replace_newline by' s)"
proof -
  obtain cs where cs: "list_all (\<lambda>c. \<not> terminal_unsafe c \<and> c < 1114112) cs" "s = utf8 cs" using assms(1) by (auto simp: printable_def)
  have "printable (replace_newline by' (utf8 cs))" using cs(1)
  proof (induction cs)
    case Nil
    then show ?case by (simp add: replace_newline_def utf8_def printable_intros)
  next
    case (Cons c cs)
    have "replace_newline by' (utf8 (c # cs)) = replace_newline by' (utf8 [c]) @ replace_newline by' (utf8 cs)"
      by (simp add: replace_newline_def utf8_def)
    moreover have "printable (utf8 [c])" using Cons.prems by (auto simp: printable_def intro!: exI [of _ "[c]"])
    ultimately show ?case using Cons assms(2) by (simp add: replace_newline_one printable_intros)
  qed
  then show ?thesis by (simp add: cs(2))
qed

lemma printable_trim_end [printable_intros]: "printable s \<Longrightarrow> printable (trim_end s)"
proof -
  assume "printable s"
  then obtain cs where cs: "list_all (\<lambda>c. \<not> terminal_unsafe c \<and> c < 1114112) cs" "s = utf8 cs" by (auto simp: printable_def)
  then have "chars s = cs" by (simp add: list_all_iff)
  then show ?thesis
    using cs(1) unfolding trim_end_def printable_def list_all_iff
    by (metis (no_types, lifting) set_dropWhileD set_rev)
qed

lemma printable_reachability: "printable (reachability book known now agent)"
  by (auto simp: reachability_def intro!: printable_intros split: option.splits)


section \<open>Well-formed outcomes\<close>

text \<open>What the types of the source guarantee of the parts of an outcome.\<close>

definition opt_all :: "('a \<Rightarrow> bool) \<Rightarrow> 'a option \<Rightarrow> bool" where
  "opt_all P x = (case x of None \<Rightarrow> True | Some x \<Rightarrow> P x)"

definition card_strings :: "card \<Rightarrow> bool" where
  "card_strings c =
     (is_str (line_str (card_display_name c)) \<and> opt_all (is_str \<circ> line_str) (card_role c) \<and>
      opt_all (is_str \<circ> paragraph_str) (card_description c) \<and> list_all (valid_tag \<circ> tag_str) (skill_tags (card_skills c)) \<and>
      opt_all (is_str \<circ> line_str) (card_project c) \<and> opt_all (is_str \<circ> line_str) (card_status c))"

definition presence_strings :: "presence \<Rightarrow> bool" where
  "presence_strings p = (opt_all wf_event_id (pr_working_on p) \<and> opt_all (is_str \<circ> line_str) (pr_status p))"

definition kinds :: "string list" where
  "kinds = [''send'', ''ask'', ''reply'', ''working''] @ map outcome_as_str [Failed, Interrupted, Unavailable, Withdrawn]"

definition message_strings :: "message_view \<Rightarrow> bool" where
  "message_strings m =
     (wf_event_id (mv_id m) \<and> is_str (mv_from m) \<and> mv_kind m \<in> set kinds \<and> opt_all is_str (mv_text m) \<and>
      opt_all is_str (mv_responder m) \<and> opt_all wf_event_id (mv_request m) \<and> list_all (wf_agent_id \<circ> fst) (mv_delivery m))"

definition room_strings :: "room_view \<Rightarrow> bool" where
  "room_strings r = (is_str (rv_room r) \<and> opt_all is_str (rv_topic r) \<and> list_all is_str (rv_members r))"

definition agent_strings :: "agent_view \<Rightarrow> bool" where
  "agent_strings a =
     (is_str (av_agent a) \<and> (\<exists>book known now. av_reachability a = reachability book known now (av_id a)) \<and>
      card_strings (av_card a) \<and> presence_strings (av_presence a))"

definition outcome_strings :: "chat_outcome \<Rightarrow> bool" where
  "outcome_strings outcome =
     (case outcome of
        OutAgent agent c presence \<Rightarrow> wf_agent_id agent \<and> card_strings c \<and> presence_strings presence
      | OutRemoved agent ended \<Rightarrow> wf_agent_id agent
      | OutDirectory directory \<Rightarrow> list_all agent_strings (dv_agents directory) \<and> list_all room_strings (dv_rooms directory)
      | OutRooms rooms \<Rightarrow> list_all room_strings rooms
      | OutPosted event \<Rightarrow> wf_event_id (ev_id event)
      | OutHandoffCreated _ \<Rightarrow> True
      | OutHandoffMetadata _ _ \<Rightarrow> True
      | OutHandoffBody body \<Rightarrow>
          wf_event_id (desc_id (rb_descriptor body)) \<and> wf_agent_id (rb_reader body) \<and> is_str (text_str (rb_text body))
      | OutAsked state \<Rightarrow>
          wf_event_id (as_message_id state) \<and> as_state state \<in> set (''answered'' # ''pending'' # kinds) \<and>
          opt_all message_strings (as_answer state)
      | OutEvents events _ _ \<Rightarrow> list_all message_strings events)"

lemma opt_allD: "opt_all P x \<Longrightarrow> x = Some y \<Longrightarrow> P y"
  by (simp add: opt_all_def)

lemma printable_card:
  assumes "card_strings c" "presence_strings p"
  shows "printable (describe_card c p)"
proof -
  note parts = assms [unfolded card_strings_def presence_strings_def]
  have words: "printable (tool_as_str t)" "printable (case m of Managed \<Rightarrow> ''managed'' | Interactive \<Rightarrow> ''interactive'')"
    "printable (case a of AccessRead \<Rightarrow> ''read-only'' | AccessWrite \<Rightarrow> ''can write'')"
    "printable (case k of ActWorking \<Rightarrow> ''working'' | ActWaiting \<Rightarrow> ''waiting'' | ActStalled \<Rightarrow> ''stalled'')"
    "printable (if b then ''online'' else ''offline'')" for t m a k b
    by (cases t; cases m; cases a; cases k; cases b; auto simp: tool_as_str_def intro!: printable_intros)+
  have skills: "printable (let skills = map tag_str (skill_tags (card_skills c))
      in if skills = [] then [] else indent @ ''skills: '' @ join '', '' skills)"
    using parts(1) printable_tag by (auto simp: Let_def list_all_iff intro!: printable_intros)
  have status: "opt_all (is_str \<circ> line_str) (case pr_status p of Some status \<Rightarrow> Some status | None \<Rightarrow> card_status c)"
    using parts by (auto split: option.splits)
  have queue: "printable (case pr_working_on p of
        Some request \<Rightarrow> indent @ ''working on '' @ event_id_to_string request @ '' ('' @ decimal (pr_queued p) @ '' waiting)''
      | None \<Rightarrow> if pr_queued p = 0 then [] else indent @ decimal (pr_queued p) @ '' waiting'')"
    using parts(2) by (auto intro!: printable_intros dest: opt_allD split: option.splits)
  show ?thesis
    unfolding describe_card_def
    by (intro printable_append printable_mark printable_opt printable_safe printable_indent printable_replace words skills queue)
      (use parts status in \<open>auto intro!: printable_intros dest: opt_allD\<close>)
qed

lemma printable_kinds: "k \<in> set (''answered'' # ''pending'' # kinds) \<Longrightarrow> printable k"
  by (auto simp: kinds_def outcome_as_str_def intro!: printable_intros)

lemma printable_delivery: "wf_agent_id (fst d) \<Longrightarrow> printable (delivery_text d)"
  by (auto simp: delivery_text_def intro!: printable_intros split: prod.splits delivery.splits)

lemma printable_message:
  assumes "message_strings m"
  shows "printable (message_line now m)"
proof -
  have "printable (mv_kind m)" using assms by (intro printable_kinds) (simp add: message_strings_def)
  then show ?thesis
    unfolding message_line_def Let_def using assms
    by (intro printable_append printable_opt printable_safe printable_event_id)
      (auto simp: message_strings_def opt_all_def list_all_iff intro!: printable_intros printable_delivery split: option.splits)
qed

lemma printable_room: "room_strings r \<Longrightarrow> printable (room_line r)"
  by (auto simp: room_strings_def room_line_def opt_all_def list_all_iff intro!: printable_intros)

lemma printable_agent_text: "agent_strings a \<Longrightarrow> printable (agent_text a)"
  by (auto simp: agent_strings_def agent_text_def intro!: printable_intros printable_card printable_reachability)

text \<open>
  C27: What a chat command prints cannot drive the terminal: in every outcome but the listings of handoffs, whose text is
  the JSON of their descriptors, names, labels, topics, statuses, descriptions and messages of any machine are shown
  with no control character except the newline and no directional formatting character.
\<close>

theorem outcome_text_safe:
  assumes "outcome_strings outcome"
    and "\<nexists>d. outcome = OutHandoffCreated d" "\<nexists>r ds. outcome = OutHandoffMetadata r ds"
  shows "list_all (\<lambda>c. \<not> terminal_unsafe c) (chars (outcome_text J now outcome))"
proof (rule printable_chars)
  show "printable (outcome_text J now outcome)"
  proof (cases outcome)
    case (OutAgent a c p)
    then show ?thesis
      using assms(1) by (auto simp: outcome_strings_def outcome_text_def wf_agent_id_def intro!: printable_intros printable_card)
  next
    case (OutRemoved a n)
    then show ?thesis
      using assms(1) by (auto simp: outcome_strings_def outcome_text_def wf_agent_id_def intro!: printable_intros)
  next
    case (OutDirectory d)
    then show ?thesis
      using assms(1) by (auto simp: outcome_strings_def outcome_text_def list_all_iff
          intro!: printable_intros printable_agent_text printable_room)
  next
    case (OutRooms rooms)
    then show ?thesis
      using assms(1) by (auto simp: outcome_strings_def outcome_text_def list_all_iff intro!: printable_intros printable_room)
  next
    case (OutPosted e)
    then show ?thesis using assms(1) by (auto simp: outcome_strings_def outcome_text_def intro!: printable_intros)
  next
    case (OutHandoffBody b)
    then show ?thesis using assms(1) by (auto simp: outcome_strings_def outcome_text_def intro!: printable_intros)
  next
    case (OutAsked state)
    then show ?thesis
      using assms(1) printable_kinds [of "as_state state"]
      by (auto simp: outcome_strings_def outcome_text_def opt_all_def intro!: printable_intros printable_message split: option.splits)
  next
    case (OutEvents events unread pending)
    then show ?thesis
      using assms(1) by (auto simp: outcome_strings_def outcome_text_def list_all_iff
          intro!: printable_intros printable_message split: option.splits)
  qed (use assms(2,3) in auto)
qed


text \<open>A room whose topic would clear the screen and turn the text.\<close>

definition hostile_room :: room_view where
  "hostile_room = \<lparr>rv_room = ''ops@local'', rv_id = InRoom (RoomId (Origin []) (RoomName ''ops'')),
     rv_topic = Some (utf8 [0x1B, 0x5B, 0x32, 0x4A, 0x202E]), rv_members = [''bob@local'']\<rparr>"

theorem outcome_text_safe_witness:
  "list_all (\<lambda>c. \<not> terminal_unsafe c)
     (chars (outcome_text \<lparr>hj_descriptor = (\<lambda>_. []), hj_listing = (\<lambda>_ _. [])\<rparr> (Stamp 0) (OutRooms [hostile_room])))"
proof (rule outcome_text_safe)
  have ascii: "is_str s" if "list_all (\<lambda>c. byte c < 128) s" for s
    using valid_utf8_ascii [OF that] unfolding valid_utf8_iff is_str_def by (auto dest: scalars_less)
  have "is_str (utf8 [0x1B, 0x5B, 0x32, 0x4A, 0x202E])" by (auto simp: is_str_def intro!: exI [of _ "[0x1B, 0x5B, 0x32, 0x4A, 0x202E]"])
  then show "outcome_strings (OutRooms [hostile_room])"
    by (auto simp: outcome_strings_def hostile_room_def room_strings_def opt_all_def intro!: ascii)
qed simp_all

end
