(* ===== verification/Chat_Commands.thy ===== *)
theory Chat_Commands
  imports Chat_View Chat_Provider Store_Clean
begin

text \<open>
  The chat commands (\<open>chat/ops.rs\<close>, \<open>chat/ops/reads.rs\<close>, \<open>chat/ops/handoff.rs\<close>): registering agents, rooms,
  sending, asking, replying and withdrawing, the inbox and its receipts, and handoffs. A command acts on the tables
  of this machine for the session \<open>S\<close>; the clock is an argument, and what the command line and the file system
  give is the record \<open>ops_env\<close>.
\<close>

section \<open>Sessions\<close>

datatype ('j, 'x) ops_error =
    OpStore "'j store_error"
  | OpEnv 'x
  | OpRefused refusal
  | OpInvalid invalid
  | OpUsage string
  | OpAnonymous
  | OpNotLocal string

record session =
  ses_origin :: origin
  ses_actor :: "agent_id option"
  ses_turn :: "event_id option"

record ops_env =
  oe_lower :: "string \<Rightarrow> string"
  oe_file_name :: "string \<Rightarrow> string option"
  oe_is_directory :: "string \<Rightarrow> bool option"
  oe_is_absolute :: "string \<Rightarrow> bool"

type_synonym ('t, 'n, 'p, 'b, 'j, 'x, 'a) command =
  "('t, 'n, 'p, 'b) tables \<Rightarrow> ('t, 'n, 'p, 'b) tables \<times> (('j, 'x) ops_error, 'a) result"

definition MAX_WAIT_SECONDS :: u64 where
  "MAX_WAIT_SECONDS = 600"

definition MAX_PROJECT_BYTES :: nat where
  "MAX_PROJECT_BYTES = 128"

definition MAX_LIMIT :: nat where
  "MAX_LIMIT = 500"

definition MAX_ROOM_TOPIC_BYTES :: nat where
  "MAX_ROOM_TOPIC_BYTES = 256"

definition MAX_SUBJECT_BYTES :: nat where
  "MAX_SUBJECT_BYTES = 128"

definition MAX_EXPECTED_BYTES :: nat where
  "MAX_EXPECTED_BYTES = 256"

text \<open>A write and a read of the store within a command.\<close>

definition cmd_write ::
  "('t, 'n, 'p, 'b, 'z) redb_scheme \<Rightarrow> session
     \<Rightarrow> (('t, 'n, 'p, 'b) tx \<Rightarrow> ('t, 'n, 'p, 'b) tx \<times> ('j store_error, 'a) result) \<Rightarrow> ('t, 'n, 'p, 'b, 'j, 'x, 'a) command" where
  "cmd_write R S work db =
     (let (db', r) = store_write R (ses_origin S) work db in (db', map_err OpStore (map_ok fst r)))"

definition cmd_read ::
  "('t, 'n, 'p, 'b, 'z) redb_scheme \<Rightarrow> session \<Rightarrow> (('t, 'n, 'p, 'b) tables \<Rightarrow> ('j store_error, 'a) result)
     \<Rightarrow> ('t, 'n, 'p, 'b, 'j, 'x, 'a) command" where
  "cmd_read R S work = tx_read (\<lambda>db. map_err OpStore (store_read R (ses_origin S) work db))"

definition tx_result :: "('e, 'a) result \<Rightarrow> 's \<Rightarrow> 's \<times> ('e, 'a) result" where
  "tx_result r = tx_read (\<lambda>_. r)"

definition session_me :: "session \<Rightarrow> (('j, 'x) ops_error, agent_id) result" where
  "session_me S = ok_or OpAnonymous (ses_actor S)"

definition session_book ::
  "('t, 'n, 'p, 'b, 'j, 'z) store_lib_scheme \<Rightarrow> session \<Rightarrow> stamp \<Rightarrow> ('t, 'n, 'p, 'b) tables
     \<Rightarrow> (('j, 'x) ops_error, book) result" where
  "session_book R S now db =
     and_then (map_err OpStore (peers R (ses_origin S) db)) (\<lambda>known.
     map_err OpStore (store_read R (ses_origin S) (\<lambda>db.
       and_then (view_directory R db now) (\<lambda>directory.
       and_then (view_rooms R db) (\<lambda>rooms.
         Inr \<lparr>bk_local = Some (ses_origin S), bk_peers = btree_collect known, bk_machines = dir_machines directory,
              bk_agents = map fst (dir_agents directory),
              bk_rooms = List.map_filter (\<lambda>(conversation, _). case conversation of InRoom room \<Rightarrow> Some room | Direct _ \<Rightarrow> None)
                rooms\<rparr>))) db))"

definition session_bind ::
  "('t, 'n, 'p, 'b, 'j, 'z) store_lib_scheme \<Rightarrow> session \<Rightarrow> stamp \<Rightarrow> string \<Rightarrow> ('t, 'n, 'p, 'b) tables
     \<Rightarrow> (('j, 'x) ops_error, session) result" where
  "session_bind R S now actor db =
     and_then (session_book R S now db) (\<lambda>book.
     and_then (map_err OpStore (local_agent_of book actor)) (\<lambda>agent.
       if agent \<notin> set (bk_agents book) then Inl (OpNotLocal (agent_id_to_string agent))
       else Inr (S\<lparr>ses_actor := Some agent\<rparr>)))"

section \<open>Cards\<close>

record profile_args =
  pa_display_name :: "string option"
  pa_role :: "string option"
  pa_description :: "string option"
  pa_skills :: "string list option"
  pa_project :: "string option"
  pa_status :: "string option"

definition optional_line :: "nat \<Rightarrow> string \<Rightarrow> (invalid, line option) result" where
  "optional_line limit words =
     (let words = trim words in if words = [] then Inr None else map_ok Some (line_try_from limit words))"

text \<open>A field of the card that is set when the argument is given.\<close>

definition set_field ::
  "'v option \<Rightarrow> ('v \<Rightarrow> (invalid, 'f) result) \<Rightarrow> ('f \<Rightarrow> card \<Rightarrow> card) \<Rightarrow> card \<Rightarrow> (invalid, card) result" where
  "set_field arg parse update c = (case arg of None \<Rightarrow> Inr c | Some value \<Rightarrow> map_ok (\<lambda>field. update field c) (parse value))"

definition apply_profile :: "(string \<Rightarrow> string) \<Rightarrow> profile_args \<Rightarrow> card \<Rightarrow> (invalid, card) result" where
  "apply_profile lower args c =
     and_then (set_field (pa_display_name args)
       (\<lambda>name. and_then (optional_line 64 name) (ok_or (Invalid ''display name''))) (\<lambda>name. card_display_name_update (\<lambda>_. name)) c) (\<lambda>c.
     and_then (set_field (pa_role args) (optional_line 64) (\<lambda>role. card_role_update (\<lambda>_. role)) c) (\<lambda>c.
     and_then (set_field (pa_description args)
       (\<lambda>words. let words = trim words in if words = [] then Inr None else map_ok Some (paragraph_try_from 1024 words))
       (\<lambda>description. card_description_update (\<lambda>_. description)) c) (\<lambda>c.
     and_then (set_field (pa_skills args)
       (\<lambda>skills. and_then (traverse (\<lambda>skill. tag_try_from (lower (trim skill))) skills) skills_collect)
       (\<lambda>skills. card_skills_update (\<lambda>_. skills)) c) (\<lambda>c.
     and_then (set_field (pa_project args) (optional_line 128) (\<lambda>project. card_project_update (\<lambda>_. project)) c) (\<lambda>c.
       set_field (pa_status args) (optional_line 128) (\<lambda>status. card_status_update (\<lambda>_. status)) c)))))"

definition project_of :: "ops_env \<Rightarrow> string \<Rightarrow> line option" where
  "project_of E cwd =
     Option.bind (oe_file_name E cwd) (\<lambda>name. case line_try_from MAX_PROJECT_BYTES name of Inr project \<Rightarrow> Some project | Inl _ \<Rightarrow> None)"

definition new_card :: "ops_env \<Rightarrow> agent_name \<Rightarrow> tool \<times> mode \<times> access \<Rightarrow> string \<Rightarrow> (invalid, card) result" where
  "new_card E name kind cwd =
     map_ok (\<lambda>shown.
       \<lparr>card_display_name = shown, card_role = None, card_description = None, card_skills = Skills [],
        card_project = project_of E cwd, card_status = None, card_tool = fst kind, card_mode = fst (snd kind),
        card_access = snd (snd kind)\<rparr>)
       (line_try_from 64 (agent_name_str name))"

definition absolute_directory :: "ops_env \<Rightarrow> string \<Rightarrow> (('j, 'x) ops_error, string) result" where
  "absolute_directory E cwd =
     (case oe_is_directory E cwd of
        None \<Rightarrow> Inl (OpUsage ''the working directory must exist'')
      | Some directory \<Rightarrow>
          if \<not> oe_is_absolute E cwd \<or> \<not> directory
          then Inl (OpUsage ''the working directory must be an existing absolute directory'')
          else Inr cwd)"

definition clamp_limit :: "nat \<Rightarrow> nat" where
  "clamp_limit limit = max 1 (min limit MAX_LIMIT)"

section \<open>Agents\<close>

definition local_name :: "string \<Rightarrow> (('j, 'x) ops_error, agent_name) result" where
  "local_name name = map_err (\<lambda>i. OpStore (ErrInvalid i)) (agent_name_try_from name)"

definition activity_body :: "agent_name \<Rightarrow> activity_kind \<Rightarrow> stamp \<Rightarrow> line option \<Rightarrow> body" where
  "activity_body name state at status = Activity name \<lparr>act_state = state, act_at = at, act_status = status\<rparr>"

definition configure_profile ::
  "('t, 'n, 'p, 'b, 'j, 'z) store_lib_scheme \<Rightarrow> agent_name \<Rightarrow> card \<Rightarrow> local_agent \<Rightarrow> ('t, 'n, 'p, 'b) tx
     \<Rightarrow> ('t, 'n, 'p, 'b) tx \<times> ('j store_error, unit) result" where
  "configure_profile R name c config =
     tx_then (configure R name (Some config)) (\<lambda>_. tx_then (author R Ordinary (Profile name c)) (\<lambda>_. tx_update id))"

definition whoami ::
  "('t, 'n, 'p, 'b, 'j, 'z) store_lib_scheme \<Rightarrow> session \<Rightarrow> stamp \<Rightarrow> ('t, 'n, 'p, 'b, 'j, 'x, chat_outcome) command" where
  "whoami R S now =
     tx_then (tx_result (session_me S)) (\<lambda>agent.
       cmd_read R S (\<lambda>db.
         and_then (view_directory R db now) (\<lambda>directory.
           map_ok (\<lambda>(c, presence). OutAgent agent c presence)
             (ok_or (ErrUnknown (agent_id_to_string agent)) (map_of (dir_agents directory) agent)))))"

record join_args =
  ja_name :: string
  ja_access :: "access option"
  ja_profile :: profile_args

definition join_tx ::
  "('t, 'n, 'p, 'b, 'j, 'z) store_lib_scheme \<Rightarrow> ops_env \<Rightarrow> stamp \<Rightarrow> agent_id \<Rightarrow> string \<Rightarrow> tool \<times> access \<Rightarrow> profile_args
     \<Rightarrow> ('t, 'n, 'p, 'b) tx \<Rightarrow> ('t, 'n, 'p, 'b) tx \<times> ('j store_error, unit) result" where
  "join_tx R E now agent cwd kind profile =
     tx_then (tx_read (\<lambda>t. view_profile R (tx_db t) agent)) (\<lambda>existing.
       if (case existing of Some c \<Rightarrow> card_mode c = Managed | None \<Rightarrow> False)
       then tx_result (Inl (ErrRefused (RefInvalid (Invalid ''a managed agent already uses this name''))))
       else
         tx_then (tx_result (map_err ErrInvalid
           (case existing of Some c \<Rightarrow> Inr c
            | None \<Rightarrow> new_card E (agent_name agent) (fst kind, Interactive, snd kind) cwd))) (\<lambda>c.
         tx_then (tx_result (map_err ErrInvalid
           (apply_profile (oe_lower E) profile (c\<lparr>card_tool := fst kind, card_access := snd kind\<rparr>)))) (\<lambda>c.
         tx_then (configure_profile R (agent_name agent) c \<lparr>la_cwd = cwd, la_session = None\<rparr>) (\<lambda>_.
         tx_then (author R Ending (activity_body (agent_name agent) ActWaiting now (card_status c))) (\<lambda>_.
           tx_update id)))))"

text \<open>\<open>cwd\<close> is the current directory, when there is one; the second time is that of the reply.\<close>

definition join_chat ::
  "('t, 'n, 'p, 'b, 'j, 'z) store_lib_scheme \<Rightarrow> ops_env \<Rightarrow> session \<Rightarrow> stamp \<times> stamp \<Rightarrow> string option \<Rightarrow> join_args \<Rightarrow> tool
     \<Rightarrow> ('t, 'n, 'p, 'b, 'j, 'x, session \<times> chat_outcome) command" where
  "join_chat R E S clock cwd args tool =
     tx_then (tx_result (local_name (ja_name args))) (\<lambda>name.
     tx_then (tx_result (ok_or (OpUsage ''the current directory is unavailable'') cwd)) (\<lambda>cwd.
     let agent = AgentId name (ses_origin S);
         access = (case ja_access args of None \<Rightarrow> AccessWrite | Some access \<Rightarrow> access);
         joined = S\<lparr>ses_actor := Some agent\<rparr> in
     tx_then (cmd_write R S (join_tx R E (fst clock) agent cwd (tool, access) (ja_profile args))) (\<lambda>_.
     tx_then (whoami R joined (snd clock)) (\<lambda>outcome. tx_result (Inr (joined, outcome))))))"

record start_args =
  st_name :: string
  st_tool :: tool
  st_cwd :: string
  st_access :: "access option"
  st_resume :: "string option"
  st_profile :: profile_args

definition start_tx ::
  "('t, 'n, 'p, 'b, 'j, 'z) store_lib_scheme \<Rightarrow> agent_id \<Rightarrow> card \<Rightarrow> local_agent
     \<Rightarrow> ('t, 'n, 'p, 'b) tx \<Rightarrow> ('t, 'n, 'p, 'b) tx \<times> ('j store_error, unit) result" where
  "start_tx R agent c config =
     tx_then (tx_read (\<lambda>t. view_profile R (tx_db t) agent)) (\<lambda>existing.
       if existing \<noteq> None
       then tx_result (Inl (ErrRefused (RefInvalid (Invalid ''an agent with this name already exists here''))))
       else configure_profile R (agent_name agent) c config)"

definition start_agent ::
  "('t, 'n, 'p, 'b, 'j, 'z) store_lib_scheme \<Rightarrow> ops_env \<Rightarrow> session \<Rightarrow> start_args
     \<Rightarrow> ('t, 'n, 'p, 'b, 'j, 'x, chat_outcome) command" where
  "start_agent R E S args =
     tx_then (tx_result (local_name (st_name args))) (\<lambda>name.
     tx_then (tx_result (absolute_directory E (st_cwd args))) (\<lambda>cwd.
     if (case st_resume args of Some resume \<Rightarrow> \<not> resumable (st_tool args) resume | None \<Rightarrow> False)
     then tx_result (Inl (OpUsage ''the resumed session ID is not valid for this client''))
     else
       (let access = (case st_access args of None \<Rightarrow> AccessRead | Some access \<Rightarrow> access);
            agent = AgentId name (ses_origin S) in
       tx_then (tx_result (map_err OpInvalid (new_card E name (st_tool args, Managed, access) cwd))) (\<lambda>c.
       tx_then (tx_result (map_err OpInvalid (apply_profile (oe_lower E) (st_profile args) c))) (\<lambda>c.
       tx_then (cmd_write R S (start_tx R agent c \<lparr>la_cwd = cwd, la_session = st_resume args\<rparr>)) (\<lambda>_.
         tx_result (Inr (OutAgent agent c presence_default))))))))"

record update_args =
  ua_name :: string
  ua_cwd :: "string option"
  ua_reset_session :: bool

definition update_tx ::
  "('t, 'n, 'p, 'b, 'j, 'z) store_lib_scheme \<Rightarrow> agent_id \<Rightarrow> string option \<Rightarrow> bool
     \<Rightarrow> ('t, 'n, 'p, 'b) tx \<Rightarrow> ('t, 'n, 'p, 'b) tx \<times> ('j store_error, card) result" where
  "update_tx R agent cwd reset_session =
     tx_then (tx_read (\<lambda>t. and_then (agent_config R (tx_db t) (agent_name agent))
       (ok_or (ErrUnknown (agent_name_str (agent_name agent)))))) (\<lambda>config.
     let config = (case cwd of None \<Rightarrow> config | Some cwd \<Rightarrow> config\<lparr>la_cwd := cwd\<rparr>);
         config = (if reset_session then config\<lparr>la_session := None\<rparr> else config) in
     tx_then (configure R (agent_name agent) (Some config)) (\<lambda>_.
       tx_read (\<lambda>t. and_then (view_profile R (tx_db t) agent) (ok_or (ErrUnknown (agent_id_to_string agent))))))"

definition update_agent ::
  "('t, 'n, 'p, 'b, 'j, 'z) store_lib_scheme \<Rightarrow> ops_env \<Rightarrow> session \<Rightarrow> update_args
     \<Rightarrow> ('t, 'n, 'p, 'b, 'j, 'x, chat_outcome) command" where
  "update_agent R E S args =
     tx_then (tx_result (local_name (ua_name args))) (\<lambda>name.
     tx_then (tx_result (case ua_cwd args of None \<Rightarrow> Inr None | Some cwd \<Rightarrow> map_ok Some (absolute_directory E cwd))) (\<lambda>cwd.
     let agent = AgentId name (ses_origin S) in
     tx_then (cmd_write R S (update_tx R agent cwd (ua_reset_session args))) (\<lambda>c.
       tx_result (Inr (OutAgent agent c presence_default)))))"

text \<open>The open asks of an agent that leaves are ended as unavailable; their number is counted.\<close>

fun remove_asks ::
  "('t, 'n, 'p, 'b, 'j, 'z) store_lib_scheme \<Rightarrow> agent_id \<Rightarrow> (event_id \<times> agent_id) list \<Rightarrow> nat
     \<Rightarrow> ('t, 'n, 'p, 'b) tx \<Rightarrow> ('t, 'n, 'p, 'b) tx \<times> ('j store_error, nat) result" where
  "remove_asks R agent [] ended t = (t, Inr ended)"
| "remove_asks R agent ((request, responder) # asks) ended t =
     (if responder \<noteq> agent then remove_asks R agent asks ended t
      else
        tx_then (tx_read (\<lambda>t. view_event R (tx_db t) request)) (\<lambda>event.
          case event of
            None \<Rightarrow> remove_asks R agent asks ended
          | Some event \<Rightarrow>
              tx_then (tx_end R event agent Unavailable) (\<lambda>_. remove_asks R agent asks (usize_add ended 1))) t)"

definition remove_tx ::
  "('t, 'n, 'p, 'b, 'j, 'z) store_lib_scheme \<Rightarrow> agent_id \<Rightarrow> ('t, 'n, 'p, 'b) tx \<Rightarrow> ('t, 'n, 'p, 'b) tx \<times> ('j store_error, nat) result" where
  "remove_tx R agent =
     tx_then (tx_read (\<lambda>t. and_then (view_profile R (tx_db t) agent) (ok_or (ErrUnknown (agent_id_to_string agent))))) (\<lambda>_.
     tx_then (tx_read (\<lambda>t. open_asks R (tx_db t))) (\<lambda>asks.
     tx_then (remove_asks R agent asks 0) (\<lambda>ended.
     tx_then (author R Ending (Left (agent_name agent))) (\<lambda>_.
     tx_then (configure R (agent_name agent) None) (\<lambda>_. tx_result (Inr ended))))))"

definition remove_agent ::
  "('t, 'n, 'p, 'b, 'j, 'z) store_lib_scheme \<Rightarrow> session \<Rightarrow> string \<Rightarrow> ('t, 'n, 'p, 'b, 'j, 'x, chat_outcome) command" where
  "remove_agent R S name =
     tx_then (tx_result (local_name name)) (\<lambda>name.
     let agent = AgentId name (ses_origin S) in
     tx_then (cmd_write R S (remove_tx R agent)) (\<lambda>ended. tx_result (Inr (OutRemoved agent ended))))"

definition profile_tx ::
  "('t, 'n, 'p, 'b, 'j, 'z) store_lib_scheme \<Rightarrow> ops_env \<Rightarrow> stamp \<Rightarrow> agent_id \<Rightarrow> profile_args
     \<Rightarrow> ('t, 'n, 'p, 'b) tx \<Rightarrow> ('t, 'n, 'p, 'b) tx \<times> ('j store_error, unit) result" where
  "profile_tx R E now agent args =
     tx_then (tx_read (\<lambda>t. and_then (view_profile R (tx_db t) agent) (ok_or (ErrUnknown (agent_id_to_string agent))))) (\<lambda>c.
     tx_then (tx_result (map_err ErrInvalid (apply_profile (oe_lower E) args c))) (\<lambda>c.
     tx_then (author R Ordinary (Profile (agent_name agent) c)) (\<lambda>_.
       if pa_status args \<noteq> None
       then tx_then (author R Ending (activity_body (agent_name agent) ActWorking now (card_status c))) (\<lambda>_. tx_update id)
       else tx_update id)))"

definition update_profile ::
  "('t, 'n, 'p, 'b, 'j, 'z) store_lib_scheme \<Rightarrow> ops_env \<Rightarrow> session \<Rightarrow> stamp \<times> stamp \<Rightarrow> profile_args
     \<Rightarrow> ('t, 'n, 'p, 'b, 'j, 'x, chat_outcome) command" where
  "update_profile R E S clock args =
     tx_then (tx_result (session_me S)) (\<lambda>agent.
     tx_then (cmd_write R S (profile_tx R E (fst clock) agent args)) (\<lambda>_. whoami R S (snd clock)))"

definition directory_of ::
  "('t, 'n, 'p, 'b, 'j, 'z) store_lib_scheme \<Rightarrow> ops_env \<Rightarrow> session \<Rightarrow> stamp \<Rightarrow> string option
     \<Rightarrow> ('t, 'n, 'p, 'b, 'j, 'x, chat_outcome) command" where
  "directory_of R E S now query =
     tx_then (tx_read (session_book R S now)) (\<lambda>book.
     tx_then (tx_read (\<lambda>db. map_err OpStore (links R (ses_origin S) db))) (\<lambda>known.
     tx_then (cmd_read R S (\<lambda>db.
       and_then (view_directory R db now) (\<lambda>directory. map_ok (Pair directory) (view_rooms R db)))) (\<lambda>(directory, rooms).
       tx_result (Inr (OutDirectory (directory_view_of (oe_lower E) book (btree_collect known) now directory rooms
         (case query of None \<Rightarrow> [] | Some query \<Rightarrow> query)))))))"

section \<open>Rooms\<close>

definition list_rooms ::
  "('t, 'n, 'p, 'b, 'j, 'z) store_lib_scheme \<Rightarrow> session \<Rightarrow> stamp \<Rightarrow> ('t, 'n, 'p, 'b, 'j, 'x, chat_outcome) command" where
  "list_rooms R S now =
     tx_then (tx_read (session_book R S now)) (\<lambda>book.
     tx_then (cmd_read R S (view_rooms R)) (\<lambda>rooms. tx_result (Inr (OutRooms (view_room_list book rooms)))))"

fun collect_members :: "book \<Rightarrow> string list \<Rightarrow> agent_id list \<Rightarrow> ('j store_error, agent_id list) result" where
  "collect_members book [] agents = Inr agents"
| "collect_members book (name # names) agents =
     and_then (book_agent book name) (\<lambda>agent.
       collect_members book names (if agent \<in> set agents then agents else agents @ [agent]))"

definition room_members_of :: "book \<Rightarrow> agent_id \<Rightarrow> string list \<Rightarrow> (('j, 'x) ops_error, members) result" where
  "room_members_of book me names =
     and_then (map_err OpStore (collect_members book names [me])) (\<lambda>agents.
       map_err OpInvalid (members_try_from (sort agents)))"

record room_args =
  ra_name :: string
  ra_members :: "string list"
  ra_topic :: "string option"

definition create_room_tx ::
  "('t, 'n, 'p, 'b, 'j, 'z) store_lib_scheme \<Rightarrow> room_id \<Rightarrow> room
     \<Rightarrow> ('t, 'n, 'p, 'b) tx \<Rightarrow> ('t, 'n, 'p, 'b) tx \<times> ('j store_error, event) result" where
  "create_room_tx R room state =
     tx_then (tx_read (\<lambda>t. view_room R (tx_db t) room)) (\<lambda>existing.
       if existing \<noteq> None
       then tx_result (Inl (ErrRefused (RefInvalid (Invalid ''a room with this name already exists here''))))
       else author R Ordinary (Room (room_name room) (room_topic state) (room_members state)))"

definition create_room ::
  "('t, 'n, 'p, 'b, 'j, 'z) store_lib_scheme \<Rightarrow> session \<Rightarrow> stamp \<Rightarrow> room_args
     \<Rightarrow> ('t, 'n, 'p, 'b, 'j, 'x, chat_outcome) command" where
  "create_room R S now args =
     tx_then (tx_result (session_me S)) (\<lambda>me.
     tx_then (tx_read (session_book R S now)) (\<lambda>book.
     tx_then (tx_result (map_err (\<lambda>i. OpStore (ErrInvalid i)) (room_name_try_from (ra_name args)))) (\<lambda>name.
     tx_then (tx_result (map_err OpStore (local_room_of book (room_name_str name)))) (\<lambda>room.
     tx_then (tx_result (map_err OpInvalid
       (case ra_topic args of None \<Rightarrow> Inr None | Some topic \<Rightarrow> optional_line MAX_ROOM_TOPIC_BYTES topic))) (\<lambda>topic.
     tx_then (tx_result (room_members_of book me (ra_members args))) (\<lambda>members.
     let state = \<lparr>room_topic = topic, room_members = members\<rparr> in
     tx_then (cmd_write R S (create_room_tx R room state)) (\<lambda>_.
       tx_result (Inr (OutRooms (view_room_list book [(InRoom room, state)]))))))))))"

definition edit_room_tx ::
  "('t, 'n, 'p, 'b, 'j, 'z) store_lib_scheme \<Rightarrow> room_id \<Rightarrow> (room \<Rightarrow> (invalid, room) result)
     \<Rightarrow> ('t, 'n, 'p, 'b) tx \<Rightarrow> ('t, 'n, 'p, 'b) tx \<times> ('j store_error, room) result" where
  "edit_room_tx R room edit =
     tx_then (tx_read (\<lambda>t. and_then (view_room R (tx_db t) room) (ok_or (ErrUnknown (room_name_str (room_name room)))))) (\<lambda>state.
     tx_then (tx_result (map_err ErrInvalid (edit state))) (\<lambda>state.
     tx_then (author R Ordinary (Room (room_name room) (room_topic state) (room_members state))) (\<lambda>_.
       tx_result (Inr state))))"

definition edit_room ::
  "('t, 'n, 'p, 'b, 'j, 'z) store_lib_scheme \<Rightarrow> session \<Rightarrow> book \<Rightarrow> room_id \<Rightarrow> (room \<Rightarrow> (invalid, room) result)
     \<Rightarrow> ('t, 'n, 'p, 'b, 'j, 'x, chat_outcome) command" where
  "edit_room R S book room edit =
     tx_then (cmd_write R S (edit_room_tx R room edit)) (\<lambda>state.
       tx_result (Inr (OutRooms (view_room_list book [(InRoom room, state)]))))"

datatype room_change = AddMember | RemoveMember

definition change_members :: "room_change \<Rightarrow> agent_id \<Rightarrow> room \<Rightarrow> (invalid, room) result" where
  "change_members kind member state =
     (let agents = members_agents (room_members state);
          agents = (case kind of
              AddMember \<Rightarrow> if member \<in> set agents then agents else agents @ [member]
            | RemoveMember \<Rightarrow> filter (\<lambda>agent. agent \<noteq> member) agents)
      in map_ok (\<lambda>members. state\<lparr>room_members := members\<rparr>) (members_try_from (sort agents)))"

definition change_room ::
  "('t, 'n, 'p, 'b, 'j, 'z) store_lib_scheme \<Rightarrow> session \<Rightarrow> stamp \<Rightarrow> string \<times> string \<Rightarrow> room_change
     \<Rightarrow> ('t, 'n, 'p, 'b, 'j, 'x, chat_outcome) command" where
  "change_room R S now args kind =
     tx_then (tx_read (session_book R S now)) (\<lambda>book.
     tx_then (tx_result (map_err OpStore (local_room_of book (fst args)))) (\<lambda>room.
     tx_then (tx_result (map_err OpStore (book_agent book (snd args)))) (\<lambda>member.
       edit_room R S book room (change_members kind member))))"

definition set_topic ::
  "('t, 'n, 'p, 'b, 'j, 'z) store_lib_scheme \<Rightarrow> session \<Rightarrow> stamp \<Rightarrow> string \<times> string
     \<Rightarrow> ('t, 'n, 'p, 'b, 'j, 'x, chat_outcome) command" where
  "set_topic R S now args =
     tx_then (tx_read (session_book R S now)) (\<lambda>book.
     tx_then (tx_result (map_err OpStore (local_room_of book (fst args)))) (\<lambda>room.
     tx_then (tx_result (map_err OpInvalid (optional_line MAX_ROOM_TOPIC_BYTES (snd args)))) (\<lambda>topic.
       edit_room R S book room (\<lambda>state. Inr (state\<lparr>room_topic := topic\<rparr>)))))"

definition close_room_tx ::
  "('t, 'n, 'p, 'b, 'j, 'z) store_lib_scheme \<Rightarrow> room_id \<Rightarrow> ('t, 'n, 'p, 'b) tx
     \<Rightarrow> ('t, 'n, 'p, 'b) tx \<times> ('j store_error, event) result" where
  "close_room_tx R room =
     tx_then (tx_read (\<lambda>t. and_then (view_room R (tx_db t) room) (ok_or (ErrUnknown (room_name_str (room_name room)))))) (\<lambda>_.
       author R Ordinary (RoomClosed (room_name room)))"

definition close_room ::
  "('t, 'n, 'p, 'b, 'j, 'z) store_lib_scheme \<Rightarrow> session \<Rightarrow> stamp \<Rightarrow> string \<Rightarrow> ('t, 'n, 'p, 'b, 'j, 'x, chat_outcome) command" where
  "close_room R S now name =
     tx_then (tx_read (session_book R S now)) (\<lambda>book.
     tx_then (tx_result (map_err OpStore (local_room_of book name))) (\<lambda>room.
     tx_then (cmd_write R S (close_room_tx R room)) (\<lambda>_. tx_result (Inr (OutRooms [])))))"

section \<open>Messages\<close>

definition route ::
  "('t, 'n, 'p, 'b, 'j, 'z) store_lib_scheme \<Rightarrow> ('t, 'n, 'p, 'b) tables \<Rightarrow> conversation \<Rightarrow> agent_id
     \<Rightarrow> ('j store_error, audience \<times> room option) result" where
  "route R db conversation me =
     (case conversation of
        Direct pair \<Rightarrow>
          map_ok (\<lambda>audience. (audience, None)) (map_err ErrInvalid (audience_of [pair_first pair, pair_second pair]))
      | InRoom room \<Rightarrow>
          and_then (and_then (view_room R db room) (ok_or (ErrUnknown (room_name_str (room_name room))))) (\<lambda>state.
          and_then (map_err ErrRefused (check_member state me)) (\<lambda>_.
            map_ok (\<lambda>audience. (audience, Some state))
              (map_err ErrInvalid (audience_of (members_agents (room_members state)))))))"

definition message_body ::
  "stamp \<Rightarrow> conversation \<Rightarrow> agent_id \<Rightarrow> audience \<Rightarrow> msg_text \<Rightarrow> intent \<Rightarrow> notice option \<Rightarrow> body" where
  "message_body now conversation me audience words intent notice =
     Message conversation (agent_name me) words audience intent now notice"

record notification_args =
  na_mentions :: "string list"
  na_urgent :: bool
  na_subject :: "string option"
  na_expected :: "string option"
  na_fallback :: "string option"
  na_after :: u64

record notification_route =
  nr_conversation :: conversation
  nr_room :: "room option"
  nr_me :: agent_id
  nr_responder :: "agent_id option"

definition default_recipients :: "notification_route \<Rightarrow> agent_id list" where
  "default_recipients place =
     (case (nr_conversation place, nr_responder place) of
        (_, Some responder) \<Rightarrow> [responder]
      | (Direct pair, None) \<Rightarrow> (case pair_other pair (nr_me place) of Some other \<Rightarrow> [other] | None \<Rightarrow> [])
      | (InRoom _, None) \<Rightarrow>
          (case nr_room place of
             None \<Rightarrow> [] | Some room \<Rightarrow> filter (\<lambda>agent. agent \<noteq> nr_me place) (members_agents (room_members room))))"

definition check_recipient :: "notification_route \<Rightarrow> agent_id \<Rightarrow> ('j store_error, unit) result" where
  "check_recipient place recipient =
     (if recipient = nr_me place \<or>
         (case nr_conversation place of Direct pair \<Rightarrow> \<not> pair_includes pair recipient | InRoom _ \<Rightarrow> False)
      then Inl (ErrInvalid (Invalid ''mentions must name another recipient of this conversation''))
      else case nr_room place of None \<Rightarrow> Inr () | Some room \<Rightarrow> map_err ErrRefused (check_member room recipient))"

definition notification_question ::
  "book \<Rightarrow> notification_route \<Rightarrow> notification_args \<Rightarrow> ('j store_error, question option) result" where
  "notification_question book place args =
     (case (na_expected args, na_fallback args) of
        (Some expected, Some fallback) \<Rightarrow>
          if nr_responder place \<noteq> None
          then
            and_then (map_err ErrInvalid (line_try_from MAX_EXPECTED_BYTES expected)) (\<lambda>expected.
            and_then (book_agent book fallback) (\<lambda>fallback.
              map_ok Some (map_err ErrInvalid (question_new expected (na_after args) fallback))))
          else Inl (ErrInvalid (Invalid ''expected answers and fallback escalation require chat ask''))
      | (None, None) \<Rightarrow> Inr None
      | _ \<Rightarrow> Inl (ErrInvalid (Invalid ''expected and fallback must be supplied together'')))"

definition notification ::
  "book \<Rightarrow> notification_route \<Rightarrow> notification_args \<Rightarrow> ('j store_error, notice option) result" where
  "notification book place args =
     and_then (if na_mentions args = [] then Inr (default_recipients place) else traverse (book_agent book) (na_mentions args)) (\<lambda>recipients.
     and_then (traverse (check_recipient place) recipients) (\<lambda>_.
     let recipients = remdups_adj (sort recipients) in
     and_then (notification_question book place args) (\<lambda>question.
       if recipients = [] then Inr None
       else
         and_then (map_err ErrInvalid (members_try_from recipients)) (\<lambda>recipients.
         and_then (map_err ErrInvalid
           (case na_subject args of None \<Rightarrow> Inr None | Some subject \<Rightarrow> map_ok Some (line_try_from MAX_SUBJECT_BYTES subject))) (\<lambda>subject.
           Inr (Some \<lparr>n_recipients = recipients, n_urgent = na_urgent args, n_subject = subject, n_question = question\<rparr>))))))"

definition send_tx ::
  "('t, 'n, 'p, 'b, 'j, 'z) store_lib_scheme \<Rightarrow> stamp \<Rightarrow> book \<Rightarrow> agent_id \<Rightarrow> conversation \<Rightarrow> agent_id option \<Rightarrow> intent
     \<Rightarrow> msg_text \<Rightarrow> notification_args \<Rightarrow> ('t, 'n, 'p, 'b) tx \<Rightarrow> ('t, 'n, 'p, 'b) tx \<times> ('j store_error, event) result" where
  "send_tx R now book me conversation responder intent words args =
     tx_then (tx_read (\<lambda>t. route R (tx_db t) conversation me)) (\<lambda>(audience, room).
     tx_then (tx_result (case (room, responder) of
         (Some room, Some responder) \<Rightarrow> map_err ErrRefused (check_member room responder) | _ \<Rightarrow> Inr ())) (\<lambda>_.
     tx_then (tx_result (notification book
       \<lparr>nr_conversation = conversation, nr_room = room, nr_me = me, nr_responder = responder\<rparr> args)) (\<lambda>notice.
       author R Ordinary (message_body now conversation me audience words intent notice))))"

record send_args =
  sa_target :: string
  sa_text :: string
  sa_notification :: notification_args

definition send_message ::
  "('t, 'n, 'p, 'b, 'j, 'z) store_lib_scheme \<Rightarrow> session \<Rightarrow> stamp \<Rightarrow> send_args \<Rightarrow> ('t, 'n, 'p, 'b, 'j, 'x, chat_outcome) command" where
  "send_message R S now args =
     tx_then (tx_result (session_me S)) (\<lambda>me.
     tx_then (tx_read (session_book R S now)) (\<lambda>book.
     tx_then (tx_result (map_err OpStore (book_conversation book me (sa_target args)))) (\<lambda>conversation.
     tx_then (tx_result (map_err OpInvalid (text_try_from (sa_text args)))) (\<lambda>words.
     tx_then (cmd_write R S (send_tx R now book me conversation None Send words (sa_notification args))) (\<lambda>event.
       tx_result (Inr (OutPosted event)))))))"

text \<open>The chain of agents that wait while the session handles the turn it was started for.\<close>

definition delegation ::
  "('t, 'n, 'p, 'b, 'j, 'z) store_lib_scheme \<Rightarrow> session \<Rightarrow> agent_id \<Rightarrow> ('t, 'n, 'p, 'b) tables
     \<Rightarrow> (('j, 'x) ops_error, chain) result" where
  "delegation R S me db =
     (case ses_turn S of
        None \<Rightarrow> Inr (Chain [])
      | Some turn \<Rightarrow>
          and_then (map_err OpStore (store_read R (ses_origin S) (\<lambda>db. view_event R db turn) db)) (\<lambda>request.
            case request of
              None \<Rightarrow> Inr (Chain [])
            | Some event \<Rightarrow>
                (case (ev_author event, ev_body event) of
                   (Some asker, Message _ _ _ _ (Ask responder chain) _ _) \<Rightarrow>
                     if responder = me then map_err OpRefused (delegated chain asker) else Inr (Chain [])
                 | _ \<Rightarrow> Inr (Chain []))))"

record ask_args =
  aa_target :: string
  aa_text :: string
  aa_to :: "string option"
  aa_timeout :: u64
  aa_notification :: notification_args

definition ask_responder ::
  "book \<Rightarrow> agent_id \<Rightarrow> conversation \<Rightarrow> string option \<Rightarrow> (('j, 'x) ops_error, agent_id) result" where
  "ask_responder book me conversation to =
     (case (conversation, to) of
        (Direct pair, None) \<Rightarrow> ok_or (OpUsage ''you are not in this conversation'') (pair_other pair me)
      | (Direct _, Some _) \<Rightarrow> Inl (OpUsage ''--to is only for asks in a room'')
      | (InRoom _, Some to) \<Rightarrow> map_err OpStore (book_agent book to)
      | (InRoom _, None) \<Rightarrow> Inl (OpUsage ''an ask in a room needs --to AGENT''))"

text \<open>An ask up to the point where its message is stored.\<close>

definition ask_post ::
  "('t, 'n, 'p, 'b, 'j, 'z) store_lib_scheme \<Rightarrow> session \<Rightarrow> stamp \<Rightarrow> ask_args \<Rightarrow> ('t, 'n, 'p, 'b, 'j, 'x, event) command" where
  "ask_post R S now args =
     (if aa_timeout args > MAX_WAIT_SECONDS then tx_result (Inl (OpUsage ''the timeout is at most 600 seconds''))
      else
        tx_then (tx_result (session_me S)) (\<lambda>me.
        tx_then (tx_read (session_book R S now)) (\<lambda>book.
        tx_then (tx_result (map_err OpStore (book_conversation book me (aa_target args)))) (\<lambda>conversation.
        tx_then (tx_result (ask_responder book me conversation (aa_to args))) (\<lambda>responder.
        tx_then (tx_read (delegation R S me)) (\<lambda>chain.
        tx_then (tx_result (map_err OpRefused (check_ask me responder chain))) (\<lambda>_.
        tx_then (tx_result (map_err OpInvalid (text_try_from (aa_text args)))) (\<lambda>words.
          cmd_write R S (send_tx R now book me conversation (Some responder) (Ask responder chain) words
            (aa_notification args))))))))))"

definition ask_state_of ::
  "('t, 'n, 'p, 'b, 'j, 'z) store_lib_scheme \<Rightarrow> session \<Rightarrow> stamp \<Rightarrow> event_id \<Rightarrow> ('t, 'n, 'p, 'b) tables
     \<Rightarrow> (('j, 'x) ops_error, ask_state) result" where
  "ask_state_of R S now request db =
     and_then (session_book R S now db) (\<lambda>book.
     map_err OpStore (store_read R (ses_origin S) (\<lambda>db.
       and_then (and_then (view_event R db request) (ok_or (ErrUnknown (event_id_to_string request)))) (\<lambda>event.
       and_then (view_resolution R db request) (\<lambda>resolution.
       and_then (case resolution of
           Some resolution \<Rightarrow> if res_ending resolution = Answered then view_event R db (res_event resolution) else Inr None
         | None \<Rightarrow> Inr None) (\<lambda>answer.
       and_then (view_directory R db now) (\<lambda>directory.
       let working = list_ex (\<lambda>(_, _, presence). pr_working_on presence = Some request) (dir_agents directory);
           state = view_ask_state book now
             \<lparr>af_request = event, af_resolution = resolution, af_answer = answer, af_working = working\<rparr> in
       and_then (escalation R db request) (\<lambda>escalated. Inr (state\<lparr>as_escalated_to := escalated\<rparr>))))))) db))"

definition request_id :: "string \<Rightarrow> (('j, 'x) ops_error, event_id) result" where
  "request_id message = map_err OpInvalid (event_id_try_from message)"

definition known_event ::
  "('t, 'n, 'p, 'b, 'j, 'z) store_lib_scheme \<Rightarrow> event_id \<Rightarrow> ('t, 'n, 'p, 'b) tables \<Rightarrow> ('j store_error, event) result" where
  "known_event R request db = and_then (view_event R db request) (ok_or (ErrUnknown (event_id_to_string request)))"

definition reply_tx ::
  "('t, 'n, 'p, 'b, 'j, 'z) store_lib_scheme \<Rightarrow> stamp \<Rightarrow> origin \<Rightarrow> agent_id \<Rightarrow> event_id \<Rightarrow> msg_text
     \<Rightarrow> ('t, 'n, 'p, 'b) tx \<Rightarrow> ('t, 'n, 'p, 'b) tx \<times> ('j store_error, event) result" where
  "reply_tx R now local me request words =
     tx_then (tx_read (\<lambda>t. known_event R request (tx_db t))) (\<lambda>parent.
     tx_then (tx_result (ok_or (ErrUnknown (event_id_to_string request)) (body_thread (ev_body parent)))) (\<lambda>(conversation, audience).
     tx_then (if (case ev_body parent of Message _ _ _ _ (Ask responder _) _ _ \<Rightarrow> responder = me | _ \<Rightarrow> False)
       then tx_read (\<lambda>t. and_then (view_resolution R (tx_db t) request) (\<lambda>current.
         map_err ErrRefused (check_resolution current local)))
       else tx_update id) (\<lambda>_.
       author R Ending (message_body now conversation me audience words (Reply request) None))))"

definition reply_message ::
  "('t, 'n, 'p, 'b, 'j, 'z) store_lib_scheme \<Rightarrow> session \<Rightarrow> stamp \<Rightarrow> string \<times> string \<Rightarrow> ('t, 'n, 'p, 'b, 'j, 'x, chat_outcome) command" where
  "reply_message R S now args =
     tx_then (tx_result (session_me S)) (\<lambda>me.
     tx_then (tx_result (request_id (fst args))) (\<lambda>request.
     tx_then (tx_result (map_err OpInvalid (text_try_from (snd args)))) (\<lambda>words.
     tx_then (cmd_write R S (reply_tx R now (ses_origin S) me request words)) (\<lambda>event. tx_result (Inr (OutPosted event))))))"

definition withdraw_tx ::
  "('t, 'n, 'p, 'b, 'j, 'z) store_lib_scheme \<Rightarrow> origin \<Rightarrow> agent_id \<Rightarrow> event_id
     \<Rightarrow> ('t, 'n, 'p, 'b) tx \<Rightarrow> ('t, 'n, 'p, 'b) tx \<times> ('j store_error, event) result" where
  "withdraw_tx R local me request =
     tx_then (tx_read (\<lambda>t. known_event R request (tx_db t))) (\<lambda>parent.
     if ev_author parent \<noteq> Some me
     then tx_result (Inl (ErrRefused (RefInvalid (Invalid ''only the asker may withdraw an ask''))))
     else
       tx_then (tx_read (\<lambda>t. and_then (view_resolution R (tx_db t) request) (\<lambda>current.
         map_err ErrRefused (check_resolution current local)))) (\<lambda>_.
       tx_then (tx_result (ok_or (ErrUnknown (event_id_to_string request)) (body_thread (ev_body parent)))) (\<lambda>(conversation, audience).
         author R Ending (Resolved request conversation audience (agent_name me) Withdrawn))))"

definition withdraw_ask ::
  "('t, 'n, 'p, 'b, 'j, 'z) store_lib_scheme \<Rightarrow> session \<Rightarrow> string \<Rightarrow> ('t, 'n, 'p, 'b, 'j, 'x, chat_outcome) command" where
  "withdraw_ask R S message =
     tx_then (tx_result (session_me S)) (\<lambda>me.
     tx_then (tx_result (request_id message)) (\<lambda>request.
     tx_then (cmd_write R S (withdraw_tx R (ses_origin S) me request)) (\<lambda>event. tx_result (Inr (OutPosted event)))))"

section \<open>Reading\<close>

definition pending_prepare ::
  "('t, 'n, 'p, 'b, 'j, 'z) store_lib_scheme \<Rightarrow> session \<Rightarrow> event list \<Rightarrow> bool \<Rightarrow> ('t, 'n, 'p, 'b) tables
     \<Rightarrow> (('j, 'x) ops_error, pending_read) result" where
  "pending_prepare R S events moves db =
     and_then (session_me S) (\<lambda>reader.
       if \<not> moves \<and> list_ex (\<lambda>event. \<not> is_message event) events
       then Inl (OpUsage ''a full-body read addresses a message'')
       else
         map_ok (\<lambda>_. \<lparr>pd_reader = reader, pd_events = events, pd_advance_cursor = moves\<rparr>)
           (map_err OpStore (check_read_receipts R (ses_origin S) reader events db)))"

definition pending_unread ::
  "('t, 'n, 'p, 'b, 'j, 'z) store_lib_scheme \<Rightarrow> session \<Rightarrow> pending_read \<Rightarrow> ('t, 'n, 'p, 'b) tables
     \<Rightarrow> (('j, 'x) ops_error, nat) result" where
  "pending_unread R S pending db =
     map_err OpStore (store_read R (ses_origin S) (\<lambda>db.
       map_ok (\<lambda>found. length (take MAX_LIMIT (filter (\<lambda>event. ev_id event \<notin> ev_id ` set (pd_events pending)) found)))
         (view_unread R db (pd_reader pending) (usize_add MAX_LIMIT (length (pd_events pending))))) db)"

definition complete_one ::
  "('t, 'n, 'p, 'b, 'j, 'z) store_lib_scheme \<Rightarrow> agent_id \<Rightarrow> event \<Rightarrow> ('t, 'n, 'p, 'b) tx
     \<Rightarrow> ('t, 'n, 'p, 'b) tx \<times> ('j store_error, unit) result" where
  "complete_one R reader selected =
     tx_then (tx_read (\<lambda>t. known_event R (ev_id selected) (tx_db t))) (\<lambda>actual.
       if actual \<noteq> selected then tx_result (Inl (ErrCorrupt ''the selected message changed before read completion''))
       else if is_message actual then tx_receipt R reader actual Read
       else tx_update id)"

definition complete_tx ::
  "('t, 'n, 'p, 'b, 'j, 'z) store_lib_scheme \<Rightarrow> pending_read \<Rightarrow> ('t, 'n, 'p, 'b) tx
     \<Rightarrow> ('t, 'n, 'p, 'b) tx \<times> ('j store_error, unit) result" where
  "complete_tx R pending =
     tx_then (tx_each (complete_one R (pd_reader pending)) (pd_events pending)) (\<lambda>_.
       if pd_advance_cursor pending \<and> pd_events pending \<noteq> []
       then tx_update (mark_read R (pd_reader pending) (last (pd_events pending))) else tx_update id)"

definition complete_read ::
  "('t, 'n, 'p, 'b, 'j, 'z) store_lib_scheme \<Rightarrow> session \<Rightarrow> pending_read \<Rightarrow> ('t, 'n, 'p, 'b, 'j, 'x, unit) command" where
  "complete_read R S pending =
     tx_then (tx_result (session_me S)) (\<lambda>me.
       if me \<noteq> pd_reader pending
       then tx_result (Inl (OpUsage ''the delivered messages belong to another acting identity''))
       else cmd_write R S (complete_tx R pending))"

text \<open>The agents whose receipts are shown with a message.\<close>

definition shown_recipients :: "event \<Rightarrow> agent_id list" where
  "shown_recipients event =
     (case ev_body event of
        Message conversation _ _ _ _ _ (Some notice) \<Rightarrow> members_agents (n_recipients notice)
      | Message (Direct pair) _ _ _ _ _ None \<Rightarrow>
          filter (\<lambda>agent. ev_author event \<noteq> Some agent) [pair_first pair, pair_second pair]
      | _ \<Rightarrow> [])"

definition with_delivery ::
  "('t, 'n, 'p, 'b, 'j, 'z) store_lib_scheme \<Rightarrow> ('t, 'n, 'p, 'b) tables \<Rightarrow> event list \<Rightarrow> message_view
     \<Rightarrow> ('j store_error, message_view) result" where
  "with_delivery R db events message =
     (case find (\<lambda>event. ev_id event = mv_id message) events of
        None \<Rightarrow> Inr message
      | Some event \<Rightarrow>
          map_ok (\<lambda>found. message\<lparr>mv_delivery := fold (\<lambda>(agent, delivery). btree_insert agent delivery) found (mv_delivery message)\<rparr>)
            (traverse (\<lambda>agent. map_ok (Pair agent) (view_delivery R db agent (ev_id event))) (shown_recipients event)))"

definition message_views ::
  "('t, 'n, 'p, 'b, 'j, 'z) store_lib_scheme \<Rightarrow> session \<Rightarrow> stamp \<Rightarrow> event list \<Rightarrow> ('t, 'n, 'p, 'b) tables
     \<Rightarrow> (('j, 'x) ops_error, message_view list) result" where
  "message_views R S now events db =
     and_then (session_book R S now db) (\<lambda>book.
       map_err OpStore (store_read R (ses_origin S) (\<lambda>db. traverse (with_delivery R db events) (view_messages book events)) db))"

definition pending_events ::
  "('t, 'n, 'p, 'b, 'j, 'z) store_lib_scheme \<Rightarrow> session \<Rightarrow> stamp \<Rightarrow> event list \<Rightarrow> bool
     \<Rightarrow> ('t, 'n, 'p, 'b, 'j, 'x, chat_outcome) command" where
  "pending_events R S now events moves =
     tx_then (tx_read (pending_prepare R S events moves)) (\<lambda>pending.
     tx_then (tx_read (message_views R S now (pd_events pending))) (\<lambda>views.
     tx_then (tx_read (pending_unread R S pending)) (\<lambda>unread.
       tx_result (Inr (OutEvents views (Some unread) (Some pending))))))"

definition inbox ::
  "('t, 'n, 'p, 'b, 'j, 'z) store_lib_scheme \<Rightarrow> session \<Rightarrow> stamp \<Rightarrow> bool \<Rightarrow> nat \<Rightarrow> ('t, 'n, 'p, 'b, 'j, 'x, chat_outcome) command" where
  "inbox R S now all limit =
     tx_then (tx_result (session_me S)) (\<lambda>me.
     tx_then (cmd_read R S (\<lambda>db.
       if all then view_inbox R db me [] (clamp_limit limit) else view_unread R db me (clamp_limit limit))) (\<lambda>events.
       pending_events R S now events True))"

definition unread_count ::
  "('t, 'n, 'p, 'b, 'j, 'z) store_lib_scheme \<Rightarrow> session \<Rightarrow> ('t, 'n, 'p, 'b, 'j, 'x, nat option) command" where
  "unread_count R S =
     (case ses_actor S of
        None \<Rightarrow> tx_result (Inr None)
      | Some me \<Rightarrow>
          tx_then (cmd_write R S (tx_read (\<lambda>t. map_ok length (view_unread R (tx_db t) me MAX_LIMIT)))) (\<lambda>count.
            tx_result (Inr (Some count))))"

record thread_args =
  ta_target :: string
  ta_limit :: nat
  ta_before :: "string option"

definition thread_conversation ::
  "session \<Rightarrow> book \<Rightarrow> string \<Rightarrow> (('j, 'x) ops_error, conversation) result" where
  "thread_conversation S book target =
     (case (conversation_try_from target, ses_actor S) of
        (Inr conversation, _) \<Rightarrow> Inr conversation
      | (Inl _, Some me) \<Rightarrow> map_err OpStore (book_conversation book me target)
      | (Inl _, None) \<Rightarrow> map_err OpStore (map_ok InRoom (book_room book target)))"

definition thread_of ::
  "('t, 'n, 'p, 'b, 'j, 'z) store_lib_scheme \<Rightarrow> session \<Rightarrow> stamp \<Rightarrow> thread_args \<Rightarrow> ('t, 'n, 'p, 'b, 'j, 'x, chat_outcome) command" where
  "thread_of R S now args =
     tx_then (tx_read (session_book R S now)) (\<lambda>book.
     tx_then (tx_result (thread_conversation S book (ta_target args))) (\<lambda>conversation.
     tx_then (tx_result (case ta_before args of None \<Rightarrow> Inr None | Some before \<Rightarrow> map_ok Some (request_id before))) (\<lambda>before.
     tx_then (cmd_read R S (\<lambda>db.
       and_then (case before of None \<Rightarrow> Inr None | Some id' \<Rightarrow> view_event R db id') (\<lambda>before.
         view_thread R db conversation (clamp_limit (ta_limit args)) before))) (\<lambda>events.
     tx_then (tx_read (message_views R S now events)) (\<lambda>views. tx_result (Inr (OutEvents views None None)))))))"

definition read_message ::
  "('t, 'n, 'p, 'b, 'j, 'z) store_lib_scheme \<Rightarrow> session \<Rightarrow> stamp \<Rightarrow> string \<Rightarrow> ('t, 'n, 'p, 'b, 'j, 'x, chat_outcome) command" where
  "read_message R S now message =
     tx_then (tx_result (session_me S)) (\<lambda>_.
     tx_then (tx_result (request_id message)) (\<lambda>request.
     tx_then (cmd_read R S (known_event R request)) (\<lambda>event. pending_events R S now [event] False)))"

definition receipt_tx ::
  "('t, 'n, 'p, 'b, 'j, 'z) store_lib_scheme \<Rightarrow> agent_id \<Rightarrow> event_id \<Rightarrow> delivery
     \<Rightarrow> ('t, 'n, 'p, 'b) tx \<Rightarrow> ('t, 'n, 'p, 'b) tx \<times> ('j store_error, event) result" where
  "receipt_tx R agent request stage =
     tx_then (tx_read (\<lambda>t. known_event R request (tx_db t))) (\<lambda>event.
     tx_then (tx_receipt R agent event stage) (\<lambda>_. tx_result (Inr event)))"

definition receipt_message ::
  "('t, 'n, 'p, 'b, 'j, 'z) store_lib_scheme \<Rightarrow> session \<Rightarrow> stamp \<Rightarrow> string \<Rightarrow> delivery
     \<Rightarrow> ('t, 'n, 'p, 'b, 'j, 'x, chat_outcome) command" where
  "receipt_message R S now message stage =
     tx_then (tx_result (session_me S)) (\<lambda>agent.
     tx_then (tx_result (request_id message)) (\<lambda>request.
     tx_then (cmd_write R S (receipt_tx R agent request stage)) (\<lambda>event.
     tx_then (tx_read (message_views R S now [event])) (\<lambda>views.
     tx_then (unread_count R S) (\<lambda>unread. tx_result (Inr (OutEvents views unread None)))))))"

definition acknowledge ::
  "('t, 'n, 'p, 'b, 'j, 'z) store_lib_scheme \<Rightarrow> session \<Rightarrow> stamp \<Rightarrow> string \<Rightarrow> ('t, 'n, 'p, 'b, 'j, 'x, chat_outcome) command" where
  "acknowledge R S now message = receipt_message R S now message Acknowledged"

section \<open>Handoffs\<close>

record handoff_args =
  ha_recipient :: target
  ha_project :: project
  ha_scope :: scope
  ha_readers :: "agent_id list"
  ha_text :: msg_text

definition create_handoff ::
  "('t, 'n, 'p, 'b, 'j, 'z) store_lib_scheme \<Rightarrow> session \<Rightarrow> stamp \<Rightarrow> handoff_args
     \<Rightarrow> ('t, 'n, 'p, 'b, 'j, 'x, chat_outcome) command" where
  "create_handoff R S now args =
     tx_then (tx_result (session_me S)) (\<lambda>me.
     tx_then (tx_result (map_err OpInvalid (members_try_from (ha_readers args)))) (\<lambda>readers.
     tx_then (tx_result (map_err OpInvalid (metadata_new me (ha_recipient args) (ha_project args, ha_scope args) readers))) (\<lambda>metadata.
     tx_then (cmd_write R S (author R Ordinary (Handoff metadata (ha_text args) now))) (\<lambda>event.
     tx_then (tx_result (map_err OpInvalid (descriptor_new (ev_id event) metadata (ha_text args)))) (\<lambda>descriptor.
       tx_result (Inr (OutHandoffCreated descriptor)))))))"

definition handoffs ::
  "('t, 'n, 'p, 'b, 'j, 'z) store_lib_scheme \<Rightarrow> session \<Rightarrow> project \<times> scope \<Rightarrow> nat option
     \<Rightarrow> ('t, 'n, 'p, 'b, 'j, 'x, chat_outcome) command" where
  "handoffs R S context limit =
     tx_then (tx_result (session_me S)) (\<lambda>reader.
     let limit = (case limit of None \<Rightarrow> MAX_HANDOFFS | Some limit \<Rightarrow> limit) in
     if limit = 0 \<or> limit > MAX_HANDOFFS then tx_result (Inl (OpUsage ''handoff limit must be between 1 and 32''))
     else tx_then (cmd_read R S (\<lambda>db. discover R db reader context limit)) (\<lambda>descriptors.
       tx_result (Inr (OutHandoffMetadata reader descriptors))))"

definition read_handoff ::
  "('t, 'n, 'p, 'b, 'j, 'z) store_lib_scheme \<Rightarrow> session \<Rightarrow> descriptor \<Rightarrow> read_limit
     \<Rightarrow> ('t, 'n, 'p, 'b, 'j, 'x, chat_outcome) command" where
  "read_handoff R S selected limit =
     tx_then (tx_result (session_me S)) (\<lambda>reader.
     tx_then (cmd_read R S (\<lambda>db. handoff_read_body R db reader selected limit)) (\<lambda>body.
       tx_result (Inr (OutHandoffBody body))))"

definition observe_handoff ::
  "('t, 'n, 'p, 'b, 'j, 'z) store_lib_scheme \<Rightarrow> session \<Rightarrow> pending_observation \<Rightarrow> ('t, 'n, 'p, 'b, 'j, 'x, unit) command" where
  "observe_handoff R S pending =
     tx_then (tx_result (session_me S)) (\<lambda>me.
       if me \<noteq> obs_reader (po_observation pending)
       then tx_result (Inl (OpUsage ''the delivered handoff belongs to another acting identity''))
       else cmd_write R S (pending_commit R pending))"

end
