(* ===== verification/Chat_Work.thy ===== *)
theory Chat_Work
  imports Chat_Commands
begin

text \<open>
  The chat commands against the reference model: whatever commands are run on a machine, with whatever result, its
  tables represent a state the model can reach; and what a command writes, and to whom.
\<close>

section \<open>Transactions of the commands\<close>

lemma tx_then_steps:
  "tx_then (tx_read f) g s = (s', Inr b) \<longleftrightarrow> (\<exists>a. f s = Inr a \<and> g a s = (s', Inr b))"
  "tx_then (tx_result r) g s = (s', Inr b) \<longleftrightarrow> (\<exists>a. r = Inr a \<and> g a s = (s', Inr b))"
  by (auto simp: tx_then_Inr tx_read_def tx_result_def)


section \<open>The commands refine the model\<close>





section \<open>Whom a message reaches\<close>

definition participants ::
  "('t, 'n, 'p, 'b, 'j, 'z) store_lib_scheme \<Rightarrow> ('t, 'n, 'p, 'b) tables \<Rightarrow> conversation \<Rightarrow> agent_id list" where
  "participants R db conversation =
     (case conversation of
        Direct pair \<Rightarrow> [pair_first pair, pair_second pair]
      | InRoom room \<Rightarrow>
          (case view_room R db room of Inr (Some state) \<Rightarrow> members_agents (room_members state) | _ \<Rightarrow> []))"

lemma author_event:
  assumes "author R pr b t = (t', Inr e)"
  shows "ev_body e = b \<and> ev_origin e = tx_origin t \<and> thread_ok (ev_id e) b"
proof -
  have "append_event (lib_codec R) (store_ops R) t b = (t', Inr e)"
    using assms by (auto simp: author_def Let_def result_simps split: sum.splits prod.splits)
  then obtain i c where n: "next_local (store_ops R) t = Inr (i, c)" "event_new i c b = Inr e"
    unfolding append_event_Inr by blast
  moreover from n(1) have "event_origin i = tx_origin t" by (auto simp: next_local_Inr)
  ultimately show ?thesis by (auto simp: event_new_Inr ev_origin_def)
qed

lemma route_participants:
  assumes "route R db conversation me = Inr (audience, room)"
  shows "audience_of (participants R db conversation) = Inr audience \<and>
    (case conversation of Direct _ \<Rightarrow> room = None
     | InRoom _ \<Rightarrow> (\<exists>state. room = Some state \<and> participants R db conversation = members_agents (room_members state)) \<and>
         me \<in> set (participants R db conversation))"
  using assms
  by (auto simp: route_def participants_def result_simps check_member_def members_contains_def split: conversation.splits if_splits)

lemma notification_recipients:
  assumes "notification book place args = (Inr (Some n) :: ('j store_error, notice option) result)"
  shows "\<forall>r \<in> set (members_agents (n_recipients n)). check_recipient place r = (Inr () :: ('j store_error, unit) result)"
proof -
  from assms obtain recipients us where
    r: "traverse (check_recipient place) recipients = (Inr us :: ('j store_error, unit list) result)"
       "members_try_from (remdups_adj (sort recipients)) = Inr (n_recipients n)"
    by (auto simp: notification_def Let_def result_simps split: if_splits)
  have "set (members_agents (n_recipients n)) = set recipients" using r(2) by (auto simp: members_try_from_iff)
  moreover have "\<forall>x \<in> set recipients. check_recipient place x = (Inr () :: ('j store_error, unit) result)"
    using r(1) unfolding traverse_Inr by (auto simp: list_all2_conv_all_nth in_set_conv_nth)
  ultimately show ?thesis by simp
qed

lemma send_tx_confined:
  fixes R :: "('t, 'n, 'p, 'b, 'j, 'z) store_lib_scheme"
  assumes "send_tx R now book me conversation responder intent words args (tx_new db p) = (t, Inr event)" "agent_origin me = p"
  shows "\<exists>audience notice. ev_body event = Message conversation (agent_name me) words audience intent now notice \<and>
    ev_author event = Some me \<and> me \<in> set (participants R db conversation) \<and>
    (\<forall>q. audience_includes audience q \<longleftrightarrow> q \<in> agent_origin ` set (participants R db conversation)) \<and>
    (\<forall>n. notice = Some n \<longrightarrow> set (members_agents (n_recipients n)) \<subseteq> set (participants R db conversation) - {me})"
proof -
  from assms(1) obtain audience room notice where
    r: "route R db conversation me = Inr (audience, room)" and
    n: "notification book \<lparr>nr_conversation = conversation, nr_room = room, nr_me = me, nr_responder = responder\<rparr> args =
      (Inr notice :: ('j store_error, notice option) result)" and
    a: "author R Ordinary (message_body now conversation me audience words intent notice) (tx_new db p) = (t, Inr event)"
    unfolding send_tx_def by (auto simp del: tx_simps simp: tx_then_steps tx_new_def)
  note e = author_event [OF a]
  have event: "ev_body event = Message conversation (agent_name me) words audience intent now notice" "ev_author event = Some me"
    using e assms(2) by (cases me; simp add: message_body_def ev_author_def tx_new_def)+
  have "thread_ok (ev_id event) (message_body now conversation me audience words intent notice)" using e by blast
  then have "case conversation of Direct pair \<Rightarrow> pair_includes pair me | InRoom _ \<Rightarrow> True"
    using e assms(2) by (cases me) (auto simp: Let_def thread_ok_def message_body_def valid_thread_def tx_new_def ev_origin_def split: conversation.splits)
  then have me: "me \<in> set (participants R db conversation)"
    using route_participants [OF r] by (auto simp: participants_def pair_includes_def split: conversation.splits)
  have "set (members_agents (n_recipients k)) \<subseteq> set (participants R db conversation) - {me}" if "notice = Some k" for k
  proof
    fix x assume "x \<in> set (members_agents (n_recipients k))"
    then have "check_recipient \<lparr>nr_conversation = conversation, nr_room = room, nr_me = me, nr_responder = responder\<rparr> x =
        (Inr () :: ('j store_error, unit) result)"
      using notification_recipients n that by blast
    then show "x \<in> set (participants R db conversation) - {me}"
      using route_participants [OF r]
      by (cases conversation)
        (auto simp: check_recipient_def pair_includes_def check_member_def members_contains_def result_simps
          participants_def [of R db "Direct p" for p] split: if_splits option.splits)
  qed
  then show ?thesis using event me audience_of_includes route_participants [OF r] by (intro exI [of _ audience] exI [of _ notice]) blast
qed

lemma send_tx_responder:
  fixes R :: "('t, 'n, 'p, 'b, 'j, 'z) store_lib_scheme"
  assumes "send_tx R now book me conversation responder intent words args (tx_new db p) = (t, Inr event)" "responder = Some r"
    "\<And>pair. conversation = Direct pair \<Longrightarrow> pair_other pair me = Some r"
  shows "r \<in> set (participants R db conversation)"
proof (cases conversation)
  case (Direct pair)
  then show ?thesis using pair_other_includes [OF assms(3)] by (auto simp: participants_def pair_includes_def)
next
  case (InRoom room)
  from assms(1) obtain audience state where
    r: "route R db conversation me = Inr (audience, state)" and
    c: "(case (state, responder) of (Some room, Some responder) \<Rightarrow> map_err ErrRefused (check_member room responder) | _ \<Rightarrow> Inr ()) =
      (Inr () :: ('j store_error, unit) result)"
    unfolding send_tx_def by (auto simp del: tx_simps simp: tx_then_steps tx_new_def)
  from route_participants [OF r] InRoom obtain s where "state = Some s" "participants R db conversation = members_agents (room_members s)"
    by auto
  then show ?thesis using c assms(2) by (auto simp: check_member_def members_contains_def result_simps split: if_splits)
qed

lemma cmd_write_ok:
  assumes "cmd_write R S work db = (db', Inr a)"
  shows "\<exists>t. work (tx_new db (ses_origin S)) = (t, Inr a)"
  using assms by (auto simp: cmd_write_def store_write_def result_simps split: sum.splits prod.splits if_splits)

lemma ask_steps:
  fixes R :: "('t, 'n, 'p, 'b, 'j, 'z) store_lib_scheme"
  assumes "ask_post R S now ask db = (db', Inr event :: (('j, 'x) ops_error, event) result)" "ses_actor S = Some me"
  shows "\<exists>t book conversation responder chain words.
    send_tx R now book me conversation (Some responder) (Ask responder chain) words (aa_notification ask)
      (tx_new db (ses_origin S)) = (t, Inr event) \<and>
    delegation R S me db = (Inr chain :: (('j, 'x) ops_error, chain) result) \<and> check_ask me responder chain = Inr () \<and>
    (\<forall>pair. conversation = Direct pair \<longrightarrow> pair_other pair me = Some responder)"
proof -
  obtain book conversation responder chain words where
    run: "ask_responder book me conversation (aa_to ask) = (Inr responder :: (('j, 'x) ops_error, agent_id) result)"
      "delegation R S me db = (Inr chain :: (('j, 'x) ops_error, chain) result)" "check_ask me responder chain = Inr ()"
      "cmd_write R S (send_tx R now book me conversation (Some responder) (Ask responder chain) words (aa_notification ask)) db =
         (db', Inr event :: (('j, 'x) ops_error, event) result)"
    using assms by (auto simp: ask_post_def tx_then_steps session_me_def result_simps split: if_splits)
      (simp add: tx_result_def tx_read_def)
  have "pair_other pair me = Some responder" if "conversation = Direct pair" for pair
    using run(1) that by (auto simp: ask_responder_def result_simps split: option.splits)
  then show ?thesis using cmd_write_ok [OF run(4)] run(2,3) by blast
qed

lemma command_steps:
  fixes R :: "('t, 'n, 'p, 'b, 'j, 'z) store_lib_scheme"
  assumes "send_message R S now send db = (db', Inr (OutPosted event)) \<or>
      ask_post R S now ask db = (db', Inr event :: (('j, 'x) ops_error, event) result)"
    and "ses_actor S = Some me"
  shows "\<exists>t book conversation responder intent words args.
    send_tx R now book me conversation responder intent words args (tx_new db (ses_origin S)) = (t, Inr event) \<and>
    (intent = Send \<or> (\<exists>r c. responder = Some r \<and> intent = Ask r c \<and> check_ask me r c = Inr () \<and>
       (\<forall>pair. conversation = Direct pair \<longrightarrow> pair_other pair me = Some r)))"
  using assms(1)
proof
  assume "send_message R S now send db = (db', Inr (OutPosted event))"
  then show ?thesis using assms(2)
    by (auto simp: send_message_def tx_then_steps session_me_def tx_then_Inr [of "cmd_write _ _ _"] tx_result_def tx_read_def
        dest!: cmd_write_ok) blast
next
  assume "ask_post R S now ask db = (db', Inr event :: (('j, 'x) ops_error, event) result)"
  from ask_steps [OF this assms(2)] show ?thesis by blast
qed

text \<open>
  C5: A message or a question sent by a command is addressed to the participants of its conversation and to no one else:
  its author is the session's agent and takes part in the conversation (the members of a room as they are when it
  is written), the machines that receive it are exactly those of the participants, everyone it notifies is another
  participant, and so is the agent a question is put to, which is not waiting for this answer already.
\<close>

theorem messages_reach_participants:
  assumes "ses_actor S = Some me" "agent_origin me = ses_origin S"
    and "send_message R S now send db = (db', Inr (OutPosted event)) \<or> ask_post R S now ask db = (db', Inr event)"
  shows "\<exists>conversation words audience intent notice.
    ev_body event = Message conversation (agent_name me) words audience intent now notice \<and> ev_author event = Some me \<and>
    (let members = set (participants R db conversation) in
      me \<in> members \<and> (\<forall>q. audience_includes audience q \<longleftrightarrow> q \<in> agent_origin ` members) \<and>
      (\<forall>n. notice = Some n \<longrightarrow> set (members_agents (n_recipients n)) \<subseteq> members - {me}) \<and>
      (\<forall>r c. intent = Ask r c \<longrightarrow> r \<in> members \<and> me \<notin> set (chain_agents c) \<and> r \<notin> set (me # chain_agents c)))"
proof -
  obtain t book conversation responder intent words args where
    run: "send_tx R now book me conversation responder intent words args (tx_new db (ses_origin S)) = (t, Inr event)" and
    kind: "intent = Send \<or> (\<exists>r c. responder = Some r \<and> intent = Ask r c \<and> check_ask me r c = Inr () \<and>
       (\<forall>pair. conversation = Direct pair \<longrightarrow> pair_other pair me = Some r))"
    using command_steps [OF assms(3,1)] by blast
  have "r \<in> set (participants R db conversation) \<and> me \<notin> set (chain_agents c) \<and> r \<notin> set (me # chain_agents c)"
    if "intent = Ask r c" for r c
    using kind that send_tx_responder [OF run, of r] by (auto simp: check_ask_iff)
  then show ?thesis using send_tx_confined [OF run assms(2)] unfolding Let_def by blast
qed

subsection \<open>Alice asks Bob\<close>

text \<open>The library of the samples with a codec that writes every event.\<close>

definition say_lib where
  "say_lib = tree_lib\<lparr>lib_codec := \<lparr>codec_encode = (\<lambda>_. Some ''say''), codec_hash = (\<lambda>_. Digest (replicate 32 0))\<rparr>\<rparr>"

definition say_session :: session where
  "say_session = \<lparr>ses_origin = machine_a, ses_actor = Some alice, ses_turn = None\<rparr>"

definition say_ask :: ask_args where
  "say_ask =
     \<lparr>aa_target = conversation_to_string (Direct (DirectPair alice bob)), aa_text = ''ready?'', aa_to = None, aa_timeout = 60,
      aa_notification = \<lparr>na_mentions = [], na_urgent = False, na_subject = None, na_expected = None, na_fallback = None, na_after = 0\<rparr>\<rparr>"

definition say_body :: body where
  "say_body = Message (Direct (DirectPair alice bob)) (AgentName ''alice'') (Text ''ready?'') (Audience [machine_a, machine_b])
     (Ask bob (Chain [])) (Stamp 1) (Some \<lparr>n_recipients = Members [bob], n_urgent = False, n_subject = None, n_question = None\<rparr>)"

definition say_event :: event where
  "say_event = \<lparr>ev_id = EventId machine_a 1, ev_clock = 1, ev_body = say_body\<rparr>"

lemma say_redb: "redb_laws say_lib"
  using tree_redb by (simp add: redb_laws_def say_lib_def)

lemma say_tables:
  "text_rows say_lib (db_profiles (opened p)) = []" "text_rows say_lib (db_open (opened p)) = []"
  "text_rows say_lib (db_started (opened p)) = []" "text_rows say_lib (db_machines (opened p)) = []"
  "text_rows say_lib (db_rooms (opened p)) = []" "text_rows say_lib (db_peers (opened p)) = []"
  using no_rows [OF tree_redb] by (simp_all add: opened_def create_all_def say_lib_def Let_def)

lemma say_views:
  "view_directory say_lib (opened p) now = Inr \<lparr>dir_agents = [], dir_machines = []\<rparr>"
  "view_rooms say_lib (opened p) = Inr []" "peers say_lib machine_a (opened machine_a) = Inr []"
  "verify say_lib machine_a (opened machine_a) = Inr ()"
  using opened_rel(2) [OF wf_machines(1)]
  by (simp_all add: view_directory_def view_rooms_def open_asks_def parse_entries_def Store_Views.entries_def say_tables Let_def
      btree_collect_def peers_def store_read_def) (simp_all add: verify_def say_lib_def split: if_splits)

lemma say_numbers:
  "get_number say_lib (db_counters (opened p)) key = 0" "view_cursor say_lib (opened p) q = cursor_default"
  using sample_numbers [of p] by (simp_all add: get_number_def view_cursor_def say_lib_def)

lemma say_event_new: "event_new (EventId machine_a 1) 1 say_body = Inr say_event"
  by code_simp

definition say_sealed :: sealed where
  "say_sealed = \<lparr>sealed_event = say_event, sealed_encoded = ''say'', sealed_digest = Digest (replicate 32 0)\<rparr>"

lemma say_sealed_new: "sealed_new (lib_codec say_lib) say_event = Inr say_sealed"
  by (simp add: sealed_new_def say_lib_def say_sealed_def MAX_EVENT_BYTES_def)

lemma say_admit: "admit (store_ops say_lib) (sample_tx machine_a) say_sealed = Inr (Append ask_admitted)"
  by (simp add: admit_Append ask_admitted_def cursor_default_def change_def say_sealed_def say_event_def say_numbers ev_origin_def)
    (simp add: say_body_def)

lemma say_commit: "\<exists>t. store_commit say_lib (sample_tx machine_a) say_sealed ask_admitted = (t, Inr ())"
proof -
  have "\<exists>db'. record_event say_lib say_sealed (adm_cursor ask_admitted) (opened machine_a) = (db', Inr ())"
    by (rule record_event_total [OF say_redb])
      (simp_all add: say_sealed_def say_event_def say_numbers, simp_all add: handoff_record_def record_reply_def say_body_def)
  then show ?thesis
    by (auto simp: store_commit_def tx_then_def on_db_def Let_def tx_update_def project_change_def ask_admitted_def)
qed

lemma say_author: "\<exists>t. author say_lib Ordinary say_body (sample_tx machine_a) = (t, Inr say_event)"
proof -
  obtain t where t: "store_commit say_lib (sample_tx machine_a) say_sealed ask_admitted = (t, Inr ())"
    using say_commit by blast
  have "next_local (store_ops say_lib) (sample_tx machine_a) = Inr (EventId machine_a 1, 1)"
    by (simp add: next_local_Inr cursor_default_def word_less_nat_alt unat_max_word say_numbers)
  then have "append_event (lib_codec say_lib) (store_ops say_lib) (sample_tx machine_a) say_body = (t, Inr say_event)"
    unfolding append_event_Inr commit_Inr_True
    using say_event_new say_sealed_new say_admit t by (intro exI conjI) auto
  then show ?thesis
    by (simp add: author_def view_usage_def say_numbers check_capacity_def below_def ORDINARY_LIMIT_def word_less_nat_alt)
qed

lemma say_route: "route R db (Direct (DirectPair alice bob)) alice = Inr (Audience [machine_a, machine_b], None)"
proof -
  have "audience_of [alice, bob] = Inr (Audience [machine_a, machine_b])" by code_simp
  then show ?thesis by (simp add: route_def)
qed

lemma say_notice:
  "notification book \<lparr>nr_conversation = Direct (DirectPair alice bob), nr_room = None, nr_me = alice, nr_responder = Some bob\<rparr>
     (aa_notification say_ask) =
   (Inr (Some \<lparr>n_recipients = Members [bob], n_urgent = False, n_subject = None, n_question = None\<rparr>) :: (unit store_error, notice option) result)"
  by code_simp

lemma say_send:
  "\<exists>t. send_tx say_lib (Stamp 1) book alice (Direct (DirectPair alice bob)) (Some bob) (Ask bob (Chain [])) (Text ''ready?'')
     (aa_notification say_ask) (sample_tx machine_a) = (t, Inr say_event)"
proof -
  have "agent_name alice = AgentName ''alice''" by (simp add: alice_def)
  then show ?thesis
    using say_author by (simp add: send_tx_def tx_then_steps say_route say_notice message_body_def flip: say_body_def)
qed

lemma say_conversation: "book_conversation book alice (aa_target say_ask) = Inr (Direct (DirectPair alice bob))"
proof -
  have "conversation_try_from (conversation_to_string (Direct (DirectPair alice bob))) = Inr (Direct (DirectPair alice bob))"
    by code_simp
  then show ?thesis by (simp add: book_conversation_def say_ask_def)
qed

lemma say_book:
  "\<exists>book. session_book say_lib say_session (Stamp 1) (opened machine_a) = (Inr book :: ((unit, unit) ops_error, book) result)"
  by (simp add: session_book_def say_session_def say_views store_read_def)

lemma say_facts:
  "session_me say_session = (Inr alice :: ((unit, unit) ops_error, agent_id) result)"
  "delegation say_lib say_session alice (opened machine_a) = (Inr (Chain []) :: ((unit, unit) ops_error, chain) result)"
  by (simp_all add: session_me_def delegation_def say_session_def)

lemma say_checks:
  "pair_other (DirectPair alice bob) alice = Some bob" "check_ask alice bob (Chain []) = Inr ()"
  by code_simp+

lemma say_text: "text_try_from ''ready?'' = Inr (Text ''ready?'')"
proof -
  have "trim ''ready?'' \<noteq> []" by code_simp
  then show ?thesis by (simp add: text_try_from_def MAX_TEXT_def check_def)
qed

lemma say_args: "aa_text say_ask = ''ready?''" "\<not> MAX_WAIT_SECONDS < aa_timeout say_ask" "aa_to say_ask = None"
  by (simp_all add: say_ask_def MAX_WAIT_SECONDS_def)

lemma say_responder:
  "ask_responder book alice (Direct (DirectPair alice bob)) (aa_to say_ask) = (Inr bob :: ((unit, unit) ops_error, agent_id) result)"
  by (simp add: ask_responder_def say_checks say_args)

lemma say_write:
  "\<exists>db'. cmd_write say_lib say_session (send_tx say_lib (Stamp 1) book alice (Direct (DirectPair alice bob)) (Some bob)
     (Ask bob (Chain [])) (Text ''ready?'') (aa_notification say_ask)) (opened machine_a) =
     (db', Inr say_event :: ((unit, unit) ops_error, event) result)"
proof -
  have o: "ses_origin say_session = machine_a" by (simp add: say_session_def)
  obtain t where "send_tx say_lib (Stamp 1) book alice (Direct (DirectPair alice bob)) (Some bob) (Ask bob (Chain [])) (Text ''ready?'')
     (aa_notification say_ask) (sample_tx machine_a) = (t, Inr say_event)" using say_send by blast
  then show ?thesis by (simp add: cmd_write_def store_write_def o say_views)
qed

lemma say_posted:
  "\<exists>db'. ask_post say_lib say_session (Stamp 1) say_ask (opened machine_a) = (db', Inr say_event :: ((unit, unit) ops_error, event) result)"
proof -
  obtain book where "session_book say_lib say_session (Stamp 1) (opened machine_a) = (Inr book :: ((unit, unit) ops_error, book) result)"
    using say_book by blast
  then show ?thesis
    unfolding ask_post_def if_not_P [OF say_args(2)] tx_then_steps
    by (simp only: say_facts say_args(1) say_checks say_text say_responder say_conversation say_write map_err.simps sum.inject ex_simps simp_thms)
qed

theorem messages_reach_participants_witness:
  "\<exists>conversation words audience intent notice.
     ev_body say_event = Message conversation (agent_name alice) words audience intent (Stamp 1) notice \<and>
     alice \<in> set (participants say_lib (opened machine_a) conversation) \<and>
     audience_includes audience machine_a"
proof -
  obtain db' where "ask_post say_lib say_session (Stamp 1) say_ask (opened machine_a) =
      (db', Inr say_event :: ((unit, unit) ops_error, event) result)"
    using say_posted by blast
  then have run: "send_message say_lib say_session (Stamp 1) \<lparr>sa_target = [], sa_text = [], sa_notification = aa_notification say_ask\<rparr> (opened machine_a) =
      (db', Inr (OutPosted say_event) :: ((unit, unit) ops_error, chat_outcome) result) \<or>
    ask_post say_lib say_session (Stamp 1) say_ask (opened machine_a) =
      (db', Inr say_event :: ((unit, unit) ops_error, event) result)" by blast
  have "ses_actor say_session = Some alice" "agent_origin alice = ses_origin say_session"
    by (simp_all add: say_session_def alice_def)
  moreover have agent_origin_alice: "agent_origin alice = machine_a" by (simp add: alice_def)
  ultimately show ?thesis using messages_reach_participants [OF _ _ run]
    unfolding Let_def by (metis agent_origin_alice image_eqI)
qed

section \<open>Nested questions\<close>





end
