(* ===== verification/Spec2Isabelle.thy ===== *)
theory Spec2Isabelle
  imports Chat_Guarantees Chat_Values Chat_Policy Job_Wire Service Resource_Policy Source_Paths Dashboard
    Terminal_Decoder Hook_Clients Jsonc_Edit Store_Guarantees Store_Clean Chat_Address Chat_Provider
    Chat_Hook Chat_Sync Chat_Observer Chat_View Chat_Commands Chat_Work
begin

text \<open>
  domyjob runs persistent jobs on machines reached over SSH and carries a chat between the agents that work
  on them. The program's own logic is the crate \<open>crates/domyjob-core/src\<close>, a library without input or output
  that the executable (\<open>crates/domyjob/src\<close>) drives; this development models that library, file by file,
  proves the properties the executable relies on, and follows the chat into the executable: its store on disk, its
  commands and what they print. In the list below a file is relative to \<open>crates/domyjob-core/src\<close>, but for the chat
  store and the chat of the executable, which are relative to \<open>crates/domyjob/src\<close>.

  \<^bold>\<open>The parts and their theories.\<close>

  \<^item> \<open>Prelude\<close>, \<open>Rust_Str\<close>: what the code uses of the language: \<open>Result\<close> as a sum with \<open>and_then\<close> for the question
    mark, checked and saturating arithmetic at each width, binary search; strings as their UTF-8 bytes, with
    scalars, trimming, splitting, decimal and hexadecimal text.
  \<^item> Chat values (\<open>chat/id.rs\<close>, \<open>chat/card.rs\<close>, \<open>chat/notification.rs\<close>, \<open>chat/handoff.rs\<close> and its parts,
    \<open>chat/event.rs\<close>, \<open>chat/policy.rs\<close>, \<open>chat_wire.rs\<close>) are \<open>Chat_Id\<close>, \<open>Chat_Card\<close>, \<open>Chat_Notification\<close>,
    \<open>Chat_Handoff\<close>, \<open>Chat_Agents\<close>, \<open>Chat_Event\<close>, \<open>Chat_Policy\<close>, \<open>Chat_Wire\<close>; the theorems that join them are in
    \<open>Chat_Values\<close>. A validated newtype of the code is a \<open>datatype\<close> with one constructor, its \<open>try_from\<close> the
    function that builds it, and \<open>wf_\<close> predicates say what \<open>try_from\<close> accepts.
  \<^item> The ledger (\<open>chat/ledger.rs\<close>) is \<open>Chat_Ledger\<close>: the trait is a record of operations and the locale \<open>ledger\<close>
    states its contract. The in-memory ledger (\<open>chat/model.rs\<close>), the reference implementation the database store is
    tested against, is \<open>Chat_Model\<close>, and interprets the locale. \<open>Chat_Views\<close> and \<open>Chat_Change\<close> say what each
    view of the model is as a function of the log, \<open>Chat_History\<close> that every reachable model is of this form,
    \<open>Chat_Convergence\<close> that the views do not depend on the order of arrival.
  \<^item> The exchange (\<open>chat/exchange.rs\<close>) is \<open>Chat_Exchange\<close>. \<open>Chat_Network\<close> is a step relation of any number of
    machines that write, offer, answer and accept in any order, with packets kept, repeated and lost;
    \<open>Chat_Delivery\<close> follows one direction of it; the guarantees of the whole are in \<open>Chat_Guarantees\<close>, over the
    machines and events of \<open>Chat_Samples\<close> in the witnesses.
  \<^item> The chat store (\<open>chat/store.rs\<close> and \<open>chat/store/\<close> of \<open>crates/domyjob/src\<close>): the tables and their keys are
    \<open>Store_Tables\<close>, what is read from them \<open>Store_Views\<close>, recording an event, the transaction as a ledger and an
    outbox, and opening, reading and writing the store \<open>Store_Tx\<close>; turns, receipts and escalations are
    \<open>Store_Ops\<close>; handoffs, peers, cleaning and settings \<open>Store_Admin\<close>. A transaction is the record \<open>tx\<close> of its tables,
    a method on it a function from \<open>tx\<close> to \<open>tx\<close> and a result, and \<open>tx_then\<close> the question mark. \<open>Chat_Simulation\<close>
    states with the locales \<open>ledger_sim\<close> and \<open>outbox_sim\<close> when one ledger implements another; \<open>Store_Refine\<close> shows it of
    the store and the model, \<open>Store_Steps\<close> of every operation; the theorems are in \<open>Store_Guarantees\<close> and
    \<open>Store_Clean\<close>, with the red-black trees of \<open>Store_Samples\<close> as the database of the witnesses.
  \<^item> The chat of the executable. The address book that turns texts into agents, machines and rooms (\<open>chat/address.rs\<close>)
    is \<open>Chat_Address\<close>; the command lines of the AI clients and the reading of their output (\<open>chat/provider.rs\<close>,
    \<open>process/chat.rs\<close>) \<open>Chat_Provider\<close>; the lifecycle hooks (\<open>chat/hook.rs\<close>) \<open>Chat_Hook\<close>; the exchange with the pinned
    peers and its report (\<open>chat/sync.rs\<close>) \<open>Chat_Sync\<close>; the read-only snapshot of the dashboard
    (\<open>chat/store/observer.rs\<close>) \<open>Chat_Observer\<close>; the outcomes of commands and their text (\<open>chat/view.rs\<close>) \<open>Chat_View\<close>; the
    commands of a session (\<open>chat/ops.rs\<close>, \<open>chat/ops/reads.rs\<close>, \<open>chat/ops/handoff.rs\<close>) \<open>Chat_Commands\<close>. A command is a
    function from the tables to new tables and a result, composed of transactions (\<open>cmd_write\<close>) and reads
    (\<open>cmd_read\<close>); \<open>Chat_Work\<close> is the step relation of a machine whose sessions run any commands.
  \<^item> Jobs: \<open>state.rs\<close>, \<open>job_protocol.rs\<close>, \<open>worker_handoff.rs\<close>, \<open>process_group.rs\<close> are \<open>Job_State\<close>, \<open>domain.rs\<close> is
    \<open>Job_Domain\<close>, the framed control protocol \<open>wire.rs\<close> and \<open>ingress.rs\<close> is \<open>Job_Wire\<close>, \<open>service.rs\<close> is \<open>Service\<close>,
    \<open>resource_policy.rs\<close>, \<open>resource_budget.rs\<close> and \<open>capture_policy.rs\<close> are \<open>Resource_Policy\<close>, \<open>source_paths.rs\<close> with
    its parts is \<open>Source_Paths\<close>.
  \<^item> Clients and terminal: \<open>hook_clients.rs\<close> and \<open>mcp_clients.rs\<close> are \<open>Hook_Clients\<close>; \<open>terminal_input.rs\<close> and its parts
    are \<open>Terminal_Input\<close>, with the arithmetic of bytes in \<open>Terminal_Bytes\<close> and the theorems in \<open>Terminal_Decoder\<close>;
    \<open>dashboard.rs\<close> and \<open>dashboard/geometry.rs\<close> are \<open>Dashboard\<close>; \<open>jsonc.rs\<close>, the editor of JSON with comments, is
    \<open>Jsonc\<close>, with documents as trees in \<open>Jsonc_Tree\<close> and the theorems in \<open>Jsonc_Edit\<close>.

  \<^bold>\<open>What the theorems show.\<close> Of the chat network: a body leaves its machine only for machines of its audience, an
  event is held only as its author wrote it, no author is held with two histories, acknowledgments never run
  ahead of what the peer holds, machines that hold the same events agree on every view and on the winner of every
  resolution, and a fair exchange delivers everything. Of the store: after any operations but cleaning its tables
  represent a reachable state of the model, a write makes the event the model makes, an exchange offers, answers and
  accepts as the model does (or stops where the storage limit is reached), and cleaning a conversation keeps the digests
  and counters of its history and the decision about every event that refers to no cleaned one. Of the commands:
  whatever is run, with whatever result, the tables still represent a reachable state of the model; agents that ask
  each other in turn never wait in a circle; a message or
  question goes to the participants of its conversation and their machines only; the dashboard shows one agent's
  own conversation; what is printed cannot drive the terminal; a hook stays within its byte budget; a label that is
  shown names the agent it stands for; the report of a synchronization lists every pinned peer but those that the last
  pass allowed deferred once more; the answer of an AI client is read exactly. Of jobs: an outcome is recorded once, comes from the event
  that caused it, and the stored states refine the client protocol. Of the values: parsers accept exactly what the
  printers print; handoffs are read only through the gate and recorded only for their reader; paths stay below their
  root; text shown on a terminal cannot drive it. Of the frames, escapes, quotations and key reports: what is sent
  is what arrives. Of the tracked path list: the accepted lists and the error of every refused one. Of the hooks:
  a merge keeps what belongs to the user and is idempotent. Of the JSON editor: setting a member ends on every
  document, and replaces exactly the value at the path. Of the dashboard: refreshes are accepted in order and
  areas partition the screen.

  \<^bold>\<open>Bounds.\<close> Every loop is a terminating function, so no fuel is needed anywhere. Machine integers are words of their
  width; \<open>usize\<close> is a natural number with the bound \<open>usize_max\<close> of a 64-bit target and explicit checks or
  saturation where the code has them. Limits of the source (\<open>MAX_BATCH\<close>, \<open>MAX_CONTROL_BYTES\<close> and so on) are
  definitions of the same names.

  \<^bold>\<open>Parameters.\<close> JSON encoding and BLAKE3 belong to libraries: the record \<open>codec\<close> of \<open>Chat_Event\<close>, the functions
  \<open>from_slice\<close> and \<open>to_vec\<close> of \<open>Job_Wire\<close>, the records \<open>json_api\<close> of \<open>Hook_Clients\<close> and \<open>jsonc_api\<close> of \<open>Jsonc\<close> stand for them, with the
  laws used stated as hypotheses and witnessed by concrete instances. The embedded database is the record \<open>redb\<close> of
  \<open>Store_Tables\<close> with the laws of ordered maps (\<open>redb_laws\<close>), part of the record \<open>store_lib\<close> with the codecs of the stored
  records (\<open>store_laws\<close>); the platform's clock and fresh identities are arguments. The channel to a peer is the record
  \<open>sync_env\<close> of \<open>Chat_Sync\<close>, opening a store beside its owner the record \<open>observed\<close> of \<open>Chat_Observer\<close>, the file system
  and Unicode lower case that the commands ask for the record \<open>ops_env\<close> of \<open>Chat_Commands\<close>, and the JSON of a handoff
  in a text the record \<open>handoff_json\<close> of \<open>Chat_View\<close>.

  \<^bold>\<open>Not modelled.\<close> Of the chat store: files, locks, the pulse file and the compaction of the database. Of the
  commands: opening a session and refreshing it before a command, the loop that waits for the answer of a question
  (it polls a clock, the pulse file and the peers), and the JSON of outcomes. The runner, the chat service, the
  command line and the set-up (\<open>chat/runner.rs\<close>, \<open>chat/serve.rs\<close>, \<open>chat/cli.rs\<close>, \<open>chat/setup.rs\<close>), the job store and its
  application, processes, SSH transport, file system state, platform calls, drawing, and the MCP plumbing are input
  and output around what is modelled; the build tasks (\<open>xtask\<close>) are development tools.
\<close>

section \<open>Handoffs, from the gate to the ledger\<close>

text \<open>
  C16: A handoff that was read can be recorded everywhere it is known: on a machine that holds the
  handoff, the observation of a permitted reader, written by that reader's machine after the handoff, is
  accepted by the ledger as the record that this reader has read it.
\<close>

theorem permitted_read_recorded:
  assumes "history_ok m" "held_at (m_events m) i = Some h" "ev_body h = Handoff md t st"
    and "descriptor_new i md t = Inr d" "descriptor_authorize d reader d limit = Inr p"
    and "ev_body e = HandoffRead (permit_observation p) (md_audience md)"
    and "ev_origin e = agent_origin reader" "ev_clock h < ev_clock e"
  shows "change (model_ops C) m e = Inr (ChHandoffRead i reader)"
proof -
  have h: "model_parent m i = Present h" using assms(2,3) by (simp add: model_parent_iff)
  have idh: "ev_id h = i" by (rule held_at_id [OF history_log_keys [OF assms(1)] assms(2)])
  have p: "p = \<lparr>permit_descriptor = d, permit_reader = reader\<rparr>" "reader_grant d reader = Named"
    using assms(5) by (auto simp: descriptor_authorize_def result_simps read_decision_Inr)
  have d: "desc_id d = i" "desc_metadata d = md" using assms(4) by (auto simp: descriptor_new_iff)
  have author: "ev_author e = Some reader"
    using assms(6,7) p by (cases reader) (simp add: ev_author_def permit_observation_def)
  show ?thesis
    using assms(3,4,6,8) h idh p d author
    by (simp add: change_def handoff_read_def checked_parent_model [OF history_log_keys [OF assms(1)]]
        admit_observation_def observation_decision_def permit_observation_def)
qed

definition plan_metadata :: metadata where
  "plan_metadata =
     \<lparr>md_sender = alice, md_intended_recipient = AgentTarget bob, md_project = Project (Line ''p''),
      md_scope = Scope (Line ''s''), md_permitted_readers = Members [bob],
      md_audience = Audience [machine_a, machine_b]\<rparr>"

definition plan_event :: event where
  "plan_event =
     \<lparr>ev_id = EventId machine_a 1, ev_clock = 1, ev_body = Handoff plan_metadata (Text ''plan'') (Stamp 1)\<rparr>"

theorem permitted_read_recorded_witness:
  "\<exists>m d p. held_at (m_events m) (EventId machine_a 1) = Some plan_event \<and>
     descriptor_new (EventId machine_a 1) plan_metadata (Text ''plan'') = Inr d \<and>
     descriptor_authorize d bob d (ReadLimit 10) = Inr p \<and>
     change (model_ops sample_codec) m
       \<lparr>ev_id = EventId machine_b 1, ev_clock = 2,
        ev_body = HandoffRead (permit_observation p) (md_audience plan_metadata)\<rparr> =
     Inr (ChHandoffRead (EventId machine_a 1) bob)"
proof -
  let ?s = "\<lparr>sealed_event = plan_event, sealed_encoded = [], sealed_digest = Digest []\<rparr>"
  let ?a = "\<lparr>adm_cursor = \<lparr>cur_seen = 1, cur_clock = 1\<rparr>, adm_change = ChNothing\<rparr>"
  let ?m = "model_commit (model_new machine_b) ?s ?a"
  have adm: "admit (model_ops sample_codec) (model_new machine_b) ?s = Inr (Append ?a)"
    by (simp add: admit_Append sample_cursor cursor_default_def plan_event_def change_def)
  have hist: "history_ok ?m" by (rule history_commit [OF history_new adm])
  have held: "held_at (m_events ?m) (EventId machine_a 1) = Some plan_event"
    by (simp add: held_at_def plan_event_def)
  have body: "ev_body plan_event = Handoff plan_metadata (Text ''plan'') (Stamp 1)"
    by (simp add: plan_event_def)
  obtain d where d: "descriptor_new (EventId machine_a 1) plan_metadata (Text ''plan'') = Inr d"
    by (simp add: descriptor_new_def read_limit_try_from_def descriptor_try_from_def MAX_BODY_BYTES_def
        MAX_TEXT_def plan_metadata_def alice_def)
  obtain p where p: "descriptor_authorize d bob d (ReadLimit 10) = Inr p"
    using d by (simp add: descriptor_authorize_def read_decision_def descriptor_new_iff reader_grant_def
        members_contains_def MAX_BODY_BYTES_def MAX_TEXT_def plan_metadata_def)
  from permitted_read_recorded [OF hist held body d p,
      of "\<lparr>ev_id = EventId machine_b 1, ev_clock = 2,
        ev_body = HandoffRead (permit_observation p) (md_audience plan_metadata)\<rparr>" sample_codec]
  have "change (model_ops sample_codec) ?m
       \<lparr>ev_id = EventId machine_b 1, ev_clock = 2,
        ev_body = HandoffRead (permit_observation p) (md_audience plan_metadata)\<rparr> =
     Inr (ChHandoffRead (EventId machine_a 1) bob)"
    by (simp add: bob_def ev_origin_def plan_event_def word_less_nat_alt)
  with held d p show ?thesis by blast
qed

end
